(* ===== verification/Prelude.thy ===== *)
theory Prelude
  imports Main "HOL-Library.Word" "HOL-Library.AList" "HOL-Library.Monad_Syntax"
begin

text \<open>
  Shared vocabulary of the development. It fixes how the Go types of oldxr are read in HOL
  (machine integers as words, maps that are iterated as association lists, maps that are only
  looked up as partial functions, error results as sums), and collects the generic facts
  about lists, association lists and integers that the component theories use.
\<close>

unbundle bit_operations_syntax

section \<open>Go types\<close>

text \<open>
  \<open>uint64\<close>, \<open>uint32\<close>, \<open>uint16\<close> are words read with \<open>unat\<close>. \<open>int64\<close> is a 64-bit word read with
  \<open>sint\<close> where the code does arithmetic on it (traffic counters wrap around). Go's \<open>int\<close> is
  \<open>int\<close> where it is only compared, stored, printed and parsed (user, rule and node ids); the
  two places that parse one check the 64-bit range explicitly.
\<close>

type_synonym uint64 = "64 word"
type_synonym uint32 = "32 word"
type_synonym uint16 = "16 word"
type_synonym uint8 = "8 word"
type_synonym int64 = "64 word"

text \<open>
  A Go map or \<open>sync.Map\<close> that the code ranges over. The order of the list is the order one
  particular iteration takes; Go leaves it open, so no property below depends on it.
\<close>

type_synonym ('k, 'v) gomap = "('k \<times> 'v) list"

abbreviation load :: "('k, 'v) gomap \<Rightarrow> 'k \<Rightarrow> 'v option" where
  "load m k \<equiv> map_of m k"

abbreviation store :: "'k \<Rightarrow> 'v \<Rightarrow> ('k, 'v) gomap \<Rightarrow> ('k, 'v) gomap" where
  "store k v m \<equiv> AList.update k v m"

abbreviation del :: "'k \<Rightarrow> ('k, 'v) gomap \<Rightarrow> ('k, 'v) gomap" where
  "del k m \<equiv> AList.delete k m"

abbreviation keys :: "('k, 'v) gomap \<Rightarrow> 'k list" where
  "keys m \<equiv> map fst m"

definition wf_map :: "('k, 'v) gomap \<Rightarrow> bool" where
  "wf_map m \<longleftrightarrow> distinct (keys m)"

text \<open>Errors: the Go \<open>error\<close> value carries its message.\<close>

datatype go_error = Error string

type_synonym 'a result = "go_error + 'a"

section \<open>Collections of facts\<close>

named_theorems gomap_simps \<open>rewriting of lookups, stores and deletes on Go maps\<close>
named_theorems wf_intros \<open>every operation keeps the well-formedness of its component\<close>

section \<open>Association lists\<close>

lemma wf_map_Nil [simp, wf_intros]: "wf_map []"
  by (simp add: wf_map_def)

lemma wf_map_store [simp, wf_intros]: "wf_map m \<Longrightarrow> wf_map (store k v m)"
  by (simp add: wf_map_def distinct_update)

lemma wf_map_del [simp, wf_intros]: "wf_map m \<Longrightarrow> wf_map (del k m)"
  by (simp add: wf_map_def distinct_delete)

lemma load_store [simp, gomap_simps]: "load (store k v m) x = (if x = k then Some v else load m x)"
  by (simp add: update_conv')

lemma load_del [simp, gomap_simps]: "load (del k m) x = (if x = k then None else load m x)"
  by (simp add: delete_conv')

lemma load_keys: "load m k \<noteq> None \<longleftrightarrow> k \<in> set (keys m)"
  by (induction m) auto

lemma load_None_keys: "load m k = None \<longleftrightarrow> k \<notin> set (keys m)"
  by (simp add: map_of_eq_None_iff)

lemma set_keys_store [simp, gomap_simps]: "fst ` set (store k v m) = insert k (fst ` set m)"
  by (induction m) auto

lemma set_keys_del [simp, gomap_simps]: "fst ` set (del k m) = fst ` set m - {k}"
  by (induction m) auto

lemma load_Some_key: "load m k = Some v \<Longrightarrow> insert k (fst ` set m) = fst ` set m"
  by (metis insert_absorb load_keys list.set_map option.distinct(1))

lemma length_store:
  "length (store k v m) = (if k \<in> set (keys m) then length m else Suc (length m))"
  by (induction m) auto

lemma length_wf_map: "wf_map m \<Longrightarrow> length m = card (set (keys m))"
  unfolding wf_map_def by (metis distinct_card length_map)

lemma wf_map_load_iff: "wf_map m \<Longrightarrow> (k, v) \<in> set m \<longleftrightarrow> load m k = Some v"
  by (simp add: wf_map_def)

lemma wf_map_Cons [simp]: "wf_map ((k, v) # m) \<longleftrightarrow> k \<notin> set (keys m) \<and> wf_map m"
  by (simp add: wf_map_def)

section \<open>Lists\<close>

text \<open>A loop that appends one value per element is a \<open>map\<close>; one that may skip is a filter.\<close>

lemma foldl_append_map: "foldl (\<lambda>acc x. acc @ [f x]) acc xs = acc @ map f xs"
  by (induction xs arbitrary: acc) auto

lemma foldl_append_concat: "foldl (\<lambda>acc x. acc @ f x) acc xs = acc @ concat (map f xs)"
  by (induction xs arbitrary: acc) auto

lemma foldl_invariant:
  "I s \<Longrightarrow> (\<And>s x. x \<in> set xs \<Longrightarrow> I s \<Longrightarrow> I (f s x)) \<Longrightarrow> I (foldl f s xs)"
  by (induction xs arbitrary: s) auto

text \<open>A fold of map updates: the last binding of a key wins.\<close>

lemma foldl_upd_map_of:
  "foldl (\<lambda>m x. m(f x \<mapsto> g x)) m xs k =
     (case map_of (rev (map (\<lambda>x. (f x, g x)) xs)) k of None \<Rightarrow> m k | Some v \<Rightarrow> Some v)"
proof (induction xs arbitrary: m)
  case Nil
  then show ?case by simp
next
  case (Cons x xs)
  then show ?case by (simp add: map_add_def split: option.splits)
qed

lemma foldl_upd_notin:
  "k \<notin> f ` set xs \<Longrightarrow> foldl (\<lambda>m x. m(f x \<mapsto> g x)) m xs k = m k"
  by (induction xs arbitrary: m) auto

lemma foldl_upd_in:
  "x \<in> set xs \<Longrightarrow> inj_on f (set xs) \<Longrightarrow>
   foldl (\<lambda>m x. m(f x \<mapsto> g x)) m xs (f x) = Some (g x)"
proof (induction xs arbitrary: m)
  case Nil
  then show ?case by simp
next
  case (Cons y ys)
  show ?case
  proof (cases "x \<in> set ys")
    case True
    with Cons show ?thesis by simp
  next
    case False
    with Cons.prems have "x = y" by simp
    moreover from False Cons.prems have "f x \<notin> f ` set ys"
      by (auto simp: inj_on_def)
    ultimately show ?thesis by (simp add: foldl_upd_notin del: fun_upd_apply) simp
  qed
qed

lemma foldl_clear:
  "foldl (\<lambda>m x. m(f x := None)) m xs k = (if k \<in> f ` set xs then None else m k)"
  by (induction xs arbitrary: m) auto

text \<open>Deleting while ranging over a map.\<close>

lemma load_foldl_del_if:
  "load (foldl (\<lambda>h k. if P k then del k h else h) m ks) e =
     (if e \<in> set ks \<and> P e then None else load m e)"
  by (induction ks arbitrary: m) auto

lemma wf_map_foldl_del_if [wf_intros]:
  "wf_map m \<Longrightarrow> wf_map (foldl (\<lambda>h k. if P k then del k h else h) m ks)"
  by (induction ks arbitrary: m) auto

lemma load_foldl_del: "load (foldl (\<lambda>h x. del (f x) h) m xs) e = (if e \<in> f ` set xs then None else load m e)"
  by (induction xs arbitrary: m) auto

lemma foldl_del_all: "foldl (\<lambda>h x. del (fst x) h) m m = []"
proof -
  have "load (foldl (\<lambda>h x. del (fst x) h) m m) e = None" for e
    by (auto simp: load_foldl_del map_of_eq_None_iff)
  then show ?thesis by (metis load_None_keys list.set_intros(1) list.map_disc_iff neq_Nil_conv)
qed

section \<open>Integers\<close>

definition int_min :: int where "int_min = - (2 ^ 63)"
definition int_max :: int where "int_max = 2 ^ 63 - 1"

definition in_int :: "int \<Rightarrow> bool" where
  "in_int i \<longleftrightarrow> int_min \<le> i \<and> i \<le> int_max"

text \<open>Go's integer division truncates towards zero.\<close>

definition go_div :: "int \<Rightarrow> int \<Rightarrow> int" where
  "go_div a b = sgn a * sgn b * (\<bar>a\<bar> div \<bar>b\<bar>)"

lemma go_div_nonneg: "0 \<le> a \<Longrightarrow> 0 < b \<Longrightarrow> go_div a b = a div b"
  by (cases "a = 0") (auto simp: go_div_def)

lemma sint_in_int [simp]: "in_int (sint (w :: int64))"
  using sint_range_size [of w] by (simp add: in_int_def int_min_def int_max_def word_size)

lemma sint_of_int_in_int: "in_int i \<Longrightarrow> sint (word_of_int i :: int64) = i"
  by (simp add: in_int_def int_min_def int_max_def sint_word_ariths signed_take_bit_int_eq_self
      sint_sbintrunc')

end
