(* ===== verification/Go_Strings.thy ===== *)
theory Go_Strings
  imports Prelude
begin

text \<open>
  The parts of Go's \<open>strconv\<close> and \<open>strings\<close> packages that the sources call, on byte strings:
  decimal printing and parsing of \<open>int\<close> with the 64-bit range check, the last index of a byte,
  replacement of the first occurrence, prefixes, splitting and joining. \<open>ToLower\<close> is the ASCII
  part of Go's function; the sources apply it to cipher, protocol and node type names.
\<close>

section \<open>Decimal integers\<close>

definition digit_char :: "nat \<Rightarrow> char" where
  "digit_char d = char_of (48 + d)"

definition digit_val :: "char \<Rightarrow> nat option" where
  "digit_val c = (let n = of_char c :: nat in if 48 \<le> n \<and> n \<le> 57 then Some (n - 48) else None)"

fun nat_digits :: "nat \<Rightarrow> string" where
  "nat_digits n = (if n < 10 then [digit_char n] else nat_digits (n div 10) @ [digit_char (n mod 10)])"

declare nat_digits.simps [simp del]

definition Itoa :: "int \<Rightarrow> string" where
  "Itoa i = (if i < 0 then CHR ''-'' # nat_digits (nat (- i)) else nat_digits (nat i))"

fun parse_digits :: "nat \<Rightarrow> string \<Rightarrow> nat option" where
  "parse_digits acc [] = Some acc"
| "parse_digits acc (c # cs) =
     (case digit_val c of None \<Rightarrow> None | Some d \<Rightarrow> parse_digits (10 * acc + d) cs)"

definition parse_sign :: "string \<Rightarrow> bool \<times> string" where
  "parse_sign s =
     (case s of
        [] \<Rightarrow> (False, [])
      | c # cs \<Rightarrow> if c = CHR ''-'' then (True, cs) else if c = CHR ''+'' then (False, cs) else (False, s))"

text \<open>\<open>strconv.ParseInt(s, 10, bits)\<close>: an optional sign, at least one digit, and the value in range.\<close>

definition ParseInt :: "string \<Rightarrow> nat \<Rightarrow> int result" where
  "ParseInt s bits =
     (let (neg, ds) = parse_sign s in
      if ds = [] then Inl (Error ''invalid syntax'')
      else case parse_digits 0 ds of
        None \<Rightarrow> Inl (Error ''invalid syntax'')
      | Some n \<Rightarrow>
          (let i = (if neg then - int n else int n) in
           if - (2 ^ (bits - 1)) \<le> i \<and> i \<le> 2 ^ (bits - 1) - 1 then Inr i
           else Inl (Error ''value out of range'')))"

definition Atoi :: "string \<Rightarrow> int result" where
  "Atoi s = ParseInt s 64"

section \<open>Substrings\<close>

fun LastIndexByte :: "string \<Rightarrow> char \<Rightarrow> int" where
  "LastIndexByte [] c = - 1"
| "LastIndexByte (x # xs) c =
     (let i = LastIndexByte xs c in if 0 \<le> i then i + 1 else if x = c then 0 else - 1)"

definition HasPrefix :: "string \<Rightarrow> string \<Rightarrow> bool" where
  "HasPrefix s p \<longleftrightarrow> take (length p) s = p"

definition TrimPrefix :: "string \<Rightarrow> string \<Rightarrow> string" where
  "TrimPrefix s p = (if HasPrefix s p then drop (length p) s else s)"

text \<open>\<open>strings.Replace(s, old, new, 1)\<close>.\<close>

fun Replace1 :: "string \<Rightarrow> string \<Rightarrow> string \<Rightarrow> string" where
  "Replace1 [] old new = (if old = [] then new else [])"
| "Replace1 (c # cs) old new =
     (if HasPrefix (c # cs) old then new @ drop (length old) (c # cs) else c # Replace1 cs old new)"

fun ContainsStr :: "string \<Rightarrow> string \<Rightarrow> bool" where
  "ContainsStr [] sub \<longleftrightarrow> sub = []"
| "ContainsStr (c # cs) sub \<longleftrightarrow> HasPrefix (c # cs) sub \<or> ContainsStr cs sub"

definition lower_char :: "char \<Rightarrow> char" where
  "lower_char c = (let n = of_char c :: nat in if 65 \<le> n \<and> n \<le> 90 then char_of (n + 32) else c)"

definition ToLower :: "string \<Rightarrow> string" where
  "ToLower s = map lower_char s"

fun SplitChar :: "string \<Rightarrow> char \<Rightarrow> string list" where
  "SplitChar [] sep = [[]]"
| "SplitChar (c # cs) sep =
     (if c = sep then [] # SplitChar cs sep
      else case SplitChar cs sep of [] \<Rightarrow> [[c]] | w # ws \<Rightarrow> (c # w) # ws)"

fun JoinStr :: "string list \<Rightarrow> string \<Rightarrow> string" where
  "JoinStr [] sep = []"
| "JoinStr [w] sep = w"
| "JoinStr (w # ws) sep = w @ sep @ JoinStr ws sep"

section \<open>Facts\<close>

lemma digit_val_char [simp]: "d < 10 \<Longrightarrow> digit_val (digit_char d) = Some d"
  by (simp add: digit_val_def digit_char_def)

lemma digit_val_signs [simp]:
  "digit_val (CHR ''-'') = None" "digit_val (CHR ''+'') = None" "digit_val (CHR ''|'') = None"
  by (simp_all add: digit_val_def)

lemma nat_digits_chars: "c \<in> set (nat_digits n) \<Longrightarrow> digit_val c \<noteq> None"
proof (induction n rule: nat_digits.induct)
  case (1 n)
  show ?case
  proof (cases "n < 10")
    case True
    with "1.prems" show ?thesis by (subst (asm) nat_digits.simps) simp
  next
    case False
    with "1.prems" have "c \<in> set (nat_digits (n div 10)) \<or> c = digit_char (n mod 10)"
      by (subst (asm) nat_digits.simps) auto
    with "1.IH" False show ?thesis by auto
  qed
qed

lemma nat_digits_not_Nil [simp]: "nat_digits n \<noteq> []"
  by (subst nat_digits.simps) simp

lemma parse_digits_append:
  "parse_digits acc (xs @ ys) = Option.bind (parse_digits acc xs) (\<lambda>a. parse_digits a ys)"
  by (induction xs arbitrary: acc) (auto split: option.splits)

lemma parse_nat_digits: "parse_digits 0 (nat_digits n) = Some n"
proof (induction n rule: nat_digits.induct)
  case (1 n)
  show ?case
  proof (cases "n < 10")
    case True
    then show ?thesis by (subst nat_digits.simps) simp
  next
    case False
    with "1.IH" show ?thesis by (subst nat_digits.simps) (simp add: parse_digits_append)
  qed
qed

lemma parse_sign_nat_digits: "parse_sign (nat_digits n) = (False, nat_digits n)"
proof (cases "nat_digits n")
  case Nil
  then show ?thesis by simp
next
  case (Cons c cs)
  then have "digit_val c \<noteq> None" using nat_digits_chars [of c n] by simp
  then have "c \<noteq> CHR ''-''" and "c \<noteq> CHR ''+''"
    by (metis digit_val_signs(1), metis digit_val_signs(2))
  with Cons show ?thesis by (simp add: parse_sign_def)
qed

lemma parse_sign_minus: "parse_sign (CHR ''-'' # ds) = (True, ds)"
  by (simp add: parse_sign_def)

theorem Atoi_Itoa: "in_int i \<Longrightarrow> Atoi (Itoa i) = Inr i"
  by (auto simp: Atoi_def ParseInt_def Itoa_def in_int_def int_min_def int_max_def
      parse_sign_nat_digits parse_sign_minus parse_nat_digits)

lemma Itoa_no_bar [simp]: "CHR ''|'' \<notin> set (Itoa i)"
  using nat_digits_chars [of "CHR ''|''"] digit_val_signs(3) by (auto simp: Itoa_def)

lemma Itoa_not_Nil [simp]: "Itoa i \<noteq> []"
  by (simp add: Itoa_def)

lemma nat_digits_inj: "nat_digits a = nat_digits b \<Longrightarrow> a = b"
  using parse_nat_digits by (metis option.inject)

lemma Itoa_inj: "Itoa a = Itoa b \<Longrightarrow> a = b"
proof -
  assume eq: "Itoa a = Itoa b"
  have minus: "CHR ''-'' # x \<noteq> nat_digits n" for x n
    using nat_digits_chars [of "CHR ''-''" n] by (metis digit_val_signs(1) list.set_intros(1))
  show "a = b"
    using eq minus minus [symmetric]
    by (auto simp: Itoa_def split: if_splits dest: nat_digits_inj)
qed

lemma LastIndexByte_ge: "- 1 \<le> LastIndexByte s c"
  by (induction s) (auto simp: Let_def)

lemma LastIndexByte_notin: "c \<notin> set s \<Longrightarrow> LastIndexByte s c = - 1"
  by (induction s) auto

lemma LastIndexByte_append_sep:
  "c \<notin> set t \<Longrightarrow> LastIndexByte (s @ c # t) c = int (length s)"
  by (induction s) (auto simp: LastIndexByte_notin)

lemma HasPrefix_append [simp]: "HasPrefix (p @ s) p"
  by (simp add: HasPrefix_def)

lemma Replace1_prefix: "old \<noteq> [] \<Longrightarrow> Replace1 (old @ s) old new = new @ s"
  by (cases old) (auto simp: HasPrefix_def)

lemma SplitChar_not_Nil [simp]: "SplitChar s sep \<noteq> []"
  by (cases s) (auto split: list.splits)

text \<open>Splitting at a separator and joining with it again is the identity.\<close>

lemma JoinStr_Cons: "ws \<noteq> [] \<Longrightarrow> JoinStr (w # ws) sep = w @ sep @ JoinStr ws sep"
  by (cases ws) auto

theorem JoinStr_SplitChar: "JoinStr (SplitChar s sep) [sep] = s"
proof (induction s)
  case Nil
  then show ?case by simp
next
  case (Cons c cs)
  obtain w ws where ws: "SplitChar cs sep = w # ws"
    by (metis SplitChar_not_Nil neq_Nil_conv)
  have "JoinStr ((c # w) # ws) [sep] = c # JoinStr (w # ws) [sep]"
    by (cases ws) auto
  with Cons ws show ?case by (auto simp: JoinStr_Cons)
qed

lemma SplitChar_notin: "c \<notin> set w \<Longrightarrow> SplitChar w c = [w]"
  by (induction w) auto

lemma SplitChar_append: "c \<notin> set s \<Longrightarrow> SplitChar (s @ c # t) c = s # SplitChar t c"
  by (induction s) auto

end
