(* ===== verification/Api_Model.thy ===== *)
theory Api_Model
  imports Go_Strings
begin

text \<open>
  The panel-independent data of \<open>api/apimodel.go\<close>: node and user descriptions, traffic and
  online-device reports, audit rules. Every struct is a record with the source's fields in
  the source's order. Field names carry a short prefix, since record selectors share one
  name space. The regular expression of a rule is \<open>regexp.Regexp\<close>, a library type: a rule
  holds its source text (\<open>Pattern.String()\<close>), \<open>None\<close> for a nil pattern, and matching is a
  parameter of the operations that match.
\<close>

record NodeInfo =
  ni_NodeType :: string
  ni_NodeID :: int
  ni_Port :: uint32
  ni_SpeedLimit :: uint64
  ni_AlterID :: uint16
  ni_TransportProtocol :: string
  ni_FakeType :: string
  ni_Host :: string
  ni_Path :: string
  ni_EnableTLS :: bool
  ni_TLSType :: string
  ni_EnableVless :: bool
  ni_CypherMethod :: string
  ni_ServerKey :: string
  ni_ServiceName :: string
  ni_Header :: "string option"
  ni_NameServerConfig :: "(string \<times> string list) list"

record UserInfo =
  u_UID :: int
  u_Email :: string
  u_Passwd :: string
  u_Port :: uint32
  u_Method :: string
  u_SpeedLimit :: uint64
  u_DeviceLimit :: int
  u_Protocol :: string
  u_ProtocolParam :: string
  u_Obfs :: string
  u_ObfsParam :: string
  u_UUID :: string
  u_AlterID :: uint16

record OnlineUser =
  ou_UID :: int
  ou_IP :: string

record UserTraffic =
  ut_UID :: int
  ut_Email :: string
  ut_Upload :: int64
  ut_Download :: int64

record ClientInfo =
  ci_APIHost :: string
  ci_NodeID :: int
  ci_Key :: string
  ci_NodeType :: string

record DetectRule =
  dr_ID :: int
  dr_Pattern :: "string option"

record DetectResult =
  res_UID :: int
  res_RuleID :: int

text \<open>
  \<open>CompileDetectRule\<close>: \<open>compiles\<close> says whether \<open>regexp.Compile\<close> accepts the text and gives its
  error otherwise.
\<close>

definition CompileDetectRule ::
    "(string \<Rightarrow> go_error option) \<Rightarrow> int \<Rightarrow> string \<Rightarrow> DetectRule result" where
  "CompileDetectRule compiles rid pattern =
     (case compiles pattern of
        Some err \<Rightarrow> Inl err
      | None \<Rightarrow> Inr \<lparr>dr_ID = rid, dr_Pattern = Some pattern\<rparr>)"

text \<open>The zero value of a \<open>NodeInfo\<close> and of a \<open>UserInfo\<close> struct literal.\<close>

definition zero_NodeInfo :: NodeInfo where
  "zero_NodeInfo = \<lparr>ni_NodeType = [], ni_NodeID = 0, ni_Port = 0, ni_SpeedLimit = 0,
     ni_AlterID = 0, ni_TransportProtocol = [], ni_FakeType = [], ni_Host = [], ni_Path = [],
     ni_EnableTLS = False, ni_TLSType = [], ni_EnableVless = False, ni_CypherMethod = [],
     ni_ServerKey = [], ni_ServiceName = [], ni_Header = None, ni_NameServerConfig = []\<rparr>"

definition zero_UserInfo :: UserInfo where
  "zero_UserInfo = \<lparr>u_UID = 0, u_Email = [], u_Passwd = [], u_Port = 0, u_Method = [],
     u_SpeedLimit = 0, u_DeviceLimit = 0, u_Protocol = [], u_ProtocolParam = [], u_Obfs = [],
     u_ObfsParam = [], u_UUID = [], u_AlterID = 0\<rparr>"

section \<open>User keys\<close>

text \<open>
  \<open>formatUserKey\<close> of the limiter and \<open>buildUserTagWithTag\<close> of the controller build the same
  string \<open>tag|email|uid\<close>; the audit manager recovers the uid from it.
\<close>

definition formatUserKey :: "string \<Rightarrow> string \<Rightarrow> int \<Rightarrow> string" where
  "formatUserKey tag email uid = tag @ CHR ''|'' # email @ CHR ''|'' # Itoa uid"

definition buildUserTagWithTag :: "string \<Rightarrow> UserInfo \<Rightarrow> string" where
  "buildUserTagWithTag tag user = tag @ ''|'' @ u_Email user @ ''|'' @ Itoa (u_UID user)"

abbreviation user_key :: "string \<Rightarrow> UserInfo \<Rightarrow> string" where
  "user_key tag u \<equiv> formatUserKey tag (u_Email u) (u_UID u)"

lemma buildUserTagWithTag_key: "buildUserTagWithTag tag u = user_key tag u"
  by (simp add: buildUserTagWithTag_def formatUserKey_def)

lemma formatUserKey_last_bar:
  "LastIndexByte (formatUserKey tag email uid) (CHR ''|'') = int (length tag + length email + 1)"
  using LastIndexByte_append_sep [of "CHR ''|''" "Itoa uid" "tag @ CHR ''|'' # email"]
  by (simp add: formatUserKey_def)

lemma formatUserKey_suffix:
  "drop (length tag + length email + 2) (formatUserKey tag email uid) = Itoa uid"
  by (simp add: formatUserKey_def)

lemma append_bar_inj:
  assumes "xs @ CHR ''|'' # s = ys @ CHR ''|'' # t"
    and "CHR ''|'' \<notin> set s" and "CHR ''|'' \<notin> set t"
  shows "xs = ys \<and> s = t"
proof -
  have "int (length xs) = int (length ys)"
    using LastIndexByte_append_sep [OF assms(2), of xs] LastIndexByte_append_sep [OF assms(3), of ys]
      assms(1) by simp
  with assms(1) show ?thesis by simp
qed

lemma formatUserKey_inj:
  assumes "formatUserKey tag e u = formatUserKey tag e' u'"
  shows "e = e' \<and> u = u'"
proof -
  have "(tag @ CHR ''|'' # e) @ CHR ''|'' # Itoa u = (tag @ CHR ''|'' # e') @ CHR ''|'' # Itoa u'"
    using assms by (simp add: formatUserKey_def)
  then have "tag @ CHR ''|'' # e = tag @ CHR ''|'' # e' \<and> Itoa u = Itoa u'"
    by (rule append_bar_inj) simp_all
  then show ?thesis by (auto dest: Itoa_inj)
qed

lemma formatUserKey_eq_iff [simp]:
  "formatUserKey tag e u = formatUserKey tag e' u' \<longleftrightarrow> e = e' \<and> u = u'"
  using formatUserKey_inj by auto

lemma formatUserKey_uid:
  "formatUserKey tag e u = formatUserKey tag' e' u' \<Longrightarrow> u = u'"
  using append_bar_inj [of "tag @ CHR ''|'' # e" "Itoa u" "tag' @ CHR ''|'' # e'" "Itoa u'"]
  by (auto simp: formatUserKey_def dest: Itoa_inj)

end
