(* ===== verification/Device_Admission.thy ===== *)
theory Device_Admission
  imports Prelude
begin

text \<open>
  The contract every device-limit table of oldxr promises. A table holds, per user key, a
  set of client addresses; a reservation of an address under a limit \<open>d\<close> is accepted exactly
  when the address is already held, or the limit is off (\<open>d \<le> 0\<close>), or fewer than \<open>d\<close>
  addresses are held, and an accepted address is held afterwards. Entries may expire as
  time passes. Three tables meet the contract: the local one of an inbound, the local layer
  of the global cache and the script that runs inside Redis.
\<close>

definition admits :: "int \<Rightarrow> string set \<Rightarrow> string \<Rightarrow> bool" where
  "admits d S ip \<longleftrightarrow> ip \<in> S \<or> \<not> (0 < d \<and> d \<le> int (card S))"

definition admit_set :: "int \<Rightarrow> string set \<Rightarrow> string \<Rightarrow> string set" where
  "admit_set d S ip = (if admits d S ip then insert ip S else S)"

lemma admit_set_finite [simp]: "finite S \<Longrightarrow> finite (admit_set d S ip)"
  by (simp add: admit_set_def)

lemma admit_set_card:
  "finite S \<Longrightarrow> 0 < d \<Longrightarrow> int (card S) \<le> d \<Longrightarrow> int (card (admit_set d S ip)) \<le> d"
  by (auto simp: admit_set_def admits_def card_insert_if)

text \<open>A request: the time it is made, the user key, the address, who makes it and the limit.\<close>

record 'u request =
  rq_time :: int
  rq_key :: string
  rq_ip :: string
  rq_who :: 'u
  rq_limit :: int

fun times_from :: "int \<Rightarrow> 'u request list \<Rightarrow> bool" where
  "times_from t [] \<longleftrightarrow> True"
| "times_from t (r # rs) \<longleftrightarrow> t \<le> rq_time r \<and> times_from (rq_time r) rs"

fun last_time :: "int \<Rightarrow> 'u request list \<Rightarrow> int" where
  "last_time t [] = t"
| "last_time t (r # rs) = last_time (rq_time r) rs"

locale ip_admission =
  fixes reserve :: "'s \<Rightarrow> int \<Rightarrow> string \<Rightarrow> string \<Rightarrow> 'u \<Rightarrow> int \<Rightarrow> bool \<times> 's"
    and ips :: "'s \<Rightarrow> int \<Rightarrow> string \<Rightarrow> string set"
    and invar :: "'s \<Rightarrow> bool"
  assumes reserve_decision:
      "invar s \<Longrightarrow> fst (reserve s t k ip u d) \<longleftrightarrow> admits d (ips s t k) ip"
    and reserve_ips:
      "invar s \<Longrightarrow> ips (snd (reserve s t k ip u d)) t k' =
         (if k' = k then admit_set d (ips s t k) ip else ips s t k')"
    and invar_reserve: "invar s \<Longrightarrow> invar (snd (reserve s t k ip u d))"
    and ips_finite: "invar s \<Longrightarrow> finite (ips s t k)"
    and ips_expire: "invar s \<Longrightarrow> t \<le> t' \<Longrightarrow> ips s t' k \<subseteq> ips s t k"
begin

fun run_requests :: "'s \<Rightarrow> 'u request list \<Rightarrow> bool list \<times> 's" where
  "run_requests s [] = ([], s)"
| "run_requests s (r # rs) =
     (let (ok, s') = reserve s (rq_time r) (rq_key r) (rq_ip r) (rq_who r) (rq_limit r);
          (oks, s'') = run_requests s' rs
      in (ok # oks, s''))"

lemma run_requests_Cons:
  "snd (run_requests s (r # rs)) =
     snd (run_requests (snd (reserve s (rq_time r) (rq_key r) (rq_ip r) (rq_who r) (rq_limit r))) rs)"
  by (simp add: case_prod_beta)

lemma card_expire:
  assumes "invar s" and "t \<le> t'"
  shows "card (ips s t' k) \<le> card (ips s t k)"
  using ips_expire [OF assms] ips_finite [OF assms(1)] by (simp add: card_mono)

lemma step_bound:
  assumes inv: "invar s" and le: "t \<le> rq_time r"
    and lim: "rq_key r = k \<Longrightarrow> rq_limit r = d" and pos: "0 < d"
    and bound: "int (card (ips s t k)) \<le> d"
  shows "int (card (ips (snd (reserve s (rq_time r) (rq_key r) (rq_ip r) (rq_who r) (rq_limit r)))
           (rq_time r) k)) \<le> d"
proof -
  have *: "int (card (ips s (rq_time r) k)) \<le> d"
    using card_expire [OF inv le, of k] bound by linarith
  show ?thesis
    using * lim pos ips_finite [OF inv]
    by (cases "rq_key r = k") (auto simp: reserve_ips [OF inv] admit_set_card)
qed

text \<open>The limit is never exceeded, whatever the sequence of requests.\<close>

lemma run_bound:
  assumes "invar s" and "times_from t rs" and "0 < d"
    and "\<And>r. r \<in> set rs \<Longrightarrow> rq_key r = k \<Longrightarrow> rq_limit r = d"
    and "int (card (ips s t k)) \<le> d"
  shows "int (card (ips (snd (run_requests s rs)) (last_time t rs) k)) \<le> d"
  using assms
proof (induction rs arbitrary: s t)
  case Nil
  then show ?case by simp
next
  case (Cons r rs)
  let ?s = "snd (reserve s (rq_time r) (rq_key r) (rq_ip r) (rq_who r) (rq_limit r))"
  have "int (card (ips ?s (rq_time r) k)) \<le> d"
    using Cons.prems by (intro step_bound) auto
  then have "int (card (ips (snd (run_requests ?s rs)) (last_time (rq_time r) rs) k)) \<le> d"
    using Cons.prems by (intro Cons.IH) (auto intro: invar_reserve)
  then show ?case by (simp add: case_prod_beta)
qed

text \<open>An accepted address is held, and a held address is accepted again under any limit.\<close>

lemma accepted_held:
  "invar s \<Longrightarrow> fst (reserve s t k ip u d) \<Longrightarrow> ip \<in> ips (snd (reserve s t k ip u d)) t k"
  by (simp add: reserve_decision reserve_ips admit_set_def)

lemma held_accepted: "invar s \<Longrightarrow> ip \<in> ips s t k \<Longrightarrow> fst (reserve s t k ip u d)"
  by (simp add: reserve_decision admits_def)

lemma rejected_unchanged:
  "invar s \<Longrightarrow> \<not> fst (reserve s t k ip u d) \<Longrightarrow> ips (snd (reserve s t k ip u d)) t k' = ips s t k'"
  by (simp add: reserve_decision reserve_ips admit_set_def)

lemma rejected_full:
  "invar s \<Longrightarrow> \<not> fst (reserve s t k ip u d) \<Longrightarrow> 0 < d \<and> d \<le> int (card (ips s t k))"
  by (simp add: reserve_decision admits_def)

end

end
