(* ===== verification/Global_Cache.thy ===== *)
theory Global_Cache
  imports Device_Admission Go_Strings
begin

text \<open>
  \<open>common/limiter/global_cache.go\<close>: the device table shared between oldxr processes. It has a
  process-local layer with expiring entries and a Redis layer whose decisions run as a
  script inside Redis. Entries are msgpack-encoded address maps; the codec
  (\<open>vmihailenco/msgpack\<close> here, \<open>cmsgpack\<close> in the script) and the \<open>gocache\<close> store are libraries,
  so \<open>enc\<close>, \<open>dec\<close> and the store's \<open>Get\<close>/\<open>Set\<close> are parameters. Times are nanoseconds, the zero
  \<open>time.Time\<close> is \<open>None\<close>.
\<close>

type_synonym bytes = string
type_synonym ip_map = "(string, int) gomap"

record GlobalDeviceLimitConfig =
  gc_Enable :: bool
  gc_RedisAddr :: string
  gc_RedisPassword :: string
  gc_RedisDB :: int
  gc_Timeout :: int
  gc_Expiry :: int

record globalIPCacheEntry =
  ge_value :: bytes
  ge_expiresAt :: "int option"

record layeredGlobalIPCache =
  lc_local :: "(string, globalIPCacheEntry) gomap"
  lc_localExpiry :: int
  lc_localWrites :: uint64
  lc_redisClient :: bool
  lc_closed :: bool
  lc_closeErr :: "go_error option"

definition time_Second :: int where "time_Second = 1000000000"

definition newLayeredGlobalIPCache :: "GlobalDeviceLimitConfig \<Rightarrow> layeredGlobalIPCache" where
  "newLayeredGlobalIPCache config =
     \<lparr>lc_local = [], lc_localExpiry = gc_Expiry config * time_Second, lc_localWrites = 0,
      lc_redisClient = True, lc_closed = False, lc_closeErr = None\<rparr>"

definition entry_expired :: "int \<Rightarrow> globalIPCacheEntry \<Rightarrow> bool" where
  "entry_expired now e = (case ge_expiresAt e of None \<Rightarrow> False | Some x \<Rightarrow> x < now)"

section \<open>The local layer\<close>

definition getLocal :: "int \<Rightarrow> layeredGlobalIPCache \<Rightarrow> string \<Rightarrow> bytes option \<times> layeredGlobalIPCache" where
  "getLocal now c key =
     (case load (lc_local c) key of
        None \<Rightarrow> (None, c)
      | Some entry \<Rightarrow>
          if entry_expired now entry then (None, c\<lparr>lc_local := del key (lc_local c)\<rparr>)
          else (Some (ge_value entry), c))"

definition setLocal ::
    "int \<Rightarrow> layeredGlobalIPCache \<Rightarrow> string \<Rightarrow> bytes \<Rightarrow> int \<Rightarrow> layeredGlobalIPCache" where
  "setLocal now c key value expiry =
     (let entry = \<lparr>ge_value = value, ge_expiresAt = (if 0 < expiry then Some (now + expiry) else None)\<rparr>;
          local = store key entry (lc_local c);
          writes = lc_localWrites c + 1;
          swept = (if writes mod 256 = 0 then filter (\<lambda>(k, e). \<not> entry_expired now e) local else local)
      in c\<lparr>lc_local := swept, lc_localWrites := writes\<rparr>)"

definition deleteLocal :: "layeredGlobalIPCache \<Rightarrow> string \<Rightarrow> layeredGlobalIPCache" where
  "deleteLocal c key = c\<lparr>lc_local := del key (lc_local c)\<rparr>"

definition reserveLocal ::
    "(ip_map \<Rightarrow> bytes option) \<Rightarrow> (bytes \<Rightarrow> ip_map option) \<Rightarrow> int \<Rightarrow> layeredGlobalIPCache
     \<Rightarrow> string \<Rightarrow> string \<Rightarrow> int \<Rightarrow> int \<Rightarrow> bool result \<times> layeredGlobalIPCache" where
  "reserveLocal enc dec now c key ip uid limit =
     (let found = (case load (lc_local c) key of
                     None \<Rightarrow> None
                   | Some e \<Rightarrow> if entry_expired now e then None else Some e);
          c1 = (case load (lc_local c) key of
                  None \<Rightarrow> c
                | Some e \<Rightarrow> if entry_expired now e then c\<lparr>lc_local := del key (lc_local c)\<rparr> else c)
      in case (case found of None \<Rightarrow> Some [] | Some e \<Rightarrow> dec (ge_value e)) of
           None \<Rightarrow> (Inl (Error ''unmarshal local global IP value''), c1)
         | Some values \<Rightarrow>
             if load values ip = None \<and> 0 < limit \<and> limit \<le> int (length values) then (Inr False, c1)
             else let values' = (if load values ip = None then store ip uid values else values) in
               (case enc values' of
                  None \<Rightarrow> (Inl (Error ''marshal local global IP value''), c1)
                | Some encoded \<Rightarrow>
                    (Inr True,
                     c1\<lparr>lc_local := store key
                         \<lparr>ge_value = encoded,
                          ge_expiresAt = (if 0 < lc_localExpiry c1 then Some (now + lc_localExpiry c1) else None)\<rparr>
                         (lc_local c1)\<rparr>)))"

section \<open>The Redis script\<close>

type_synonym redis = "string \<rightharpoonup> bytes \<times> int option"

datatype redis_value = RNil | RInt int | RBulk bytes | RArray "redis_value list"

definition redis_get :: "int \<Rightarrow> redis \<Rightarrow> string \<Rightarrow> bytes option" where
  "redis_get now r key =
     (case r key of
        None \<Rightarrow> None
      | Some (raw, ttl) \<Rightarrow> (case ttl of None \<Rightarrow> Some raw | Some x \<Rightarrow> if x < now then None else Some raw))"

definition reserveGlobalIPScript ::
    "(ip_map \<Rightarrow> bytes) \<Rightarrow> (bytes \<Rightarrow> ip_map option) \<Rightarrow> int \<Rightarrow> redis
     \<Rightarrow> string \<Rightarrow> string \<Rightarrow> int \<Rightarrow> int \<Rightarrow> int \<Rightarrow> redis_value result \<times> redis" where
  "reserveGlobalIPScript pack unpack now r key ip uid limit expiry =
     (let raw = redis_get now r key in
      case (case raw of None \<Rightarrow> Some [] | Some b \<Rightarrow> unpack b) of
        None \<Rightarrow> (Inl (Error ''ERR Error running script''), r)
      | Some values \<Rightarrow>
          if load values ip = None \<and> 0 < limit \<and> limit \<le> int (length values) then
            (Inr (RArray [RInt 0, RBulk (case raw of None \<Rightarrow> [] | Some b \<Rightarrow> b)]), r)
          else
            (let (values', raw', r1) =
                   (if load values ip = None then
                      (let vs = store ip uid values; b = pack vs in (vs, Some b, r(key \<mapsto> (b, None))))
                    else (values, raw, r));
                 r2 = (if 0 < expiry then
                         (case r1 key of None \<Rightarrow> r1
                          | Some (b, _) \<Rightarrow> r1(key \<mapsto> (b, Some (now + expiry * time_Second))))
                       else r1)
             in (Inr (RArray [RInt 1, RBulk (case raw' of None \<Rightarrow> pack values' | Some b \<Rightarrow> b)]), r2)))"

text \<open>\<open>globalIPValueBytes\<close>: a Redis bulk reply arrives as a Go string; other types are refused.\<close>

definition globalIPValueBytes :: "redis_value \<Rightarrow> bytes result" where
  "globalIPValueBytes v =
     (case v of RBulk b \<Rightarrow> Inr b | _ \<Rightarrow> Inl (Error ''unexpected global IP cache value type''))"

text \<open>
  \<open>ReserveIP\<close>: with no Redis client the local layer decides; otherwise the reply of the script
  is checked and mirrored locally. \<open>run\<close> is the call of the script over the network, on the
  state of the Redis server.
\<close>

definition ReserveIP ::
    "(ip_map \<Rightarrow> bytes option) \<Rightarrow> (bytes \<Rightarrow> ip_map option)
     \<Rightarrow> ('r \<Rightarrow> string \<Rightarrow> string \<Rightarrow> int \<Rightarrow> int \<Rightarrow> int \<Rightarrow> redis_value result \<times> 'r)
     \<Rightarrow> int \<Rightarrow> layeredGlobalIPCache \<times> 'r \<Rightarrow> string \<Rightarrow> string \<Rightarrow> int \<Rightarrow> int
     \<Rightarrow> bool result \<times> layeredGlobalIPCache \<times> 'r" where
  "ReserveIP enc dec run now st key ip uid limit =
     (let (c, r) = st in
      if \<not> lc_redisClient c then
        (let (res, c') = reserveLocal enc dec now c key ip uid limit in (res, c', r))
      else
        (let (reply, r') = run r key ip uid limit (go_div (lc_localExpiry c) time_Second) in
         case reply of
           Inl err \<Rightarrow> (Inl (Error ''reserve remote global IP''), c, r')
         | Inr (RArray [status, data]) \<Rightarrow>
             (case status of
                RInt i \<Rightarrow>
                  if i = 0 then (Inr False, deleteLocal c key, r')
                  else if i \<noteq> 1 then (Inl (Error ''reserve remote global IP returned status''), c, r')
                  else (case globalIPValueBytes data of
                          Inl err \<Rightarrow> (Inl (Error ''decode reserved global IP value''), c, r')
                        | Inr b \<Rightarrow> (Inr True, setLocal now c key b (lc_localExpiry c), r'))
              | _ \<Rightarrow> (Inl (Error ''reserve remote global IP status has type''), c, r'))
         | Inr _ \<Rightarrow> (Inl (Error ''reserve remote global IP returned, want two values''), c, r')))"

section \<open>Get, Set and Close\<close>

datatype cache_get = NotFound | GetFailed go_error | Found ip_map

definition unmarshalGlobalIPValue :: "(bytes \<Rightarrow> ip_map option) \<Rightarrow> bytes \<Rightarrow> cache_get" where
  "unmarshalGlobalIPValue dec b =
     (case dec b of None \<Rightarrow> GetFailed (Error ''msgpack: unmarshal'') | Some m \<Rightarrow> Found m)"

text \<open>
  \<open>Get\<close>: \<open>remote\<close> is \<open>GetWithTTL\<close> of the remote store, \<open>None\<close> when there is no remote; it
  answers an error (the store's \<open>NotFound\<close> marked) or a value with its remaining life.
\<close>

definition cache_Get ::
    "(bytes \<Rightarrow> ip_map option) \<Rightarrow> (string \<Rightarrow> (go_error option + redis_value \<times> int)) option
     \<Rightarrow> int \<Rightarrow> layeredGlobalIPCache \<Rightarrow> string \<Rightarrow> cache_get \<times> layeredGlobalIPCache" where
  "cache_Get dec remote now c key =
     (let (v, c1) = getLocal now c key in
      case v of
        Some b \<Rightarrow> (unmarshalGlobalIPValue dec b, c1)
      | None \<Rightarrow>
          (case remote of
             None \<Rightarrow> (NotFound, c1)
           | Some get \<Rightarrow>
               (case get key of
                  Inl None \<Rightarrow> (NotFound, c1)
                | Inl (Some err) \<Rightarrow> (GetFailed err, c1)
                | Inr (value, ttl) \<Rightarrow>
                    (case globalIPValueBytes value of
                       Inl err \<Rightarrow> (GetFailed err, c1)
                     | Inr b \<Rightarrow> (unmarshalGlobalIPValue dec b, setLocal now c1 key b ttl)))))"

text \<open>\<open>Set\<close>: \<open>opt_expiry\<close> is the expiration among the options (0 for none).\<close>

definition cache_Set ::
    "(ip_map \<Rightarrow> bytes option) \<Rightarrow> (string \<Rightarrow> bytes \<Rightarrow> go_error option) option
     \<Rightarrow> int \<Rightarrow> layeredGlobalIPCache \<Rightarrow> string \<Rightarrow> ip_map \<Rightarrow> int
     \<Rightarrow> go_error option \<times> layeredGlobalIPCache" where
  "cache_Set enc remote now c key object opt_expiry =
     (case enc object of
        None \<Rightarrow> (Some (Error ''marshal global IP cache''), c)
      | Some b \<Rightarrow>
          (let expiry = (if opt_expiry \<noteq> 0 then opt_expiry else lc_localExpiry c);
               c1 = setLocal now c key b expiry
           in case remote of
                None \<Rightarrow> (None, c1)
              | Some put \<Rightarrow>
                  (case put key b of
                     Some err \<Rightarrow> (Some (Error ''set remote global IP cache''), c1)
                   | None \<Rightarrow> (None, c1))))"

definition cache_Close :: "go_error option \<Rightarrow> layeredGlobalIPCache \<Rightarrow> go_error option \<times> layeredGlobalIPCache" where
  "cache_Close client_close c =
     (if lc_closed c then (lc_closeErr c, c)
      else let c1 = c\<lparr>lc_local := [], lc_closed := True,
                      lc_closeErr := (if lc_redisClient c then client_close else lc_closeErr c)\<rparr>
           in (lc_closeErr c1, c1))"

section \<open>The codec\<close>

text \<open>
  What the code relies on of msgpack: a map of addresses always encodes, and decodes to a
  map with the same bindings.
\<close>

definition codec_ok :: "(ip_map \<Rightarrow> bytes option) \<Rightarrow> (bytes \<Rightarrow> ip_map option) \<Rightarrow> bool" where
  "codec_ok enc dec \<longleftrightarrow>
     (\<forall>m. wf_map m \<longrightarrow>
        (\<exists>b m'. enc m = Some b \<and> dec b = Some m' \<and> wf_map m' \<and> map_of m' = map_of m))"

lemma codec_okE:
  assumes "codec_ok enc dec" and "wf_map m"
  obtains b m' where "enc m = Some b" "dec b = Some m'" "wf_map m'" "set (keys m') = set (keys m)"
proof -
  from assms obtain b m' where *: "enc m = Some b" "dec b = Some m'" "wf_map m'" "map_of m' = map_of m"
    unfolding codec_ok_def by blast
  from *(4) have "set (keys m') = set (keys m)"
    by (metis dom_map_of_conv_image_fst list.set_map)
  with * that show ?thesis by blast
qed

lemma codec_pack:
  assumes "codec_ok (\<lambda>m. Some (pack m)) unpack" and "wf_map m"
  shows "\<exists>m'. unpack (pack m) = Some m' \<and> wf_map m' \<and> set (keys m') = set (keys m)"
  using codec_okE [OF assms] by (metis option.inject)

definition bytes_ips :: "(bytes \<Rightarrow> ip_map option) \<Rightarrow> bytes option \<Rightarrow> string set" where
  "bytes_ips dec b =
     (case b of None \<Rightarrow> {} | Some v \<Rightarrow> (case dec v of None \<Rightarrow> {} | Some m \<Rightarrow> set (keys m)))"

definition decodes :: "(bytes \<Rightarrow> ip_map option) \<Rightarrow> bytes \<Rightarrow> bool" where
  "decodes dec b = (case dec b of None \<Rightarrow> False | Some m \<Rightarrow> wf_map m)"

lemma admits_length:
  "wf_map m \<Longrightarrow> admits d (set (keys m)) ip \<longleftrightarrow> \<not> (load m ip = None \<and> 0 < d \<and> d \<le> int (length m))"
  by (auto simp: admits_def length_wf_map map_of_eq_None_iff)

lemmas admits_length_fst = admits_length [unfolded set_map]

lemma admit_set_keys:
  "wf_map m \<Longrightarrow> admits d (set (keys m)) ip \<Longrightarrow>
   admit_set d (set (keys m)) ip = set (keys (if load m ip = None then store ip u m else m))"
  by (auto simp: admit_set_def map_of_eq_None_iff)

section \<open>The local layer meets the admission contract\<close>

definition local_live :: "int \<Rightarrow> layeredGlobalIPCache \<Rightarrow> string \<Rightarrow> bytes option" where
  "local_live now c key =
     (case load (lc_local c) key of
        None \<Rightarrow> None
      | Some e \<Rightarrow> if entry_expired now e then None else Some (ge_value e))"

definition local_ips :: "(bytes \<Rightarrow> ip_map option) \<Rightarrow> layeredGlobalIPCache \<Rightarrow> int \<Rightarrow> string \<Rightarrow> string set" where
  "local_ips dec c now key = bytes_ips dec (local_live now c key)"

definition local_inv ::
    "(ip_map \<Rightarrow> bytes option) \<Rightarrow> (bytes \<Rightarrow> ip_map option) \<Rightarrow> layeredGlobalIPCache \<Rightarrow> bool" where
  "local_inv enc dec c \<longleftrightarrow>
     codec_ok enc dec \<and> (\<forall>k e. load (lc_local c) k = Some e \<longrightarrow> decodes dec (ge_value e))"

definition reserve_local ::
    "(ip_map \<Rightarrow> bytes option) \<Rightarrow> (bytes \<Rightarrow> ip_map option) \<Rightarrow> layeredGlobalIPCache \<Rightarrow> int
     \<Rightarrow> string \<Rightarrow> string \<Rightarrow> int \<Rightarrow> int \<Rightarrow> bool \<times> layeredGlobalIPCache" where
  "reserve_local enc dec c now key ip uid limit =
     (let (res, c') = reserveLocal enc dec now c key ip uid limit in (res = Inr True, c'))"

text \<open>The map a reservation starts from: the live entry decoded, empty when there is none.\<close>

definition local_values :: "(bytes \<Rightarrow> ip_map option) \<Rightarrow> int \<Rightarrow> layeredGlobalIPCache \<Rightarrow> string \<Rightarrow> ip_map" where
  "local_values dec now c key =
     (case local_live now c key of None \<Rightarrow> [] | Some b \<Rightarrow> the (dec b))"

lemma local_values:
  assumes "local_inv enc dec c"
  shows "wf_map (local_values dec now c key)"
    and "set (keys (local_values dec now c key)) = local_ips dec c now key"
    and "(case local_live now c key of None \<Rightarrow> Some [] | Some b \<Rightarrow> dec b) = Some (local_values dec now c key)"
proof -
  have "decodes dec b" if "local_live now c key = Some b" for b
    using that assms by (auto simp: local_live_def local_inv_def split: option.splits if_splits)
  then show "wf_map (local_values dec now c key)"
    and "set (keys (local_values dec now c key)) = local_ips dec c now key"
    and "(case local_live now c key of None \<Rightarrow> Some [] | Some b \<Rightarrow> dec b) = Some (local_values dec now c key)"
    by (auto simp: local_values_def local_ips_def bytes_ips_def decodes_def split: option.splits)
qed

definition purge_local :: "int \<Rightarrow> layeredGlobalIPCache \<Rightarrow> string \<Rightarrow> layeredGlobalIPCache" where
  "purge_local now c key =
     (case load (lc_local c) key of
        None \<Rightarrow> c
      | Some e \<Rightarrow> if entry_expired now e then c\<lparr>lc_local := del key (lc_local c)\<rparr> else c)"

lemma reserveLocal_unfold:
  "reserveLocal enc dec now c key ip uid limit =
     (let c1 = purge_local now c key in
      case (case local_live now c key of None \<Rightarrow> Some [] | Some b \<Rightarrow> dec b) of
        None \<Rightarrow> (Inl (Error ''unmarshal local global IP value''), c1)
      | Some values \<Rightarrow>
          if load values ip = None \<and> 0 < limit \<and> limit \<le> int (length values) then (Inr False, c1)
          else case enc (if load values ip = None then store ip uid values else values) of
            None \<Rightarrow> (Inl (Error ''marshal local global IP value''), c1)
          | Some b \<Rightarrow> (Inr True, c1\<lparr>lc_local := store key
              \<lparr>ge_value = b, ge_expiresAt = (if 0 < lc_localExpiry c1 then Some (now + lc_localExpiry c1) else None)\<rparr>
              (lc_local c1)\<rparr>))"
  unfolding reserveLocal_def purge_local_def local_live_def Let_def
  by (cases "load (lc_local c) key") auto

lemma purge_local_ips [simp]: "local_ips dec (purge_local now c key) now k = local_ips dec c now k"
  by (auto simp: purge_local_def local_ips_def local_live_def split: option.splits)

lemma purge_local_inv: "local_inv enc dec c \<Longrightarrow> local_inv enc dec (purge_local now c key)"
  by (auto simp: purge_local_def local_inv_def split: option.splits if_splits)

lemma local_store_ips:
  "local_ips dec (c\<lparr>lc_local := store key \<lparr>ge_value = b,
       ge_expiresAt = (if 0 < x then Some (now + x) else None)\<rparr> (lc_local c)\<rparr>) now k =
     (if k = key then bytes_ips dec (Some b) else local_ips dec c now k)"
  by (auto simp: local_ips_def local_live_def entry_expired_def)

lemma local_store_inv:
  "local_inv enc dec c \<Longrightarrow> decodes dec b \<Longrightarrow>
   local_inv enc dec (c\<lparr>lc_local := store key \<lparr>ge_value = b, ge_expiresAt = x\<rparr> (lc_local c)\<rparr>)"
  by (auto simp: local_inv_def)

lemma reserveLocal_admits:
  assumes inv: "local_inv enc dec c" and adm: "admits limit (local_ips dec c now key) ip"
  obtains b where "reserveLocal enc dec now c key ip uid limit =
      (Inr True, (purge_local now c key)\<lparr>lc_local := store key
         \<lparr>ge_value = b, ge_expiresAt = (if 0 < lc_localExpiry (purge_local now c key)
             then Some (now + lc_localExpiry (purge_local now c key)) else None)\<rparr>
         (lc_local (purge_local now c key))\<rparr>)"
    and "decodes dec b"
    and "bytes_ips dec (Some b) = admit_set limit (local_ips dec c now key) ip"
proof -
  let ?m = "local_values dec now c key"
  note vals = local_values [OF inv, of now key]
  from adm have no: "\<not> (load ?m ip = None \<and> 0 < limit \<and> limit \<le> int (length ?m))"
    using admits_length [OF vals(1)] vals(2) by simp
  have "wf_map (if load ?m ip = None then store ip uid ?m else ?m)" using vals(1) by simp
  moreover have "codec_ok enc dec" using inv by (simp add: local_inv_def)
  ultimately obtain b m' where b: "enc (if load ?m ip = None then store ip uid ?m else ?m) = Some b"
      "dec b = Some m'" "wf_map m'"
      "set (keys m') = set (keys (if load ?m ip = None then store ip uid ?m else ?m))"
    using codec_okE by metis
  have "bytes_ips dec (Some b) = admit_set limit (local_ips dec c now key) ip"
    using admit_set_keys [OF vals(1), of limit ip uid] adm vals(2) b by (simp add: bytes_ips_def)
  moreover have "decodes dec b" using b by (simp add: decodes_def)
  ultimately show ?thesis
    using that [of b] no b(1) vals(3) by (simp add: reserveLocal_unfold Let_def)
qed

lemma reserveLocal_rejects:
  assumes inv: "local_inv enc dec c" and "\<not> admits limit (local_ips dec c now key) ip"
  shows "reserveLocal enc dec now c key ip uid limit = (Inr False, purge_local now c key)"
proof -
  note vals = local_values [OF inv, of now key]
  from assms(2) show ?thesis
    using admits_length [OF vals(1), of limit ip] vals(2,3) by (simp add: reserveLocal_unfold Let_def)
qed

lemma reserveLocal_result:
  assumes inv: "local_inv enc dec c"
  shows "fst (reserveLocal enc dec now c key ip uid limit) = Inr (admits limit (local_ips dec c now key) ip)"
proof (cases "admits limit (local_ips dec c now key) ip")
  case True
  show ?thesis by (rule reserveLocal_admits [OF inv True, where uid = uid]) (simp add: True)
next
  case False
  then show ?thesis by (simp add: reserveLocal_rejects [OF inv False])
qed

lemma local_ips_finite: "finite (local_ips dec c now key)"
  by (simp add: local_ips_def bytes_ips_def split: option.splits)

lemma local_ips_expire: "t \<le> t' \<Longrightarrow> local_ips dec c t' key \<subseteq> local_ips dec c t key"
  by (auto simp: local_ips_def local_live_def bytes_ips_def entry_expired_def split: option.splits if_splits)

interpretation local_cache: ip_admission
  "reserve_local enc dec" "local_ips dec" "local_inv enc dec" for enc dec
proof
  fix s t k ip u d
  assume inv: "local_inv enc dec s"
  let ?r = "reserve_local enc dec s t k ip u d"
  have "(fst ?r \<longleftrightarrow> admits d (local_ips dec s t k) ip) \<and> local_inv enc dec (snd ?r) \<and>
        (\<forall>k'. local_ips dec (snd ?r) t k' =
           (if k' = k then admit_set d (local_ips dec s t k) ip else local_ips dec s t k'))"
  proof (cases "admits d (local_ips dec s t k) ip")
    case True
    obtain b where "reserveLocal enc dec t s k ip u d =
      (Inr True, (purge_local t s k)\<lparr>lc_local := store k
         \<lparr>ge_value = b, ge_expiresAt = (if 0 < lc_localExpiry (purge_local t s k)
             then Some (t + lc_localExpiry (purge_local t s k)) else None)\<rparr>
         (lc_local (purge_local t s k))\<rparr>)"
      "decodes dec b" "bytes_ips dec (Some b) = admit_set d (local_ips dec s t k) ip"
      using reserveLocal_admits [OF inv True] by blast
    with True inv show ?thesis
      by (simp add: reserve_local_def local_store_ips local_store_inv purge_local_inv)
  next
    case False
    with inv show ?thesis
      by (simp add: reserve_local_def reserveLocal_rejects purge_local_inv admit_set_def)
  qed
  then show "fst ?r \<longleftrightarrow> admits d (local_ips dec s t k) ip" and "local_inv enc dec (snd ?r)"
    and "local_ips dec (snd ?r) t k' =
           (if k' = k then admit_set d (local_ips dec s t k) ip else local_ips dec s t k')" for k'
    by auto
qed (auto simp: local_ips_finite local_ips_expire)

section \<open>The Redis script meets the admission contract\<close>

definition redis_ips :: "(bytes \<Rightarrow> ip_map option) \<Rightarrow> redis \<Rightarrow> int \<Rightarrow> string \<Rightarrow> string set" where
  "redis_ips unpack r now key = bytes_ips unpack (redis_get now r key)"

definition redis_inv :: "(ip_map \<Rightarrow> bytes) \<Rightarrow> (bytes \<Rightarrow> ip_map option) \<Rightarrow> redis \<Rightarrow> bool" where
  "redis_inv pack unpack r \<longleftrightarrow>
     codec_ok (\<lambda>m. Some (pack m)) unpack \<and> (\<forall>k b x. r k = Some (b, x) \<longrightarrow> decodes unpack b)"

definition script_accepts :: "redis_value result \<Rightarrow> bool" where
  "script_accepts reply = (case reply of Inr (RArray [RInt i, _]) \<Rightarrow> i = 1 | _ \<Rightarrow> False)"

text \<open>The payload of a request carries the uid and the expiry of the process that makes it.\<close>

definition reserve_redis ::
    "(ip_map \<Rightarrow> bytes) \<Rightarrow> (bytes \<Rightarrow> ip_map option) \<Rightarrow> redis \<Rightarrow> int
     \<Rightarrow> string \<Rightarrow> string \<Rightarrow> int \<times> int \<Rightarrow> int \<Rightarrow> bool \<times> redis" where
  "reserve_redis pack unpack r now key ip who limit =
     (let (reply, r') = reserveGlobalIPScript pack unpack now r key ip (fst who) limit (snd who)
      in (script_accepts reply, r'))"

definition redis_values :: "(bytes \<Rightarrow> ip_map option) \<Rightarrow> int \<Rightarrow> redis \<Rightarrow> string \<Rightarrow> ip_map" where
  "redis_values unpack now r key =
     (case redis_get now r key of None \<Rightarrow> [] | Some b \<Rightarrow> the (unpack b))"

lemma redis_values:
  assumes "redis_inv pack unpack r"
  shows "wf_map (redis_values unpack now r key)"
    and "set (keys (redis_values unpack now r key)) = redis_ips unpack r now key"
    and "(case redis_get now r key of None \<Rightarrow> Some [] | Some b \<Rightarrow> unpack b) =
           Some (redis_values unpack now r key)"
proof -
  have "decodes unpack b" if "redis_get now r key = Some b" for b
    using that assms unfolding redis_get_def redis_inv_def
    by (cases "r key") (force split: option.splits if_splits)+
  then show "wf_map (redis_values unpack now r key)"
    and "set (keys (redis_values unpack now r key)) = redis_ips unpack r now key"
    and "(case redis_get now r key of None \<Rightarrow> Some [] | Some b \<Rightarrow> unpack b) =
           Some (redis_values unpack now r key)"
    by (auto simp: redis_values_def redis_ips_def bytes_ips_def decodes_def split: option.splits)
qed

lemma redis_ips_finite: "finite (redis_ips unpack r now key)"
  by (simp add: redis_ips_def bytes_ips_def split: option.splits)

lemma redis_ips_expire: "t \<le> t' \<Longrightarrow> redis_ips unpack r t' key \<subseteq> redis_ips unpack r t key"
  by (auto simp: redis_ips_def redis_get_def bytes_ips_def split: option.splits if_splits)

lemma redis_get_live: "x = None \<or> (\<exists>y. x = Some y \<and> now \<le> y) \<Longrightarrow>
   redis_get now (r(key \<mapsto> (b, x))) k = (if k = key then Some b else redis_get now r k)"
  by (auto simp: redis_get_def)

lemma script_rejects:
  assumes inv: "redis_inv pack unpack r" and rej: "\<not> admits limit (redis_ips unpack r now key) ip"
  shows "\<exists>b. reserveGlobalIPScript pack unpack now r key ip uid limit expiry =
           (Inr (RArray [RInt 0, RBulk b]), r)"
proof -
  note vals = redis_values [OF inv, of now key]
  show ?thesis
    using rej admits_length [OF vals(1), of limit ip] vals(2,3)
    by (auto simp: reserveGlobalIPScript_def Let_def)
qed

lemma script_admits:
  assumes inv: "redis_inv pack unpack r" and adm: "admits limit (redis_ips unpack r now key) ip"
  obtains b x where "reserveGlobalIPScript pack unpack now r key ip uid limit expiry =
           (Inr (RArray [RInt 1, RBulk b]), r(key \<mapsto> (b, x)))"
    and "x = None \<or> (\<exists>y. x = Some y \<and> now \<le> y)" and "decodes unpack b"
    and "bytes_ips unpack (Some b) = admit_set limit (redis_ips unpack r now key) ip"
proof -
  let ?m = "redis_values unpack now r key"
  note vals = redis_values [OF inv, of now key]
  from adm have no: "\<not> (load ?m ip = None \<and> 0 < limit \<and> limit \<le> int (length ?m))"
    using admits_length [OF vals(1)] vals(2) by simp
  have ok: "codec_ok (\<lambda>m. Some (pack m)) unpack" using inv by (simp add: redis_inv_def)
  have ttl: "0 < expiry \<Longrightarrow> now \<le> now + expiry * time_Second"
    by (simp add: time_Second_def)
  show ?thesis
  proof (cases "load ?m ip = None")
    case True
    have "wf_map (store ip uid ?m)" using vals(1) by simp
    with ok obtain m' where m': "unpack (pack (store ip uid ?m)) = Some m'" "wf_map m'"
        "set (keys m') = set (keys (store ip uid ?m))"
      using codec_pack by blast
    have ips: "bytes_ips unpack (Some (pack (store ip uid ?m))) =
        admit_set limit (redis_ips unpack r now key) ip"
      using admit_set_keys [OF vals(1), of limit ip uid] adm vals(2) m' True by (simp add: bytes_ips_def)
    have "decodes unpack (pack (store ip uid ?m))" using m' by (simp add: decodes_def)
    moreover have "reserveGlobalIPScript pack unpack now r key ip uid limit expiry =
        (Inr (RArray [RInt 1, RBulk (pack (store ip uid ?m))]), r(key \<mapsto> (pack (store ip uid ?m),
           if 0 < expiry then Some (now + expiry * time_Second) else None)))"
      using no unfolding reserveGlobalIPScript_def Let_def vals(3) by (simp add: True)
    ultimately show ?thesis using ttl by (intro that [OF _ _ _ ips]) auto
  next
    case False
    then obtain b where b: "redis_get now r key = Some b"
      by (auto simp: redis_values_def split: option.splits)
    then obtain x where x: "r key = Some (b, x)" "x = None \<or> (\<exists>y. x = Some y \<and> now \<le> y)"
      by (auto simp: redis_get_def split: option.splits if_splits)
    have "ip \<in> redis_ips unpack r now key"
      using False vals(2) by (simp add: map_of_eq_None_iff)
    then have ips: "bytes_ips unpack (Some b) = admit_set limit (redis_ips unpack r now key) ip"
      using b by (simp add: redis_ips_def admit_set_def admits_def insert_absorb)
    have upd: "r(key \<mapsto> (b, x)) = r" using x(1) by (simp add: fun_upd_idem)
    have "decodes unpack b" using inv x(1) unfolding redis_inv_def by blast
    moreover have script: "reserveGlobalIPScript pack unpack now r key ip uid limit expiry =
        (Inr (RArray [RInt 1, RBulk b]), r(key \<mapsto> (b,
           if 0 < expiry then Some (now + expiry * time_Second) else x)))"
      using no upd unfolding reserveGlobalIPScript_def Let_def vals(3)
      by (simp add: False b x(1))
    ultimately show ?thesis using ttl x(2) by (intro that [OF script _ _ ips]) auto
  qed
qed

lemma redis_store_inv:
  "redis_inv pack unpack r \<Longrightarrow> decodes unpack b \<Longrightarrow> redis_inv pack unpack (r(key \<mapsto> (b, x)))"
  by (auto simp: redis_inv_def)

text \<open>What one run of the script does to the decision and to the addresses of every key.\<close>

lemma script_step:
  assumes inv: "redis_inv pack unpack r"
  shows "\<exists>b r'. reserveGlobalIPScript pack unpack now r key ip uid limit expiry =
             (Inr (RArray [RInt (if admits limit (redis_ips unpack r now key) ip then 1 else 0), RBulk b]), r')
           \<and> redis_inv pack unpack r'
           \<and> (\<forall>k. redis_ips unpack r' now k =
                (if k = key then admit_set limit (redis_ips unpack r now key) ip
                 else redis_ips unpack r now k))"
proof (cases "admits limit (redis_ips unpack r now key) ip")
  case True
  obtain b x where bx: "reserveGlobalIPScript pack unpack now r key ip uid limit expiry =
           (Inr (RArray [RInt 1, RBulk b]), r(key \<mapsto> (b, x)))"
    "x = None \<or> (\<exists>y. x = Some y \<and> now \<le> y)" "decodes unpack b"
    "bytes_ips unpack (Some b) = admit_set limit (redis_ips unpack r now key) ip"
    using script_admits [OF inv True] by blast
  then have "redis_ips unpack (r(key \<mapsto> (b, x))) now k =
      (if k = key then admit_set limit (redis_ips unpack r now key) ip else redis_ips unpack r now k)" for k
    by (simp add: redis_ips_def redis_get_live)
  with True bx inv show ?thesis by (auto intro: redis_store_inv)
next
  case False
  with script_rejects [OF inv False, of uid expiry] inv show ?thesis
    by (auto simp: admit_set_def)
qed

interpretation redis_table: ip_admission
  "reserve_redis pack unpack" "redis_ips unpack" "redis_inv pack unpack" for pack unpack
proof
  fix s t k ip u d
  assume inv: "redis_inv pack unpack s"
  from script_step [OF inv, of t k ip "fst u" d "snd u"]
  show "fst (reserve_redis pack unpack s t k ip u d) \<longleftrightarrow> admits d (redis_ips unpack s t k) ip"
    and "redis_inv pack unpack (snd (reserve_redis pack unpack s t k ip u d))"
    and "redis_ips unpack (snd (reserve_redis pack unpack s t k ip u d)) t k' =
           (if k' = k then admit_set d (redis_ips unpack s t k) ip else redis_ips unpack s t k')" for k'
    by (auto simp: reserve_redis_def script_accepts_def split: if_splits)
qed (auto simp: redis_ips_finite redis_ips_expire)

section \<open>Several oldxr processes on one Redis\<close>

text \<open>
  Each process has its own local layer; a request names the process that makes it and the
  uid. Requests of different processes interleave in any order, each at its script call.
\<close>

type_synonym cluster = "(nat \<Rightarrow> layeredGlobalIPCache) \<times> redis"

definition reserve_cluster ::
    "(ip_map \<Rightarrow> bytes option) \<Rightarrow> (ip_map \<Rightarrow> bytes) \<Rightarrow> (bytes \<Rightarrow> ip_map option) \<Rightarrow> cluster \<Rightarrow> int
     \<Rightarrow> string \<Rightarrow> string \<Rightarrow> nat \<times> int \<Rightarrow> int \<Rightarrow> bool \<times> cluster" where
  "reserve_cluster enc pack dec st now key ip who limit =
     (let (res, c', r') = ReserveIP enc dec (reserveGlobalIPScript pack dec now) now
                            (fst st (fst who), snd st) key ip (snd who) limit
      in (res = Inr True, (fst st)(fst who := c'), r'))"

definition cluster_ips :: "(bytes \<Rightarrow> ip_map option) \<Rightarrow> cluster \<Rightarrow> int \<Rightarrow> string \<Rightarrow> string set" where
  "cluster_ips dec st now key = redis_ips dec (snd st) now key"

definition cluster_inv :: "(ip_map \<Rightarrow> bytes) \<Rightarrow> (bytes \<Rightarrow> ip_map option) \<Rightarrow> cluster \<Rightarrow> bool" where
  "cluster_inv pack dec st \<longleftrightarrow>
     (\<forall>p. lc_redisClient (fst st p)) \<and> redis_inv pack dec (snd st)"

lemma setLocal_redisClient [simp]: "lc_redisClient (setLocal now c k b x) = lc_redisClient c"
  by (simp add: setLocal_def Let_def)

lemma deleteLocal_redisClient [simp]: "lc_redisClient (deleteLocal c k) = lc_redisClient c"
  by (simp add: deleteLocal_def)

lemma ReserveIP_redis_step:
  assumes "lc_redisClient c" and inv: "redis_inv pack dec r"
  shows "\<exists>c' r'. ReserveIP enc dec (reserveGlobalIPScript pack dec now) now (c, r) key ip uid limit =
             (Inr (admits limit (redis_ips dec r now key) ip), c', r')
           \<and> lc_redisClient c' \<and> redis_inv pack dec r'
           \<and> (\<forall>k. redis_ips dec r' now k =
                (if k = key then admit_set limit (redis_ips dec r now key) ip else redis_ips dec r now k))"
  using assms(1) script_step [OF inv, of now key ip uid limit "go_div (lc_localExpiry c) time_Second"]
  by (auto simp: ReserveIP_def globalIPValueBytes_def Let_def split: if_splits)

interpretation redis_cluster: ip_admission
  "reserve_cluster enc pack dec" "cluster_ips dec" "cluster_inv pack dec" for enc pack dec
proof
  fix s t k ip u d
  assume "cluster_inv pack dec s"
  then have client: "\<And>p. lc_redisClient (fst s p)" and inv: "redis_inv pack dec (snd s)"
    by (simp_all add: cluster_inv_def)
  obtain c' r' where "ReserveIP enc dec (reserveGlobalIPScript pack dec t) t
        (fst s (fst u), snd s) k ip (snd u) d = (Inr (admits d (redis_ips dec (snd s) t k) ip), c', r')"
      "lc_redisClient c'" "redis_inv pack dec r'"
      "\<forall>k'. redis_ips dec r' t k' =
         (if k' = k then admit_set d (redis_ips dec (snd s) t k) ip else redis_ips dec (snd s) t k')"
    using ReserveIP_redis_step [OF client [of "fst u"] inv, of enc t k ip "snd u" d] by blast
  with client
  show "fst (reserve_cluster enc pack dec s t k ip u d) \<longleftrightarrow> admits d (cluster_ips dec s t k) ip"
    and "cluster_inv pack dec (snd (reserve_cluster enc pack dec s t k ip u d))"
    and "cluster_ips dec (snd (reserve_cluster enc pack dec s t k ip u d)) t k' =
           (if k' = k then admit_set d (cluster_ips dec s t k) ip else cluster_ips dec s t k')" for k'
    by (simp_all add: reserve_cluster_def cluster_ips_def cluster_inv_def)
qed (auto simp: cluster_ips_def cluster_inv_def redis_ips_finite redis_ips_expire)

fun cluster_run ::
    "(ip_map \<Rightarrow> bytes option) \<Rightarrow> (ip_map \<Rightarrow> bytes) \<Rightarrow> (bytes \<Rightarrow> ip_map option) \<Rightarrow> cluster
     \<Rightarrow> (nat \<times> int) request list \<Rightarrow> bool list \<times> cluster" where
  "cluster_run enc pack dec st [] = ([], st)"
| "cluster_run enc pack dec st (r # rs) =
     (let (ok, st') = reserve_cluster enc pack dec st (rq_time r) (rq_key r) (rq_ip r) (rq_who r) (rq_limit r);
          (oks, st'') = cluster_run enc pack dec st' rs
      in (ok # oks, st''))"

lemma cluster_run_eq: "cluster_run enc pack dec st rs = redis_cluster.run_requests enc pack dec st rs"
  by (induction rs arbitrary: st) (auto simp: case_prod_beta)

section \<open>Set, then Get\<close>

lemma load_setLocal:
  assumes "expiry \<ge> 0"
  shows "load (lc_local (setLocal now c key b expiry)) key =
           Some \<lparr>ge_value = b, ge_expiresAt = (if 0 < expiry then Some (now + expiry) else None)\<rparr>"
proof -
  let ?e = "\<lparr>ge_value = b, ge_expiresAt = (if 0 < expiry then Some (now + expiry) else None)\<rparr>"
  have live: "\<not> entry_expired now ?e" using assms by (simp add: entry_expired_def)
  have "load (filter (\<lambda>(k, e). \<not> entry_expired now e) m) key = Some ?e" if "load m key = Some ?e" for m
    using that live by (induction m) auto
  then show ?thesis by (simp add: setLocal_def Let_def)
qed

lemma cache_Get_live:
  assumes "load (lc_local c) key = Some \<lparr>ge_value = b, ge_expiresAt = x\<rparr>"
    and "\<And>y. x = Some y \<Longrightarrow> now \<le> y"
  shows "cache_Get dec remote now c key = (unmarshalGlobalIPValue dec b, c)"
  using assms by (auto simp: cache_Get_def getLocal_def entry_expired_def split: option.splits)

end
