(* ===== verification/Limiter.thy ===== *)
theory Limiter
  imports Api_Model Global_Cache
begin

text \<open>
  \<open>common/limiter/limiter.go\<close>: per inbound tag, the users with their limits, one rate bucket
  per limited online user, and the client addresses seen since the last report. Buckets are
  pointers shared with open connections, so they live in a heap (a list, addressed by
  position) that only grows; \<open>BucketHub\<close> maps users to addresses. Each operation below is one
  critical section per user under the user's shard lock, in the order of the source.
\<close>

section \<open>Data\<close>

record LimitUser =
  lu_UID :: int
  lu_SpeedLimit :: uint64
  lu_DeviceLimit :: int

text \<open>The settings of a \<open>rate.Limiter\<close>: its limit and its burst.\<close>

record rate_bucket =
  rb_limit :: uint64
  rb_burst :: int

text \<open>
  The interface \<open>globalIPCache\<close> with the optional \<open>atomicGlobalIPCache\<close>: the methods of the
  dynamic type of the cache.
\<close>

record 'c cache_iface =
  gi_new :: "GlobalDeviceLimitConfig \<Rightarrow> 'c"
  gi_ReserveIP :: "('c \<Rightarrow> string \<Rightarrow> string \<Rightarrow> int \<Rightarrow> int \<Rightarrow> bool result \<times> 'c) option"
  gi_Get :: "'c \<Rightarrow> string \<Rightarrow> cache_get \<times> 'c"
  gi_Set :: "'c \<Rightarrow> string \<Rightarrow> ip_map \<Rightarrow> go_error option \<times> 'c"

record 'c InboundInfo =
  ii_Tag :: string
  ii_NodeSpeedLimit :: uint64
  ii_UserInfo :: "string \<rightharpoonup> LimitUser"
  ii_BucketHub :: "(string, nat) gomap"
  ii_UserOnlineIP :: "(string, ip_map) gomap"
  ii_GlobalLimit :: "(GlobalDeviceLimitConfig \<times> 'c) option"

record 'c Limiter =
  lim_InboundInfo :: "string \<rightharpoonup> 'c InboundInfo"
  lim_heap :: "rate_bucket list"

definition limiter_New :: "'c Limiter" where
  "limiter_New = \<lparr>lim_InboundInfo = Map.empty, lim_heap = []\<rparr>"

section \<open>Rates and locks\<close>

definition determineRate :: "uint64 \<Rightarrow> uint64 \<Rightarrow> uint64" where
  "determineRate nodeLimit userLimit =
     (if nodeLimit = 0 \<or> userLimit = 0 then
        (if nodeLimit > userLimit then nodeLimit
         else if nodeLimit < userLimit then userLimit
         else 0)
      else
        (if nodeLimit > userLimit then userLimit
         else if nodeLimit < userLimit then nodeLimit
         else nodeLimit))"

text \<open>\<open>rate.NewLimiter(rate.Limit(limit), int(limit))\<close>; the burst is the signed reading.\<close>

definition new_bucket :: "uint64 \<Rightarrow> rate_bucket" where
  "new_bucket limit = \<lparr>rb_limit = limit, rb_burst = sint limit\<rparr>"

definition fnvOffset32 :: uint32 where "fnvOffset32 = 2166136261"
definition fnvPrime32 :: uint32 where "fnvPrime32 = 16777619"
definition deviceLockShards :: nat where "deviceLockShards = 64"

definition deviceLock :: "string \<Rightarrow> nat" where
  "deviceLock key =
     unat (foldl (\<lambda>hash c. (hash XOR of_char c) * fnvPrime32) fnvOffset32 key) mod deviceLockShards"

section \<open>Adding, updating and deleting\<close>

definition toLimitUser :: "UserInfo \<Rightarrow> LimitUser" where
  "toLimitUser u = \<lparr>lu_UID = u_UID u, lu_SpeedLimit = u_SpeedLimit u, lu_DeviceLimit = u_DeviceLimit u\<rparr>"

text \<open>
  \<open>AddInboundLimiter\<close>. The second result is the cache of a replaced inbound, which the code
  closes.
\<close>

definition AddInboundLimiter ::
    "'c cache_iface \<Rightarrow> 'c Limiter \<Rightarrow> string \<Rightarrow> uint64 \<Rightarrow> UserInfo list
     \<Rightarrow> GlobalDeviceLimitConfig option \<Rightarrow> 'c Limiter \<times> 'c option" where
  "AddInboundLimiter iface l tag nodeSpeedLimit userList globalLimit =
     (let global = (case globalLimit of
                      None \<Rightarrow> None
                    | Some g \<Rightarrow> if gc_Enable g then Some (g, gi_new iface g) else None);
          userMap = foldl (\<lambda>m u. m(user_key tag u \<mapsto> toLimitUser u)) Map.empty userList;
          inboundInfo = \<lparr>ii_Tag = tag, ii_NodeSpeedLimit = nodeSpeedLimit, ii_UserInfo = userMap,
                         ii_BucketHub = [], ii_UserOnlineIP = [], ii_GlobalLimit = global\<rparr>
      in (l\<lparr>lim_InboundInfo := (lim_InboundInfo l)(tag \<mapsto> inboundInfo)\<rparr>,
          Option.bind (lim_InboundInfo l tag) (\<lambda>old. map_option snd (ii_GlobalLimit old))))"

definition update_user ::
    "string \<Rightarrow> 'c InboundInfo \<times> rate_bucket list \<Rightarrow> UserInfo \<Rightarrow> 'c InboundInfo \<times> rate_bucket list" where
  "update_user tag st u =
     (let (ii, heap) = st;
          email = user_key tag u;
          ii1 = ii\<lparr>ii_UserInfo := (ii_UserInfo ii)(email \<mapsto> toLimitUser u)\<rparr>;
          limit = determineRate (ii_NodeSpeedLimit ii) (u_SpeedLimit u)
      in if limit > 0 then
           (case load (ii_BucketHub ii1) email of
              Some a \<Rightarrow> (ii1, heap[a := \<lparr>rb_limit = limit, rb_burst = sint limit\<rparr>])
            | None \<Rightarrow> (ii1, heap))
         else (ii1\<lparr>ii_BucketHub := del email (ii_BucketHub ii1)\<rparr>, heap))"

definition UpdateInboundLimiter :: "'c Limiter \<Rightarrow> string \<Rightarrow> UserInfo list \<Rightarrow> go_error option \<times> 'c Limiter" where
  "UpdateInboundLimiter l tag updatedUserList =
     (case lim_InboundInfo l tag of
        Some ii \<Rightarrow>
          (let (ii', heap') = foldl (update_user tag) (ii, lim_heap l) updatedUserList
           in (None, l\<lparr>lim_InboundInfo := (lim_InboundInfo l)(tag \<mapsto> ii'), lim_heap := heap'\<rparr>))
      | None \<Rightarrow> (Some (Error (''no such inbound in limiter: '' @ tag)), l))"

definition delete_user :: "string \<Rightarrow> 'c InboundInfo \<Rightarrow> UserInfo \<Rightarrow> 'c InboundInfo" where
  "delete_user tag ii user =
     (let email = user_key tag user in
      ii\<lparr>ii_UserInfo := (ii_UserInfo ii)(email := None),
         ii_BucketHub := del email (ii_BucketHub ii),
         ii_UserOnlineIP := del email (ii_UserOnlineIP ii)\<rparr>)"

definition DeleteInboundLimiterUsers ::
    "'c Limiter \<Rightarrow> string \<Rightarrow> UserInfo list \<Rightarrow> go_error option \<times> 'c Limiter" where
  "DeleteInboundLimiterUsers l tag deletedUserList =
     (case lim_InboundInfo l tag of
        None \<Rightarrow> (Some (Error (''no such inbound in limiter: '' @ tag)), l)
      | Some ii \<Rightarrow>
          (None, l\<lparr>lim_InboundInfo :=
                     (lim_InboundInfo l)(tag \<mapsto> foldl (delete_user tag) ii deletedUserList)\<rparr>))"

definition DeleteInboundLimiter :: "'c Limiter \<Rightarrow> string \<Rightarrow> 'c Limiter \<times> 'c option" where
  "DeleteInboundLimiter l tag =
     (l\<lparr>lim_InboundInfo := (lim_InboundInfo l)(tag := None)\<rparr>,
      Option.bind (lim_InboundInfo l tag) (\<lambda>old. map_option snd (ii_GlobalLimit old)))"

section \<open>Online devices\<close>

definition GetOnlineDevice :: "'c Limiter \<Rightarrow> string \<Rightarrow> OnlineUser list result \<times> 'c Limiter" where
  "GetOnlineDevice l tag =
     (case lim_InboundInfo l tag of
        Some ii \<Rightarrow>
          (let hub = foldl (\<lambda>hub email. if load (ii_UserOnlineIP ii) email = None then del email hub else hub)
                       (ii_BucketHub ii) (keys (ii_BucketHub ii));
               (onlineUser, online) =
                 foldl (\<lambda>(acc, online) (email, ipMap).
                          (acc @ map (\<lambda>(ip, uid). \<lparr>ou_UID = uid, ou_IP = ip\<rparr>) ipMap, del email online))
                   ([], ii_UserOnlineIP ii) (ii_UserOnlineIP ii)
           in (Inr onlineUser,
               l\<lparr>lim_InboundInfo := (lim_InboundInfo l)
                   (tag \<mapsto> ii\<lparr>ii_BucketHub := hub, ii_UserOnlineIP := online\<rparr>)\<rparr>))
      | None \<Rightarrow> (Inl (Error (''no such inbound in limiter: '' @ tag)), l))"

section \<open>Admission of a connection\<close>

text \<open>The \<open>Range\<close> that counts addresses and stops at the limit.\<close>

fun countIPs :: "int \<Rightarrow> int \<Rightarrow> ip_map \<Rightarrow> int" where
  "countIPs deviceLimit counter [] = counter"
| "countIPs deviceLimit counter (x # xs) =
     (if counter + 1 < deviceLimit then countIPs deviceLimit (counter + 1) xs else counter + 1)"

definition localDeviceLimit ::
    "'c InboundInfo \<Rightarrow> string \<Rightarrow> string \<Rightarrow> int \<Rightarrow> int \<Rightarrow> bool \<times> 'c InboundInfo" where
  "localDeviceLimit ii email ip uid deviceLimit =
     (let (ipMap, ii1) =
            (case load (ii_UserOnlineIP ii) email of
               Some m \<Rightarrow> (m, ii)
             | None \<Rightarrow> ([], ii\<lparr>ii_UserOnlineIP := store email [] (ii_UserOnlineIP ii)\<rparr>))
      in if load ipMap ip \<noteq> None then (True, ii1)
         else let counter = (if deviceLimit > 0 then countIPs deviceLimit 0 ipMap else 0) in
           if deviceLimit > 0 \<and> counter \<ge> deviceLimit then (False, ii1)
           else (True, ii1\<lparr>ii_UserOnlineIP := store email (store ip uid ipMap) (ii_UserOnlineIP ii1)\<rparr>))"

definition userBucket ::
    "'c InboundInfo \<Rightarrow> rate_bucket list \<Rightarrow> string \<Rightarrow> uint64
     \<Rightarrow> (nat option \<times> bool) \<times> 'c InboundInfo \<times> rate_bucket list" where
  "userBucket ii heap email limit =
     (if limit > 0 then
        (case load (ii_BucketHub ii) email of
           Some a \<Rightarrow> ((Some a, True), ii, heap)
         | None \<Rightarrow>
             ((Some (length heap), True),
              ii\<lparr>ii_BucketHub := store email (length heap) (ii_BucketHub ii)\<rparr>, heap @ [new_bucket limit]))
      else ((None, False), ii, heap))"

definition pushIP :: "'c cache_iface \<Rightarrow> 'c \<Rightarrow> string \<Rightarrow> ip_map \<Rightarrow> go_error option \<times> 'c" where
  "pushIP iface c uniqueKey ipMap = gi_Set iface c uniqueKey ipMap"

text \<open>
  \<open>globalLimit\<close>: True rejects. The cache is asked through \<open>ReserveIP\<close> when its type has it, and
  through \<open>Get\<close> and \<open>Set\<close> otherwise; an error of the cache service accepts.
\<close>

definition globalLimit ::
    "'c cache_iface \<Rightarrow> string \<Rightarrow> 'c \<Rightarrow> string \<Rightarrow> int \<Rightarrow> string \<Rightarrow> int \<Rightarrow> bool \<times> 'c" where
  "globalLimit iface tag c email uid ip deviceLimit =
     (let uniqueKey = Replace1 email tag (Itoa deviceLimit) in
      case gi_ReserveIP iface of
        Some reserve \<Rightarrow>
          (case reserve c uniqueKey ip uid deviceLimit of
             (Inl err, c') \<Rightarrow> (False, c')
           | (Inr accepted, c') \<Rightarrow> (\<not> accepted, c'))
      | None \<Rightarrow>
          (case gi_Get iface c uniqueKey of
             (NotFound, c') \<Rightarrow> (False, snd (pushIP iface c' uniqueKey [(ip, uid)]))
           | (GetFailed err, c') \<Rightarrow> (False, c')
           | (Found ipMap, c') \<Rightarrow>
               if load ipMap ip \<noteq> None then (False, c')
               else if deviceLimit > 0 \<and> int (length ipMap) \<ge> deviceLimit then (True, c')
               else (False, snd (pushIP iface c' uniqueKey (store ip uid ipMap)))))"

definition GetUserBucket ::
    "'c cache_iface \<Rightarrow> 'c Limiter \<Rightarrow> string \<Rightarrow> string \<Rightarrow> string
     \<Rightarrow> (nat option \<times> bool \<times> bool) \<times> 'c Limiter" where
  "GetUserBucket iface l tag email ip =
     (case lim_InboundInfo l tag of
        None \<Rightarrow> ((None, False, False), l)
      | Some ii \<Rightarrow>
          (case ii_UserInfo ii email of
             None \<Rightarrow> ((None, False, False), l)
           | Some u \<Rightarrow>
               (let (ok, ii1) = localDeviceLimit ii email ip (lu_UID u) (lu_DeviceLimit u) in
                if \<not> ok then
                  ((None, False, True), l\<lparr>lim_InboundInfo := (lim_InboundInfo l)(tag \<mapsto> ii1)\<rparr>)
                else
                  let limit = determineRate (ii_NodeSpeedLimit ii) (lu_SpeedLimit u);
                      ((bucket, speedLimited), ii2, heap) = userBucket ii1 (lim_heap l) email limit;
                      l2 = l\<lparr>lim_InboundInfo := (lim_InboundInfo l)(tag \<mapsto> ii2), lim_heap := heap\<rparr>
                  in case ii_GlobalLimit ii2 of
                       Some (config, c) \<Rightarrow>
                         if gc_Enable config then
                           (let (reject, c') =
                                  globalLimit iface (ii_Tag ii2) c email (lu_UID u) ip (lu_DeviceLimit u);
                                l3 = l\<lparr>lim_InboundInfo := (lim_InboundInfo l)
                                         (tag \<mapsto> ii2\<lparr>ii_GlobalLimit := Some (config, c')\<rparr>),
                                       lim_heap := heap\<rparr>
                            in if reject then ((None, False, True), l3)
                               else ((bucket, speedLimited, False), l3))
                         else ((bucket, speedLimited, False), l2)
                     | None \<Rightarrow> ((bucket, speedLimited, False), l2))))"

section \<open>Facts about rates, keys and locks\<close>


lemma determineRate_min:
  "determineRate n u = (if n = 0 then u else if u = 0 then n else min n u)"
  by (cases "n = 0"; cases "u = 0"; cases n u rule: linorder_cases)
    (auto simp: determineRate_def min_def word_gt_0 dest: less_imp_le)

lemma determineRate_zero: "determineRate n u = 0 \<longleftrightarrow> n = 0 \<and> u = 0"
  by (auto simp: determineRate_min min_def)

lemma deviceLock_bound: "deviceLock key < deviceLockShards"
  by (simp add: deviceLock_def deviceLockShards_def)

lemma uniqueKey_formatUserKey:
  "Replace1 (formatUserKey tag email uid) tag (Itoa d) = formatUserKey (Itoa d) email uid"
proof (cases tag)
  case Nil
  then show ?thesis by (simp add: formatUserKey_def HasPrefix_def)
next
  case (Cons c cs)
  then show ?thesis using Replace1_prefix [of tag] by (simp add: formatUserKey_def)
qed

section \<open>The local device table\<close>

lemma countIPs_ge:
  assumes "counter < d"
  shows "d \<le> countIPs d counter m \<longleftrightarrow> d \<le> counter + int (length m)"
  using assms by (induction m arbitrary: counter) auto

definition online_ips :: "'c InboundInfo \<Rightarrow> string \<Rightarrow> string set" where
  "online_ips ii email = (case load (ii_UserOnlineIP ii) email of None \<Rightarrow> {} | Some m \<Rightarrow> set (keys m))"

definition online_wf :: "'c InboundInfo \<Rightarrow> bool" where
  "online_wf ii \<longleftrightarrow> wf_map (ii_UserOnlineIP ii) \<and>
     (\<forall>email m. load (ii_UserOnlineIP ii) email = Some m \<longrightarrow> wf_map m)"

definition reserve_online ::
    "'c InboundInfo \<Rightarrow> int \<Rightarrow> string \<Rightarrow> string \<Rightarrow> int \<Rightarrow> int \<Rightarrow> bool \<times> 'c InboundInfo" where
  "reserve_online ii now email ip uid d = localDeviceLimit ii email ip uid d"

lemma localDeviceLimit_admits:
  assumes "online_wf ii"
  shows "fst (localDeviceLimit ii email ip uid d) \<longleftrightarrow> admits d (online_ips ii email) ip"
proof (cases "load (ii_UserOnlineIP ii) email")
  case None
  then show ?thesis by (auto simp: localDeviceLimit_def online_ips_def admits_def)
next
  case (Some m)
  with assms have "wf_map m" by (auto simp: online_wf_def)
  with Some show ?thesis
    using countIPs_ge [of 0 d m]
    by (simp add: localDeviceLimit_def online_ips_def admits_length_fst Let_def)
qed

lemma localDeviceLimit_ips:
  assumes "online_wf ii"
  shows "online_ips (snd (localDeviceLimit ii email ip uid d)) e =
           (if e = email then admit_set d (online_ips ii email) ip else online_ips ii e)"
proof (cases "fst (localDeviceLimit ii email ip uid d)")
  case True
  with localDeviceLimit_admits [OF assms] have "admit_set d (online_ips ii email) ip = insert ip (online_ips ii email)"
    by (simp add: admit_set_def)
  with True show ?thesis
    by (cases "load (ii_UserOnlineIP ii) email")
      (auto simp: localDeviceLimit_def online_ips_def Let_def load_Some_key split: if_splits)
next
  case False
  with localDeviceLimit_admits [OF assms] have "admit_set d (online_ips ii email) ip = online_ips ii email"
    by (simp add: admit_set_def)
  with False show ?thesis
    by (cases "load (ii_UserOnlineIP ii) email")
      (auto simp: localDeviceLimit_def online_ips_def Let_def split: if_splits)
qed

lemma localDeviceLimit_wf: "online_wf ii \<Longrightarrow> online_wf (snd (localDeviceLimit ii email ip uid d))"
  by (auto simp: localDeviceLimit_def online_wf_def Let_def split: option.splits if_splits)

lemma online_ips_finite: "finite (online_ips ii email)"
  by (simp add: online_ips_def split: option.splits)

lemma localDeviceLimit_frame [simp]:
  "ii_Tag (snd (localDeviceLimit ii email ip uid d)) = ii_Tag ii"
  "ii_NodeSpeedLimit (snd (localDeviceLimit ii email ip uid d)) = ii_NodeSpeedLimit ii"
  "ii_UserInfo (snd (localDeviceLimit ii email ip uid d)) = ii_UserInfo ii"
  "ii_BucketHub (snd (localDeviceLimit ii email ip uid d)) = ii_BucketHub ii"
  "ii_GlobalLimit (snd (localDeviceLimit ii email ip uid d)) = ii_GlobalLimit ii"
  by (simp_all add: localDeviceLimit_def Let_def split: option.splits)

interpretation online_table: ip_admission
  reserve_online "\<lambda>ii now email. online_ips ii email" online_wf
  by unfold_locales
    (simp_all add: reserve_online_def localDeviceLimit_admits localDeviceLimit_ips
      localDeviceLimit_wf online_ips_finite)

section \<open>The limiter invariant\<close>

text \<open>
  The bucket a user's connections wait on always carries the user's current effective rate,
  and no two users share a bucket.
\<close>

definition bucket_at :: "'c Limiter \<Rightarrow> string \<Rightarrow> string \<Rightarrow> nat option" where
  "bucket_at l tag email =
     Option.bind (lim_InboundInfo l tag) (\<lambda>ii. load (ii_BucketHub ii) email)"

definition effective_rate :: "'c InboundInfo \<Rightarrow> string \<Rightarrow> uint64" where
  "effective_rate ii email =
     (case ii_UserInfo ii email of
        None \<Rightarrow> 0 | Some u \<Rightarrow> determineRate (ii_NodeSpeedLimit ii) (lu_SpeedLimit u))"

lemma effective_rate_frame [simp]:
  "effective_rate (ii\<lparr>ii_BucketHub := hub\<rparr>) e = effective_rate ii e"
  "effective_rate (ii\<lparr>ii_UserOnlineIP := online\<rparr>) e = effective_rate ii e"
  "effective_rate (ii\<lparr>ii_GlobalLimit := g\<rparr>) e = effective_rate ii e"
  by (simp_all add: effective_rate_def split: option.splits)

lemma effective_rate_user:
  "f e = ii_UserInfo ii e \<Longrightarrow> effective_rate (ii\<lparr>ii_UserInfo := f\<rparr>) e = effective_rate ii e"
  by (simp add: effective_rate_def split: option.splits)

definition hub_ok :: "rate_bucket list \<Rightarrow> 'c InboundInfo \<Rightarrow> bool" where
  "hub_ok heap ii \<longleftrightarrow> wf_map (ii_BucketHub ii) \<and>
     (\<forall>email a. load (ii_BucketHub ii) email = Some a \<longrightarrow>
        a < length heap \<and> effective_rate ii email > 0 \<and> heap ! a = new_bucket (effective_rate ii email))"

definition limiter_inv :: "'c Limiter \<Rightarrow> bool" where
  "limiter_inv l \<longleftrightarrow>
     (\<forall>tag ii. lim_InboundInfo l tag = Some ii \<longrightarrow>
        ii_Tag ii = tag \<and> online_wf ii \<and> hub_ok (lim_heap l) ii) \<and>
     (\<forall>t e t' e' a. bucket_at l t e = Some a \<longrightarrow> bucket_at l t' e' = Some a \<longrightarrow> t = t' \<and> e = e')"

lemma limiter_invD:
  assumes "limiter_inv l" and "lim_InboundInfo l tag = Some ii"
  shows "ii_Tag ii = tag" and "online_wf ii" and "hub_ok (lim_heap l) ii"
  using assms by (auto simp: limiter_inv_def)

lemma limiter_inv_unshared:
  "limiter_inv l \<Longrightarrow> bucket_at l t e = Some a \<Longrightarrow> bucket_at l t' e' = Some a \<Longrightarrow> t = t' \<and> e = e'"
  by (simp add: limiter_inv_def)

lemma limiter_inv_bound: "limiter_inv l \<Longrightarrow> bucket_at l t e = Some a \<Longrightarrow> a < length (lim_heap l)"
  by (auto simp: bucket_at_def limiter_inv_def hub_ok_def split: bind_splits)

lemma bucket_at_upd:
  "bucket_at (l\<lparr>lim_InboundInfo := (lim_InboundInfo l)(tag \<mapsto> ii), lim_heap := h\<rparr>) t e =
     (if t = tag then load (ii_BucketHub ii) e else bucket_at l t e)"
  by (simp add: bucket_at_def)

lemma limiter_inv_New: "limiter_inv limiter_New"
  by (simp add: limiter_inv_def limiter_New_def bucket_at_def)

text \<open>
  One inbound changes: the invariant is kept when the new inbound is well formed on the new
  heap, its buckets are old ones of the same user or fresh, and the buckets of the other
  inbounds are untouched.
\<close>

lemma limiter_inv_upd:
  assumes inv: "limiter_inv l"
    and new: "ii_Tag ii = tag" "online_wf ii" "hub_ok h ii"
    and own: "\<And>e a. load (ii_BucketHub ii) e = Some a \<Longrightarrow>
                bucket_at l tag e = Some a \<or> length (lim_heap l) \<le> a"
    and inj: "\<And>e e' a. load (ii_BucketHub ii) e = Some a \<Longrightarrow> load (ii_BucketHub ii) e' = Some a \<Longrightarrow> e = e'"
    and len: "length (lim_heap l) \<le> length h"
    and keep: "\<And>t e a. t \<noteq> tag \<Longrightarrow> bucket_at l t e = Some a \<Longrightarrow> h ! a = lim_heap l ! a"
  shows "limiter_inv (l\<lparr>lim_InboundInfo := (lim_InboundInfo l)(tag \<mapsto> ii), lim_heap := h\<rparr>)"
proof -
  note old_lt = limiter_inv_bound [OF inv]
  have others: "hub_ok h jj" if "lim_InboundInfo l t = Some jj" "t \<noteq> tag" for t jj
    using that limiter_invD(3) [OF inv that(1)] keep [of t] len
    by (fastforce simp: hub_ok_def bucket_at_def)
  have cross: "t = t' \<and> e = e'"
    if "bucket_at (l\<lparr>lim_InboundInfo := (lim_InboundInfo l)(tag \<mapsto> ii), lim_heap := h\<rparr>) t e = Some a"
      "bucket_at (l\<lparr>lim_InboundInfo := (lim_InboundInfo l)(tag \<mapsto> ii), lim_heap := h\<rparr>) t' e' = Some a"
    for t e t' e' a
    using that inj own old_lt limiter_inv_unshared [OF inv]
    unfolding bucket_at_upd by (metis leD)
  have inbounds: "ii_Tag jj = t \<and> online_wf jj \<and> hub_ok h jj"
    if "((lim_InboundInfo l)(tag \<mapsto> ii)) t = Some jj" for t jj
  proof (cases "t = tag")
    case True
    with that new show ?thesis by simp
  next
    case False
    with that have "lim_InboundInfo l t = Some jj" by simp
    with False others limiter_invD [OF inv] show ?thesis by blast
  qed
  show ?thesis
    unfolding limiter_inv_def using inbounds cross by simp
qed

section \<open>Every operation keeps the invariant\<close>

lemma limiter_inv_inbound:
  assumes inv: "limiter_inv l" and new: "ii_Tag ii = tag" "online_wf ii" "hub_ok (lim_heap l) ii"
    and sub: "\<And>e a. load (ii_BucketHub ii) e = Some a \<Longrightarrow> bucket_at l tag e = Some a"
  shows "limiter_inv (l\<lparr>lim_InboundInfo := (lim_InboundInfo l)(tag \<mapsto> ii)\<rparr>)"
proof -
  have "limiter_inv (l\<lparr>lim_InboundInfo := (lim_InboundInfo l)(tag \<mapsto> ii), lim_heap := lim_heap l\<rparr>)"
    using sub limiter_inv_unshared [OF inv] by (intro limiter_inv_upd [OF inv new]) blast+
  then show ?thesis by simp
qed

lemma AddInboundLimiter_inv [wf_intros]:
  "limiter_inv l \<Longrightarrow> limiter_inv (fst (AddInboundLimiter iface l tag n us g))"
  unfolding AddInboundLimiter_def Let_def fst_conv
  by (rule limiter_inv_inbound) (simp_all add: online_wf_def hub_ok_def)

lemma update_user_hub:
  "ii_BucketHub (fst (update_user tag (ii, h) u)) = ii_BucketHub ii \<or>
   ii_BucketHub (fst (update_user tag (ii, h) u)) = del (user_key tag u) (ii_BucketHub ii)"
  by (simp add: update_user_def Let_def split: option.splits)

lemma update_user_frame [simp]:
  "ii_Tag (fst (update_user tag (ii, h) u)) = ii_Tag ii"
  "ii_NodeSpeedLimit (fst (update_user tag (ii, h) u)) = ii_NodeSpeedLimit ii"
  "ii_UserOnlineIP (fst (update_user tag (ii, h) u)) = ii_UserOnlineIP ii"
  "ii_GlobalLimit (fst (update_user tag (ii, h) u)) = ii_GlobalLimit ii"
  "ii_UserInfo (fst (update_user tag (ii, h) u)) = (ii_UserInfo ii)(user_key tag u \<mapsto> toLimitUser u)"
  "length (snd (update_user tag (ii, h) u)) = length h"
  by (simp_all add: update_user_def Let_def split: option.splits)

lemma update_user_hub_ok:
  assumes ok: "hub_ok h ii"
    and inj: "\<And>e e' a. load (ii_BucketHub ii) e = Some a \<Longrightarrow> load (ii_BucketHub ii) e' = Some a \<Longrightarrow> e = e'"
  shows "hub_ok (snd (update_user tag (ii, h) u)) (fst (update_user tag (ii, h) u))"
proof -
  let ?k = "user_key tag u" and ?r = "determineRate (ii_NodeSpeedLimit ii) (u_SpeedLimit u)"
  have er: "effective_rate (fst (update_user tag (ii, h) u)) e = (if e = ?k then ?r else effective_rate ii e)" for e
    by (cases "ii_UserInfo ii e") (simp_all add: effective_rate_def toLimitUser_def)
  show ?thesis
  proof (cases "?r > 0")
    case False
    with ok show ?thesis
      unfolding hub_ok_def er by (simp add: update_user_def Let_def)
  next
    case pos: True
    show ?thesis
    proof (cases "load (ii_BucketHub ii) ?k")
      case None
      with ok pos show ?thesis unfolding hub_ok_def er by (auto simp: update_user_def Let_def)
    next
      case (Some a)
      have "b \<noteq> a" if "load (ii_BucketHub ii) e = Some b" "e \<noteq> ?k" for e b
        using inj [OF Some, of e] that by auto
      then have "h[a := new_bucket ?r] ! b = h ! b" if "load (ii_BucketHub ii) e = Some b" "e \<noteq> ?k" for e b
        using that by (metis nth_list_update_neq)
      with Some ok pos show ?thesis
        unfolding hub_ok_def er by (auto simp: update_user_def Let_def simp flip: new_bucket_def)
    qed
  qed
qed

lemma update_user_other_buckets:
  assumes "load (ii_BucketHub ii) (user_key tag u) \<noteq> Some b"
  shows "snd (update_user tag (ii, h) u) ! b = h ! b"
  using assms by (auto simp: update_user_def Let_def split: option.splits)

lemma update_user_inv:
  assumes inv: "limiter_inv l" and ii: "lim_InboundInfo l tag = Some ii"
    and st: "update_user tag (ii, lim_heap l) u = (ii', h')"
  shows "limiter_inv (l\<lparr>lim_InboundInfo := (lim_InboundInfo l)(tag \<mapsto> ii'), lim_heap := h'\<rparr>)"
proof -
  note un = limiter_inv_unshared [OF inv]
  have at: "bucket_at l tag e = load (ii_BucketHub ii) e" for e
    using ii by (simp add: bucket_at_def)
  have inj: "load (ii_BucketHub ii) e = Some a \<Longrightarrow> load (ii_BucketHub ii) e' = Some a \<Longrightarrow> e = e'" for e e' a
    using un [of tag e a tag e'] at by simp
  have sub: "load (ii_BucketHub ii') e = Some a \<Longrightarrow> load (ii_BucketHub ii) e = Some a" for e a
    using update_user_hub [of tag ii "lim_heap l" u] st by (auto split: if_splits)
  have "hub_ok h' ii'"
    using update_user_hub_ok [OF limiter_invD(3) [OF inv ii] inj, where tag = tag and u = u] st by simp
  moreover have "ii_Tag ii' = tag" "online_wf ii'" "length h' = length (lim_heap l)"
    using limiter_invD [OF inv ii] update_user_frame [of tag ii "lim_heap l" u] st
    by (simp_all add: online_wf_def)
  moreover have "h' ! b = lim_heap l ! b" if "t \<noteq> tag" "bucket_at l t e = Some b" for t e b
    using update_user_other_buckets [of ii tag u b "lim_heap l"] st un [OF that(2), of tag] that(1) at by auto
  ultimately show ?thesis
    using inj sub at by (intro limiter_inv_upd [OF inv]) auto
qed

lemma UpdateInboundLimiter_inv [wf_intros]:
  assumes inv: "limiter_inv l"
  shows "limiter_inv (snd (UpdateInboundLimiter l tag us))"
proof (cases "lim_InboundInfo l tag")
  case None
  with inv show ?thesis by (simp add: UpdateInboundLimiter_def)
next
  case (Some ii)
  let ?L = "\<lambda>st. l\<lparr>lim_InboundInfo := (lim_InboundInfo l)(tag \<mapsto> fst st), lim_heap := snd st\<rparr>"
  have "limiter_inv (?L (foldl (update_user tag) (ii, lim_heap l) us))"
  proof (rule foldl_invariant)
    have "l\<lparr>lim_InboundInfo := (lim_InboundInfo l)(tag \<mapsto> ii), lim_heap := lim_heap l\<rparr> = l"
      using Some by (simp add: fun_upd_idem)
    with inv show "limiter_inv (?L (ii, lim_heap l))" by simp
  next
    fix st u
    assume "limiter_inv (?L st)"
    then show "limiter_inv (?L (update_user tag st u))"
      using update_user_inv [of "?L st" tag "fst st" u] by (cases "update_user tag st u") simp
  qed
  with Some show ?thesis by (simp add: UpdateInboundLimiter_def case_prod_beta)
qed

lemma update_users_UserInfo:
  "ii_UserInfo (fst (foldl (update_user tag) (ii, h) us)) =
     foldl (\<lambda>m u. m(user_key tag u \<mapsto> toLimitUser u)) (ii_UserInfo ii) us"
proof (induction us arbitrary: ii h)
  case (Cons u us)
  obtain jj k where "update_user tag (ii, h) u = (jj, k)" by fastforce
  with Cons [of jj k] update_user_frame(5) [of tag ii h u] show ?case
    by (simp del: fun_upd_apply)
qed simp

lemma update_users_NodeSpeedLimit:
  "ii_NodeSpeedLimit (fst (foldl (update_user tag) (ii, h) us)) = ii_NodeSpeedLimit ii"
proof (induction us arbitrary: ii h)
  case (Cons u us)
  obtain jj k where "update_user tag (ii, h) u = (jj, k)" by fastforce
  with Cons [of jj k] update_user_frame(2) [of tag ii h u] show ?case by simp
qed simp

lemma update_user_load_hub:
  "load (ii_BucketHub (fst (update_user tag (ii, h) u))) k =
     (if k = user_key tag u \<and> determineRate (ii_NodeSpeedLimit ii) (u_SpeedLimit u) = 0 then None
      else load (ii_BucketHub ii) k)"
  by (auto simp: update_user_def Let_def word_gt_0 split: option.splits)

lemma update_users_hub_notin:
  "k \<notin> user_key tag ` set us \<Longrightarrow>
   load (ii_BucketHub (fst (foldl (update_user tag) (ii, h) us))) k = load (ii_BucketHub ii) k"
proof (induction us arbitrary: ii h)
  case (Cons u us)
  obtain jj j where "update_user tag (ii, h) u = (jj, j)" by fastforce
  with Cons update_user_load_hub [of tag ii h u k] show ?case by simp
qed simp

lemma update_users_hub:
  assumes "u \<in> set us" and "inj_on (user_key tag) (set us)"
  shows "load (ii_BucketHub (fst (foldl (update_user tag) (ii, h) us))) (user_key tag u) =
     (if determineRate (ii_NodeSpeedLimit ii) (u_SpeedLimit u) > 0
      then load (ii_BucketHub ii) (user_key tag u) else None)"
  using assms
proof (induction us arbitrary: ii h)
  case (Cons v us)
  obtain jj j where st: "update_user tag (ii, h) v = (jj, j)" by fastforce
  have node: "ii_NodeSpeedLimit jj = ii_NodeSpeedLimit ii"
    using update_user_frame(2) [of tag ii h v] st by simp
  note hub = update_user_load_hub [of tag ii h v "user_key tag u", unfolded st fst_conv]
  show ?case
  proof (cases "u \<in> set us")
    case True
    then have "load (ii_BucketHub (fst (foldl (update_user tag) (jj, j) us))) (user_key tag u) =
        (if determineRate (ii_NodeSpeedLimit ii) (u_SpeedLimit u) > 0
         then load (ii_BucketHub jj) (user_key tag u) else None)"
      using Cons.IH [of jj j] Cons.prems(2) node by simp
    moreover have "user_key tag u = user_key tag v \<Longrightarrow> u = v"
      using Cons.prems by (auto simp: inj_on_def)
    ultimately show ?thesis using st hub by (auto simp: word_gt_0)
  next
    case False
    with Cons.prems have "u = v" by simp
    moreover from False Cons.prems have "user_key tag u \<notin> user_key tag ` set us"
      by (auto simp: inj_on_def)
    ultimately show ?thesis using st hub update_users_hub_notin [of "user_key tag u" tag us jj j]
      by (auto simp: word_gt_0)
  qed
qed simp

lemma delete_user_frame [simp]:
  "ii_Tag (delete_user tag ii u) = ii_Tag ii"
  "ii_NodeSpeedLimit (delete_user tag ii u) = ii_NodeSpeedLimit ii"
  "ii_GlobalLimit (delete_user tag ii u) = ii_GlobalLimit ii"
  "ii_UserInfo (delete_user tag ii u) = (ii_UserInfo ii)(user_key tag u := None)"
  "ii_BucketHub (delete_user tag ii u) = del (user_key tag u) (ii_BucketHub ii)"
  "ii_UserOnlineIP (delete_user tag ii u) = del (user_key tag u) (ii_UserOnlineIP ii)"
  by (simp_all add: delete_user_def Let_def)

lemma delete_user_rate:
  "effective_rate (delete_user tag ii u) e = (if e = user_key tag u then 0 else effective_rate ii e)"
  by (simp add: effective_rate_def split: option.splits)

lemma delete_user_wf:
  "online_wf ii \<Longrightarrow> online_wf (delete_user tag ii u)"
  "hub_ok h ii \<Longrightarrow> hub_ok h (delete_user tag ii u)"
  by (simp_all add: online_wf_def hub_ok_def delete_user_rate)

lemma delete_users_frame:
  "ii_Tag (foldl (delete_user tag) ii us) = ii_Tag ii"
  "online_wf ii \<Longrightarrow> online_wf (foldl (delete_user tag) ii us)"
  "hub_ok h ii \<Longrightarrow> hub_ok h (foldl (delete_user tag) ii us)"
  by (induction us arbitrary: ii) (simp_all add: delete_user_wf)

lemma delete_users_tables:
  "ii_UserInfo (foldl (delete_user tag) ii us) k =
     (if k \<in> user_key tag ` set us then None else ii_UserInfo ii k)"
  "load (ii_UserOnlineIP (foldl (delete_user tag) ii us)) k =
     (if k \<in> user_key tag ` set us then None else load (ii_UserOnlineIP ii) k)"
  "load (ii_BucketHub (foldl (delete_user tag) ii us)) k =
     (if k \<in> user_key tag ` set us then None else load (ii_BucketHub ii) k)"
  by (induction us arbitrary: ii) auto

lemma DeleteInboundLimiterUsers_inv [wf_intros]:
  assumes inv: "limiter_inv l"
  shows "limiter_inv (snd (DeleteInboundLimiterUsers l tag us))"
proof (cases "lim_InboundInfo l tag")
  case None
  with inv show ?thesis by (simp add: DeleteInboundLimiterUsers_def)
next
  case (Some ii)
  have "bucket_at l tag e = Some a" if "load (ii_BucketHub (foldl (delete_user tag) ii us)) e = Some a" for e a
    using that Some by (simp add: bucket_at_def delete_users_tables split: if_splits)
  with Some limiter_invD [OF inv Some] show ?thesis
    by (auto simp: DeleteInboundLimiterUsers_def delete_users_frame intro!: limiter_inv_inbound [OF inv])
qed

lemma DeleteInboundLimiter_inv [wf_intros]:
  assumes inv: "limiter_inv l"
  shows "limiter_inv (fst (DeleteInboundLimiter l tag))"
proof -
  let ?l = "l\<lparr>lim_InboundInfo := (lim_InboundInfo l)(tag := None)\<rparr>"
  have "bucket_at ?l t e = Some a \<Longrightarrow> bucket_at l t e = Some a" for t e a
    by (auto simp: bucket_at_def split: if_splits)
  then have "t = t' \<and> e = e'" if "bucket_at ?l t e = Some a" "bucket_at ?l t' e' = Some a" for t e t' e' a
    using that limiter_inv_unshared [OF inv] by blast
  then show ?thesis
    using limiter_invD [OF inv] unfolding limiter_inv_def DeleteInboundLimiter_def by auto
qed

section \<open>Reporting online devices\<close>

definition online_pairs :: "'c InboundInfo \<Rightarrow> (int \<times> string) set" where
  "online_pairs ii =
     {(uid, ip). \<exists>email m. load (ii_UserOnlineIP ii) email = Some m \<and> load m ip = Some uid}"

lemma online_fold:
  "foldl (\<lambda>(acc, online) (email, ipMap).
            (acc @ map (\<lambda>(ip, uid). \<lparr>ou_UID = uid, ou_IP = ip\<rparr>) ipMap, del email online)) (acc, o') xs =
   (acc @ concat (map (\<lambda>(email, ipMap). map (\<lambda>(ip, uid). \<lparr>ou_UID = uid, ou_IP = ip\<rparr>) ipMap) xs),
    foldl (\<lambda>h x. del (fst x) h) o' xs)"
  by (induction xs arbitrary: acc o') (auto simp: case_prod_beta)

definition online_hub :: "'c InboundInfo \<Rightarrow> (string, nat) gomap" where
  "online_hub ii = foldl (\<lambda>hub email. if load (ii_UserOnlineIP ii) email = None then del email hub else hub)
                     (ii_BucketHub ii) (keys (ii_BucketHub ii))"

lemma load_online_hub:
  "load (online_hub ii) e = (if load (ii_UserOnlineIP ii) e = None then None else load (ii_BucketHub ii) e)"
  unfolding online_hub_def load_foldl_del_if by (auto simp: map_of_eq_None_iff)

lemma GetOnlineDevice_Some:
  assumes "lim_InboundInfo l tag = Some ii"
  shows "GetOnlineDevice l tag =
    (Inr (concat (map (\<lambda>(email, ipMap). map (\<lambda>(ip, uid). \<lparr>ou_UID = uid, ou_IP = ip\<rparr>) ipMap) (ii_UserOnlineIP ii))),
     l\<lparr>lim_InboundInfo := (lim_InboundInfo l)
        (tag \<mapsto> ii\<lparr>ii_BucketHub := online_hub ii, ii_UserOnlineIP := []\<rparr>)\<rparr>)"
  using assms by (simp add: GetOnlineDevice_def online_fold foldl_del_all online_hub_def Let_def)

lemma GetOnlineDevice_inv [wf_intros]:
  assumes inv: "limiter_inv l"
  shows "limiter_inv (snd (GetOnlineDevice l tag))"
proof (cases "lim_InboundInfo l tag")
  case None
  with inv show ?thesis by (simp add: GetOnlineDevice_def)
next
  case (Some ii)
  have "wf_map (online_hub ii)"
    using limiter_invD(3) [OF inv Some] by (simp add: online_hub_def hub_ok_def wf_map_foldl_del_if)
  then have "hub_ok (lim_heap l) (ii\<lparr>ii_BucketHub := online_hub ii, ii_UserOnlineIP := []\<rparr>)"
    using limiter_invD(3) [OF inv Some]
    by (simp add: hub_ok_def load_online_hub)
  moreover have "bucket_at l tag e = Some a" if "load (online_hub ii) e = Some a" for e a
    using that Some by (simp add: bucket_at_def load_online_hub split: if_splits)
  ultimately show ?thesis
    unfolding GetOnlineDevice_Some [OF Some] snd_conv
    by (intro limiter_inv_inbound [OF inv]) (simp_all add: limiter_invD(1) [OF inv Some] online_wf_def)
qed

lemma set_online_report:
  assumes "online_wf ii"
  shows "(\<lambda>o'. (ou_UID o', ou_IP o')) `
     set (concat (map (\<lambda>(email, ipMap). map (\<lambda>(ip, uid). \<lparr>ou_UID = uid, ou_IP = ip\<rparr>) ipMap) (ii_UserOnlineIP ii)))
     = online_pairs ii"
proof -
  have wf: "wf_map (ii_UserOnlineIP ii)" "load (ii_UserOnlineIP ii) e = Some m \<Longrightarrow> wf_map m" for e m
    using assms by (auto simp: online_wf_def)
  have "(uid, ip) \<in> online_pairs ii \<longleftrightarrow>
      (\<exists>email m. (email, m) \<in> set (ii_UserOnlineIP ii) \<and> (ip, uid) \<in> set m)" for uid ip
    unfolding online_pairs_def mem_Collect_eq case_prod_conv wf_map_load_iff [OF wf(1)]
    using wf(2) wf_map_load_iff by metis
  then show ?thesis by (auto simp: image_iff) (metis, metis OnlineUser.select_convs case_prod_conv)
qed

section \<open>Admitting a connection keeps the invariant\<close>

lemma userBucket_frame:
  assumes "userBucket ii heap email limit = ((b, sp), ii', heap')"
  shows "ii_Tag ii' = ii_Tag ii" "ii_NodeSpeedLimit ii' = ii_NodeSpeedLimit ii"
    "ii_UserInfo ii' = ii_UserInfo ii" "ii_UserOnlineIP ii' = ii_UserOnlineIP ii"
    "ii_GlobalLimit ii' = ii_GlobalLimit ii" "sp \<longleftrightarrow> limit > 0"
    "length heap \<le> length heap'" "\<And>a. a < length heap \<Longrightarrow> heap' ! a = heap ! a"
    "effective_rate ii' e = effective_rate ii e"
  using assms by (auto simp: userBucket_def nth_append split: if_splits option.splits)

lemma userBucket_bucket:
  assumes "userBucket ii heap email limit = ((b, sp), ii', heap')"
    and "hub_ok heap ii" and "effective_rate ii email = limit"
  shows "hub_ok heap' ii'"
    and "limit > 0 \<Longrightarrow> \<exists>a. b = Some a \<and> load (ii_BucketHub ii') email = Some a \<and> a < length heap'
                          \<and> heap' ! a = new_bucket limit"
    and "limit = 0 \<Longrightarrow> b = None"
    and "\<And>e a. load (ii_BucketHub ii') e = Some a \<Longrightarrow>
           load (ii_BucketHub ii) e = Some a \<or> (e = email \<and> a = length heap)"
proof -
  have "hub_ok heap' ii' \<and>
    (limit > 0 \<longrightarrow> (\<exists>a. b = Some a \<and> load (ii_BucketHub ii') email = Some a \<and> a < length heap'
                          \<and> heap' ! a = new_bucket limit)) \<and>
    (limit = 0 \<longrightarrow> b = None) \<and>
    (\<forall>e a. load (ii_BucketHub ii') e = Some a \<longrightarrow>
           load (ii_BucketHub ii) e = Some a \<or> (e = email \<and> a = length heap))"
  proof (cases "load (ii_BucketHub ii) email")
    case None
    with assms show ?thesis
      by (auto simp: userBucket_def hub_ok_def nth_append less_Suc_eq split: if_splits)
  next
    case (Some a)
    with assms show ?thesis
      by (auto simp: userBucket_def hub_ok_def split: if_splits) metis
  qed
  then show "hub_ok heap' ii'"
    and "limit > 0 \<Longrightarrow> \<exists>a. b = Some a \<and> load (ii_BucketHub ii') email = Some a \<and> a < length heap'
                          \<and> heap' ! a = new_bucket limit"
    and "limit = 0 \<Longrightarrow> b = None"
    and "\<And>e a. load (ii_BucketHub ii') e = Some a \<Longrightarrow>
           load (ii_BucketHub ii) e = Some a \<or> (e = email \<and> a = length heap)"
    by blast+
qed

lemma admitted_inv:
  assumes inv: "limiter_inv l" and ii: "lim_InboundInfo l tag = Some ii"
    and u: "ii_UserInfo ii email = Some u"
    and loc: "localDeviceLimit ii email ip uid d = (ok, ii1)"
    and b: "userBucket ii1 (lim_heap l) email (determineRate (ii_NodeSpeedLimit ii) (lu_SpeedLimit u)) =
              ((b, sp), ii2, h)"
  shows "limiter_inv (l\<lparr>lim_InboundInfo := (lim_InboundInfo l)(tag \<mapsto> ii2\<lparr>ii_GlobalLimit := g\<rparr>), lim_heap := h\<rparr>)"
proof -
  have ii1: "ii_Tag ii1 = tag" "ii_NodeSpeedLimit ii1 = ii_NodeSpeedLimit ii"
      "ii_UserInfo ii1 = ii_UserInfo ii" "ii_BucketHub ii1 = ii_BucketHub ii" "online_wf ii1"
    using loc localDeviceLimit_frame [of ii email ip uid d] limiter_invD [OF inv ii]
      localDeviceLimit_wf [of ii email ip uid d] by simp_all
  have rates: "effective_rate ii1 e = effective_rate ii e" for e
    using ii1 by (simp add: effective_rate_def split: option.splits)
  have ok1: "hub_ok (lim_heap l) ii1"
    using limiter_invD(3) [OF inv ii] ii1(4) by (simp add: hub_ok_def rates)
  have "effective_rate ii1 email = determineRate (ii_NodeSpeedLimit ii) (lu_SpeedLimit u)"
    using u ii1 by (simp add: effective_rate_def)
  note bk = userBucket_bucket [OF b ok1 this]
  note fr = userBucket_frame [OF b]
  have at: "bucket_at l tag e = load (ii_BucketHub ii1) e" for e
    using ii ii1(4) by (simp add: bucket_at_def)
  note lt = limiter_inv_bound [OF inv]
  show ?thesis
  proof (rule limiter_inv_upd [OF inv])
    show "ii_Tag (ii2\<lparr>ii_GlobalLimit := g\<rparr>) = tag" using fr ii1 by simp
    show "online_wf (ii2\<lparr>ii_GlobalLimit := g\<rparr>)" using fr ii1 by (simp add: online_wf_def)
    show "hub_ok h (ii2\<lparr>ii_GlobalLimit := g\<rparr>)" using bk(1) by (simp add: hub_ok_def)
    show "length (lim_heap l) \<le> length h" by (rule fr(7))
    show "bucket_at l tag e = Some a \<or> length (lim_heap l) \<le> a"
      if "load (ii_BucketHub (ii2\<lparr>ii_GlobalLimit := g\<rparr>)) e = Some a" for e a
      using bk(4) [of e a] that at by auto
    show "e = e'" if "load (ii_BucketHub (ii2\<lparr>ii_GlobalLimit := g\<rparr>)) e = Some a"
      "load (ii_BucketHub (ii2\<lparr>ii_GlobalLimit := g\<rparr>)) e' = Some a" for e e' a
    proof -
      have "bucket_at l tag e = Some a \<or> (e = email \<and> a = length (lim_heap l))"
        and "bucket_at l tag e' = Some a \<or> (e' = email \<and> a = length (lim_heap l))"
        using bk(4) that at by simp_all
      then show ?thesis
        using lt [of tag e a] lt [of tag e' a] limiter_inv_unshared [OF inv, of tag e a tag e'] by auto
    qed
    show "h ! a = lim_heap l ! a" if "bucket_at l t e = Some a" for t e a
      using fr(8) lt [OF that] by simp
  qed
qed

lemma rejected_inv:
  assumes inv: "limiter_inv l" and ii: "lim_InboundInfo l tag = Some ii"
  shows "limiter_inv (l\<lparr>lim_InboundInfo := (lim_InboundInfo l)(tag \<mapsto> snd (localDeviceLimit ii email ip uid d))\<rparr>)"
proof (rule limiter_inv_inbound [OF inv])
  let ?ii = "snd (localDeviceLimit ii email ip uid d)"
  have rates: "effective_rate ?ii e = effective_rate ii e" for e
    by (simp add: effective_rate_def split: option.splits)
  show "hub_ok (lim_heap l) ?ii"
    using limiter_invD(3) [OF inv ii] unfolding hub_ok_def rates by simp
qed (use limiter_invD [OF inv ii] ii localDeviceLimit_wf in \<open>auto simp: bucket_at_def\<close>)

lemma GetUserBucket_inv [wf_intros]:
  assumes inv: "limiter_inv l"
  shows "limiter_inv (snd (GetUserBucket iface l tag email ip))"
proof (cases "lim_InboundInfo l tag")
  case None
  with inv show ?thesis by (simp add: GetUserBucket_def)
next
  case ii: (Some ii)
  show ?thesis
  proof (cases "ii_UserInfo ii email")
    case None
    with ii inv show ?thesis by (simp add: GetUserBucket_def)
  next
    case u: (Some u)
    obtain ok ii1 where loc: "localDeviceLimit ii email ip (lu_UID u) (lu_DeviceLimit u) = (ok, ii1)"
      by fastforce
    obtain b sp ii2 h where b: "userBucket ii1 (lim_heap l) email
        (determineRate (ii_NodeSpeedLimit ii) (lu_SpeedLimit u)) = ((b, sp), ii2, h)"
      by (metis prod.exhaust)
    note adm = admitted_inv [OF inv ii u loc b]
    have "limiter_inv (l\<lparr>lim_InboundInfo := (lim_InboundInfo l)(tag \<mapsto> ii2), lim_heap := h\<rparr>)"
      using adm [of "ii_GlobalLimit ii2"] by simp
    moreover have "limiter_inv (l\<lparr>lim_InboundInfo := (lim_InboundInfo l)(tag \<mapsto> ii1)\<rparr>)"
      using rejected_inv [OF inv ii, of email ip "lu_UID u" "lu_DeviceLimit u"] loc by simp
    ultimately show ?thesis
      using ii u loc b adm
      by (auto simp: GetUserBucket_def Let_def split: option.splits prod.splits if_splits)
  qed
qed

section \<open>Runs of the limiter\<close>

datatype limiter_op =
    OpAdd string uint64 "UserInfo list" "GlobalDeviceLimitConfig option"
  | OpUpdate string "UserInfo list"
  | OpDeleteUsers string "UserInfo list"
  | OpDelete string
  | OpOnline string
  | OpBucket string string string

fun limiter_step :: "'c cache_iface \<Rightarrow> 'c Limiter \<Rightarrow> limiter_op \<Rightarrow> 'c Limiter" where
  "limiter_step iface l (OpAdd tag n us g) = fst (AddInboundLimiter iface l tag n us g)"
| "limiter_step iface l (OpUpdate tag us) = snd (UpdateInboundLimiter l tag us)"
| "limiter_step iface l (OpDeleteUsers tag us) = snd (DeleteInboundLimiterUsers l tag us)"
| "limiter_step iface l (OpDelete tag) = fst (DeleteInboundLimiter l tag)"
| "limiter_step iface l (OpOnline tag) = snd (GetOnlineDevice l tag)"
| "limiter_step iface l (OpBucket tag email ip) = snd (GetUserBucket iface l tag email ip)"

text \<open>The states reached from an empty limiter by operations that satisfy \<open>P\<close>, in any order.\<close>

inductive limiter_reach :: "'c cache_iface \<Rightarrow> (limiter_op \<Rightarrow> bool) \<Rightarrow> 'c Limiter \<Rightarrow> bool"
  for iface and P where
  reach_new: "limiter_reach iface P limiter_New"
| reach_step: "limiter_reach iface P l \<Longrightarrow> P op \<Longrightarrow> limiter_reach iface P (limiter_step iface l op)"

lemma limiter_step_inv: "limiter_inv l \<Longrightarrow> limiter_inv (limiter_step iface l op)"
  by (cases op) (simp_all add: wf_intros)

lemma limiter_reach_inv: "limiter_reach iface P l \<Longrightarrow> limiter_inv l"
  by (induction rule: limiter_reach.induct) (simp_all add: limiter_inv_New limiter_step_inv)

lemma reach_steps:
  "list_all P ops \<Longrightarrow> limiter_reach iface P l \<Longrightarrow> limiter_reach iface P (foldl (limiter_step iface) l ops)"
  by (induction ops arbitrary: l) (auto intro: limiter_reach.reach_step)

lemmas reach_ops = reach_steps [OF _ reach_new]

subsection \<open>Device limits over runs\<close>

definition limit_within :: "int \<Rightarrow> UserInfo \<Rightarrow> bool" where
  "limit_within D u \<longleftrightarrow> 0 < u_DeviceLimit u \<and> u_DeviceLimit u \<le> D"

fun op_limits :: "int \<Rightarrow> limiter_op \<Rightarrow> bool" where
  "op_limits D (OpAdd tag n us g) \<longleftrightarrow> list_all (limit_within D) us"
| "op_limits D (OpUpdate tag us) \<longleftrightarrow> list_all (limit_within D) us"
| "op_limits D _ \<longleftrightarrow> True"

definition users_within :: "int \<Rightarrow> (string \<rightharpoonup> LimitUser) \<Rightarrow> bool" where
  "users_within D us \<longleftrightarrow> (\<forall>e u. us e = Some u \<longrightarrow> 0 < lu_DeviceLimit u \<and> lu_DeviceLimit u \<le> D)"

definition devices_within :: "int \<Rightarrow> 'c InboundInfo \<Rightarrow> bool" where
  "devices_within D ii \<longleftrightarrow>
     users_within D (ii_UserInfo ii) \<and> (\<forall>e. int (card (online_ips ii e)) \<le> D)"

definition limiter_within :: "int \<Rightarrow> 'c Limiter \<Rightarrow> bool" where
  "limiter_within D l \<longleftrightarrow> (\<forall>tag ii. lim_InboundInfo l tag = Some ii \<longrightarrow> devices_within D ii)"

lemma users_within_upd:
  "users_within D us \<Longrightarrow> limit_within D u \<Longrightarrow> users_within D (us(k \<mapsto> toLimitUser u))"
  by (auto simp: users_within_def limit_within_def toLimitUser_def)

lemma users_within_foldl:
  "list_all (limit_within D) us \<Longrightarrow> users_within D m \<Longrightarrow>
   users_within D (foldl (\<lambda>m u. m(user_key tag u \<mapsto> toLimitUser u)) m us)"
  by (induction us arbitrary: m) (auto intro: users_within_upd)

lemma online_ips_cong: "ii_UserOnlineIP ii = ii_UserOnlineIP jj \<Longrightarrow> online_ips ii e = online_ips jj e"
  by (simp add: online_ips_def)

lemma update_users_within:
  "list_all (limit_within D) us \<Longrightarrow> devices_within D (fst st) \<Longrightarrow>
   devices_within D (fst (foldl (update_user tag) st us))"
proof (induction us arbitrary: st)
  case (Cons u us)
  obtain ii h where st: "st = (ii, h)" by fastforce
  have "devices_within D (fst (update_user tag (ii, h) u))"
    using Cons.prems st online_ips_cong [OF update_user_frame(3) [of tag ii h u]]
    by (simp add: devices_within_def users_within_upd)
  with Cons st show ?case by simp
qed simp

lemma delete_users_within:
  assumes "devices_within D ii" and "0 \<le> D"
  shows "devices_within D (foldl (delete_user tag) ii us)"
  using assms
  by (simp add: devices_within_def users_within_def online_ips_def delete_users_tables split: option.splits)

lemma limiter_within_upd:
  "limiter_within D l \<Longrightarrow> devices_within D ii \<Longrightarrow>
   limiter_within D (l\<lparr>lim_InboundInfo := (lim_InboundInfo l)(tag \<mapsto> ii)\<rparr>)"
  "limiter_within D l \<Longrightarrow> devices_within D ii \<Longrightarrow>
   limiter_within D (l\<lparr>lim_InboundInfo := (lim_InboundInfo l)(tag \<mapsto> ii), lim_heap := h\<rparr>)"
  by (simp_all add: limiter_within_def)

lemma localDeviceLimit_within:
  assumes "devices_within D ii" and "online_wf ii" and "ii_UserInfo ii email = Some u"
  shows "devices_within D (snd (localDeviceLimit ii email ip uid (lu_DeviceLimit u)))"
proof -
  let ?d = "lu_DeviceLimit u" and ?S = "online_ips ii email"
  have d: "0 < ?d" "?d \<le> D" and S: "int (card ?S) \<le> D"
    using assms by (auto simp: devices_within_def users_within_def)
  have "int (card (admit_set ?d ?S ip)) \<le> D"
    using d S online_ips_finite [of ii email]
    by (cases "int (card ?S) \<le> ?d")
      (auto dest: admit_set_card [of ?S ?d ip], auto simp: admit_set_def admits_def card_insert_if)
  with assms show ?thesis by (simp add: devices_within_def localDeviceLimit_ips)
qed

lemma userBucket_within:
  "userBucket ii heap email limit = ((b, sp), ii', heap') \<Longrightarrow> devices_within D ii \<Longrightarrow>
   devices_within D (ii'\<lparr>ii_GlobalLimit := g\<rparr>) \<and> devices_within D ii'"
  using userBucket_frame [of ii heap email limit b sp ii' heap']
  by (simp add: devices_within_def online_ips_def)

lemma GetUserBucket_within:
  assumes w: "limiter_within D l" and inv: "limiter_inv l"
  shows "limiter_within D (snd (GetUserBucket iface l tag email ip))"
proof (cases "Option.bind (lim_InboundInfo l tag) (\<lambda>ii. map_option (Pair ii) (ii_UserInfo ii email))")
  case None
  with w show ?thesis by (auto simp: GetUserBucket_def split: bind_splits option.splits)
next
  case (Some p)
  then obtain ii u where ii: "lim_InboundInfo l tag = Some ii" and u: "ii_UserInfo ii email = Some u"
    by (auto split: bind_splits)
  obtain ok ii1 where loc: "localDeviceLimit ii email ip (lu_UID u) (lu_DeviceLimit u) = (ok, ii1)"
    by fastforce
  obtain b sp ii2 h where b: "userBucket ii1 (lim_heap l) email
      (determineRate (ii_NodeSpeedLimit ii) (lu_SpeedLimit u)) = ((b, sp), ii2, h)"
    by (metis prod.exhaust)
  have "devices_within D ii" using w ii by (simp add: limiter_within_def)
  then have ii1: "devices_within D ii1"
    using localDeviceLimit_within [of D ii email u ip "lu_UID u"] limiter_invD(2) [OF inv ii] u loc by simp
  note ii2 = userBucket_within [OF b ii1]
  show ?thesis
    using ii u loc b ii1 ii2 w
    by (auto simp: GetUserBucket_def Let_def limiter_within_upd split: option.splits prod.splits if_splits)
qed

lemma limiter_step_within:
  assumes "limiter_within D l" and "limiter_inv l" and "op_limits D op" and "0 \<le> D"
  shows "limiter_within D (limiter_step iface l op)"
proof (cases op)
  case (OpAdd tag n us g)
  have "users_within D (foldl (\<lambda>m u. m(user_key tag u \<mapsto> toLimitUser u)) Map.empty us)"
    using assms OpAdd by (intro users_within_foldl) (auto simp: users_within_def)
  then show ?thesis
    using assms OpAdd by (simp add: AddInboundLimiter_def Let_def limiter_within_upd devices_within_def online_ips_def)
next
  case (OpUpdate tag us)
  show ?thesis
  proof (cases "lim_InboundInfo l tag")
    case None
    with assms OpUpdate show ?thesis by (simp add: UpdateInboundLimiter_def)
  next
    case (Some ii)
    with assms OpUpdate have "devices_within D (fst (foldl (update_user tag) (ii, lim_heap l) us))"
      by (intro update_users_within) (auto simp: limiter_within_def)
    with assms Some OpUpdate show ?thesis
      by (simp add: UpdateInboundLimiter_def case_prod_beta limiter_within_upd)
  qed
next
  case (OpDeleteUsers tag us)
  with assms show ?thesis
    by (auto simp: DeleteInboundLimiterUsers_def limiter_within_def delete_users_within split: option.splits)
next
  case (OpDelete tag)
  with assms show ?thesis by (simp add: DeleteInboundLimiter_def limiter_within_def)
next
  case (OpOnline tag)
  show ?thesis
  proof (cases "lim_InboundInfo l tag")
    case None
    with assms OpOnline show ?thesis by (simp add: GetOnlineDevice_def)
  next
    case (Some ii)
    with assms OpOnline show ?thesis
      by (simp add: GetOnlineDevice_Some limiter_within_def devices_within_def online_ips_def)
  qed
next
  case (OpBucket tag email ip)
  with assms show ?thesis by (simp add: GetUserBucket_within)
qed

lemma limiter_reach_within:
  assumes "limiter_reach iface (op_limits D) l" and "0 \<le> D"
  shows "limiter_within D l"
  using assms
proof (induction rule: limiter_reach.induct)
  case reach_new
  then show ?case by (simp add: limiter_within_def limiter_New_def)
next
  case (reach_step l op)
  then show ?case by (intro limiter_step_within) (auto intro: limiter_reach_inv)
qed

text \<open>The cache interface of a limiter without global device limits; it is never asked.\<close>

definition no_cache :: "unit cache_iface" where
  "no_cache = \<lparr>gi_new = (\<lambda>_. ()), gi_ReserveIP = None, gi_Get = (\<lambda>c k. (NotFound, c)),
               gi_Set = (\<lambda>c k m. (None, c))\<rparr>"

end
