(* ===== verification/Rate.thy ===== *)
theory Rate
  imports Prelude
begin

text \<open>
  \<open>common/limiter/rate.go\<close>: readers and writers that wait for tokens of a rate limiter before
  they pass data on. The limiter itself is \<open>golang.org/x/time/rate.Limiter\<close>, a library: it is
  a state with two operations, its burst and \<open>WaitN\<close>, both parameters here. Buffers are
  lists of byte lists (\<open>buf.MultiBuffer\<close>), whose total length fits in \<open>int32\<close> in the program.
\<close>

type_synonym byte = uint8
type_synonym MultiBuffer = "byte list list"

text \<open>\<open>MultiBuffer.IsEmpty\<close> and \<open>MultiBuffer.Len\<close> of \<open>xray-core/common/buf\<close>.\<close>

fun mb_IsEmpty :: "MultiBuffer \<Rightarrow> bool" where
  "mb_IsEmpty [] = True"
| "mb_IsEmpty (b # mb) = (if b \<noteq> [] then False else mb_IsEmpty mb)"

fun mb_Len :: "MultiBuffer \<Rightarrow> int" where
  "mb_Len [] = 0"
| "mb_Len (b # mb) = int (length b) + mb_Len mb"

type_synonym 'l waitN = "'l \<Rightarrow> int \<Rightarrow> go_error option \<times> 'l"

text \<open>The loop of \<open>waitRateLimit\<close>; it would not end for a burst that is not positive.\<close>

partial_function (option) wait_loop ::
    "('l \<Rightarrow> int \<Rightarrow> go_error option \<times> 'l) \<Rightarrow> int \<Rightarrow> int \<Rightarrow> 'l \<Rightarrow> (go_error option \<times> 'l) option" where
  "wait_loop waitN burst bytes l =
     (if 0 < bytes then
        (let chunk = (if burst < bytes then burst else bytes) in
         case waitN l chunk of
           (Some err, l') \<Rightarrow> Some (Some err, l')
         | (None, l') \<Rightarrow> wait_loop waitN burst (bytes - chunk) l')
      else Some (None, l))"

definition waitRateLimit ::
    "'l waitN \<Rightarrow> ('l \<Rightarrow> int) \<Rightarrow> 'l \<Rightarrow> int \<Rightarrow> (go_error option \<times> 'l) option" where
  "waitRateLimit waitN burst_of l bytes =
     (if bytes \<le> 0 then Some (None, l)
      else let burst = burst_of l in
        if burst \<le> 0 then Some (Some (Error ''rate limiter burst must be positive''), l)
        else wait_loop waitN burst bytes l)"

text \<open>
  \<open>Reader.ReadMultiBuffer\<close> and \<open>Writer.WriteMultiBuffer\<close>. The wrapped reader and writer are
  state transformers; \<open>None\<close> means that the call does not return.
\<close>

definition Reader_ReadMultiBuffer ::
    "'l waitN \<Rightarrow> ('l \<Rightarrow> int) \<Rightarrow> ('r \<Rightarrow> (MultiBuffer \<times> go_error option) \<times> 'r) \<Rightarrow> 'l \<Rightarrow> 'r
     \<Rightarrow> ((MultiBuffer \<times> go_error option) \<times> 'l \<times> 'r) option" where
  "Reader_ReadMultiBuffer waitN burst_of rd l r =
     (let ((mb, err), r') = rd r in
      if mb_IsEmpty mb then Some ((mb, err), l, r')
      else do {
        (waitErr, l') \<leftarrow> waitRateLimit waitN burst_of l (mb_Len mb);
        (case waitErr of
           Some e \<Rightarrow> Some (([], Some e), l', r')
         | None \<Rightarrow> Some ((mb, err), l', r'))
      })"

definition Writer_WriteMultiBuffer ::
    "'l waitN \<Rightarrow> ('l \<Rightarrow> int) \<Rightarrow> ('w \<Rightarrow> MultiBuffer \<Rightarrow> go_error option \<times> 'w) \<Rightarrow> 'l \<Rightarrow> 'w
     \<Rightarrow> MultiBuffer \<Rightarrow> (go_error option \<times> 'l \<times> 'w) option" where
  "Writer_WriteMultiBuffer waitN burst_of wr l w mb = do {
     (err, l') \<leftarrow> waitRateLimit waitN burst_of l (mb_Len mb);
     (case err of
        Some e \<Rightarrow> Some (Some e, l', w)
      | None \<Rightarrow> (let (werr, w') = wr w mb in Some (werr, l', w')))
   }"

section \<open>The sequence of waits\<close>

text \<open>
  The reference: the request is cut into full bursts and one remainder, and the waits are
  made in order until the first error.
\<close>

definition wait_chunks :: "int \<Rightarrow> int \<Rightarrow> int list" where
  "wait_chunks burst bytes =
     (if bytes \<le> 0 then []
      else replicate (nat (bytes div burst)) burst @
           (if bytes mod burst = 0 then [] else [bytes mod burst]))"

fun run_waits :: "'l waitN \<Rightarrow> int list \<Rightarrow> 'l \<Rightarrow> go_error option \<times> 'l" where
  "run_waits waitN [] l = (None, l)"
| "run_waits waitN (c # cs) l =
     (case waitN l c of (Some err, l') \<Rightarrow> (Some err, l') | (None, l') \<Rightarrow> run_waits waitN cs l')"

lemma wait_chunks_step:
  assumes "0 < burst" and "burst < bytes"
  shows "wait_chunks burst bytes = burst # wait_chunks burst (bytes - burst)"
proof -
  have d: "bytes div burst = (bytes - burst) div burst + 1"
    using assms div_pos_geq [of burst bytes] by linarith
  have m: "bytes mod burst = (bytes - burst) mod burst"
    using assms mod_pos_geq [of burst bytes] by linarith
  have "0 \<le> (bytes - burst) div burst"
    using assms by (simp add: pos_imp_zdiv_nonneg_iff)
  then have "nat (bytes div burst) = Suc (nat ((bytes - burst) div burst))"
    using d by simp
  with assms m show ?thesis by (simp add: wait_chunks_def)
qed

lemma wait_chunks_last:
  assumes "0 < bytes" and "bytes \<le> burst"
  shows "wait_chunks burst bytes = [bytes]"
  using assms by (cases "bytes = burst") (auto simp: wait_chunks_def div_pos_pos_trivial)

lemma sum_wait_chunks: "0 < burst \<Longrightarrow> 0 \<le> bytes \<Longrightarrow> sum_list (wait_chunks burst bytes) = bytes"
  by (auto simp: wait_chunks_def sum_list_replicate pos_imp_zdiv_nonneg_iff minus_mod_eq_mult_div
      algebra_simps)

lemma wait_chunks_bound:
  assumes "0 < burst" and "c \<in> set (wait_chunks burst bytes)"
  shows "0 < c \<and> c \<le> burst"
proof -
  have "0 \<le> bytes mod burst" "bytes mod burst < burst"
    using assms(1) by simp_all
  with assms show ?thesis by (auto simp: wait_chunks_def split: if_splits)
qed

lemma wait_loop_run:
  assumes "0 < burst"
  shows "wait_loop waitN burst bytes l = Some (run_waits waitN (wait_chunks burst bytes) l)"
proof (induction "nat bytes" arbitrary: bytes l rule: less_induct)
  case less
  consider "bytes \<le> 0" | "0 < bytes" "bytes \<le> burst" | "burst < bytes"
    by linarith
  then show ?case
  proof cases
    case 1
    then show ?thesis by (subst wait_loop.simps) (simp add: wait_chunks_def)
  next
    case 2
    then show ?thesis
      using less [of 0] by (subst wait_loop.simps)
        (auto simp: wait_chunks_last wait_loop.simps [of waitN burst 0] split: prod.splits option.splits)
  next
    case 3
    then have "nat (bytes - burst) < nat bytes" using assms by linarith
    then have "wait_loop waitN burst (bytes - burst) l' =
        Some (run_waits waitN (wait_chunks burst (bytes - burst)) l')" for l'
      by (rule less)
    with 3 assms show ?thesis
      by (subst wait_loop.simps) (auto simp: wait_chunks_step split: prod.splits option.splits)
  qed
qed

lemma waitRateLimit_run:
  "0 < burst_of l \<Longrightarrow>
   waitRateLimit waitN burst_of l bytes = Some (run_waits waitN (wait_chunks (burst_of l) bytes) l)"
  by (simp add: waitRateLimit_def wait_loop_run) (simp add: wait_chunks_def)

lemma waitRateLimit_terminates: "\<exists>r. waitRateLimit waitN burst_of l bytes = Some r"
  by (cases "0 < burst_of l") (auto simp: waitRateLimit_run, auto simp: waitRateLimit_def Let_def)

lemma mb_Len_nonneg [simp]: "0 \<le> mb_Len mb"
  by (induction mb) auto

lemma mb_Len_concat: "mb_Len mb = int (length (concat mb))"
  by (induction mb) auto

lemma mb_IsEmpty_iff: "mb_IsEmpty mb \<longleftrightarrow> concat mb = []"
  by (induction mb) auto

end
