(* ===== verification/Limiter_Properties.thy ===== *)
theory Limiter_Properties
  imports Limiter Rate "HOL-Library.Countable"
begin

text \<open>
  The properties of \<open>common/limiter\<close>: the bucket in force, device limits over whole runs, the
  admission decision, the online report, updates that reach open connections, the shared
  global table and its bound across processes, and the rate waits.
\<close>

section \<open>Concrete inputs\<close>

text \<open>A user, operations on a limiter without global cache, and a codec that keeps the map readable.\<close>

definition sample_user :: UserInfo where
  "sample_user = zero_UserInfo\<lparr>u_UID := 7, u_Email := ''a@b'', u_SpeedLimit := 100, u_DeviceLimit := 2\<rparr>"

definition sample_ops :: "limiter_op list" where
  "sample_ops = [OpAdd ''t'' 40 [sample_user] None, OpBucket ''t'' (user_key ''t'' sample_user) ''1.1.1.1'']"

definition sample_limiter :: "unit Limiter" where
  "sample_limiter = foldl (limiter_step no_cache) limiter_New sample_ops"

definition sample_key :: string where "sample_key = user_key ''t'' sample_user"

definition sample_inbound :: "unit InboundInfo" where
  "sample_inbound = \<lparr>ii_Tag = ''t'', ii_NodeSpeedLimit = 40, ii_UserInfo = [sample_key \<mapsto> toLimitUser sample_user],
     ii_BucketHub = [(sample_key, 0)], ii_UserOnlineIP = [(sample_key, [(''1.1.1.1'', 7)])], ii_GlobalLimit = None\<rparr>"

lemmas sample_defs = sample_user_def zero_UserInfo_def no_cache_def sample_ops_def sample_key_def

lemma determineRate_sample: "determineRate 40 100 = 40"
  by (simp add: determineRate_def)

lemma sample_limiter_eq:
  "sample_limiter = \<lparr>lim_InboundInfo = [''t'' \<mapsto> sample_inbound], lim_heap = [new_bucket 40]\<rparr>"
  by (simp add: sample_limiter_def sample_ops_def sample_inbound_def limiter_New_def AddInboundLimiter_def
      GetUserBucket_def localDeviceLimit_def userBucket_def toLimitUser_def sample_key_def sample_user_def
      zero_UserInfo_def determineRate_def Let_def)

lemma sample_reach: "limiter_reach no_cache (op_limits 2) sample_limiter"
  unfolding sample_limiter_def
  by (rule reach_ops) (simp add: sample_ops_def limit_within_def sample_user_def)

lemma sample_reach_any: "limiter_reach no_cache (\<lambda>_. True) sample_limiter"
  unfolding sample_limiter_def by (rule reach_ops) (simp add: sample_ops_def)

section \<open>The bucket in force\<close>

text \<open>
  C11. In every state the limiter reaches, the rate bucket that a user's connections wait on
  carries exactly the user's current effective rate (the smaller non-zero one of the node's
  and the user's limit) as its limit and burst, and no other user of any inbound shares it.
\<close>

theorem bucket_has_effective_rate:
  assumes "limiter_reach iface P l" and "lim_InboundInfo l tag = Some ii"
    and "load (ii_BucketHub ii) email = Some a"
  shows "a < length (lim_heap l) \<and> 0 < effective_rate ii email
       \<and> lim_heap l ! a = new_bucket (effective_rate ii email)
       \<and> (\<forall>t e. bucket_at l t e = Some a \<longrightarrow> t = tag \<and> e = email)"
proof -
  have inv: "limiter_inv l" using assms(1) by (rule limiter_reach_inv)
  have "bucket_at l tag email = Some a" using assms by (simp add: bucket_at_def)
  with inv have "\<forall>t e. bucket_at l t e = Some a \<longrightarrow> t = tag \<and> e = email"
    using limiter_inv_unshared by blast
  with limiter_invD(3) [OF inv assms(2)] assms(3) show ?thesis by (simp add: hub_ok_def)
qed

theorem bucket_has_effective_rate_witness:
  "lim_heap sample_limiter ! 0 = new_bucket 40 \<and> 0 < effective_rate sample_inbound sample_key"
proof -
  have 1: "lim_InboundInfo sample_limiter ''t'' = Some sample_inbound"
    by (simp add: sample_limiter_eq)
  have 2: "load (ii_BucketHub sample_inbound) sample_key = Some 0"
    by (simp add: sample_inbound_def)
  have "effective_rate sample_inbound sample_key = 40"
    by (simp add: effective_rate_def sample_inbound_def toLimitUser_def sample_user_def determineRate_def)
  with bucket_has_effective_rate [OF sample_reach_any 1 2] show ?thesis by simp
qed

section \<open>Device limits\<close>

text \<open>
  C5. When every user handed to the limiter has a device limit between 1 and \<open>D\<close>, no user
  ever has more than \<open>D\<close> client addresses online on an inbound, whatever the order of
  additions, updates, deletions, reports and connection attempts.
\<close>

theorem online_devices_bounded:
  assumes "limiter_reach iface (op_limits D) l" and "0 \<le> D" and "lim_InboundInfo l tag = Some ii"
  shows "int (card (online_ips ii email)) \<le> D"
  using limiter_reach_within [OF assms(1,2)] assms(3)
  by (simp add: limiter_within_def devices_within_def)

theorem online_devices_bounded_witness:
  "int (card (online_ips sample_inbound sample_key)) \<le> 2 \<and> online_ips sample_inbound sample_key = {''1.1.1.1''}"
proof -
  have "lim_InboundInfo sample_limiter ''t'' = Some sample_inbound"
    by (simp add: sample_limiter_eq)
  from online_devices_bounded [OF sample_reach _ this] show ?thesis
    by (simp add: online_ips_def sample_inbound_def)
qed



section \<open>Reports and updates\<close>

text \<open>
  \<open>GetOnlineDevice\<close> reports exactly the (uid, address) pairs recorded since the last report,
  resets the record, so that the next report is empty, and drops the buckets of users with no
  recorded address while it keeps all others.
\<close>

theorem GetOnlineDevice_report:
  assumes "limiter_inv l" and "lim_InboundInfo l tag = Some ii"
  shows "\<exists>us ii'. GetOnlineDevice l tag = (Inr us, l\<lparr>lim_InboundInfo := (lim_InboundInfo l)(tag \<mapsto> ii')\<rparr>)
       \<and> (\<lambda>o'. (ou_UID o', ou_IP o')) ` set us = online_pairs ii
       \<and> online_pairs ii' = {}
       \<and> fst (GetOnlineDevice (snd (GetOnlineDevice l tag)) tag) = Inr []
       \<and> (\<forall>e. load (ii_BucketHub ii') e =
             (if load (ii_UserOnlineIP ii) e = None then None else load (ii_BucketHub ii) e))
       \<and> ii_UserInfo ii' = ii_UserInfo ii"
proof (intro exI conjI)
  let ?us = "concat (map (\<lambda>(email, ipMap). map (\<lambda>(ip, uid). \<lparr>ou_UID = uid, ou_IP = ip\<rparr>) ipMap) (ii_UserOnlineIP ii))"
  let ?ii = "ii\<lparr>ii_BucketHub := online_hub ii, ii_UserOnlineIP := []\<rparr>"
  show eq: "GetOnlineDevice l tag = (Inr ?us, l\<lparr>lim_InboundInfo := (lim_InboundInfo l)(tag \<mapsto> ?ii)\<rparr>)"
    by (rule GetOnlineDevice_Some [OF assms(2)])
  show "(\<lambda>o'. (ou_UID o', ou_IP o')) ` set ?us = online_pairs ii"
    by (rule set_online_report [OF limiter_invD(2) [OF assms]])
  show "fst (GetOnlineDevice (snd (GetOnlineDevice l tag)) tag) = Inr []"
    unfolding eq by (simp add: GetOnlineDevice_Some)
qed (simp_all add: online_pairs_def load_online_hub)

theorem GetOnlineDevice_report_witness:
  "(\<exists>us l'. GetOnlineDevice sample_limiter ''t'' = (Inr us, l') \<and>
      (\<lambda>o'. (ou_UID o', ou_IP o')) ` set us = {(7, ''1.1.1.1'')})"
proof -
  have inv: "limiter_inv sample_limiter" using sample_reach by (rule limiter_reach_inv)
  have ii: "lim_InboundInfo sample_limiter ''t'' = Some sample_inbound" by (simp add: sample_limiter_eq)
  have "online_pairs sample_inbound = {(7, ''1.1.1.1'')}"
    by (auto simp: online_pairs_def sample_inbound_def split: if_splits)
  with GetOnlineDevice_report [OF inv ii] show ?thesis by auto
qed

text \<open>
  After \<open>UpdateInboundLimiter\<close> with users of distinct keys, every listed user has the new
  limits; a user's bucket keeps its address and carries the new effective rate, so that open
  connections follow it, and is dropped when that rate is zero. Other users keep their limits.
\<close>

theorem UpdateInboundLimiter_effect:
  assumes inv: "limiter_inv l" and ii: "lim_InboundInfo l tag = Some ii"
    and u: "u \<in> set us" and inj: "inj_on (user_key tag) (set us)"
  shows "\<exists>ii' l'. UpdateInboundLimiter l tag us = (None, l')
       \<and> lim_InboundInfo l' tag = Some ii'
       \<and> ii_UserInfo ii' (user_key tag u) = Some (toLimitUser u)
       \<and> (\<forall>k. k \<notin> user_key tag ` set us \<longrightarrow> ii_UserInfo ii' k = ii_UserInfo ii k)
       \<and> (\<forall>a. bucket_at l' tag (user_key tag u) = Some a \<longrightarrow>
             bucket_at l tag (user_key tag u) = Some a
             \<and> lim_heap l' ! a = new_bucket (determineRate (ii_NodeSpeedLimit ii) (u_SpeedLimit u)))
       \<and> (bucket_at l tag (user_key tag u) \<noteq> None \<and> determineRate (ii_NodeSpeedLimit ii) (u_SpeedLimit u) > 0
             \<longrightarrow> bucket_at l' tag (user_key tag u) = bucket_at l tag (user_key tag u))"
proof -
  obtain ii' h where fold: "foldl (update_user tag) (ii, lim_heap l) us = (ii', h)" by fastforce
  let ?l = "l\<lparr>lim_InboundInfo := (lim_InboundInfo l)(tag \<mapsto> ii'), lim_heap := h\<rparr>"
  have eq: "UpdateInboundLimiter l tag us = (None, ?l)"
    using ii fold by (simp add: UpdateInboundLimiter_def)
  have inv': "limiter_inv ?l" using UpdateInboundLimiter_inv [OF inv, of tag us] eq by simp
  have info: "ii_UserInfo ii' = foldl (\<lambda>m u. m(user_key tag u \<mapsto> toLimitUser u)) (ii_UserInfo ii) us"
    and node: "ii_NodeSpeedLimit ii' = ii_NodeSpeedLimit ii"
    using update_users_UserInfo [of tag ii "lim_heap l" us]
      update_users_NodeSpeedLimit [of tag ii "lim_heap l" us] fold by (simp_all del: fun_upd_apply)
  have mine: "ii_UserInfo ii' (user_key tag u) = Some (toLimitUser u)"
    unfolding info by (rule foldl_upd_in [OF u inj])
  then have rate: "effective_rate ii' (user_key tag u) = determineRate (ii_NodeSpeedLimit ii) (u_SpeedLimit u)"
    by (simp add: effective_rate_def node toLimitUser_def)
  have hub: "load (ii_BucketHub ii') (user_key tag u) =
      (if determineRate (ii_NodeSpeedLimit ii) (u_SpeedLimit u) > 0 then load (ii_BucketHub ii) (user_key tag u) else None)"
    using update_users_hub [OF u inj, of ii "lim_heap l"] fold by simp
  have ok: "hub_ok h ii'" using limiter_invD(3) [OF inv', of tag ii'] by simp
  show ?thesis
    using eq mine info foldl_upd_notin [of _ "user_key tag" us] hub ok rate ii
    by (auto simp: bucket_at_def hub_ok_def split: if_splits)
qed

theorem UpdateInboundLimiter_effect_witness:
  "\<exists>l'. UpdateInboundLimiter sample_limiter ''t'' [sample_user\<lparr>u_SpeedLimit := 30\<rparr>] = (None, l')
     \<and> bucket_at l' ''t'' sample_key = Some 0"
proof -
  let ?u = "sample_user\<lparr>u_SpeedLimit := 30\<rparr>"
  have inv: "limiter_inv sample_limiter" using sample_reach by (rule limiter_reach_inv)
  have ii: "lim_InboundInfo sample_limiter ''t'' = Some sample_inbound" by (simp add: sample_limiter_eq)
  have at: "bucket_at sample_limiter ''t'' (user_key ''t'' ?u) = Some 0"
    by (simp add: sample_limiter_eq bucket_at_def sample_inbound_def sample_key_def sample_user_def)
  have key: "user_key ''t'' ?u = sample_key" by (simp add: sample_key_def)
  have rate: "determineRate (ii_NodeSpeedLimit sample_inbound) (u_SpeedLimit ?u) > 0"
    by (simp add: sample_inbound_def determineRate_def)
  show ?thesis
    using UpdateInboundLimiter_effect [OF inv ii, of ?u "[?u]"] at key rate by auto
qed

text \<open>
  The effective rate is the smaller of the node's and the user's limit, where zero means
  no limit; it is zero only when both are.
\<close>

theorem determineRate_spec:
  "determineRate n u = (if n = 0 then u else if u = 0 then n else min n u)
   \<and> (determineRate n u = 0 \<longleftrightarrow> n = 0 \<and> u = 0)"
  using determineRate_min determineRate_zero by blast

section \<open>The global table\<close>

text \<open>
  The key of the global device table does not contain the node's tag: it is the user's key
  with the device limit in place of the tag, so all nodes with the same limit share one entry
  per user.
\<close>

theorem globalLimit_key_shared:
  assumes "gi_ReserveIP iface = Some reserve"
  shows "globalLimit iface tag c (formatUserKey tag email uid) uid ip d =
           (case reserve c (formatUserKey (Itoa d) email uid) ip uid d of
              (Inl err, c') \<Rightarrow> (False, c') | (Inr accepted, c') \<Rightarrow> (\<not> accepted, c'))"
  using assms by (simp add: globalLimit_def uniqueKey_formatUserKey)

theorem globalLimit_key_shared_witness:
  "globalLimit (no_cache\<lparr>gi_ReserveIP := Some (\<lambda>c k ip uid d. (Inr (k = ''2|e|5''), c))\<rparr>)
      ''tagA'' () (formatUserKey ''tagA'' ''e'' 5) 5 ''1.1.1.1'' 2 = (False, ())"
proof -
  let ?r = "\<lambda>c k ip uid d. (Inr (k = ''2|e|5''), c :: unit)"
  have "gi_ReserveIP (no_cache\<lparr>gi_ReserveIP := Some ?r\<rparr>) = Some ?r" by simp
  moreover have "formatUserKey (Itoa 2) ''e'' 5 = ''2|e|5''"
    by code_simp
  ultimately show ?thesis using globalLimit_key_shared [of _ ?r] by simp
qed

text \<open>A codec for concrete runs: a map is numbered, and the number is written in decimal.\<close>

definition demo_pack :: "ip_map \<Rightarrow> bytes" where
  "demo_pack m = nat_digits (to_nat m)"

definition demo_unpack :: "bytes \<Rightarrow> ip_map option" where
  "demo_unpack b = map_option from_nat (parse_digits 0 b)"

lemma demo_codec: "codec_ok (\<lambda>m. Some (demo_pack m)) demo_unpack"
  by (simp add: codec_ok_def demo_pack_def demo_unpack_def parse_nat_digits)

definition demo_cache :: layeredGlobalIPCache where
  "demo_cache = newLayeredGlobalIPCache
     \<lparr>gc_Enable = True, gc_RedisAddr = [], gc_RedisPassword = [], gc_RedisDB = 0, gc_Timeout = 5, gc_Expiry = 60\<rparr>"

text \<open>
  C10. Several oldxr processes share one Redis. Whatever the interleaving of their reservations,
  as long as the requests for a key use one positive limit \<open>d\<close>, the table never holds more
  than \<open>d\<close> addresses for the key, and a reservation is accepted exactly when the address is
  held or there is room: stale process-local copies never decide.
\<close>

theorem cluster_devices_bounded:
  assumes "codec_ok (\<lambda>m. Some (pack m)) dec" and "\<And>p. lc_redisClient (cs p)"
    and "times_from t rs" and "0 < d"
    and "\<And>r. r \<in> set rs \<Longrightarrow> rq_key r = k \<Longrightarrow> rq_limit r = d"
  shows "int (card (cluster_ips dec (snd (cluster_run enc pack dec (cs, Map.empty) rs)) (last_time t rs) k)) \<le> d
       \<and> cluster_inv pack dec (snd (cluster_run enc pack dec (cs, Map.empty) rs))"
proof -
  have inv: "cluster_inv pack dec (cs, Map.empty)"
    using assms(1,2) by (simp add: cluster_inv_def redis_inv_def)
  have empty: "cluster_ips dec (cs, Map.empty) t k = {}"
    by (simp add: cluster_ips_def redis_ips_def redis_get_def bytes_ips_def)
  have "int (card (cluster_ips dec (snd (redis_cluster.run_requests enc pack dec (cs, Map.empty) rs)) (last_time t rs) k)) \<le> d"
    using assms(3-5) empty by (intro redis_cluster.run_bound [OF inv]) auto
  moreover have "cluster_inv pack dec st \<Longrightarrow> cluster_inv pack dec (snd (cluster_run enc pack dec st rs))" for st
    by (induction rs arbitrary: st) (auto simp: case_prod_beta redis_cluster.invar_reserve)
  ultimately show ?thesis using inv by (simp add: cluster_run_eq)
qed

theorem cluster_devices_bounded_witness:
  "int (card (cluster_ips demo_unpack
      (snd (cluster_run (\<lambda>m. Some (demo_pack m)) demo_pack demo_unpack ((\<lambda>_. demo_cache), Map.empty)
        [\<lparr>rq_time = 1, rq_key = ''1|e|5'', rq_ip = ''a'', rq_who = (0, 5), rq_limit = 1\<rparr>,
         \<lparr>rq_time = 2, rq_key = ''1|e|5'', rq_ip = ''b'', rq_who = (1, 5), rq_limit = 1\<rparr>])) 2 ''1|e|5'')) \<le> 1"
proof -
  let ?rs = "[\<lparr>rq_time = 1, rq_key = ''1|e|5'', rq_ip = ''a'', rq_who = (0, 5), rq_limit = 1\<rparr>,
              \<lparr>rq_time = 2, rq_key = ''1|e|5'', rq_ip = ''b'', rq_who = (1, 5), rq_limit = 1\<rparr>] :: (nat \<times> int) request list"
  have "lc_redisClient demo_cache" by (simp add: demo_cache_def newLayeredGlobalIPCache_def)
  moreover have "times_from 0 ?rs" and "last_time 0 ?rs = 2" by simp_all
  moreover have "rq_limit r = 1" if "r \<in> set ?rs" for r using that by auto
  ultimately show ?thesis
    using cluster_devices_bounded [OF demo_codec, of "\<lambda>_. demo_cache" 0 ?rs 1] by (metis zero_less_one)
qed



text \<open>
  The global limit fails open: when the script call fails, the connection is accepted, and
  neither the local layer nor the caller's tables change.
\<close>

theorem globalLimit_fails_open:
  assumes "lc_redisClient c" and "run r (Replace1 email tag (Itoa d)) ip uid d (go_div (lc_localExpiry c) time_Second) = (Inl err, r')"
    and "gi_ReserveIP iface = Some (\<lambda>st key ip uid limit. ReserveIP enc dec run now st key ip uid limit)"
  shows "globalLimit iface tag (c, r) email uid ip d = (False, (c, r'))"
  using assms by (simp add: globalLimit_def ReserveIP_def)

theorem globalLimit_fails_open_witness:
  "globalLimit \<lparr>gi_new = (\<lambda>_. (demo_cache, ())),
      gi_ReserveIP = Some (\<lambda>st key ip uid limit. ReserveIP (\<lambda>m. None) (\<lambda>b. None)
         (\<lambda>r key ip uid limit e. (Inl (Error ''down''), r)) 0 st key ip uid limit),
      gi_Get = (\<lambda>c k. (NotFound, c)), gi_Set = (\<lambda>c k m. (None, c))\<rparr>
    ''t'' (demo_cache, ()) ''t|e|5'' 5 ''1.1.1.1'' 1 = (False, demo_cache, ())"
  by (rule globalLimit_fails_open [where run = "\<lambda>r key ip uid limit e. (Inl (Error ''down''), r)"
        and err = "Error ''down''" and enc = "\<lambda>m. None" and dec = "\<lambda>b. None" and now = 0])
    (simp_all add: demo_cache_def newLayeredGlobalIPCache_def)

text \<open>
  A value stored with \<open>Set\<close> is read back by \<open>Get\<close> from the local layer until it expires,
  whatever the remote store answers.
\<close>

theorem cache_Set_Get:
  assumes "codec_ok enc dec" and "wf_map m" and "0 \<le> lc_localExpiry c"
    and "now' \<le> now + lc_localExpiry c \<or> lc_localExpiry c = 0"
  shows "\<exists>m'. fst (cache_Get dec remote now' (snd (cache_Set enc put now c key m 0)) key) = Found m'
            \<and> map_of m' = map_of m"
proof -
  from assms(1,2) obtain b m' where b: "enc m = Some b" "dec b = Some m'" "map_of m' = map_of m"
    by (auto simp: codec_ok_def)
  have "load (lc_local (snd (cache_Set enc put now c key m 0))) key =
      Some \<lparr>ge_value = b, ge_expiresAt = (if 0 < lc_localExpiry c then Some (now + lc_localExpiry c) else None)\<rparr>"
    using b(1) load_setLocal [OF assms(3)] by (simp add: cache_Set_def Let_def split: option.splits)
  then have "cache_Get dec remote now' (snd (cache_Set enc put now c key m 0)) key =
      (unmarshalGlobalIPValue dec b, snd (cache_Set enc put now c key m 0))"
    using assms(3,4) by (intro cache_Get_live) (auto split: if_splits)
  with b show ?thesis by (simp add: unmarshalGlobalIPValue_def)
qed

theorem cache_Set_Get_witness:
  "\<exists>m'. fst (cache_Get demo_unpack None 60 (snd (cache_Set (\<lambda>m. Some (demo_pack m)) None 0 demo_cache ''k'' [(''a'', 5)] 0)) ''k'')
      = Found m' \<and> map_of m' = [''a'' \<mapsto> 5]"
  using cache_Set_Get [OF demo_codec, of "[(''a'', 5)]" demo_cache 60 0 None None "''k''"]
  by (simp add: demo_cache_def newLayeredGlobalIPCache_def time_Second_def)

section \<open>Rate waits\<close>

text \<open>
  \<open>waitRateLimit\<close> always returns. With a positive burst it makes exactly the waits of full
  bursts and one remainder, in order, until the first error; no single wait exceeds the burst
  and together they cover the request exactly.
\<close>

theorem waitRateLimit_chunks:
  assumes "0 < burst_of l"
  shows "waitRateLimit waitN burst_of l bytes = Some (run_waits waitN (wait_chunks (burst_of l) bytes) l)
       \<and> (0 \<le> bytes \<longrightarrow> sum_list (wait_chunks (burst_of l) bytes) = bytes)
       \<and> list_all (\<lambda>c. 0 < c \<and> c \<le> burst_of l) (wait_chunks (burst_of l) bytes)"
  using assms waitRateLimit_run sum_wait_chunks wait_chunks_bound by (auto simp: list_all_iff)

theorem waitRateLimit_chunks_witness:
  "waitRateLimit (\<lambda>l n. (None, l @ [n])) (\<lambda>l. 4) [] 10 = Some (None, [4, 4, 2])"
  using waitRateLimit_chunks [of "\<lambda>l. 4" "[]" "\<lambda>l n. (None, l @ [n])" 10]
  by (simp add: wait_chunks_def numeral_eq_Suc)

text \<open>
  The rate-limited writer never waits for a burst that is not positive: the write is
  refused with an error and nothing reaches the wrapped writer; a failed wait likewise writes
  nothing, and otherwise the whole buffer is passed on once.
\<close>

theorem Writer_all_or_nothing:
  "\<exists>err l' w'. Writer_WriteMultiBuffer waitN burst_of wr l w mb = Some (err, l', w')
     \<and> (w' = w \<and> err \<noteq> None \<or> (err, w') = wr w mb)
     \<and> (0 < mb_Len mb \<and> burst_of l \<le> 0 \<longrightarrow> w' = w \<and> l' = l \<and> err \<noteq> None)"
proof -
  obtain e l' where wait: "waitRateLimit waitN burst_of l (mb_Len mb) = Some (e, l')"
    using waitRateLimit_terminates [of waitN burst_of l "mb_Len mb"] by fastforce
  have refused: "e \<noteq> None \<and> l' = l" if "0 < mb_Len mb" "burst_of l \<le> 0"
    using wait that by (auto simp: waitRateLimit_def)
  obtain werr w' where wr: "wr w mb = (werr, w')" by fastforce
  show ?thesis
  proof (cases e)
    case None
    with wait wr refused show ?thesis by (auto simp: Writer_WriteMultiBuffer_def)
  next
    case (Some x)
    with wait refused show ?thesis by (auto simp: Writer_WriteMultiBuffer_def)
  qed
qed

theorem Writer_all_or_nothing_witness:
  "\<exists>err. Writer_WriteMultiBuffer (\<lambda>l n. (None, l @ [n])) (\<lambda>l. 0) (\<lambda>w b. (None, w @ [b]))
           [] [] [[1, 2], [3]] = Some (err, [], []) \<and> err \<noteq> None"
  using Writer_all_or_nothing [of "\<lambda>l n. (None, l @ [n])" "\<lambda>l. 0" "\<lambda>w b. (None, w @ [b])"
      "[]" "[]" "[[1, 2], [3]]"]
  by auto

end
