(* ===== verification/Go_Paths.thy ===== *)
theory Go_Paths
  imports Go_Strings
begin

text \<open>
  Slash-separated paths: \<open>Clean\<close>, \<open>Join\<close>, \<open>Base\<close>, \<open>Dir\<close> and \<open>Ext\<close> of Go's \<open>path\<close> and \<open>path/filepath\<close>
  packages on Unix, and the functions of \<open>strings\<close> that the readers of system files use. White space
  is the ASCII part of Go's. The facts describe the components of a cleaned absolute path.
\<close>

section \<open>Strings\<close>

definition is_space :: "char \<Rightarrow> bool" where
  "is_space c \<longleftrightarrow> (let n = of_char c :: nat in n = 32 \<or> 9 \<le> n \<and> n \<le> 13)"

definition TrimSpace :: "string \<Rightarrow> string" where
  "TrimSpace s = rev (dropWhile is_space (rev (dropWhile is_space s)))"

fun fields_from :: "string \<Rightarrow> string \<Rightarrow> string list" where
  "fields_from w [] = (if w = [] then [] else [w])"
| "fields_from w (c # cs) =
     (if is_space c then (if w = [] then fields_from [] cs else w # fields_from [] cs) else fields_from (w @ [c]) cs)"

definition Fields :: "string \<Rightarrow> string list" where
  "Fields s = fields_from [] s"

text \<open>\<open>strings.SplitN(s, sep, n)\<close> for a separator of one byte and \<open>n > 0\<close>.\<close>

fun SplitN :: "string \<Rightarrow> char \<Rightarrow> nat \<Rightarrow> string list" where
  "SplitN s sep (Suc 0) = [s]"
| "SplitN s sep (Suc n) =
     (let w = takeWhile (\<lambda>c. c \<noteq> sep) s in
      if w = s then [s] else w # SplitN (drop (Suc (length w)) s) sep n)"
| "SplitN s sep 0 = []"

definition ReplaceAllChar :: "string \<Rightarrow> char \<Rightarrow> char \<Rightarrow> string" where
  "ReplaceAllChar s a b = map (\<lambda>c. if c = a then b else c) s"

definition TrimSuffix :: "string \<Rightarrow> string \<Rightarrow> string" where
  "TrimSuffix s p = (if HasPrefix (rev s) (rev p) then take (length s - length p) s else s)"

section \<open>Paths\<close>

abbreviation slash :: char where "slash \<equiv> CHR ''/''"

text \<open>One element of the path: the elements kept so far are in reverse order.\<close>

definition clean_step :: "bool \<Rightarrow> string list \<Rightarrow> string \<Rightarrow> string list" where
  "clean_step rooted kept e =
     (if e = '''' \<or> e = ''.'' then kept
      else if e = ''..'' then
        (case kept of
           [] \<Rightarrow> (if rooted then [] else [''..''])
         | k # ks \<Rightarrow> (if k = ''..'' then ''..'' # kept else ks))
      else e # kept)"

definition clean_elements :: "bool \<Rightarrow> string \<Rightarrow> string list" where
  "clean_elements rooted p = rev (foldl (clean_step rooted) [] (SplitChar p slash))"

definition path_Clean :: "string \<Rightarrow> string" where
  "path_Clean p =
     (if p = '''' then ''.''
      else if hd p = slash then slash # JoinStr (clean_elements True p) [slash]
      else (case clean_elements False p of [] \<Rightarrow> ''.'' | es \<Rightarrow> JoinStr es [slash]))"

definition path_Join :: "string list \<Rightarrow> string" where
  "path_Join ps = (case dropWhile (\<lambda>p. p = '''') ps of [] \<Rightarrow> '''' | qs \<Rightarrow> path_Clean (JoinStr qs [slash]))"

definition drop_trailing_seps :: "string \<Rightarrow> string" where
  "drop_trailing_seps p = rev (dropWhile (\<lambda>c. c = slash) (rev p))"

definition path_Base :: "string \<Rightarrow> string" where
  "path_Base p =
     (if p = '''' then ''.''
      else let q = drop_trailing_seps p in
           if q = '''' then [slash] else last (SplitChar q slash))"

definition path_Dir :: "string \<Rightarrow> string" where
  "path_Dir p = path_Clean (rev (dropWhile (\<lambda>c. c \<noteq> slash) (rev p)))"

definition path_Ext :: "string \<Rightarrow> string" where
  "path_Ext p =
     (let b = last (SplitChar p slash); i = LastIndexByte b (CHR ''.'') in
      if i < 0 then '''' else drop (nat i) b)"

section \<open>Facts\<close>

lemma SplitChar_elements: "w \<in> set (SplitChar s c) \<Longrightarrow> c \<notin> set w"
  by (induction s arbitrary: w) (auto split: if_splits list.splits)

lemma SplitChar_JoinStr:
  "ws \<noteq> [] \<Longrightarrow> \<forall>w\<in>set ws. c \<notin> set w \<Longrightarrow> SplitChar (JoinStr ws [c]) c = ws"
proof (induction ws)
  case (Cons w ws)
  then show ?case
    by (cases "ws = []") (auto simp: SplitChar_notin SplitChar_append JoinStr_Cons)
qed simp

text \<open>An element that \<open>Clean\<close> keeps as it is.\<close>

definition plain_element :: "string \<Rightarrow> bool" where
  "plain_element e \<longleftrightarrow> e \<noteq> '''' \<and> e \<noteq> ''.'' \<and> e \<noteq> ''..'' \<and> slash \<notin> set e"

lemma clean_step_plain: "plain_element e \<Longrightarrow> clean_step rooted kept e = e # kept"
  by (auto simp: clean_step_def plain_element_def)

lemma foldl_clean_plain:
  "\<forall>e\<in>set es. plain_element e \<Longrightarrow> foldl (clean_step rooted) kept es = rev es @ kept"
  by (induction es arbitrary: kept) (auto simp: clean_step_plain)

lemma clean_step_rooted:
  assumes "\<forall>k\<in>set kept. plain_element k" and "slash \<notin> set e"
  shows "\<forall>k\<in>set (clean_step True kept e). plain_element k"
proof -
  have "plain_element e" if "e \<noteq> ''''" "e \<noteq> ''.''" "e \<noteq> ''..''"
    using that assms(2) unfolding plain_element_def by blast
  moreover have "k \<noteq> ''..''" if "k \<in> set kept" for k
    using that assms(1) unfolding plain_element_def by blast
  ultimately show ?thesis
    using assms(1) unfolding clean_step_def by (cases kept) (simp_all del: list.inject)
qed

lemma clean_elements_rooted: "\<forall>e\<in>set (clean_elements True p). plain_element e"
proof -
  have "\<forall>k\<in>set (foldl (clean_step True) kept ws). plain_element k"
    if "\<forall>k\<in>set kept. plain_element k" and "\<forall>w\<in>set ws. slash \<notin> set w" for kept ws
    using that
  proof (induction ws arbitrary: kept)
    case (Cons w ws)
    then have "\<forall>k\<in>set (clean_step True kept w). plain_element k"
      by (intro clean_step_rooted) auto
    with Cons show ?case by simp
  qed simp
  from this [of "[]" "SplitChar p slash"] show ?thesis
    by (auto simp: clean_elements_def dest: SplitChar_elements)
qed

lemma path_Clean_rooted: "path_Clean (slash # p) = slash # JoinStr (clean_elements True (slash # p)) [slash]"
  by (simp add: path_Clean_def)

text \<open>Joining plain elements to an absolute path of plain elements appends them.\<close>

lemma SplitChar_absolute:
  "bs \<noteq> [] \<Longrightarrow> \<forall>b\<in>set bs. plain_element b \<Longrightarrow> SplitChar (slash # JoinStr bs [slash]) slash = '''' # bs"
  by (simp add: SplitChar_JoinStr plain_element_def)

lemma JoinStr_eq_Nil: "\<forall>e\<in>set es. plain_element e \<Longrightarrow> JoinStr es [slash] = '''' \<longleftrightarrow> es = []"
  by (cases es rule: remdups_adj.cases) (auto simp: plain_element_def)

lemma JoinStr_append: "bs \<noteq> [] \<Longrightarrow> es \<noteq> [] \<Longrightarrow> JoinStr bs s @ s @ JoinStr es s = JoinStr (bs @ es) s"
proof (induction bs)
  case (Cons b bs)
  then show ?case by (cases "bs = []") (auto simp: JoinStr_Cons)
qed simp

theorem path_Join_plain:
  assumes bs: "bs \<noteq> []" "\<forall>b\<in>set bs. plain_element b" and es: "\<forall>e\<in>set es. plain_element e"
  shows "path_Join [slash # JoinStr bs [slash], JoinStr es [slash]] = slash # JoinStr (bs @ es) [slash]"
proof -
  have split: "SplitChar (slash # JoinStr bs [slash] @ [slash] @ JoinStr es [slash]) slash
      = '''' # bs @ (if es = [] then [''''] else es)"
  proof (cases "es = []")
    case True
    have "SplitChar (JoinStr ws [slash] @ [slash]) slash = ws @ ['''']"
      if "ws \<noteq> []" "\<forall>b\<in>set ws. plain_element b" for ws
      using that
    proof (induction ws)
      case (Cons w ws)
      then show ?case by (cases "ws = []") (auto simp: JoinStr_Cons SplitChar_append plain_element_def)
    qed simp
    with True bs show ?thesis by simp
  next
    case False
    with bs es show ?thesis by (simp add: JoinStr_append [of bs es "[slash]", simplified] SplitChar_JoinStr plain_element_def ball_Un)
  qed
  have "clean_elements True (slash # JoinStr bs [slash] @ [slash] @ JoinStr es [slash]) = bs @ es"
    using bs es unfolding clean_elements_def split
    by (auto simp: clean_step_def [of _ _ "[]"] foldl_clean_plain)
  then show ?thesis by (simp add: path_Join_def path_Clean_def)
qed

text \<open>The last element of a joined path.\<close>

definition path_last :: "string \<Rightarrow> string" where
  "path_last p = last (SplitChar p slash)"

lemma SplitChar_app: "SplitChar (a @ c # b) c = SplitChar a c @ SplitChar b c"
  by (induction a) (auto split: list.splits)

lemma clean_step_no_slash:
  "\<forall>k\<in>set kept. slash \<notin> set k \<Longrightarrow> slash \<notin> set e \<Longrightarrow> \<forall>k\<in>set (clean_step rooted kept e). slash \<notin> set k"
  unfolding clean_step_def by (cases kept) auto

lemma foldl_clean_no_slash:
  "\<forall>k\<in>set kept. slash \<notin> set k \<Longrightarrow> \<forall>w\<in>set ws. slash \<notin> set w \<Longrightarrow>
     \<forall>k\<in>set (foldl (clean_step rooted) kept ws). slash \<notin> set k"
proof (induction ws arbitrary: kept)
  case (Cons w ws)
  then have "\<forall>k\<in>set (clean_step rooted kept w). slash \<notin> set k"
    by (intro clean_step_no_slash) auto
  with Cons show ?case by simp
qed simp

lemma clean_elements_no_slash: "\<forall>e\<in>set (clean_elements rooted p). slash \<notin> set e"
  unfolding clean_elements_def
  using foldl_clean_no_slash [of "[]" "SplitChar p slash" rooted] by (auto dest: SplitChar_elements)

lemma clean_elements_last:
  assumes "plain_element (path_last p)"
  obtains es where "clean_elements rooted p = es @ [path_last p]"
proof -
  have "SplitChar p slash = butlast (SplitChar p slash) @ [path_last p]"
    by (simp add: path_last_def)
  then have "foldl (clean_step rooted) [] (SplitChar p slash)
      = path_last p # foldl (clean_step rooted) [] (butlast (SplitChar p slash))"
    using clean_step_plain [OF assms] by (metis foldl_append foldl_Cons foldl_Nil)
  then show thesis
    using that unfolding clean_elements_def by auto
qed

lemma last_SplitChar_JoinStr:
  "es \<noteq> [] \<Longrightarrow> \<forall>e\<in>set es. slash \<notin> set e \<Longrightarrow> last (SplitChar (JoinStr es [slash]) slash) = last es"
  by (simp add: SplitChar_JoinStr)

lemma path_last_Clean:
  assumes "plain_element (path_last p)"
  shows "path_last (path_Clean p) = path_last p"
proof (cases "p = ''''")
  case True
  with assms show ?thesis by (simp add: path_last_def plain_element_def)
next
  case False
  obtain es where es: "clean_elements (hd p = slash) p = es @ [path_last p]"
    using clean_elements_last [OF assms] by blast
  then have "last (SplitChar (JoinStr (es @ [path_last p]) [slash]) slash) = path_last p"
    using clean_elements_no_slash [of "hd p = slash" p] by (subst last_SplitChar_JoinStr) auto
  with False es show ?thesis
    unfolding path_Clean_def path_last_def by (auto split: list.splits)
qed

lemma path_last_append: "path_last (a @ slash # b) = path_last b"
  by (simp add: path_last_def SplitChar_app)

lemma path_last_Join:
  assumes "plain_element (path_last b)"
  shows "path_last (path_Join [a, b]) = path_last b"
proof -
  have "b \<noteq> ''''" using assms by (auto simp: path_last_def plain_element_def)
  then have "path_Join [a, b] = (if a = '''' then path_Clean b else path_Clean (a @ slash # b))"
    by (simp add: path_Join_def)
  then show ?thesis
    using assms by (simp add: path_last_Clean path_last_append)
qed

text \<open>A name whose extension is longer than \<open>..\<close> is plain.\<close>

lemma SplitChar_suffix:
  "c \<notin> set ext \<Longrightarrow> SplitChar (s @ ext) c = butlast (SplitChar s c) @ [last (SplitChar s c) @ ext]"
proof (induction s)
  case Nil
  then show ?case by (simp add: SplitChar_notin)
next
  case (Cons x xs)
  obtain w ws where "SplitChar xs c = w # ws" by (metis SplitChar_not_Nil neq_Nil_conv)
  with Cons show ?case by (cases "ws = []") auto
qed

lemma plain_extension:
  assumes "slash \<notin> set ext" and "2 < length ext"
  shows "plain_element (path_last (s @ ext))" "path_last (s @ ext) = path_last s @ ext"
proof -
  show eq: "path_last (s @ ext) = path_last s @ ext"
    using assms(1) by (simp add: path_last_def SplitChar_suffix)
  have "slash \<notin> set (path_last (s @ ext))"
    unfolding path_last_def using SplitChar_elements last_in_set SplitChar_not_Nil by metis
  moreover have "2 < length (path_last (s @ ext))" using assms(2) eq by simp
  ultimately show "plain_element (path_last (s @ ext))"
    by (auto simp: plain_element_def)
qed

text \<open>What \<open>Clean\<close> returns is not changed by cleaning again: the elements kept are plain, after leading \<open>..\<close>.\<close>

abbreviation rooted :: "string \<Rightarrow> bool" where
  "rooted p \<equiv> hd p = slash"

definition normal :: "bool \<Rightarrow> string list \<Rightarrow> bool" where
  "normal r kept \<longleftrightarrow> (\<exists>ps n. kept = ps @ replicate n ''..'' \<and> (\<forall>p\<in>set ps. plain_element p) \<and> (r \<longrightarrow> n = 0))"

lemma plain_not_dots: "plain_element p \<Longrightarrow> p \<noteq> ''..''"
  by (simp add: plain_element_def)

lemma not_plain_dots: "\<not> plain_element ''..''" "\<not> plain_element ''.''" "\<not> plain_element ''''"
  by (simp_all add: plain_element_def)

lemma normal_step:
  assumes "normal r kept" and "slash \<notin> set e"
  shows "normal r (clean_step r kept e)"
proof -
  obtain ps n where k: "kept = ps @ replicate n ''..''" "\<forall>p\<in>set ps. plain_element p" "r \<longrightarrow> n = 0"
    using assms(1) unfolding normal_def by blast
  consider "e = '''' \<or> e = ''.''" | "e = ''..''" | "plain_element e"
    using assms(2) unfolding plain_element_def by blast
  then show ?thesis
  proof cases
    case 1
    with assms(1) show ?thesis by (auto simp: clean_step_def)
  next
    case 2
    show ?thesis
    proof (cases ps)
      case Nil
      show ?thesis
      proof (cases r)
        case True
        with Nil k 2 show ?thesis by (simp add: clean_step_def normal_def)
      next
        case False
        with Nil k 2 have "clean_step r kept e = [] @ replicate (Suc n) ''..''"
          by (cases n) (simp_all add: clean_step_def)
        with False show ?thesis unfolding normal_def by fastforce
      qed
    next
      case (Cons p ps')
      with k have "p \<noteq> ''..''" by (auto dest: plain_not_dots)
      with Cons k 2 have "clean_step r kept e = ps' @ replicate n ''..''" by (simp add: clean_step_def)
      with k Cons show ?thesis unfolding normal_def by (metis list.set_intros(2))
    qed
  next
    case 3
    then have "clean_step r kept e = (e # ps) @ replicate n ''..''"
      using k by (simp add: clean_step_plain)
    with 3 k show ?thesis unfolding normal_def by (metis set_ConsD)
  qed
qed

lemma normal_foldl: "normal r kept \<Longrightarrow> \<forall>w\<in>set ws. slash \<notin> set w \<Longrightarrow> normal r (foldl (clean_step r) kept ws)"
  by (induction ws arbitrary: kept) (auto intro: normal_step)

lemma normal_clean: "normal r (rev (clean_elements r p))"
proof -
  have "normal r []" by (simp add: normal_def)
  then show ?thesis
    unfolding clean_elements_def by (auto intro!: normal_foldl dest: SplitChar_elements)
qed

lemma foldl_clean_dots:
  "foldl (clean_step False) (replicate m ''..'') (replicate n ''..'') = replicate (n + m) ''..''"
proof (induction n arbitrary: m)
  case (Suc n)
  have "clean_step False (replicate m ''..'') ''..'' = replicate (Suc m) ''..''"
    by (cases m) (simp_all add: clean_step_def)
  with Suc [of "Suc m"] show ?case by simp
qed simp

lemma foldl_clean_normal:
  assumes "normal r kept"
  shows "foldl (clean_step r) [] (rev kept) = kept"
proof -
  obtain ps n where k: "kept = ps @ replicate n ''..''" "\<forall>p\<in>set ps. plain_element p" "r \<longrightarrow> n = 0"
    using assms unfolding normal_def by blast
  have "foldl (clean_step r) [] (replicate n ''..'') = replicate n ''..''"
    using k(3) foldl_clean_dots [of 0 n] by (cases r) simp_all
  then show ?thesis
    using k(1,2) by (simp add: foldl_clean_plain)
qed

lemma foldl_clean_again:
  assumes "p \<noteq> ''''"
  shows "foldl (clean_step (rooted p)) [] (SplitChar (path_Clean p) slash) = rev (clean_elements (rooted p) p)"
proof (cases "clean_elements (rooted p) p = []")
  case True
  with assms show ?thesis
    by (cases "rooted p") (simp_all add: path_Clean_def clean_step_def)
next
  case False
  let ?es = "clean_elements (rooted p) p"
  have "SplitChar (JoinStr ?es [slash]) slash = ?es"
    using False clean_elements_no_slash by (intro SplitChar_JoinStr) auto
  then have "SplitChar (path_Clean p) slash = (if rooted p then [''''] else []) @ ?es"
    using assms False by (cases "rooted p") (auto simp: path_Clean_def split: list.splits)
  then show ?thesis
    using foldl_clean_normal [OF normal_clean, of "rooted p" p] by (cases "rooted p") (simp_all add: clean_step_def [of _ _ "[]"])
qed

lemma clean_elements_nonempty: "e \<in> set (clean_elements r p) \<Longrightarrow> e \<noteq> [] \<and> hd e \<noteq> slash"
proof -
  assume e: "e \<in> set (clean_elements r p)"
  obtain ps n where "rev (clean_elements r p) = ps @ replicate n (''..'')" "\<forall>p\<in>set ps. plain_element p"
    using normal_clean [of r p] unfolding normal_def by blast
  then have "set (clean_elements r p) \<subseteq> set ps \<union> {''..''}"
    by (metis set_append set_replicate_conv_if set_rev sup.mono order_refl empty_subsetI)
  then have "e \<noteq> []"
    using e \<open>\<forall>p\<in>set ps. plain_element p\<close> not_plain_dots(3) by blast
  moreover have "slash \<notin> set e" using clean_elements_no_slash e by blast
  ultimately show "e \<noteq> [] \<and> hd e \<noteq> slash" by (metis hd_in_set)
qed

lemma JoinStr_first: "e \<noteq> [] \<Longrightarrow> JoinStr (e # es) s \<noteq> [] \<and> hd (JoinStr (e # es) s) = hd e"
  by (cases es) simp_all

lemma path_Clean_head: "path_Clean p \<noteq> [] \<and> (rooted (path_Clean p) \<longleftrightarrow> p \<noteq> [] \<and> rooted p)"
proof (cases "p = [] \<or> rooted p")
  case False
  show ?thesis
  proof (cases "clean_elements False p")
    case Nil
    with False show ?thesis by (simp add: path_Clean_def)
  next
    case (Cons e es)
    then have "e \<noteq> [] \<and> hd e \<noteq> slash" using clean_elements_nonempty [of e False p] by simp
    with Cons False JoinStr_first [of e es "[slash]"] show ?thesis by (simp add: path_Clean_def)
  qed
qed (auto simp: path_Clean_def)

text \<open>Joining in two steps.\<close>

lemma clean_elements_Clean:
  assumes "p \<noteq> []"
  shows "clean_elements (rooted p) (path_Clean p @ slash # q) = clean_elements (rooted p) (p @ slash # q)"
proof -
  have "foldl (clean_step (rooted p)) [] (SplitChar (path_Clean p) slash) = foldl (clean_step (rooted p)) [] (SplitChar p slash)"
    using foldl_clean_again [OF assms] by (simp add: clean_elements_def)
  then show ?thesis
    by (simp add: clean_elements_def SplitChar_app)
qed

lemma path_Clean_Clean:
  assumes "p \<noteq> []"
  shows "path_Clean (path_Clean p @ slash # q) = path_Clean (p @ slash # q)"
proof -
  have "rooted (path_Clean p @ slash # q) \<longleftrightarrow> rooted p" "rooted (p @ slash # q) \<longleftrightarrow> rooted p"
    using path_Clean_head [of p] assms by simp_all
  with clean_elements_Clean [OF assms, of q] show ?thesis
    by (cases "rooted p") (simp_all add: path_Clean_def)
qed

theorem path_Join_Join:
  assumes "b \<noteq> []"
  shows "path_Join [path_Join [a, b], c] = path_Join [a, b, c]"
proof -
  define p where "p = (if a = [] then b else a @ slash # b)"
  have p: "p \<noteq> []" using assms by (simp add: p_def)
  have join: "path_Join [a, b] = path_Clean p" "path_Join [a, b, c] = path_Clean (p @ slash # c)"
    using assms by (simp_all add: path_Join_def p_def)
  have "path_Join [path_Clean p, c] = path_Clean (path_Clean p @ slash # c)"
    using path_Clean_head [of p] by (simp add: path_Join_def)
  with join path_Clean_Clean [OF p] show ?thesis by simp
qed

text \<open>A character that no part of a path has is not in the joined path.\<close>

lemma SplitChar_free: "c \<notin> set p \<Longrightarrow> \<forall>w\<in>set (SplitChar p d). c \<notin> set w"
  by (induction p) (auto split: list.splits)

lemma JoinStr_free: "\<forall>w\<in>set ws. c \<notin> set w \<Longrightarrow> c \<notin> set s \<Longrightarrow> c \<notin> set (JoinStr ws s)"
  by (induction ws s rule: JoinStr.induct) auto

lemma clean_step_free:
  assumes "\<forall>k\<in>set kept. c \<notin> set k" "c \<notin> set e" "c \<noteq> CHR ''.''"
  shows "\<forall>k\<in>set (clean_step r kept e). c \<notin> set k"
  using assms unfolding clean_step_def by (cases kept) simp_all

lemma foldl_clean_free:
  assumes "\<forall>k\<in>set kept. c \<notin> set k" "\<forall>w\<in>set ws. c \<notin> set w" "c \<noteq> CHR ''.''"
  shows "\<forall>k\<in>set (foldl (clean_step r) kept ws). c \<notin> set k"
  using assms
proof (induction ws arbitrary: kept)
  case (Cons w ws)
  have "\<forall>k\<in>set (clean_step r kept w). c \<notin> set k"
    using Cons.prems by (intro clean_step_free) simp_all
  with Cons show ?case by simp
qed simp

lemma path_Clean_free:
  assumes "c \<notin> set p" "c \<noteq> CHR ''.''" "c \<noteq> slash"
  shows "c \<notin> set (path_Clean p)"
proof -
  have "c \<notin> set (JoinStr (clean_elements r p) [slash])" for r
    unfolding clean_elements_def
    using assms(2,3) foldl_clean_free [of "[]" c "SplitChar p slash" r] SplitChar_free [OF assms(1), of slash]
    by (intro JoinStr_free) simp_all
  from this [of True] this [of False] show ?thesis
    using assms(2,3) unfolding path_Clean_def by (cases "clean_elements False p") (simp_all del: JoinStr.simps)
qed

lemma path_Join_free:
  assumes "\<forall>p\<in>set ps. c \<notin> set p" "c \<noteq> CHR ''.''" "c \<noteq> slash"
  shows "c \<notin> set (path_Join ps)"
proof -
  have "\<forall>p\<in>set (dropWhile (\<lambda>p. p = []) ps). c \<notin> set p"
    using assms(1) by (meson set_dropWhileD)
  then have "c \<notin> set (path_Clean (JoinStr (dropWhile (\<lambda>p. p = []) ps) [slash]))"
    using assms(2,3) by (intro path_Clean_free JoinStr_free) simp_all
  then show ?thesis
    unfolding path_Join_def by (simp split: list.split)
qed

end
