(* ===== verification/Builders.thy ===== *)
theory Builders
  imports Api_Model Global_Cache
begin

text \<open>
  \<open>service/controller/config.go\<close>, \<open>userbuilder.go\<close>, \<open>inboundbuilder.go\<close> and \<open>outboundbuilder.go\<close>: from the
  panel's description of a node and its users to the configurations handed to xray-core. The
  final \<open>Build\<close> of a detour configuration and certificate issuance (\<open>mylego\<close>) are parameters;
  the random bytes of a Shadowsocks password are an argument; the list of Shadowsocks 2022
  methods belongs to \<open>sing-shadowsocks\<close> and is an argument as well. Settings are kept as
  structures instead of the JSON text they are marshalled to, listening and sending addresses
  as the text that \<open>net.ParseAddress\<close> reads.
\<close>

section \<open>Configuration\<close>

record CertConfig =
  cc_CertMode :: string
  cc_CertDomain :: string
  cc_CertFile :: string
  cc_KeyFile :: string
  cc_Provider :: string
  cc_Email :: string
  cc_DNSEnv :: "(string, string) gomap"
  cc_RejectUnknownSni :: bool

record AutoSpeedLimitConfig =
  as_Limit :: int
  as_WarnTimes :: int
  as_LimitSpeed :: int
  as_LimitDuration :: int

record FallBackConfig =
  fb_SNI :: string
  fb_Alpn :: string
  fb_Path :: string
  fb_Dest :: string
  fb_ProxyProtocolVer :: uint64

record Config =
  cfg_ListenIP :: string
  cfg_SendIP :: string
  cfg_UpdatePeriodic :: int
  cfg_CertConfig :: "CertConfig option"
  cfg_EnableDNS :: bool
  cfg_DNSType :: string
  cfg_DisableUploadTraffic :: bool
  cfg_DisableGetRule :: bool
  cfg_EnableProxyProtocol :: bool
  cfg_EnableFallback :: bool
  cfg_DisableIVCheck :: bool
  cfg_DisableSniffing :: bool
  cfg_AutoSpeedLimitConfig :: "AutoSpeedLimitConfig option"
  cfg_GlobalDeviceLimitConfig :: "GlobalDeviceLimitConfig option"
  cfg_FallBackConfigs :: "FallBackConfig list option"

text \<open>A nil pointer that the code dereferences, as an error value.\<close>

definition nil_deref :: go_error where
  "nil_deref = Error ''runtime error: invalid memory address or nil pointer dereference''"

section \<open>Encodings of the standard library\<close>

definition str_bytes :: "string \<Rightarrow> uint8 list" where
  "str_bytes s = map (\<lambda>c. word_of_nat (of_char c)) s"

definition hex_digits :: string where "hex_digits = ''0123456789abcdef''"

definition hex_EncodeToString :: "uint8 list \<Rightarrow> string" where
  "hex_EncodeToString bs = concat (map (\<lambda>b. [hex_digits ! (unat b div 16), hex_digits ! (unat b mod 16)]) bs)"

definition base64_alphabet :: string where
  "base64_alphabet = ''ABCDEFGHIJKLMNOPQRSTUVWXYZabcdefghijklmnopqrstuvwxyz0123456789+/''"

definition b64 :: "nat \<Rightarrow> char" where "b64 n = base64_alphabet ! (n mod 64)"

fun base64_EncodeToString :: "uint8 list \<Rightarrow> string" where
  "base64_EncodeToString [] = ''''"
| "base64_EncodeToString [a] =
     (let n = unat a * 65536 in [b64 (n div 262144), b64 (n div 4096), CHR ''='', CHR ''=''])"
| "base64_EncodeToString [a, b] =
     (let n = unat a * 65536 + unat b * 256 in [b64 (n div 262144), b64 (n div 4096), b64 (n div 64), CHR ''=''])"
| "base64_EncodeToString (a # b # c # bs) =
     (let n = unat a * 65536 + unat b * 256 + unat c in
      [b64 (n div 262144), b64 (n div 4096), b64 (n div 64), b64 n] @ base64_EncodeToString bs)"

section \<open>Users\<close>

datatype CipherType = CipherType_UNKNOWN | CipherType_AES_128_GCM | CipherType_AES_256_GCM
  | CipherType_CHACHA20_POLY1305 | CipherType_XCHACHA20_POLY1305 | CipherType_NONE

datatype Account =
    VMessAccount string uint16 string
  | VlessAccount string string
  | TrojanAccount string string
  | Shadowsocks2022User string string uint32
  | ShadowsocksAccount string CipherType

record ProtocolUser =
  pu_Level :: uint32
  pu_Email :: string
  pu_Account :: Account

definition AEADMethod :: "CipherType list" where
  "AEADMethod = [CipherType_AES_128_GCM, CipherType_AES_256_GCM, CipherType_CHACHA20_POLY1305, CipherType_XCHACHA20_POLY1305]"

definition cipherFromString :: "string \<Rightarrow> CipherType" where
  "cipherFromString c =
     (let s = ToLower c in
      if s = ''aes-128-gcm'' \<or> s = ''aead_aes_128_gcm'' then CipherType_AES_128_GCM
      else if s = ''aes-256-gcm'' \<or> s = ''aead_aes_256_gcm'' then CipherType_AES_256_GCM
      else if s = ''chacha20-poly1305'' \<or> s = ''aead_chacha20_poly1305'' \<or> s = ''chacha20-ietf-poly1305''
        then CipherType_CHACHA20_POLY1305
      else if s = ''none'' \<or> s = ''plain'' then CipherType_NONE
      else CipherType_UNKNOWN)"

definition checkShadowsocksPassword :: "string \<Rightarrow> string \<Rightarrow> string \<Rightarrow> string result" where
  "checkShadowsocksPassword panelType password method =
     (if ContainsStr panelType ''V2board'' then
        (if length password < 16 then Inl (Error ''shadowsocks2022 key's length must be greater than 16'')
         else if method = ''2022-blake3-aes-128-gcm'' then Inr (base64_EncodeToString (str_bytes (take 16 password)))
         else if length password < 32 then Inl (Error ''shadowsocks2022 key's length must be greater than 32'')
         else Inr (base64_EncodeToString (str_bytes (take 32 password))))
      else Inr password)"

definition buildVmessUser :: "UserInfo list \<Rightarrow> uint16 \<Rightarrow> string \<Rightarrow> ProtocolUser option list" where
  "buildVmessUser userInfo serverAlterID tag =
     map (\<lambda>user. Some \<lparr>pu_Level = 0, pu_Email = buildUserTagWithTag tag user,
                       pu_Account = VMessAccount (u_UUID user) serverAlterID ''auto''\<rparr>) userInfo"

definition buildVlessUser :: "UserInfo list \<Rightarrow> string \<Rightarrow> ProtocolUser option list" where
  "buildVlessUser userInfo tag =
     map (\<lambda>user. Some \<lparr>pu_Level = 0, pu_Email = buildUserTagWithTag tag user,
                       pu_Account = VlessAccount (u_UUID user) ''xtls-rprx-vision,none''\<rparr>) userInfo"

definition buildTrojanUser :: "UserInfo list \<Rightarrow> string \<Rightarrow> ProtocolUser option list" where
  "buildTrojanUser userInfo tag =
     map (\<lambda>user. Some \<lparr>pu_Level = 0, pu_Email = buildUserTagWithTag tag user,
                       pu_Account = TrojanAccount (u_UUID user) ''xtls-rprx-direct''\<rparr>) userInfo"

text \<open>A Shadowsocks 2022 user whose key does not fit is skipped: its slot stays nil.\<close>

definition buildSS2022User :: "string \<Rightarrow> UserInfo \<Rightarrow> string \<Rightarrow> string \<Rightarrow> ProtocolUser option" where
  "buildSS2022User panelType user method tag =
     (let e = buildUserTagWithTag tag user in
      case checkShadowsocksPassword panelType (u_Passwd user) method of
        Inl err \<Rightarrow> None
      | Inr userKey \<Rightarrow> Some \<lparr>pu_Level = 0, pu_Email = e, pu_Account = Shadowsocks2022User userKey e 0\<rparr>)"

definition buildSSUser :: "string list \<Rightarrow> string \<Rightarrow> UserInfo list \<Rightarrow> string \<Rightarrow> string \<Rightarrow> ProtocolUser option list" where
  "buildSSUser ss2022 panelType userInfo method tag =
     map (\<lambda>user.
       if ToLower method \<in> set ss2022 then buildSS2022User panelType user method tag
       else Some \<lparr>pu_Level = 0, pu_Email = buildUserTagWithTag tag user,
                  pu_Account = ShadowsocksAccount (u_Passwd user) (cipherFromString method)\<rparr>) userInfo"

definition buildSSPluginUser :: "string list \<Rightarrow> string \<Rightarrow> UserInfo list \<Rightarrow> string \<Rightarrow> ProtocolUser option list" where
  "buildSSPluginUser ss2022 panelType userInfo tag =
     map (\<lambda>user.
       if ToLower (u_Method user) \<in> set ss2022 then buildSS2022User panelType user (u_Method user) tag
       else
         let cypherMethod = cipherFromString (u_Method user) in
         if cypherMethod \<in> set AEADMethod
         then Some \<lparr>pu_Level = 0, pu_Email = buildUserTagWithTag tag user,
                    pu_Account = ShadowsocksAccount (u_Passwd user) cypherMethod\<rparr>
         else None) userInfo"

section \<open>Inbound configuration\<close>

record InboundFallback =
  if_Name :: string
  if_Alpn :: string
  if_Path :: string
  if_Dest :: string
  if_Xver :: uint64

datatype proxy_settings =
    VLessInbound string "InboundFallback list"
  | VMessInbound
  | TrojanServer "InboundFallback list"
  | ShadowsocksServer string string "string list" "string list" bool
  | Dokodemo string "string list"

record TLSConfig =
  tls_RejectUnknownSNI :: bool
  tls_CertFile :: string
  tls_KeyFile :: string
  tls_OcspStapling :: uint64

record StreamConfig =
  sc_Network :: string
  sc_TCPSettings :: "(bool \<times> string option) option"
  sc_WSSettings :: "(bool \<times> string \<times> string) option"
  sc_HTTPSettings :: "(string list \<times> string) option"
  sc_GRPCConfig :: "string option"
  sc_Security :: string
  sc_TLSSettings :: "TLSConfig option"
  sc_XTLSSettings :: "TLSConfig option"
  sc_SocketSettings :: "bool option"

record InboundDetourConfig =
  id_ListenOn :: "string option"
  id_PortFrom :: uint32
  id_PortTo :: uint32
  id_Tag :: string
  id_SniffingEnabled :: bool
  id_DestOverride :: "string list"
  id_Protocol :: string
  id_Settings :: proxy_settings
  id_StreamSetting :: StreamConfig

fun fallback_list :: "FallBackConfig list \<Rightarrow> InboundFallback list result" where
  "fallback_list [] = Inr []"
| "fallback_list (c # cs) =
     (if fb_Dest c = '''' then Inl (Error ''dest is required for fallback fialed'')
      else case fallback_list cs of
        Inl err \<Rightarrow> Inl err
      | Inr rest \<Rightarrow> Inr (\<lparr>if_Name = fb_SNI c, if_Alpn = fb_Alpn c, if_Path = fb_Path c,
                          if_Dest = fb_Dest c, if_Xver = fb_ProxyProtocolVer c\<rparr> # rest))"

definition buildVlessFallbacks :: "FallBackConfig list option \<Rightarrow> InboundFallback list result" where
  "buildVlessFallbacks fallbackConfigs =
     (case fallbackConfigs of
        None \<Rightarrow> Inl (Error ''you must provide FallBackConfigs'')
      | Some cs \<Rightarrow> fallback_list cs)"

definition buildTrojanFallbacks :: "FallBackConfig list option \<Rightarrow> InboundFallback list result" where
  "buildTrojanFallbacks fallbackConfigs =
     (case fallbackConfigs of
        None \<Rightarrow> Inl (Error ''you must provide FallBackConfigs'')
      | Some cs \<Rightarrow> fallback_list cs)"

text \<open>Certificates: \<open>lego_dns\<close> and \<open>lego_http\<close> stand for issuing one through \<open>mylego\<close>.\<close>

definition getCertFile ::
    "(CertConfig \<Rightarrow> (string \<times> string) result) \<Rightarrow> (CertConfig \<Rightarrow> (string \<times> string) result) \<Rightarrow>
     CertConfig \<Rightarrow> (string \<times> string) result" where
  "getCertFile lego_dns lego_http certConfig =
     (if cc_CertMode certConfig = ''file'' then
        (if cc_CertFile certConfig = '''' \<or> cc_KeyFile certConfig = ''''
         then Inl (Error ''cert file path or key file path not exist'')
         else Inr (cc_CertFile certConfig, cc_KeyFile certConfig))
      else if cc_CertMode certConfig = ''dns'' then lego_dns certConfig
      else if cc_CertMode certConfig = ''http'' \<or> cc_CertMode certConfig = ''tls'' then lego_http certConfig
      else Inl (Error (''unsupported certmode: '' @ cc_CertMode certConfig)))"

text \<open>\<open>TransportProtocol.Build\<close> of xray-core's \<open>infra/conf\<close>.\<close>

definition TransportProtocol_Build :: "string \<Rightarrow> string result" where
  "TransportProtocol_Build p =
     (let s = ToLower p in
      if s = ''tcp'' then Inr ''tcp''
      else if s = ''kcp'' \<or> s = ''mkcp'' then Inr ''mkcp''
      else if s = ''ws'' \<or> s = ''websocket'' then Inr ''websocket''
      else if s = ''h2'' \<or> s = ''http'' then Inr ''http''
      else if s = ''ds'' \<or> s = ''domainsocket'' then Inr ''domainsocket''
      else if s = ''quic'' then Inr ''quic''
      else if s = ''grpc'' \<or> s = ''gun'' then Inr ''grpc''
      else Inl (Error (''Config: unknown transport protocol: '' @ p)))"

definition inboundProtocol ::
    "string list \<Rightarrow> uint8 list \<Rightarrow> Config \<Rightarrow> NodeInfo \<Rightarrow> (string \<times> proxy_settings) result" where
  "inboundProtocol ss2022 b config nodeInfo =
     (if ni_NodeType nodeInfo = ''V2ray'' then
        (if ni_EnableVless nodeInfo then
           (if cfg_EnableFallback config then
              (case buildVlessFallbacks (cfg_FallBackConfigs config) of
                 Inl err \<Rightarrow> Inl err
               | Inr fs \<Rightarrow> Inr (''vless'', VLessInbound ''none'' fs))
            else Inr (''vless'', VLessInbound ''none'' []))
         else Inr (''vmess'', VMessInbound))
      else if ni_NodeType nodeInfo = ''Trojan'' then
        (if cfg_EnableFallback config then
           (case buildTrojanFallbacks (cfg_FallBackConfigs config) of
              Inl err \<Rightarrow> Inl err
            | Inr fs \<Rightarrow> Inr (''trojan'', TrojanServer fs))
         else Inr (''trojan'', TrojanServer []))
      else if ni_NodeType nodeInfo = ''Shadowsocks'' \<or> ni_NodeType nodeInfo = ''Shadowsocks-Plugin'' then
        (let cipher = ToLower (ni_CypherMethod nodeInfo);
             (password, users) =
               (if cipher \<in> set ss2022 then (ni_ServerKey nodeInfo, [base64_EncodeToString b])
                else (hex_EncodeToString b, []))
         in Inr (''shadowsocks'', ShadowsocksServer cipher password users [''tcp'', ''udp''] (\<not> cfg_DisableIVCheck config)))
      else if ni_NodeType nodeInfo = ''dokodemo-door'' then
        Inr (''dokodemo-door'', Dokodemo ''v1.mux.cool'' [''tcp'', ''udp''])
      else Inl (Error (''unsupported node type: '' @ ni_NodeType nodeInfo @
             '', Only support: V2ray, Trojan, Shadowsocks, and Shadowsocks-Plugin'')))"

definition empty_stream :: "string \<Rightarrow> StreamConfig" where
  "empty_stream network = \<lparr>sc_Network = network, sc_TCPSettings = None, sc_WSSettings = None, sc_HTTPSettings = None,
     sc_GRPCConfig = None, sc_Security = '''', sc_TLSSettings = None, sc_XTLSSettings = None, sc_SocketSettings = None\<rparr>"

definition transportSettings :: "Config \<Rightarrow> NodeInfo \<Rightarrow> string \<Rightarrow> StreamConfig" where
  "transportSettings config nodeInfo networkType =
     (let s = empty_stream (ni_TransportProtocol nodeInfo) in
      if networkType = ''tcp'' then s\<lparr>sc_TCPSettings := Some (cfg_EnableProxyProtocol config, ni_Header nodeInfo)\<rparr>
      else if networkType = ''websocket'' then
        s\<lparr>sc_WSSettings := Some (cfg_EnableProxyProtocol config, ni_Path nodeInfo, ni_Host nodeInfo)\<rparr>
      else if networkType = ''http'' then s\<lparr>sc_HTTPSettings := Some ([ni_Host nodeInfo], ni_Path nodeInfo)\<rparr>
      else if networkType = ''grpc'' then s\<lparr>sc_GRPCConfig := Some (ni_ServiceName nodeInfo)\<rparr>
      else s)"

definition tlsSettings ::
    "(CertConfig \<Rightarrow> (string \<times> string) result) \<Rightarrow> (CertConfig \<Rightarrow> (string \<times> string) result) \<Rightarrow>
     Config \<Rightarrow> NodeInfo \<Rightarrow> StreamConfig \<Rightarrow> StreamConfig result" where
  "tlsSettings lego_dns lego_http config nodeInfo s =
     (if \<not> ni_EnableTLS nodeInfo then Inr s
      else case cfg_CertConfig config of
        None \<Rightarrow> Inl nil_deref
      | Some cert \<Rightarrow>
          if cc_CertMode cert = ''none'' then Inr s
          else case getCertFile lego_dns lego_http cert of
            Inl err \<Rightarrow> Inl err
          | Inr (certFile, keyFile) \<Rightarrow>
              let s1 = s\<lparr>sc_Security := ni_TLSType nodeInfo\<rparr>; v = Some \<lparr>tls_RejectUnknownSNI = cc_RejectUnknownSni cert, tls_CertFile = certFile,
                                  tls_KeyFile = keyFile, tls_OcspStapling = 3600\<rparr> in
              Inr (if ni_TLSType nodeInfo = ''tls'' then s1\<lparr>sc_TLSSettings := v\<rparr>
                   else if ni_TLSType nodeInfo = ''xtls'' then s1\<lparr>sc_XTLSSettings := v\<rparr>
                   else s1))"

record 'ic builder_env =
  be_ss2022 :: "string list"
  be_random :: "uint8 list"
  be_lego_dns :: "CertConfig \<Rightarrow> (string \<times> string) result"
  be_lego_http :: "CertConfig \<Rightarrow> (string \<times> string) result"
  be_build_inbound :: "InboundDetourConfig \<Rightarrow> 'ic result"

definition inboundDetour :: "'ic builder_env \<Rightarrow> Config \<Rightarrow> NodeInfo \<Rightarrow> string \<Rightarrow> InboundDetourConfig result" where
  "inboundDetour be config nodeInfo tag =
     (let listen = (if ni_NodeType nodeInfo = ''Shadowsocks-Plugin'' then Some ''127.0.0.1''
                    else if cfg_ListenIP config \<noteq> '''' then Some (cfg_ListenIP config) else None)
      in case inboundProtocol (be_ss2022 be) (be_random be) config nodeInfo of
        Inl err \<Rightarrow> Inl err
      | Inr (protocol, setting) \<Rightarrow>
          (case TransportProtocol_Build (ni_TransportProtocol nodeInfo) of
             Inl (Error e) \<Rightarrow> Inl (Error (''convert TransportProtocol failed: '' @ e))
           | Inr networkType \<Rightarrow>
               (case tlsSettings (be_lego_dns be) (be_lego_http be) config nodeInfo
                       (transportSettings config nodeInfo networkType) of
                  Inl err \<Rightarrow> Inl err
                | Inr s \<Rightarrow>
                    let s' = (if networkType \<noteq> ''tcp'' \<and> networkType \<noteq> ''ws'' \<and> cfg_EnableProxyProtocol config
                              then s\<lparr>sc_SocketSettings := Some (cfg_EnableProxyProtocol config)\<rparr> else s)
                    in Inr \<lparr>id_ListenOn = listen, id_PortFrom = ni_Port nodeInfo, id_PortTo = ni_Port nodeInfo,
                            id_Tag = tag, id_SniffingEnabled = (\<not> cfg_DisableSniffing config),
                            id_DestOverride = [''http'', ''tls''], id_Protocol = protocol,
                            id_Settings = setting, id_StreamSetting = s'\<rparr>)))"

definition InboundBuilder :: "'ic builder_env \<Rightarrow> Config \<Rightarrow> NodeInfo \<Rightarrow> string \<Rightarrow> 'ic result" where
  "InboundBuilder be config nodeInfo tag =
     (case inboundDetour be config nodeInfo tag of
        Inl err \<Rightarrow> Inl err
      | Inr detour \<Rightarrow> be_build_inbound be detour)"

section \<open>Outbound configuration\<close>

record OutboundDetourConfig =
  od_Protocol :: string
  od_Tag :: string
  od_SendThrough :: "string option"
  od_DomainStrategy :: string
  od_Redirect :: string

definition outboundDetour :: "Config \<Rightarrow> NodeInfo \<Rightarrow> string \<Rightarrow> OutboundDetourConfig" where
  "outboundDetour config nodeInfo tag =
     \<lparr>od_Protocol = ''freedom'', od_Tag = tag,
      od_SendThrough = (if cfg_SendIP config \<noteq> '''' then Some (cfg_SendIP config) else None),
      od_DomainStrategy = (if cfg_EnableDNS config then (if cfg_DNSType config \<noteq> '''' then cfg_DNSType config else ''UseIP'') else ''Asis''),
      od_Redirect = (if ni_NodeType nodeInfo = ''dokodemo-door''
                     then ''127.0.0.1:'' @ Itoa (int (unat (ni_Port nodeInfo - 1))) else '''')\<rparr>"

definition OutboundBuilder :: "(OutboundDetourConfig \<Rightarrow> 'oc result) \<Rightarrow> Config \<Rightarrow> NodeInfo \<Rightarrow> string \<Rightarrow> 'oc result" where
  "OutboundBuilder build config nodeInfo tag = build (outboundDetour config nodeInfo tag)"

section \<open>Facts\<close>

text \<open>Every builder makes one slot per panel user, and a filled slot carries the user's key.\<close>

definition slots_ok :: "string \<Rightarrow> UserInfo list \<Rightarrow> ProtocolUser option list \<Rightarrow> bool" where
  "slots_ok tag us ps \<longleftrightarrow> length ps = length us \<and>
     (\<forall>i < length us. \<forall>pu. ps ! i = Some pu \<longrightarrow> pu_Email pu = user_key tag (us ! i))"

lemma slots_ok_map:
  "(\<And>u pu. f u = Some pu \<Longrightarrow> pu_Email pu = user_key tag u) \<Longrightarrow> slots_ok tag us (map f us)"
  by (simp add: slots_ok_def)

lemma buildSS2022User_key: "buildSS2022User panelType u method tag = Some pu \<Longrightarrow> pu_Email pu = user_key tag u"
  by (auto simp: buildSS2022User_def buildUserTagWithTag_key Let_def split: sum.splits)

lemma builders_slots_ok:
  "slots_ok tag us (buildVmessUser us a tag)"
  "slots_ok tag us (buildVlessUser us tag)"
  "slots_ok tag us (buildTrojanUser us tag)"
  "slots_ok tag us (buildSSUser ss panelType us method tag)"
  "slots_ok tag us (buildSSPluginUser ss panelType us tag)"
  unfolding buildVmessUser_def buildVlessUser_def buildTrojanUser_def buildSSUser_def buildSSPluginUser_def
  by (rule slots_ok_map; auto simp: buildUserTagWithTag_key Let_def dest: buildSS2022User_key split: if_splits)+

text \<open>When the builders leave no slot empty.\<close>

lemma simple_builders_total:
  "None \<notin> set (buildVmessUser us a tag)" "None \<notin> set (buildVlessUser us tag)" "None \<notin> set (buildTrojanUser us tag)"
  by (auto simp: buildVmessUser_def buildVlessUser_def buildTrojanUser_def)

lemma buildSSUser_total: "ToLower method \<notin> set ss \<Longrightarrow> None \<notin> set (buildSSUser ss panelType us method tag)"
  by (auto simp: buildSSUser_def)

lemma buildSS2022User_None:
  "buildSS2022User panelType u method tag = None \<longleftrightarrow>
     ContainsStr panelType ''V2board'' \<and>
     (length (u_Passwd u) < 16 \<or> method \<noteq> ''2022-blake3-aes-128-gcm'' \<and> length (u_Passwd u) < 32)"
  by (auto simp: buildSS2022User_def checkShadowsocksPassword_def Let_def split: sum.splits if_splits)

lemma length_base64: "length (base64_EncodeToString bs) = 4 * ((length bs + 2) div 3)"
  by (induction bs rule: base64_EncodeToString.induct) (simp_all add: Let_def, presburger)

text \<open>The keys given to Shadowsocks 2022 have the length their cipher needs.\<close>

lemma checkShadowsocksPassword_length:
  assumes "checkShadowsocksPassword panelType password method = Inr key" and "ContainsStr panelType ''V2board''"
  shows "\<exists>k. key = base64_EncodeToString (str_bytes k) \<and> length k = (if method = ''2022-blake3-aes-128-gcm'' then 16 else 32)
     \<and> k = take (length k) password"
  using assms by (auto simp: checkShadowsocksPassword_def min_def split: if_splits)

lemma inboundDetour_port:
  "inboundDetour be config ni tag = Inr c \<Longrightarrow> id_PortFrom c = ni_Port ni \<and> id_PortTo c = ni_Port ni \<and> id_Tag c = tag"
  by (auto simp: inboundDetour_def Let_def split: sum.splits go_error.splits prod.splits)

lemma inboundDetour_websocket_proxy:
  assumes "inboundDetour be config ni tag = Inr c" and "cfg_EnableProxyProtocol config"
    and "TransportProtocol_Build (ni_TransportProtocol ni) = Inr ''websocket''"
  shows "sc_SocketSettings (id_StreamSetting c) = Some True
    \<and> (\<exists>path host. sc_WSSettings (id_StreamSetting c) = Some (True, path, host))"
  using assms
  by (auto simp: inboundDetour_def Let_def tlsSettings_def transportSettings_def empty_stream_def
      split: sum.splits go_error.splits prod.splits if_splits option.splits)

end
