(* ===== verification/Cert_Files.thy ===== *)
theory Cert_Files
  imports Go_Paths Builders
begin

text \<open>
  The file system as the certificate code of \<open>common/mylego\<close> uses it, and the calls of that code that
  may panic. A path is a string, compared after \<open>filepath.Join\<close>; a write needs the directory of
  the file. Every other failure of the operating system (permissions, a full disk) is the
  parameter \<open>fault\<close>. A call maps the state to a value or a panic with its text, and the new state.
\<close>

section \<open>Files\<close>

record file_system =
  fs_files :: "(string, string) gomap"
  fs_dirs :: "string list"

datatype fs_op = OpStat | OpRead | OpWrite | OpCreate | OpMkdir

type_synonym fs_fault = "fs_op \<Rightarrow> string \<Rightarrow> go_error option"

datatype stat = StatOk | StatNotExist | StatError go_error

definition is_dir :: "file_system \<Rightarrow> string \<Rightarrow> bool" where
  "is_dir fs p \<longleftrightarrow> p = ''/'' \<or> p = ''.'' \<or> p \<in> set (fs_dirs fs)"

definition os_Stat :: "fs_fault \<Rightarrow> string \<Rightarrow> file_system \<Rightarrow> stat" where
  "os_Stat fault p fs =
     (case fault OpStat p of
        Some e \<Rightarrow> StatError e
      | None \<Rightarrow> if load (fs_files fs) p \<noteq> None \<or> is_dir fs p then StatOk else StatNotExist)"

abbreviation no_such_file :: "string \<Rightarrow> go_error" where
  "no_such_file p \<equiv> Error (''open '' @ p @ '': no such file or directory'')"

definition os_ReadFile :: "fs_fault \<Rightarrow> string \<Rightarrow> file_system \<Rightarrow> string result" where
  "os_ReadFile fault p fs =
     (case fault OpRead p of
        Some e \<Rightarrow> Inl e
      | None \<Rightarrow> (case load (fs_files fs) p of None \<Rightarrow> Inl (no_such_file p) | Some c \<Rightarrow> Inr c))"

text \<open>Opening a file for writing empties it; the contents follow.\<close>

definition os_Create :: "fs_fault \<Rightarrow> string \<Rightarrow> file_system \<Rightarrow> unit result \<times> file_system" where
  "os_Create fault p fs =
     (case fault OpCreate p of
        Some e \<Rightarrow> (Inl e, fs)
      | None \<Rightarrow>
          if is_dir fs (path_Dir p) then (Inr (), fs\<lparr>fs_files := store p '''' (fs_files fs)\<rparr>)
          else (Inl (no_such_file p), fs))"

definition write_open :: "fs_fault \<Rightarrow> string \<Rightarrow> string \<Rightarrow> file_system \<Rightarrow> unit result \<times> file_system" where
  "write_open fault p c fs =
     (case fault OpWrite p of Some e \<Rightarrow> (Inl e, fs) | None \<Rightarrow> (Inr (), fs\<lparr>fs_files := store p c (fs_files fs)\<rparr>))"

definition os_WriteFile :: "fs_fault \<Rightarrow> string \<Rightarrow> string \<Rightarrow> file_system \<Rightarrow> unit result \<times> file_system" where
  "os_WriteFile fault p c fs =
     (case os_Create fault p fs of (Inl e, fs') \<Rightarrow> (Inl e, fs') | (Inr _, fs') \<Rightarrow> write_open fault p c fs')"

definition ancestors :: "string \<Rightarrow> string list" where
  "ancestors p = (let ws = SplitChar p slash in map (\<lambda>n. JoinStr (take n ws) [slash]) [1..<Suc (length ws)])"

definition os_MkdirAll :: "fs_fault \<Rightarrow> string \<Rightarrow> file_system \<Rightarrow> unit result \<times> file_system" where
  "os_MkdirAll fault p fs =
     (case fault OpMkdir p of
        Some e \<Rightarrow> (Inl e, fs)
      | None \<Rightarrow> (Inr (), fs\<lparr>fs_dirs := ancestors p @ fs_dirs fs\<rparr>))"

section \<open>Calls that may panic\<close>

datatype 'a outcome = Ret 'a | Panic string

type_synonym ('s, 'a) call = "'s \<Rightarrow> 'a outcome \<times> 's"

definition ret :: "'a \<Rightarrow> ('s, 'a) call" where
  "ret x s = (Ret x, s)"

definition panic :: "string \<Rightarrow> ('s, 'a) call" where
  "panic msg s = (Panic msg, s)"

definition bind :: "('s, 'a) call \<Rightarrow> ('a \<Rightarrow> ('s, 'b) call) \<Rightarrow> ('s, 'b) call" where
  "bind m k s = (case m s of (Panic msg, s') \<Rightarrow> (Panic msg, s') | (Ret x, s') \<Rightarrow> k x s')"

text \<open>\<open>if err != nil \<open>{ log.Panic }\<close>\<close> after a call with an error result.\<close>

definition must :: "(go_error \<Rightarrow> string) \<Rightarrow> ('s, 'a result) call \<Rightarrow> ('s, 'a) call" where
  "must msg m = bind m (\<lambda>r. case r of Inl e \<Rightarrow> panic (msg e) | Inr x \<Rightarrow> ret x)"

definition go_error_text :: "go_error \<Rightarrow> string" where
  "go_error_text e = (case e of Error s \<Rightarrow> s)"

text \<open>A deferred \<open>recover\<close> that turns the panic into the error result.\<close>

definition recovered :: "('s, 'a result) call \<Rightarrow> 's \<Rightarrow> 'a result \<times> 's" where
  "recovered m s = (case m s of (Panic msg, s') \<Rightarrow> (Inl (Error msg), s') | (Ret r, s') \<Rightarrow> (r, s'))"

section \<open>Facts\<close>

lemma call_simps [simp]:
  "ret x s = (Ret x, s)" "panic msg s = (Panic msg, s)"
  by (simp_all add: ret_def panic_def)

lemma bind_Ret: "m s = (Ret x, s') \<Longrightarrow> bind m k s = k x s'"
  by (simp add: bind_def)

lemma must_Ret: "m s = (Ret (Inr x), s') \<Longrightarrow> must msg m s = (Ret x, s')"
  by (simp add: must_def bind_def)

text \<open>A predicate on states that a call keeps, however it ends.\<close>

definition keeps :: "('s \<Rightarrow> bool) \<Rightarrow> ('s, 'a) call \<Rightarrow> bool" where
  "keeps P m \<longleftrightarrow> (\<forall>s. P s \<longrightarrow> P (snd (m s)))"

named_theorems keeps_rules

lemma keeps_ret [keeps_rules]: "keeps P (ret x)"
  by (simp add: keeps_def)

lemma keeps_panic [keeps_rules]: "keeps P (panic msg)"
  by (simp add: keeps_def)

lemma keeps_bind [keeps_rules]: "keeps P m \<Longrightarrow> (\<And>x. keeps P (k x)) \<Longrightarrow> keeps P (bind m k)"
  unfolding keeps_def bind_def by (auto split: prod.splits outcome.splits)

lemma keeps_must [keeps_rules]: "keeps P m \<Longrightarrow> keeps P (must msg m)"
  unfolding must_def by (intro keeps_bind) (auto split: sum.splits intro: keeps_rules)

lemma keeps_if [keeps_rules]: "keeps P a \<Longrightarrow> keeps P b \<Longrightarrow> keeps P (if c then a else b)"
  by simp

lemma keepsD: "keeps P m \<Longrightarrow> P s \<Longrightarrow> m s = (r, s') \<Longrightarrow> P s'"
  unfolding keeps_def by (metis snd_conv)

end
