(* ===== verification/Core_Managers.thy ===== *)
theory Core_Managers
  imports Builders
begin

text \<open>
  The inbound and outbound managers of xray-core (\<open>app/proxyman\<close>) as far as the controller uses
  them, and the controller's calls into them (\<open>service/controller/control.go\<close>). What a handler
  is and how it starts, stops and keeps its users belongs to the proxies of xray-core: a
  handler is a value of a type parameter, and its operations are parameters, collected in a
  record (\<open>core.CreateObject\<close> is taken together with the type assertion on its result). The managers are running, as they are whenever a controller works on them.
\<close>

record ('ih, 'oh) core_state =
  xs_inbounds :: "(string, 'ih) gomap"
  xs_outbounds :: "(string, 'oh) gomap"
  xs_defaultOutbound :: "'oh option"

record ('ic, 'oc, 'ih, 'oh) core_env =
  ce_builder :: "'ic builder_env"
  ce_build_outbound :: "OutboundDetourConfig \<Rightarrow> 'oc result"
  ce_create_inbound :: "'ic \<Rightarrow> 'ih result"
  ce_create_outbound :: "'oc \<Rightarrow> 'oh result"
  ce_inbound_tag :: "'ih \<Rightarrow> string"
  ce_outbound_tag :: "'oh \<Rightarrow> string"
  ce_start_inbound :: "'ih \<Rightarrow> go_error option"
  ce_start_outbound :: "'oh \<Rightarrow> go_error option"
  ce_GetInbound :: "'ih \<Rightarrow> bool"
  ce_userManager :: "'ih \<Rightarrow> bool"
  ce_ToMemoryUser :: "ProtocolUser \<Rightarrow> go_error option"
  ce_AddUser :: "ProtocolUser \<Rightarrow> 'ih \<Rightarrow> go_error option \<times> 'ih"
  ce_RemoveUser :: "string \<Rightarrow> 'ih \<Rightarrow> go_error option \<times> 'ih"

definition ErrNoClue_error :: go_error where
  "ErrNoClue_error = Error ''not enough information for making a decision''"

section \<open>The managers\<close>

text \<open>\<open>AddHandler\<close> registers the tag before it starts the handler.\<close>

definition ibm_AddHandler ::
    "('ic, 'oc, 'ih, 'oh) core_env \<Rightarrow> 'ih \<Rightarrow> ('ih, 'oh) core_state \<Rightarrow> go_error option \<times> ('ih, 'oh) core_state" where
  "ibm_AddHandler ce h x =
     (let tag = ce_inbound_tag ce h in
      if tag \<noteq> '''' then
        (if load (xs_inbounds x) tag \<noteq> None then (Some (Error (''existing tag found: '' @ tag)), x)
         else (ce_start_inbound ce h, x\<lparr>xs_inbounds := store tag h (xs_inbounds x)\<rparr>))
      else (ce_start_inbound ce h, x))"

definition ibm_GetHandler :: "string \<Rightarrow> ('ih, 'oh) core_state \<Rightarrow> 'ih result" where
  "ibm_GetHandler tag x =
     (case load (xs_inbounds x) tag of
        None \<Rightarrow> Inl (Error (''handler not found: '' @ tag))
      | Some h \<Rightarrow> Inr h)"

definition ibm_RemoveHandler :: "string \<Rightarrow> ('ih, 'oh) core_state \<Rightarrow> go_error option \<times> ('ih, 'oh) core_state" where
  "ibm_RemoveHandler tag x =
     (if tag = '''' then (Some ErrNoClue_error, x)
      else if load (xs_inbounds x) tag \<noteq> None then (None, x\<lparr>xs_inbounds := del tag (xs_inbounds x)\<rparr>)
      else (Some ErrNoClue_error, x))"

definition obm_AddHandler ::
    "('ic, 'oc, 'ih, 'oh) core_env \<Rightarrow> 'oh \<Rightarrow> ('ih, 'oh) core_state \<Rightarrow> go_error option \<times> ('ih, 'oh) core_state" where
  "obm_AddHandler ce h x0 =
     (let x = (if xs_defaultOutbound x0 = None then x0\<lparr>xs_defaultOutbound := Some h\<rparr> else x0);
          tag = ce_outbound_tag ce h in
      if tag \<noteq> '''' then
        (if load (xs_outbounds x) tag \<noteq> None then (Some (Error (''existing tag found: '' @ tag)), x)
         else (ce_start_outbound ce h, x\<lparr>xs_outbounds := store tag h (xs_outbounds x)\<rparr>))
      else (ce_start_outbound ce h, x))"

definition obm_RemoveHandler ::
    "('ic, 'oc, 'ih, 'oh) core_env \<Rightarrow> string \<Rightarrow> ('ih, 'oh) core_state \<Rightarrow> go_error option \<times> ('ih, 'oh) core_state" where
  "obm_RemoveHandler ce tag x =
     (if tag = '''' then (Some ErrNoClue_error, x)
      else
        let x1 = x\<lparr>xs_outbounds := del tag (xs_outbounds x)\<rparr> in
        (None, case xs_defaultOutbound x1 of
                 Some h \<Rightarrow> if ce_outbound_tag ce h = tag then x1\<lparr>xs_defaultOutbound := None\<rparr> else x1
               | None \<Rightarrow> x1))"

section \<open>The controller's calls\<close>

definition removeInbound :: "string \<Rightarrow> ('ih, 'oh) core_state \<Rightarrow> go_error option \<times> ('ih, 'oh) core_state" where
  "removeInbound tag x = ibm_RemoveHandler tag x"

definition removeOutbound ::
    "('ic, 'oc, 'ih, 'oh) core_env \<Rightarrow> string \<Rightarrow> ('ih, 'oh) core_state \<Rightarrow> go_error option \<times> ('ih, 'oh) core_state" where
  "removeOutbound ce tag x = obm_RemoveHandler ce tag x"

definition addInbound ::
    "('ic, 'oc, 'ih, 'oh) core_env \<Rightarrow> 'ic \<Rightarrow> ('ih, 'oh) core_state \<Rightarrow> go_error option \<times> ('ih, 'oh) core_state" where
  "addInbound ce config x =
     (case ce_create_inbound ce config of
        Inl err \<Rightarrow> (Some err, x)
      | Inr h \<Rightarrow> ibm_AddHandler ce h x)"

definition addOutbound ::
    "('ic, 'oc, 'ih, 'oh) core_env \<Rightarrow> 'oc \<Rightarrow> ('ih, 'oh) core_state \<Rightarrow> go_error option \<times> ('ih, 'oh) core_state" where
  "addOutbound ce config x =
     (case ce_create_outbound ce config of
        Inl err \<Rightarrow> (Some err, x)
      | Inr h \<Rightarrow> obm_AddHandler ce h x)"

text \<open>
  The user loops stop at the first error. A nil user has no account: \<open>ToMemoryUser\<close> on it returns
  the error "Account missing".
\<close>

fun addUsers_loop ::
    "('ic, 'oc, 'ih, 'oh) core_env \<Rightarrow> ProtocolUser option list \<Rightarrow> 'ih \<Rightarrow> go_error option \<times> 'ih" where
  "addUsers_loop ce [] h = (None, h)"
| "addUsers_loop ce (None # items) h = (Some (Error ''Account missing''), h)"
| "addUsers_loop ce (Some item # items) h =
     (case ce_ToMemoryUser ce item of
        Some err \<Rightarrow> (Some err, h)
      | None \<Rightarrow>
          (case ce_AddUser ce item h of
             (Some err, h') \<Rightarrow> (Some err, h')
           | (None, h') \<Rightarrow> addUsers_loop ce items h'))"

definition addUsers ::
    "('ic, 'oc, 'ih, 'oh) core_env \<Rightarrow> ProtocolUser option list \<Rightarrow> string \<Rightarrow> ('ih, 'oh) core_state \<Rightarrow>
     go_error option \<times> ('ih, 'oh) core_state" where
  "addUsers ce users tag x =
     (case ibm_GetHandler tag x of
        Inl (Error e) \<Rightarrow> (Some (Error (''no such inbound tag: '' @ e)), x)
      | Inr h \<Rightarrow>
          if \<not> ce_GetInbound ce h then (Some (Error (''handler '' @ tag @ '' has not implemented proxy.GetInbound'')), x)
          else if \<not> ce_userManager ce h then (Some (Error (''handler '' @ tag @ '' has not implemented proxy.UserManager'')), x)
          else let (err, h') = addUsers_loop ce users h in (err, x\<lparr>xs_inbounds := store tag h' (xs_inbounds x)\<rparr>))"

fun removeUsers_loop ::
    "('ic, 'oc, 'ih, 'oh) core_env \<Rightarrow> string list \<Rightarrow> 'ih \<Rightarrow> go_error option \<times> 'ih" where
  "removeUsers_loop ce [] h = (None, h)"
| "removeUsers_loop ce (email # emails) h =
     (case ce_RemoveUser ce email h of
        (Some err, h') \<Rightarrow> (Some err, h')
      | (None, h') \<Rightarrow> removeUsers_loop ce emails h')"

definition removeUsers ::
    "('ic, 'oc, 'ih, 'oh) core_env \<Rightarrow> string list \<Rightarrow> string \<Rightarrow> ('ih, 'oh) core_state \<Rightarrow>
     go_error option \<times> ('ih, 'oh) core_state" where
  "removeUsers ce users tag x =
     (case ibm_GetHandler tag x of
        Inl (Error e) \<Rightarrow> (Some (Error (''no such inbound tag: '' @ e)), x)
      | Inr h \<Rightarrow>
          if \<not> ce_GetInbound ce h then (Some (Error (''handler '' @ tag @ '' is not implement proxy.GetInbound'')), x)
          else if \<not> ce_userManager ce h then (Some (Error (''handler %!s(<nil>) is not implement proxy.UserManager'')), x)
          else let (err, h') = removeUsers_loop ce users h in (err, x\<lparr>xs_inbounds := store tag h' (xs_inbounds x)\<rparr>))"

section \<open>Tags\<close>

definition removeOldTag ::
    "('ic, 'oc, 'ih, 'oh) core_env \<Rightarrow> string \<Rightarrow> ('ih, 'oh) core_state \<Rightarrow> go_error option \<times> ('ih, 'oh) core_state" where
  "removeOldTag ce oldTag x =
     (case removeInbound oldTag x of
        (Some err, x1) \<Rightarrow> (Some err, x1)
      | (None, x1) \<Rightarrow> removeOutbound ce oldTag x1)"

text \<open>One inbound with its outbound under a tag: the four calls that both ways of adding share.\<close>

definition addPair ::
    "('ic, 'oc, 'ih, 'oh) core_env \<Rightarrow> Config \<Rightarrow> NodeInfo \<Rightarrow> string \<Rightarrow> ('ih, 'oh) core_state \<Rightarrow>
     go_error option \<times> ('ih, 'oh) core_state" where
  "addPair ce config nodeInfo tag x =
     (case InboundBuilder (ce_builder ce) config nodeInfo tag of
        Inl err \<Rightarrow> (Some err, x)
      | Inr inboundConfig \<Rightarrow>
          (case addInbound ce inboundConfig x of
             (Some err, x1) \<Rightarrow> (Some err, x1)
           | (None, x1) \<Rightarrow>
               (case OutboundBuilder (ce_build_outbound ce) config nodeInfo tag of
                  Inl err \<Rightarrow> (Some err, x1)
                | Inr outBoundConfig \<Rightarrow> addOutbound ce outBoundConfig x1)))"

definition dokodemoTag :: "string \<Rightarrow> string" where
  "dokodemoTag tag = ''dokodemo-door_'' @ tag @ ''+1''"

definition addInboundForSSPlugin ::
    "('ic, 'oc, 'ih, 'oh) core_env \<Rightarrow> Config \<Rightarrow> NodeInfo \<Rightarrow> string \<Rightarrow> ('ih, 'oh) core_state \<Rightarrow>
     go_error option \<times> ('ih, 'oh) core_state" where
  "addInboundForSSPlugin ce config newNodeInfo tag x =
     (let fake = newNodeInfo\<lparr>ni_TransportProtocol := ''tcp'', ni_EnableTLS := False\<rparr> in
      case addPair ce config fake tag x of
        (Some err, x1) \<Rightarrow> (Some err, x1)
      | (None, x1) \<Rightarrow>
          let door = newNodeInfo\<lparr>ni_Port := ni_Port newNodeInfo + 1, ni_NodeType := ''dokodemo-door''\<rparr> in
          addPair ce config door (dokodemoTag tag) x1)"

definition addNewTag ::
    "('ic, 'oc, 'ih, 'oh) core_env \<Rightarrow> Config \<Rightarrow> NodeInfo \<Rightarrow> string \<Rightarrow> ('ih, 'oh) core_state \<Rightarrow>
     go_error option \<times> ('ih, 'oh) core_state" where
  "addNewTag ce config newNodeInfo tag x =
     (if ni_NodeType newNodeInfo \<noteq> ''Shadowsocks-Plugin'' then addPair ce config newNodeInfo tag x
      else addInboundForSSPlugin ce config newNodeInfo tag x)"

section \<open>Facts\<close>

lemma ibm_RemoveHandler_absent:
  "load (xs_inbounds x) tag = None \<Longrightarrow> ibm_RemoveHandler tag x = (Some ErrNoClue_error, x)"
  by (simp add: ibm_RemoveHandler_def)

lemma removeOldTag_absent:
  "load (xs_inbounds x) tag = None \<Longrightarrow> removeOldTag ce tag x = (Some ErrNoClue_error, x)"
  by (simp add: removeOldTag_def removeInbound_def ibm_RemoveHandler_absent)

lemma removeOldTag_spec:
  assumes "removeOldTag ce tag x = (err, x')"
  shows "err = None \<Longrightarrow> load (xs_inbounds x') t = (if t = tag then None else load (xs_inbounds x) t)"
    and "err = None \<Longrightarrow> load (xs_inbounds x) tag \<noteq> None \<and> load (xs_outbounds x') t = (if t = tag then None else load (xs_outbounds x) t)"
    and "err \<noteq> None \<Longrightarrow> x' = x \<and> (tag = '''' \<or> load (xs_inbounds x) tag = None)"
  using assms
  by (auto simp: removeOldTag_def removeInbound_def removeOutbound_def ibm_RemoveHandler_def
      obm_RemoveHandler_def Let_def split: if_splits option.splits)

lemma addUsers_loop_nil:
  assumes "None \<in> set users"
  shows "fst (addUsers_loop ce users h) \<noteq> None"
  using assms by (induction ce users h rule: addUsers_loop.induct) (auto split: option.splits prod.splits)

end
