(* ===== verification/Stats.thy ===== *)
theory Stats
  imports Prelude
begin

text \<open>
  The statistics feature that carries the traffic accounting: the counters of
  \<open>xray-core/app/stats\<close> and \<open>GetOrRegisterCounter\<close> of \<open>features/stats\<close>. Counters are objects: a
  data path keeps its counter while the manager may forget the name, so the counters live
  in a heap and the manager maps names to addresses. Values are \<open>int64\<close> and wrap.
\<close>

record StatsManager =
  counters :: "(string, nat) gomap"
  ctr_value :: "nat \<Rightarrow> int64"
  ctr_next :: nat

definition NewManager :: StatsManager where
  "NewManager = \<lparr>counters = [], ctr_value = (\<lambda>_. 0), ctr_next = 0\<rparr>"

section \<open>Counters\<close>

definition counter_Value :: "nat \<Rightarrow> StatsManager \<Rightarrow> int64" where
  "counter_Value c m = ctr_value m c"

definition counter_Set :: "nat \<Rightarrow> int64 \<Rightarrow> StatsManager \<Rightarrow> int64 \<times> StatsManager" where
  "counter_Set c newValue m = (ctr_value m c, m\<lparr>ctr_value := (ctr_value m)(c := newValue)\<rparr>)"

definition counter_Add :: "nat \<Rightarrow> int64 \<Rightarrow> StatsManager \<Rightarrow> int64 \<times> StatsManager" where
  "counter_Add c delta m =
     (let v = ctr_value m c + delta in (v, m\<lparr>ctr_value := (ctr_value m)(c := v)\<rparr>))"

section \<open>The manager\<close>

definition RegisterCounter :: "string \<Rightarrow> StatsManager \<Rightarrow> nat result \<times> StatsManager" where
  "RegisterCounter name m =
     (if load (counters m) name \<noteq> None
      then (Inl (Error (''Counter '' @ name @ '' already registered.'')), m)
      else (Inr (ctr_next m),
            m\<lparr>counters := store name (ctr_next m) (counters m),
              ctr_value := (ctr_value m)(ctr_next m := 0), ctr_next := Suc (ctr_next m)\<rparr>))"

definition UnregisterCounter :: "string \<Rightarrow> StatsManager \<Rightarrow> go_error option \<times> StatsManager" where
  "UnregisterCounter name m =
     (if load (counters m) name \<noteq> None then (None, m\<lparr>counters := del name (counters m)\<rparr>) else (None, m))"

definition GetCounter :: "string \<Rightarrow> StatsManager \<Rightarrow> nat option" where
  "GetCounter name m = load (counters m) name"

definition GetOrRegisterCounter :: "string \<Rightarrow> StatsManager \<Rightarrow> nat result \<times> StatsManager" where
  "GetOrRegisterCounter name m =
     (case GetCounter name m of Some c \<Rightarrow> (Inr c, m) | None \<Rightarrow> RegisterCounter name m)"

section \<open>Invariant\<close>

text \<open>Every name has a counter of its own, and fresh addresses are unused.\<close>

definition stats_inv :: "StatsManager \<Rightarrow> bool" where
  "stats_inv m \<longleftrightarrow> wf_map (counters m)
     \<and> (\<forall>n c. load (counters m) n = Some c \<longrightarrow> c < ctr_next m)
     \<and> (\<forall>n n' c. load (counters m) n = Some c \<and> load (counters m) n' = Some c \<longrightarrow> n = n')"

lemma stats_inv_New [wf_intros]: "stats_inv NewManager"
  by (simp add: stats_inv_def NewManager_def)

lemma stats_inv_upd_value [simp]: "stats_inv (m\<lparr>ctr_value := h\<rparr>) = stats_inv m"
  by (simp add: stats_inv_def)

lemma stats_inv_Set [wf_intros]: "stats_inv m \<Longrightarrow> stats_inv (snd (counter_Set c v m))"
  by (simp add: counter_Set_def)

lemma stats_inv_Add [wf_intros]: "stats_inv m \<Longrightarrow> stats_inv (snd (counter_Add c v m))"
  by (simp add: counter_Add_def Let_def)

lemma stats_inv_Register [wf_intros]: "stats_inv m \<Longrightarrow> stats_inv (snd (RegisterCounter name m))"
  by (auto simp: RegisterCounter_def stats_inv_def less_Suc_eq split: if_splits)

lemma stats_inv_Unregister [wf_intros]: "stats_inv m \<Longrightarrow> stats_inv (snd (UnregisterCounter name m))"
  by (auto simp: UnregisterCounter_def stats_inv_def split: if_splits)

lemma stats_inv_GetOrRegister [wf_intros]:
  "stats_inv m \<Longrightarrow> stats_inv (snd (GetOrRegisterCounter name m))"
  by (simp add: GetOrRegisterCounter_def stats_inv_Register split: option.split)

lemma GetCounter_inj:
  "stats_inv m \<Longrightarrow> GetCounter n m = Some c \<Longrightarrow> GetCounter n' m = Some c \<Longrightarrow> n = n'"
  by (auto simp: stats_inv_def GetCounter_def)

lemma GetCounter_Set [simp]: "GetCounter n (snd (counter_Set c v m)) = GetCounter n m"
  by (simp add: GetCounter_def counter_Set_def)

lemma GetCounter_Add [simp]: "GetCounter n (snd (counter_Add c v m)) = GetCounter n m"
  by (simp add: GetCounter_def counter_Add_def Let_def)

lemma GetCounter_upd_value [simp]: "GetCounter n (m\<lparr>ctr_value := h\<rparr>) = GetCounter n m"
  by (simp add: GetCounter_def)

lemma ctr_value_Add [simp]:
  "ctr_value (snd (counter_Add c v m)) = (ctr_value m)(c := ctr_value m c + v)"
  by (simp add: counter_Add_def Let_def)

lemma GetCounter_Unregister [simp]:
  "GetCounter n (snd (UnregisterCounter name m)) = (if n = name then None else GetCounter n m)"
  by (simp add: GetCounter_def UnregisterCounter_def)

lemma ctr_value_Unregister [simp]: "ctr_value (snd (UnregisterCounter name m)) = ctr_value m"
  by (simp add: UnregisterCounter_def)

text \<open>
  \<open>GetOrRegisterCounter\<close> called without interference never fails: it returns the registered
  counter, or a fresh one with value zero; other names and live counters are untouched.
\<close>

lemma GetOrRegisterCounter_spec:
  assumes "stats_inv m" and "GetOrRegisterCounter name m = (res, m')"
  shows "\<exists>c. res = Inr c \<and> GetCounter name m' = Some c
     \<and> (\<forall>n. n \<noteq> name \<longrightarrow> GetCounter n m' = GetCounter n m)
     \<and> (\<forall>a. a < ctr_next m \<longrightarrow> ctr_value m' a = ctr_value m a)
     \<and> (GetCounter name m = None \<longrightarrow> c = ctr_next m \<and> ctr_value m' c = 0)"
  using assms by (auto simp: GetOrRegisterCounter_def RegisterCounter_def GetCounter_def
      split: option.splits)

end
