(* ===== verification/User_Flow.thy ===== *)
theory User_Flow
  imports Stats Api_Model
begin

text \<open>
  The lifecycle of user flows in \<open>app/mydispatcher/user_lifecycle.go\<close> and of the connections that
  hold them (\<open>userIO\<close> of \<open>default.go\<close>, the lifecycle writers of \<open>stats.go\<close>). A registry keeps per
  inbound the users that may open flows and one reference-counted runtime object per user;
  the objects are shared with the connections, so they live in a heap of active counts.
\<close>

section \<open>Runtime objects and the registry\<close>

record managedUserNode =
  mn_current :: "(string, unit) gomap"
  mn_runtime :: "(string, nat) gomap"

record userFlowRegistry =
  fr_nodes :: "(string, managedUserNode) gomap"
  fr_active :: "nat \<Rightarrow> int"
  fr_next :: nat

definition empty_registry :: userFlowRegistry where
  "empty_registry = \<lparr>fr_nodes = [], fr_active = (\<lambda>_. 0), fr_next = 0\<rparr>"

text \<open>\<open>new(userFlowRuntime)\<close>, \<open>acquire\<close> and \<open>release\<close> of a runtime object. The compare-and-swap
  loop of \<open>release\<close> takes effect at its successful swap, as one decrement of a positive
  value.\<close>

definition new_runtime :: "userFlowRegistry \<Rightarrow> nat \<times> userFlowRegistry" where
  "new_runtime r = (fr_next r, r\<lparr>fr_active := (fr_active r)(fr_next r := 0), fr_next := Suc (fr_next r)\<rparr>)"

definition runtime_acquire :: "nat \<Rightarrow> userFlowRegistry \<Rightarrow> userFlowRegistry" where
  "runtime_acquire a r = r\<lparr>fr_active := (fr_active r)(a := fr_active r a + 1)\<rparr>"

definition runtime_release :: "nat \<Rightarrow> userFlowRegistry \<Rightarrow> userFlowRegistry" where
  "runtime_release a r =
     (if fr_active r a \<le> 0 then r else r\<lparr>fr_active := (fr_active r)(a := fr_active r a - 1)\<rparr>)"

text \<open>\<open>node\<close> creates the entry of an inbound on first use.\<close>

definition empty_node :: managedUserNode where
  "empty_node = \<lparr>mn_current = [], mn_runtime = []\<rparr>"

definition registry_node :: "string \<Rightarrow> userFlowRegistry \<Rightarrow> managedUserNode \<times> userFlowRegistry" where
  "registry_node tag r =
     (case load (fr_nodes r) tag of
        Some n \<Rightarrow> (n, r)
      | None \<Rightarrow> (empty_node, r\<lparr>fr_nodes := store tag empty_node (fr_nodes r)\<rparr>))"

text \<open>\<open>node.runtime[email]\<close> filled when it is nil.\<close>

definition ensure_runtime :: "string \<Rightarrow> managedUserNode \<Rightarrow> userFlowRegistry \<Rightarrow> managedUserNode \<times> userFlowRegistry" where
  "ensure_runtime email n r =
     (case load (mn_runtime n) email of
        Some _ \<Rightarrow> (n, r)
      | None \<Rightarrow> (let (a, r') = new_runtime r in (n\<lparr>mn_runtime := store email a (mn_runtime n)\<rparr>, r')))"

fun register_loop :: "string list \<Rightarrow> managedUserNode \<Rightarrow> userFlowRegistry \<Rightarrow> managedUserNode \<times> userFlowRegistry" where
  "register_loop [] n r = (n, r)"
| "register_loop (email # emails) n r =
     (let (n', r') = ensure_runtime email (n\<lparr>mn_current := store email () (mn_current n)\<rparr>) r in
      register_loop emails n' r')"

definition flow_register :: "string \<Rightarrow> string list \<Rightarrow> userFlowRegistry \<Rightarrow> userFlowRegistry" where
  "flow_register tag emails r =
     (let (n, r1) = registry_node tag r; (n', r2) = register_loop emails n r1 in
      r2\<lparr>fr_nodes := store tag n' (fr_nodes r2)\<rparr>)"

fun retire_loop :: "string list \<Rightarrow> managedUserNode \<Rightarrow> userFlowRegistry \<Rightarrow> managedUserNode \<times> userFlowRegistry" where
  "retire_loop [] n r = (n, r)"
| "retire_loop (email # emails) n r =
     (let (n', r') = ensure_runtime email (n\<lparr>mn_current := del email (mn_current n)\<rparr>) r in
      retire_loop emails n' r')"

definition flow_retire :: "string \<Rightarrow> string list \<Rightarrow> userFlowRegistry \<Rightarrow> userFlowRegistry" where
  "flow_retire tag emails r =
     (let (n, r1) = registry_node tag r; (n', r2) = retire_loop emails n r1 in
      r2\<lparr>fr_nodes := store tag n' (fr_nodes r2)\<rparr>)"

definition flow_acquire :: "string \<Rightarrow> string \<Rightarrow> userFlowRegistry \<Rightarrow> nat option \<times> userFlowRegistry" where
  "flow_acquire tag email r =
     (case load (fr_nodes r) tag of
        None \<Rightarrow> (let (a, r') = new_runtime r in (Some a, runtime_acquire a r'))
      | Some n \<Rightarrow>
          if load (mn_current n) email = None then (None, r)
          else
            (case load (mn_runtime n) email of
               Some a \<Rightarrow> (Some a, runtime_acquire a r)
             | None \<Rightarrow>
                 let (a, r') = new_runtime r;
                     n' = n\<lparr>mn_runtime := store email a (mn_runtime n)\<rparr>
                 in (Some a, runtime_acquire a (r'\<lparr>fr_nodes := store tag n' (fr_nodes r')\<rparr>))))"

text \<open>\<open>cleanup\<close> is the closure passed to \<open>finalize\<close>; it works on a state of its own.\<close>

definition flow_finalize ::
    "string \<Rightarrow> string \<Rightarrow> ('c \<Rightarrow> bool \<times> 'c) \<Rightarrow> userFlowRegistry \<times> 'c \<Rightarrow> bool \<times> userFlowRegistry \<times> 'c" where
  "flow_finalize tag email cleanup s =
     (let (r, c) = s in
      case load (fr_nodes r) tag of
        None \<Rightarrow> (False, r, c)
      | Some n \<Rightarrow>
          if load (mn_current n) email \<noteq> None then (False, r, c)
          else
            (case load (mn_runtime n) email of
               None \<Rightarrow> (False, r, c)
             | Some a \<Rightarrow>
                 if fr_active r a \<noteq> 0 then (False, r, c)
                 else
                   (case cleanup c of
                      (False, c') \<Rightarrow> (False, r, c')
                    | (True, c') \<Rightarrow>
                        (True, r\<lparr>fr_nodes := store tag (n\<lparr>mn_runtime := del email (mn_runtime n)\<rparr>) (fr_nodes r)\<rparr>, c'))))"

definition userUplinkCounterName :: "string \<Rightarrow> string" where
  "userUplinkCounterName email = ''user>>>'' @ email @ ''>>>traffic>>>uplink''"

definition userDownlinkCounterName :: "string \<Rightarrow> string" where
  "userDownlinkCounterName email = ''user>>>'' @ email @ ''>>>traffic>>>downlink''"

definition cleanupCounters :: "string \<Rightarrow> StatsManager \<Rightarrow> bool \<times> StatsManager" where
  "cleanupCounters email m =
     (let nonzero = (\<lambda>c. case c of None \<Rightarrow> False | Some a \<Rightarrow> counter_Value a m \<noteq> 0) in
      if nonzero (GetCounter (userUplinkCounterName email) m) \<or>
         nonzero (GetCounter (userDownlinkCounterName email) m)
      then (False, m)
      else (True, snd (UnregisterCounter (userDownlinkCounterName email)
                   (snd (UnregisterCounter (userUplinkCounterName email) m)))))"

definition FinalizeRetiredUser ::
    "string \<Rightarrow> string \<Rightarrow> userFlowRegistry \<times> StatsManager \<Rightarrow> bool \<times> userFlowRegistry \<times> StatsManager" where
  "FinalizeRetiredUser tag email s = flow_finalize tag email (cleanupCounters email) s"

section \<open>Flows held by connections\<close>

record userIO =
  uio_bucket :: "nat option"
  uio_speedLimited :: bool
  uio_uplinkCounter :: "nat option"
  uio_downlinkCounter :: "nat option"
  uio_runtime :: "nat option"
  uio_released :: bool

definition new_userIO :: userIO where
  "new_userIO = \<lparr>uio_bucket = None, uio_speedLimited = False, uio_uplinkCounter = None,
     uio_downlinkCounter = None, uio_runtime = None, uio_released = False\<rparr>"

text \<open>\<open>Release\<close> runs its body at most once (\<open>sync.Once\<close>).\<close>

definition userIO_Release :: "userIO \<Rightarrow> userFlowRegistry \<Rightarrow> userIO \<times> userFlowRegistry" where
  "userIO_Release u r =
     (if uio_released u then (u, r)
      else (u\<lparr>uio_released := True\<rparr>,
            case uio_runtime u of None \<Rightarrow> r | Some a \<Rightarrow> runtime_release a r))"

definition userIO_AddUplink :: "userIO \<Rightarrow> int64 \<Rightarrow> StatsManager \<Rightarrow> StatsManager" where
  "userIO_AddUplink u bytes m =
     (case uio_uplinkCounter u of
        None \<Rightarrow> m
      | Some c \<Rightarrow> if 0 < sint bytes then snd (counter_Add c bytes m) else m)"

definition userIO_AddDownlink :: "userIO \<Rightarrow> int64 \<Rightarrow> StatsManager \<Rightarrow> StatsManager" where
  "userIO_AddDownlink u bytes m =
     (case uio_downlinkCounter u of
        None \<Rightarrow> m
      | Some c \<Rightarrow> if 0 < sint bytes then snd (counter_Add c bytes m) else m)"

record userConnectionLifecycle =
  lc_remaining :: uint32
  lc_flow :: "userIO option"

definition newUserConnectionLifecycle :: "userIO option \<Rightarrow> uint32 \<Rightarrow> userConnectionLifecycle" where
  "newUserConnectionLifecycle flow owners = \<lparr>lc_remaining = owners, lc_flow = flow\<rparr>"

text \<open>\<open>release\<close> on a lifecycle that may be nil: the last owner releases the flow.\<close>

definition lifecycle_release ::
    "userConnectionLifecycle option \<times> userFlowRegistry \<Rightarrow> userConnectionLifecycle option \<times> userFlowRegistry" where
  "lifecycle_release s =
     (case s of
        (None, r) \<Rightarrow> (None, r)
      | (Some l, r) \<Rightarrow>
          (case lc_flow l of
             None \<Rightarrow> (Some l, r)
           | Some flow \<Rightarrow>
               let l' = l\<lparr>lc_remaining := lc_remaining l - 1\<rparr> in
               if lc_remaining l' = 0
               then let (flow', r') = userIO_Release flow r in (Some (l'\<lparr>lc_flow := Some flow'\<rparr>), r')
               else (Some l', r)))"

record 'w lifecycleWriter =
  lw_Writer :: 'w
  lw_once :: bool

definition lifecycleWriter_WriteMultiBuffer ::
    "('w \<Rightarrow> 'b \<Rightarrow> go_error option \<times> 'w) \<Rightarrow> 'w lifecycleWriter \<Rightarrow> 'b \<Rightarrow> go_error option \<times> 'w lifecycleWriter" where
  "lifecycleWriter_WriteMultiBuffer wr w mb =
     (let (err, w') = wr (lw_Writer w) mb in (err, w\<lparr>lw_Writer := w'\<rparr>))"

definition lifecycleWriter_Close ::
    "('w \<Rightarrow> go_error option \<times> 'w) \<Rightarrow> 'w lifecycleWriter \<times> userConnectionLifecycle option \<times> userFlowRegistry
     \<Rightarrow> go_error option \<times> 'w lifecycleWriter \<times> userConnectionLifecycle option \<times> userFlowRegistry" where
  "lifecycleWriter_Close close s =
     (let (w, l, r) = s; (err, w') = close (lw_Writer w) in
      if lw_once w then (err, w\<lparr>lw_Writer := w'\<rparr>, l, r)
      else (err, w\<lparr>lw_Writer := w', lw_once := True\<rparr>, lifecycle_release (l, r)))"

definition lifecycleWriter_Interrupt ::
    "('w \<Rightarrow> 'w) \<Rightarrow> 'w lifecycleWriter \<times> userConnectionLifecycle option \<times> userFlowRegistry
     \<Rightarrow> 'w lifecycleWriter \<times> userConnectionLifecycle option \<times> userFlowRegistry" where
  "lifecycleWriter_Interrupt interrupt s =
     (let (w, l, r) = s; w' = interrupt (lw_Writer w) in
      if lw_once w then (w\<lparr>lw_Writer := w'\<rparr>, l, r)
      else (w\<lparr>lw_Writer := w', lw_once := True\<rparr>, lifecycle_release (l, r)))"

section \<open>What the registry shows\<close>

definition managed :: "userFlowRegistry \<Rightarrow> string \<Rightarrow> bool" where
  "managed r tag \<longleftrightarrow> load (fr_nodes r) tag \<noteq> None"

definition is_current :: "userFlowRegistry \<Rightarrow> string \<Rightarrow> string \<Rightarrow> bool" where
  "is_current r tag email =
     (case load (fr_nodes r) tag of None \<Rightarrow> False | Some n \<Rightarrow> load (mn_current n) email \<noteq> None)"

definition runtime_of :: "userFlowRegistry \<Rightarrow> string \<Rightarrow> string \<Rightarrow> nat option" where
  "runtime_of r tag email =
     (case load (fr_nodes r) tag of None \<Rightarrow> None | Some n \<Rightarrow> load (mn_runtime n) email)"

text \<open>
  Invariant: runtime objects are allocated, belong to one user of one inbound, and every
  current user has one; counts are never negative and fresh addresses count zero.
\<close>

definition flow_inv :: "userFlowRegistry \<Rightarrow> bool" where
  "flow_inv r \<longleftrightarrow>
     (\<forall>t e a. runtime_of r t e = Some a \<longrightarrow> a < fr_next r)
     \<and> (\<forall>t e t' e' a. runtime_of r t e = Some a \<and> runtime_of r t' e' = Some a \<longrightarrow> t = t' \<and> e = e')
     \<and> (\<forall>t e. is_current r t e \<longrightarrow> runtime_of r t e \<noteq> None)
     \<and> (\<forall>a. 0 \<le> fr_active r a) \<and> (\<forall>a \<ge> fr_next r. fr_active r a = 0)"

lemma flow_invD:
  assumes "flow_inv r"
  shows "runtime_of r t e = Some a \<Longrightarrow> a < fr_next r"
    and "runtime_of r t e = Some a \<Longrightarrow> runtime_of r t' e' = Some a \<Longrightarrow> t = t' \<and> e = e'"
    and "is_current r t e \<Longrightarrow> runtime_of r t e \<noteq> None"
    and "0 \<le> fr_active r a"
    and "fr_next r \<le> a \<Longrightarrow> fr_active r a = 0"
  using assms unfolding flow_inv_def by blast+

lemma flow_inv_empty [wf_intros]: "flow_inv empty_registry"
  by (simp add: flow_inv_def empty_registry_def runtime_of_def is_current_def)

text \<open>
  The two loops only extend the runtime map of a node, with fresh objects that count zero.
\<close>

definition node_ext :: "managedUserNode \<Rightarrow> userFlowRegistry \<Rightarrow> managedUserNode \<Rightarrow> userFlowRegistry \<Rightarrow> bool" where
  "node_ext n r n' r' \<longleftrightarrow> fr_nodes r' = fr_nodes r \<and> fr_next r \<le> fr_next r'
     \<and> fr_active r' = fr_active r
     \<and> (\<forall>e a. load (mn_runtime n) e = Some a \<longrightarrow> load (mn_runtime n') e = Some a)
     \<and> (\<forall>e a. load (mn_runtime n') e = Some a \<longrightarrow>
            load (mn_runtime n) e = Some a \<or> fr_next r \<le> a \<and> a < fr_next r')
     \<and> (\<forall>e e' a. load (mn_runtime n') e = Some a \<and> load (mn_runtime n') e' = Some a \<and> fr_next r \<le> a \<longrightarrow> e = e')"

definition node_ok :: "managedUserNode \<Rightarrow> userFlowRegistry \<Rightarrow> bool" where
  "node_ok n r \<longleftrightarrow> (\<forall>e a. load (mn_runtime n) e = Some a \<longrightarrow> a < fr_next r)
     \<and> (\<forall>a \<ge> fr_next r. fr_active r a = 0)"

lemma node_ext_refl: "node_ok n r \<Longrightarrow> node_ext n r n r"
  unfolding node_ext_def node_ok_def by (meson leD order_refl)

lemma node_ext_trans:
  assumes "node_ext n r n1 r1" and "node_ext n1 r1 n2 r2"
  shows "node_ext n r n2 r2"
proof -
  have inj: "e = e'" if "load (mn_runtime n2) e = Some a" "load (mn_runtime n2) e' = Some a" "fr_next r \<le> a"
    for e e' a
  proof (cases "fr_next r1 \<le> a")
    case True
    with that assms(2) show ?thesis unfolding node_ext_def by blast
  next
    case False
    then have "load (mn_runtime n1) e = Some a" and "load (mn_runtime n1) e' = Some a"
      using that assms(2) unfolding node_ext_def by blast+
    with that(3) assms(1) show ?thesis unfolding node_ext_def by blast
  qed
  have le: "fr_next r \<le> fr_next r1" "fr_next r1 \<le> fr_next r2"
    and eqs: "fr_nodes r2 = fr_nodes r" "fr_active r2 = fr_active r"
    using assms by (simp_all add: node_ext_def)
  have keep: "load (mn_runtime n2) e = Some a" if "load (mn_runtime n) e = Some a" for e a
    using that assms unfolding node_ext_def by blast
  have new: "load (mn_runtime n) e = Some a \<or> fr_next r \<le> a \<and> a < fr_next r2"
    if "load (mn_runtime n2) e = Some a" for e a
  proof (cases "load (mn_runtime n1) e = Some a")
    case True
    with assms(1) have "load (mn_runtime n) e = Some a \<or> fr_next r \<le> a \<and> a < fr_next r1"
      unfolding node_ext_def by blast
    with le show ?thesis by linarith
  next
    case False
    with that assms(2) have "fr_next r1 \<le> a \<and> a < fr_next r2"
      unfolding node_ext_def by blast
    with le show ?thesis by linarith
  qed
  have "fr_next r \<le> fr_next r2" using le by linarith
  then show ?thesis
    unfolding node_ext_def using inj new keep eqs by blast
qed

lemma ensure_runtime_ext:
  assumes "node_ok n r" and "ensure_runtime email n r = (n', r')"
  shows "node_ext n r n' r' \<and> node_ok n' r' \<and> mn_current n' = mn_current n
     \<and> load (mn_runtime n') email \<noteq> None"
proof (cases "load (mn_runtime n) email")
  case (Some a)
  with assms show ?thesis by (auto simp: ensure_runtime_def node_ext_refl)
next
  case None
  then have eqs: "n' = n\<lparr>mn_runtime := store email (fr_next r) (mn_runtime n)\<rparr>"
    "r' = r\<lparr>fr_active := (fr_active r)(fr_next r := 0), fr_next := Suc (fr_next r)\<rparr>"
    using assms(2) by (auto simp: ensure_runtime_def new_runtime_def)
  have act: "(fr_active r)(fr_next r := 0) = fr_active r"
    using assms(1) by (auto simp: node_ok_def)
  have old: "a < fr_next r" if "load (mn_runtime n) e = Some a" for e a
    using assms(1) that by (simp add: node_ok_def)
  have "node_ext n r n' r'"
    unfolding node_ext_def eqs using None act old by (force split: if_splits)
  moreover have "node_ok n' r'"
    using assms(1) old by (auto simp: node_ok_def eqs act less_Suc_eq split: if_splits)
  ultimately show ?thesis by (simp add: eqs)
qed

lemma node_ok_current [simp]: "node_ok (n\<lparr>mn_current := c\<rparr>) r = node_ok n r"
  by (simp add: node_ok_def)

lemma node_ext_current [simp]: "node_ext (n\<lparr>mn_current := c\<rparr>) r n' r' = node_ext n r n' r'"
  by (simp add: node_ext_def)

lemma register_loop_ext:
  assumes "node_ok n r" and "register_loop emails n r = (n', r')"
  shows "node_ext n r n' r'
     \<and> (\<forall>e. load (mn_current n') e \<noteq> None \<longleftrightarrow> load (mn_current n) e \<noteq> None \<or> e \<in> set emails)
     \<and> (\<forall>e \<in> set emails. load (mn_runtime n') e \<noteq> None)"
  using assms
proof (induction emails arbitrary: n r)
  case Nil
  then show ?case by (simp add: node_ext_refl)
next
  case (Cons email emails)
  obtain n1 r1 where e: "ensure_runtime email (n\<lparr>mn_current := store email () (mn_current n)\<rparr>) r = (n1, r1)"
    by fastforce
  have ext: "node_ext n r n1 r1" and ok: "node_ok n1 r1"
    and cur: "mn_current n1 = store email () (mn_current n)" and rt: "load (mn_runtime n1) email \<noteq> None"
    using ensure_runtime_ext [OF _ e] Cons.prems(1) by auto
  have rest: "register_loop emails n1 r1 = (n', r')" using Cons.prems(2) e by simp
  note IH = Cons.IH [OF ok rest]
  have "load (mn_runtime n') email \<noteq> None"
    using rt IH unfolding node_ext_def by blast
  with IH node_ext_trans [OF ext] cur show ?case by auto
qed

lemma retire_loop_ext:
  assumes "node_ok n r" and "retire_loop emails n r = (n', r')"
  shows "node_ext n r n' r'
     \<and> (\<forall>e. load (mn_current n') e \<noteq> None \<longleftrightarrow> load (mn_current n) e \<noteq> None \<and> e \<notin> set emails)
     \<and> (\<forall>e \<in> set emails. load (mn_runtime n') e \<noteq> None)"
  using assms
proof (induction emails arbitrary: n r)
  case Nil
  then show ?case by (simp add: node_ext_refl)
next
  case (Cons email emails)
  obtain n1 r1 where e: "ensure_runtime email (n\<lparr>mn_current := del email (mn_current n)\<rparr>) r = (n1, r1)"
    by fastforce
  have ext: "node_ext n r n1 r1" and ok: "node_ok n1 r1"
    and cur: "mn_current n1 = del email (mn_current n)" and rt: "load (mn_runtime n1) email \<noteq> None"
    using ensure_runtime_ext [OF _ e] Cons.prems(1) by auto
  have rest: "retire_loop emails n1 r1 = (n', r')" using Cons.prems(2) e by simp
  note IH = Cons.IH [OF ok rest]
  have "load (mn_runtime n') email \<noteq> None"
    using rt IH unfolding node_ext_def by blast
  with IH node_ext_trans [OF ext] cur show ?case by auto
qed

text \<open>Writing a node that extends the stored one back into the registry.\<close>

definition node_at :: "userFlowRegistry \<Rightarrow> string \<Rightarrow> managedUserNode" where
  "node_at r tag = (case load (fr_nodes r) tag of None \<Rightarrow> empty_node | Some n \<Rightarrow> n)"

lemma runtime_of_node_at: "runtime_of r tag e = load (mn_runtime (node_at r tag)) e"
  by (auto simp: runtime_of_def node_at_def empty_node_def split: option.split)

lemma is_current_node_at: "is_current r tag e \<longleftrightarrow> load (mn_current (node_at r tag)) e \<noteq> None"
  by (auto simp: is_current_def node_at_def empty_node_def split: option.split)

lemma node_at_store:
  "node_at (r\<lparr>fr_nodes := store tag n m\<rparr>) t = (if t = tag then n else node_at (r\<lparr>fr_nodes := m\<rparr>) t)"
  by (simp add: node_at_def)

lemma node_at_ok: "flow_inv r \<Longrightarrow> node_ok (node_at r tag) r"
  unfolding node_ok_def runtime_of_node_at [symmetric] using flow_invD by blast

lemma registry_node_eq:
  assumes "registry_node tag r = (n, r1)"
  shows "n = node_at r tag \<and> fr_active r1 = fr_active r \<and> fr_next r1 = fr_next r
     \<and> (\<forall>t. node_at r1 t = node_at r t) \<and> (\<forall>t. managed r1 t \<longleftrightarrow> t = tag \<or> managed r t)"
  using assms by (auto simp: registry_node_def node_at_def managed_def split: option.splits if_splits)

lemma flow_inv_extend:
  assumes inv: "flow_inv r" and ext: "node_ext (node_at r tag) r n' r2"
    and cur: "\<And>e. load (mn_current n') e \<noteq> None \<Longrightarrow> load (mn_runtime n') e \<noteq> None"
    and r': "fr_next r' = fr_next r2" "fr_active r' = fr_active r2"
      "\<And>t. node_at r' t = (if t = tag then n' else node_at r t)"
  shows "flow_inv r'"
proof -
  have rt: "runtime_of r' t e = (if t = tag then load (mn_runtime n') e else runtime_of r t e)" for t e
    by (simp add: runtime_of_node_at r')
  have old: "a < fr_next r" if "runtime_of r t e = Some a" for t e a
    using inv that by (rule flow_invD)
  have new: "runtime_of r tag e = Some a \<or> fr_next r \<le> a \<and> a < fr_next r2"
    if "load (mn_runtime n') e = Some a" for e a
    using ext that unfolding node_ext_def runtime_of_node_at by blast
  have step: "fr_next r \<le> fr_next r2" "fr_active r2 = fr_active r"
    using ext by (auto simp: node_ext_def)
  have injn: "e = e'" if "load (mn_runtime n') e = Some a" "load (mn_runtime n') e' = Some a" for e e' a
  proof (cases "fr_next r \<le> a")
    case True
    with that ext show ?thesis unfolding node_ext_def by blast
  next
    case False
    with that new have "runtime_of r tag e = Some a" "runtime_of r tag e' = Some a" by blast+
    with inv show ?thesis using flow_invD(2) by blast
  qed
  have b1: "a < fr_next r'" if "runtime_of r' t e = Some a" for t e a
    using that old [of t e a] new [of e a] old [of tag e a] step r' by (auto simp: rt split: if_splits)
  have b2: "t = t' \<and> e = e'" if "runtime_of r' t e = Some a" "runtime_of r' t' e' = Some a" for t e t' e' a
  proof (cases "t = tag"; cases "t' = tag")
    assume "t = tag" "t' = tag"
    with that injn show ?thesis by (auto simp: rt)
  next
    assume h: "t = tag" "t' \<noteq> tag"
    then have o: "runtime_of r t' e' = Some a" using that by (simp add: rt)
    from h that new [of e a] have "runtime_of r tag e = Some a"
      using old [OF o] by (auto simp: rt)
    with o inv h show ?thesis using flow_invD(2) by blast
  next
    assume h: "t \<noteq> tag" "t' = tag"
    then have o: "runtime_of r t e = Some a" using that by (simp add: rt)
    from h that new [of e' a] have "runtime_of r tag e' = Some a"
      using old [OF o] by (auto simp: rt)
    with o inv h show ?thesis using flow_invD(2) by blast
  next
    assume "t \<noteq> tag" "t' \<noteq> tag"
    with that inv show ?thesis using flow_invD(2) by (metis rt)
  qed
  have b3: "runtime_of r' t e \<noteq> None" if "is_current r' t e" for t e
    using that cur flow_invD(3) [OF inv, of t e]
    by (auto simp: is_current_node_at runtime_of_node_at r' split: if_splits)
  have b4: "0 \<le> fr_active r' a" for a using flow_invD(4) [OF inv] by (simp add: r' step)
  have b5: "fr_active r' a = 0" if "fr_next r' \<le> a" for a
    using flow_invD(5) [OF inv, of a] that by (simp add: r' step order_trans [OF step(1)])
  show ?thesis unfolding flow_inv_def using b1 b2 b3 b4 b5 by blast
qed

section \<open>What each operation does\<close>

lemma flow_register_spec:
  fixes r :: userFlowRegistry and tag :: string and emails :: "string list"
  assumes "flow_inv r"
  defines "r' \<equiv> flow_register tag emails r"
  shows "flow_inv r'" and "fr_active r' = fr_active r" and "fr_next r \<le> fr_next r'"
    and "managed r' t \<longleftrightarrow> t = tag \<or> managed r t"
    and "is_current r' t e \<longleftrightarrow> is_current r t e \<or> t = tag \<and> e \<in> set emails"
    and "runtime_of r t e = Some a \<Longrightarrow> runtime_of r' t e = Some a"
proof -
  obtain n r1 where n: "registry_node tag r = (n, r1)" by fastforce
  obtain n' r2 where l: "register_loop emails n r1 = (n', r2)" by fastforce
  note node = registry_node_eq [OF n]
  have eq: "r' = r2\<lparr>fr_nodes := store tag n' (fr_nodes r2)\<rparr>"
    by (simp add: r'_def flow_register_def n l)
  have ok: "node_ok n r1" using node_at_ok [OF assms(1)] node by (simp add: node_ok_def)
  note loop = register_loop_ext [OF ok l]
  have ext: "node_ext (node_at r tag) r n' r2'" if "r2' = r2\<lparr>fr_nodes := fr_nodes r\<rparr>" for r2'
    using loop node that by (simp add: node_ext_def)
  have nodes: "fr_nodes r2 = fr_nodes r1" using loop by (simp add: node_ext_def)
  have at: "node_at r' t = (if t = tag then n' else node_at r t)" for t
    using node nodes by (simp add: eq node_at_def split: option.splits if_splits)
  have cur: "load (mn_runtime n') e \<noteq> None" if "load (mn_current n') e \<noteq> None" for e
  proof (cases "e \<in> set emails")
    case True
    with loop show ?thesis by blast
  next
    case False
    with that loop have "load (mn_current n) e \<noteq> None" by blast
    then have "load (mn_runtime n) e \<noteq> None"
      using flow_invD(3) [OF assms(1)] node by (simp add: is_current_node_at runtime_of_node_at)
    with loop show ?thesis unfolding node_ext_def by blast
  qed
  show "flow_inv r'"
    by (rule flow_inv_extend [OF assms(1) ext [OF refl] cur]) (simp_all add: eq, simp add: at [unfolded eq])
  show "fr_active r' = fr_active r" and "fr_next r \<le> fr_next r'"
    using loop node by (simp_all add: eq node_ext_def)
  show "managed r' t \<longleftrightarrow> t = tag \<or> managed r t"
    using node nodes by (auto simp: eq managed_def split: if_splits)
  show "is_current r' t e \<longleftrightarrow> is_current r t e \<or> t = tag \<and> e \<in> set emails"
    using loop node by (auto simp: is_current_node_at at)
  show "runtime_of r t e = Some a \<Longrightarrow> runtime_of r' t e = Some a"
    using loop node by (auto simp: runtime_of_node_at at node_ext_def)
qed

lemma flow_retire_spec:
  fixes r :: userFlowRegistry and tag :: string and emails :: "string list"
  assumes "flow_inv r"
  defines "r' \<equiv> flow_retire tag emails r"
  shows "flow_inv r'" and "fr_active r' = fr_active r" and "fr_next r \<le> fr_next r'"
    and "managed r' t \<longleftrightarrow> t = tag \<or> managed r t"
    and "is_current r' t e \<longleftrightarrow> is_current r t e \<and> \<not> (t = tag \<and> e \<in> set emails)"
    and "runtime_of r t e = Some a \<Longrightarrow> runtime_of r' t e = Some a"
proof -
  obtain n r1 where n: "registry_node tag r = (n, r1)" by fastforce
  obtain n' r2 where l: "retire_loop emails n r1 = (n', r2)" by fastforce
  note node = registry_node_eq [OF n]
  have eq: "r' = r2\<lparr>fr_nodes := store tag n' (fr_nodes r2)\<rparr>"
    by (simp add: r'_def flow_retire_def n l)
  have ok: "node_ok n r1" using node_at_ok [OF assms(1)] node by (simp add: node_ok_def)
  note loop = retire_loop_ext [OF ok l]
  have ext: "node_ext (node_at r tag) r n' r2'" if "r2' = r2\<lparr>fr_nodes := fr_nodes r\<rparr>" for r2'
    using loop node that by (simp add: node_ext_def)
  have nodes: "fr_nodes r2 = fr_nodes r1" using loop by (simp add: node_ext_def)
  have at: "node_at r' t = (if t = tag then n' else node_at r t)" for t
    using node nodes by (simp add: eq node_at_def split: option.splits if_splits)
  have cur: "load (mn_runtime n') e \<noteq> None" if "load (mn_current n') e \<noteq> None" for e
  proof -
    from that loop have "load (mn_current n) e \<noteq> None" by blast
    then have "load (mn_runtime n) e \<noteq> None"
      using flow_invD(3) [OF assms(1)] node by (simp add: is_current_node_at runtime_of_node_at)
    with loop show ?thesis unfolding node_ext_def by blast
  qed
  show "flow_inv r'"
    by (rule flow_inv_extend [OF assms(1) ext [OF refl] cur]) (simp_all add: eq, simp add: at [unfolded eq])
  show "fr_active r' = fr_active r" and "fr_next r \<le> fr_next r'"
    using loop node by (simp_all add: eq node_ext_def)
  show "managed r' t \<longleftrightarrow> t = tag \<or> managed r t"
    using node nodes by (auto simp: eq managed_def split: if_splits)
  show "is_current r' t e \<longleftrightarrow> is_current r t e \<and> \<not> (t = tag \<and> e \<in> set emails)"
    using loop node by (auto simp: is_current_node_at at)
  show "runtime_of r t e = Some a \<Longrightarrow> runtime_of r' t e = Some a"
    using loop node by (auto simp: runtime_of_node_at at node_ext_def)
qed

lemmas flow_inv_intros [wf_intros] = flow_register_spec(1) flow_retire_spec(1)

text \<open>Changing a count only.\<close>

lemma views_active [simp]:
  "runtime_of (r\<lparr>fr_active := h\<rparr>) t e = runtime_of r t e"
  "is_current (r\<lparr>fr_active := h\<rparr>) t e = is_current r t e"
  "managed (r\<lparr>fr_active := h\<rparr>) t = managed r t"
  by (simp_all add: runtime_of_def is_current_def managed_def)

lemma views_runtime_acquire [simp]:
  "runtime_of (runtime_acquire a r) t e = runtime_of r t e"
  "is_current (runtime_acquire a r) t e = is_current r t e"
  "managed (runtime_acquire a r) t = managed r t"
  "fr_next (runtime_acquire a r) = fr_next r"
  "fr_active (runtime_acquire a r) = (fr_active r)(a := fr_active r a + 1)"
  by (simp_all add: runtime_acquire_def)

lemma views_runtime_release [simp]:
  "runtime_of (runtime_release a r) t e = runtime_of r t e"
  "is_current (runtime_release a r) t e = is_current r t e"
  "managed (runtime_release a r) t = managed r t"
  "fr_next (runtime_release a r) = fr_next r"
  by (simp_all add: runtime_release_def)

lemma fr_active_release:
  "flow_inv r \<Longrightarrow> fr_active (runtime_release a r) b =
     (if b = a \<and> 0 < fr_active r a then fr_active r a - 1 else fr_active r b)"
  by (simp add: runtime_release_def)

lemma flow_inv_count:
  assumes "flow_inv r" and "0 \<le> k" and "k = 0 \<or> a < fr_next r"
  shows "flow_inv (r\<lparr>fr_active := (fr_active r)(a := k)\<rparr>)"
  using assms unfolding flow_inv_def by (auto simp: not_le)

lemma flow_inv_runtime_release [wf_intros]: "flow_inv r \<Longrightarrow> flow_inv (runtime_release a r)"
  using flow_inv_count [of r "fr_active r a - 1" a] flow_invD(5) [of r a]
  by (cases "a < fr_next r") (auto simp: runtime_release_def)

lemma flow_inv_runtime_acquire [wf_intros]:
  "flow_inv r \<Longrightarrow> a < fr_next r \<Longrightarrow> flow_inv (runtime_acquire a r)"
  using flow_inv_count [of r "fr_active r a + 1" a] flow_invD(4) [of r a]
  by (simp add: runtime_acquire_def)

lemma views_nodes:
  assumes "fr_nodes r' = fr_nodes r"
  shows "runtime_of r' t e = runtime_of r t e" "is_current r' t e = is_current r t e" "managed r' t = managed r t"
  using assms by (simp_all add: runtime_of_def is_current_def managed_def)

lemma new_runtime_spec:
  assumes "flow_inv r" and "new_runtime r = (a, r')"
  shows "a = fr_next r \<and> flow_inv r' \<and> fr_active r' = fr_active r \<and> fr_next r' = Suc (fr_next r)
     \<and> fr_nodes r' = fr_nodes r"
proof -
  have "(fr_active r)(fr_next r := 0) = fr_active r" using flow_invD(5) [OF assms(1)] by auto
  then have r': "a = fr_next r" "r' = r\<lparr>fr_next := Suc (fr_next r)\<rparr>"
    using assms(2) by (auto simp: new_runtime_def)
  have "flow_inv r'"
    using assms(1) views_nodes [of r' r] unfolding flow_inv_def by (auto simp: r' less_Suc_eq)
  then show ?thesis by (simp add: r')
qed

text \<open>
  Acquiring a flow: refused exactly for a managed inbound whose user is not current; for a
  current user it is the user's runtime object that is counted.
\<close>

lemma flow_acquire_spec:
  assumes "flow_inv r" and "flow_acquire tag email r = (oa, r')"
  shows "flow_inv r'" and "oa = None \<longleftrightarrow> managed r tag \<and> \<not> is_current r tag email"
    and "oa = None \<Longrightarrow> r' = r"
    and "oa = Some a \<Longrightarrow> fr_active r' = (fr_active r)(a := fr_active r a + 1)"
    and "oa = Some a \<Longrightarrow> managed r tag \<Longrightarrow> runtime_of r tag email = Some a"
    and "oa = Some a \<Longrightarrow> \<not> managed r tag \<Longrightarrow> a = fr_next r"
    and "runtime_of r' t e = runtime_of r t e" and "is_current r' t e = is_current r t e"
    and "managed r' t = managed r t" and "fr_next r \<le> fr_next r'" and "oa = Some a \<Longrightarrow> a < fr_next r'"
proof -
  consider (unmanaged) "load (fr_nodes r) tag = None"
    | (refused) n where "load (fr_nodes r) tag = Some n" "load (mn_current n) email = None"
    | (current) n where "load (fr_nodes r) tag = Some n" "load (mn_current n) email \<noteq> None"
    by fastforce
  then have "flow_inv r' \<and> (oa = None \<longleftrightarrow> managed r tag \<and> \<not> is_current r tag email) \<and> (oa = None \<longrightarrow> r' = r)
    \<and> (oa = Some a \<longrightarrow> fr_active r' = (fr_active r)(a := fr_active r a + 1))
    \<and> (oa = Some a \<and> managed r tag \<longrightarrow> runtime_of r tag email = Some a)
    \<and> (oa = Some a \<and> \<not> managed r tag \<longrightarrow> a = fr_next r)
    \<and> runtime_of r' t e = runtime_of r t e \<and> is_current r' t e = is_current r t e
    \<and> managed r' t = managed r t \<and> fr_next r \<le> fr_next r' \<and> (oa = Some a \<longrightarrow> a < fr_next r')"
  proof cases
    case unmanaged
    obtain b r1 where nr: "new_runtime r = (b, r1)" by fastforce
    note fresh = new_runtime_spec [OF assms(1) nr]
    have "oa = Some b" "r' = runtime_acquire b r1"
      using assms(2) unmanaged nr by (auto simp: flow_acquire_def)
    moreover have "\<not> managed r tag" using unmanaged by (simp add: managed_def)
    ultimately show ?thesis
      using fresh flow_inv_runtime_acquire [of r1 b] views_nodes [of r1 r] by auto
  next
    case refused
    with assms show ?thesis by (auto simp: flow_acquire_def managed_def is_current_def)
  next
    case current
    then have "runtime_of r tag email \<noteq> None"
      using flow_invD(3) [OF assms(1), of tag email] by (simp add: is_current_def)
    then obtain b where b: "runtime_of r tag email = Some b" "load (mn_runtime n) email = Some b"
      using current by (auto simp: runtime_of_def)
    then have "oa = Some b" "r' = runtime_acquire b r"
      using assms(2) current by (auto simp: flow_acquire_def)
    moreover have "managed r tag" "is_current r tag email"
      using current by (auto simp: managed_def is_current_def)
    ultimately show ?thesis
      using b flow_invD(1) [OF assms(1) b(1)] flow_inv_runtime_acquire [OF assms(1), of b] by auto
  qed
  then show "flow_inv r'" and "oa = None \<longleftrightarrow> managed r tag \<and> \<not> is_current r tag email"
    and "oa = None \<Longrightarrow> r' = r"
    and "oa = Some a \<Longrightarrow> fr_active r' = (fr_active r)(a := fr_active r a + 1)"
    and "oa = Some a \<Longrightarrow> managed r tag \<Longrightarrow> runtime_of r tag email = Some a"
    and "oa = Some a \<Longrightarrow> \<not> managed r tag \<Longrightarrow> a = fr_next r"
    and "runtime_of r' t e = runtime_of r t e" and "is_current r' t e = is_current r t e"
    and "managed r' t = managed r t" and "fr_next r \<le> fr_next r'" and "oa = Some a \<Longrightarrow> a < fr_next r'"
    by blast+
qed

text \<open>
  Finalising a retired user succeeds only without admission, without active flows and with
  empty counters; it then forgets the runtime object and both counters. Otherwise nothing
  changes.
\<close>

definition counter_empty :: "string \<Rightarrow> StatsManager \<Rightarrow> bool" where
  "counter_empty name m = (case GetCounter name m of None \<Rightarrow> True | Some a \<Rightarrow> ctr_value m a = 0)"

definition can_finalize :: "string \<Rightarrow> string \<Rightarrow> userFlowRegistry \<times> StatsManager \<Rightarrow> bool" where
  "can_finalize tag email s \<longleftrightarrow>
     \<not> is_current (fst s) tag email \<and> (\<exists>a. runtime_of (fst s) tag email = Some a \<and> fr_active (fst s) a = 0)
     \<and> counter_empty (userUplinkCounterName email) (snd s)
     \<and> counter_empty (userDownlinkCounterName email) (snd s)"

lemma cleanupCounters_spec:
  "cleanupCounters email m =
     (if counter_empty (userUplinkCounterName email) m \<and> counter_empty (userDownlinkCounterName email) m
      then (True, snd (UnregisterCounter (userDownlinkCounterName email)
                    (snd (UnregisterCounter (userUplinkCounterName email) m))))
      else (False, m))"
  by (auto simp: cleanupCounters_def counter_empty_def counter_Value_def Let_def split: option.splits)

lemma FinalizeRetiredUser_cases:
  assumes "FinalizeRetiredUser tag email (r, m) = (ok, r', m')"
  shows "ok = can_finalize tag email (r, m)"
    and "\<not> ok \<Longrightarrow> r' = r \<and> m' = m"
    and "ok \<Longrightarrow> m' = snd (UnregisterCounter (userDownlinkCounterName email)
                      (snd (UnregisterCounter (userUplinkCounterName email) m)))"
    and "ok \<Longrightarrow> \<exists>n. load (fr_nodes r) tag = Some n \<and>
           r' = r\<lparr>fr_nodes := store tag (n\<lparr>mn_runtime := del email (mn_runtime n)\<rparr>) (fr_nodes r)\<rparr>"
  using assms
  by (auto simp: FinalizeRetiredUser_def flow_finalize_def can_finalize_def runtime_of_def
      is_current_def cleanupCounters_spec split: option.splits if_splits)

lemma finalize_views:
  assumes "FinalizeRetiredUser tag email (r, m) = (True, r', m')"
  shows "runtime_of r' t e = (if t = tag \<and> e = email then None else runtime_of r t e)"
    and "is_current r' t e = is_current r t e" and "managed r' t = managed r t"
    and "fr_active r' = fr_active r" and "fr_next r' = fr_next r"
    and "GetCounter n m' = (if n = userUplinkCounterName email \<or> n = userDownlinkCounterName email
           then None else GetCounter n m)"
    and "ctr_value m' = ctr_value m"
proof -
  obtain nd where nd: "load (fr_nodes r) tag = Some nd"
    and r': "r' = r\<lparr>fr_nodes := store tag (nd\<lparr>mn_runtime := del email (mn_runtime nd)\<rparr>) (fr_nodes r)\<rparr>"
    using FinalizeRetiredUser_cases(4) [OF assms] by auto
  show "runtime_of r' t e = (if t = tag \<and> e = email then None else runtime_of r t e)"
    and "is_current r' t e = is_current r t e" and "managed r' t = managed r t"
    and "fr_active r' = fr_active r" and "fr_next r' = fr_next r"
    using nd by (auto simp: r' runtime_of_def is_current_def managed_def)
  show "GetCounter n m' = (if n = userUplinkCounterName email \<or> n = userDownlinkCounterName email
           then None else GetCounter n m)"
    and "ctr_value m' = ctr_value m"
    using FinalizeRetiredUser_cases(3) [OF assms] by auto
qed

lemma FinalizeRetiredUser_inv [wf_intros]:
  assumes "flow_inv r" and "stats_inv m" and "FinalizeRetiredUser tag email (r, m) = (ok, r', m')"
  shows "flow_inv r' \<and> stats_inv m'"
proof (cases ok)
  case True
  note v = finalize_views [OF assms(3) [unfolded True [THEN eqTrueI]]]
  have "\<not> is_current r tag email"
    using FinalizeRetiredUser_cases(1) [OF assms(3)] True by (simp add: can_finalize_def)
  then have "flow_inv r'"
    using assms(1) unfolding flow_inv_def v by (auto split: if_splits)
  moreover have "stats_inv m'"
    using FinalizeRetiredUser_cases(3) [OF assms(3) True] assms(2) by (simp add: stats_inv_Unregister)
  ultimately show ?thesis by simp
next
  case False
  with FinalizeRetiredUser_cases(2) [OF assms(3)] assms show ?thesis by simp
qed

section \<open>Connections release their flow once\<close>

text \<open>
  The two writers of a connection share one lifecycle. A run is any sequence of closes and
  interrupts of either writer.
\<close>

datatype writer_call = CloseInbound | InterruptInbound | CloseOutbound | InterruptOutbound

fun connection_run ::
    "('w \<Rightarrow> go_error option \<times> 'w) \<Rightarrow> ('w \<Rightarrow> 'w) \<Rightarrow> writer_call list \<Rightarrow>
     'w lifecycleWriter \<times> 'w lifecycleWriter \<times> userConnectionLifecycle option \<times> userFlowRegistry \<Rightarrow>
     'w lifecycleWriter \<times> 'w lifecycleWriter \<times> userConnectionLifecycle option \<times> userFlowRegistry" where
  "connection_run cl intr [] s = s"
| "connection_run cl intr (CloseInbound # cs) (i, ob, lr) =
     (let (_, i', lr') = lifecycleWriter_Close cl (i, lr) in connection_run cl intr cs (i', ob, lr'))"
| "connection_run cl intr (InterruptInbound # cs) (i, ob, lr) =
     (let (i', lr') = lifecycleWriter_Interrupt intr (i, lr) in connection_run cl intr cs (i', ob, lr'))"
| "connection_run cl intr (CloseOutbound # cs) (i, ob, lr) =
     (let (_, ob', lr') = lifecycleWriter_Close cl (ob, lr) in connection_run cl intr cs (i, ob', lr'))"
| "connection_run cl intr (InterruptOutbound # cs) (i, ob, lr) =
     (let (ob', lr') = lifecycleWriter_Interrupt intr (ob, lr) in connection_run cl intr cs (i, ob', lr'))"

definition inbound_done :: "writer_call list \<Rightarrow> bool" where
  "inbound_done cs \<longleftrightarrow> CloseInbound \<in> set cs \<or> InterruptInbound \<in> set cs"

definition outbound_done :: "writer_call list \<Rightarrow> bool" where
  "outbound_done cs \<longleftrightarrow> CloseOutbound \<in> set cs \<or> InterruptOutbound \<in> set cs"

text \<open>The state of a connection is determined by how many of its writers are done.\<close>

definition lifecycle_at :: "nat \<Rightarrow> userIO \<Rightarrow> userFlowRegistry \<Rightarrow> userConnectionLifecycle option \<times> userFlowRegistry" where
  "lifecycle_at k flow r =
     (let (flow', r') = (if k = 2 then userIO_Release flow r else (flow, r)) in
      (Some \<lparr>lc_remaining = 2 - of_nat k, lc_flow = Some flow'\<rparr>, r'))"

lemma lifecycle_release_at: "k < 2 \<Longrightarrow> lifecycle_release (lifecycle_at k flow r) = lifecycle_at (Suc k) flow r"
  by (auto simp: less_2_cases_iff lifecycle_at_def lifecycle_release_def Let_def split: prod.splits)

lemma lifecycleWriter_Close_once:
  "\<exists>err w'. lifecycleWriter_Close cl (w, lr) = (err, w', if lw_once w then lr else lifecycle_release lr) \<and> lw_once w'"
  by (cases lr) (auto simp: lifecycleWriter_Close_def split: prod.splits)

lemma lifecycleWriter_Interrupt_once:
  "\<exists>w'. lifecycleWriter_Interrupt intr (w, lr) = (w', if lw_once w then lr else lifecycle_release lr) \<and> lw_once w'"
  by (cases lr) (auto simp: lifecycleWriter_Interrupt_def Let_def)

lemma connection_run_state:
  "\<exists>i' ob'. connection_run cl intr cs (i, ob, lifecycle_at (of_bool (lw_once i) + of_bool (lw_once ob)) flow r) =
     (i', ob', lifecycle_at (of_bool (lw_once i \<or> inbound_done cs) + of_bool (lw_once ob \<or> outbound_done cs)) flow r)"
proof (induction cs arbitrary: i ob)
  case Nil
  then show ?case by (simp add: inbound_done_def outbound_done_def)
next
  case (Cons c cs)
  let ?lr = "lifecycle_at (of_bool (lw_once i) + of_bool (lw_once ob)) flow r"
  have rel: "(if lw_once i then ?lr else lifecycle_release ?lr) = lifecycle_at (1 + of_bool (lw_once ob)) flow r"
    "(if lw_once ob then ?lr else lifecycle_release ?lr) = lifecycle_at (of_bool (lw_once i) + 1) flow r"
    by (auto simp: lifecycle_release_at)
  note steps = lifecycleWriter_Close_once [of cl i ?lr, unfolded rel] lifecycleWriter_Interrupt_once [of intr i ?lr, unfolded rel]
    lifecycleWriter_Close_once [of cl ob ?lr, unfolded rel] lifecycleWriter_Interrupt_once [of intr ob ?lr, unfolded rel]
  show ?case
  proof (cases c)
    case CloseInbound
    obtain err i' where "lifecycleWriter_Close cl (i, ?lr) = (err, i', lifecycle_at (1 + of_bool (lw_once ob)) flow r)"
      and "lw_once i'" using steps(1) by blast
    with Cons.IH [of i' ob] CloseInbound show ?thesis
      by (simp add: inbound_done_def outbound_done_def)
  next
    case InterruptInbound
    obtain i' where "lifecycleWriter_Interrupt intr (i, ?lr) = (i', lifecycle_at (1 + of_bool (lw_once ob)) flow r)"
      and "lw_once i'" using steps(2) by blast
    with Cons.IH [of i' ob] InterruptInbound show ?thesis
      by (simp add: inbound_done_def outbound_done_def)
  next
    case CloseOutbound
    obtain err ob' where "lifecycleWriter_Close cl (ob, ?lr) = (err, ob', lifecycle_at (of_bool (lw_once i) + 1) flow r)"
      and "lw_once ob'" using steps(3) by blast
    with Cons.IH [of i ob'] CloseOutbound show ?thesis
      by (simp add: inbound_done_def outbound_done_def)
  next
    case InterruptOutbound
    obtain ob' where "lifecycleWriter_Interrupt intr (ob, ?lr) = (ob', lifecycle_at (of_bool (lw_once i) + 1) flow r)"
      and "lw_once ob'" using steps(4) by blast
    with Cons.IH [of i ob'] InterruptOutbound show ?thesis
      by (simp add: inbound_done_def outbound_done_def)
  qed
qed

section \<open>Properties\<close>

text \<open>
  C14. A connection releases its flow exactly once, when the second of its two writers is
  closed or interrupted: after any sequence of calls on either writer, in any order and with
  repetitions, the registry is the one before the run if a writer is still open, and the one
  after a single release otherwise.
\<close>

theorem connection_releases_once:
  assumes "uio_runtime flow = Some a" and "\<not> uio_released flow"
  shows "\<exists>i ob l. connection_run cl intr calls
      (\<lparr>lw_Writer = w1, lw_once = False\<rparr>, \<lparr>lw_Writer = w2, lw_once = False\<rparr>,
       Some (newUserConnectionLifecycle (Some flow) 2), r) =
     (i, ob, l, if inbound_done calls \<and> outbound_done calls then runtime_release a r else r)"
proof -
  have "(Some (newUserConnectionLifecycle (Some flow) 2), r) = lifecycle_at 0 flow r"
    by (simp add: newUserConnectionLifecycle_def lifecycle_at_def)
  with connection_run_state [of cl intr calls "\<lparr>lw_Writer = w1, lw_once = False\<rparr>"
      "\<lparr>lw_Writer = w2, lw_once = False\<rparr>" flow r] assms
  show ?thesis
    by (cases "inbound_done calls"; cases "outbound_done calls")
      (auto simp: lifecycle_at_def userIO_Release_def)
qed

theorem connection_releases_once_witness:
  "\<exists>i ob l r'. connection_run (\<lambda>w. (None, w)) (\<lambda>w. w) [CloseInbound, InterruptInbound, CloseOutbound]
      (\<lparr>lw_Writer = (), lw_once = False\<rparr>, \<lparr>lw_Writer = (), lw_once = False\<rparr>,
       Some (newUserConnectionLifecycle (Some (new_userIO\<lparr>uio_runtime := Some 0\<rparr>)) 2),
       runtime_acquire 0 empty_registry) = (i, ob, l, r') \<and> fr_active r' 0 = 0"
proof -
  let ?u = "new_userIO\<lparr>uio_runtime := Some 0\<rparr>"
  have "uio_runtime ?u = Some 0" "\<not> uio_released ?u" by (simp_all add: new_userIO_def)
  from connection_releases_once [OF this, of "\<lambda>w. (None, w)" "\<lambda>w. w"
      "[CloseInbound, InterruptInbound, CloseOutbound]" "()" "()" "runtime_acquire 0 empty_registry"]
  show ?thesis
    by (auto simp: inbound_done_def outbound_done_def runtime_release_def empty_registry_def)
qed



end
