(* ===== verification/Readers.thy ===== *)
theory Readers
  imports Rate Stats
begin

text \<open>
  The readers and writers of a data path: the in-memory pipe of xray-core
  (\<open>transport/pipe/impl.go\<close>) that connects an inbound with an outbound, the caching and replaying
  readers of \<open>app/mydispatcher/default.go\<close> that let the dispatcher look at the first bytes of a
  connection, and the counting wrappers of \<open>app/mydispatcher/stats.go\<close>. A read is a state
  transformer; \<open>None\<close> means that it blocks.
\<close>

type_synonym 'r read_op = "'r \<Rightarrow> ((MultiBuffer \<times> go_error option) \<times> 'r) option"

section \<open>Buffers\<close>

definition buf_Size :: nat where
  "buf_Size = 8192"

definition mb_MergeMulti :: "MultiBuffer \<Rightarrow> MultiBuffer \<Rightarrow> MultiBuffer" where
  "mb_MergeMulti dest src = dest @ src"

definition mb_ReleaseMulti :: "MultiBuffer \<Rightarrow> MultiBuffer" where
  "mb_ReleaseMulti mb = []"

text \<open>\<open>MultiBuffer.Copy\<close> into a byte array with the given room.\<close>

fun mb_Copy :: "MultiBuffer \<Rightarrow> nat \<Rightarrow> byte list" where
  "mb_Copy [] room = []"
| "mb_Copy (bb # mb) room =
     (let chunk = take room bb in
      if length chunk < length bb then chunk else chunk @ mb_Copy mb (room - length chunk))"

lemma mb_Copy_take: "mb_Copy mb n = take n (concat mb)"
  by (induction mb n rule: mb_Copy.induct) (auto simp: Let_def min_def)

lemma mb_IsEmpty_concat: "mb_IsEmpty mb \<longleftrightarrow> concat mb = []"
  by (induction mb) auto

section \<open>The pipe\<close>

datatype pipe_state = pipe_open | pipe_closed | pipe_errord

record pipe =
  p_data :: "MultiBuffer option"
  p_state :: pipe_state
  p_limit :: int
  p_discardOverflow :: bool

definition io_EOF :: go_error where "io_EOF = Error ''EOF''"
definition io_ErrClosedPipe :: go_error where "io_ErrClosedPipe = Error ''io: read/write on closed pipe''"
definition errBufferFull :: go_error where "errBufferFull = Error ''buffer full''"
definition ErrReadTimeout :: go_error where "ErrReadTimeout = Error ''IO timeout''"

definition pipe_bytes :: "pipe \<Rightarrow> MultiBuffer" where
  "pipe_bytes p = (case p_data p of None \<Rightarrow> [] | Some mb \<Rightarrow> mb)"

definition pipe_getState :: "pipe \<Rightarrow> bool \<Rightarrow> go_error option" where
  "pipe_getState p forRead =
     (case p_state p of
        pipe_open \<Rightarrow> if \<not> forRead \<and> 0 \<le> p_limit p \<and> p_limit p < mb_Len (pipe_bytes p)
                     then Some errBufferFull else None
      | pipe_closed \<Rightarrow> if \<not> forRead then Some io_ErrClosedPipe
                       else if \<not> mb_IsEmpty (pipe_bytes p) then None else Some io_EOF
      | pipe_errord \<Rightarrow> Some io_ErrClosedPipe)"

definition pipe_readMultiBufferInternal :: "pipe \<Rightarrow> (MultiBuffer option \<times> go_error option) \<times> pipe" where
  "pipe_readMultiBufferInternal p =
     (case pipe_getState p True of
        Some err \<Rightarrow> ((None, Some err), p)
      | None \<Rightarrow> ((p_data p, None), p\<lparr>p_data := None\<rparr>))"

text \<open>
  The reading loops. Without data and error they wait for a signal; seen alone, the blocking
  read does not return and the timed one ends with the timeout error.
\<close>

definition pipe_ReadMultiBuffer :: "pipe read_op" where
  "pipe_ReadMultiBuffer p =
     (case pipe_readMultiBufferInternal p of
        ((Some data, err), p') \<Rightarrow> Some ((data, err), p')
      | ((None, Some err), p') \<Rightarrow> Some (([], Some err), p')
      | ((None, None), p') \<Rightarrow> None)"

definition pipe_ReadMultiBufferTimeout :: "pipe read_op" where
  "pipe_ReadMultiBufferTimeout p =
     (case pipe_readMultiBufferInternal p of
        ((Some data, err), p') \<Rightarrow> Some ((data, err), p')
      | ((None, Some err), p') \<Rightarrow> Some (([], Some err), p')
      | ((None, None), p') \<Rightarrow> Some (([], Some ErrReadTimeout), p'))"

text \<open>
  A write into a pipe that already holds data is reported as \<open>errSlowDown\<close>; the caller then only
  yields its goroutine, so both cases are the same success here.
\<close>

definition pipe_writeMultiBufferInternal :: "MultiBuffer \<Rightarrow> pipe \<Rightarrow> go_error option \<times> pipe" where
  "pipe_writeMultiBufferInternal mb p =
     (case pipe_getState p False of
        Some err \<Rightarrow> (Some err, p)
      | None \<Rightarrow> (None, p\<lparr>p_data := Some (mb_MergeMulti (pipe_bytes p) mb)\<rparr>))"

text \<open>\<open>WriteMultiBuffer\<close> with its transmission hook; \<open>None\<close> waits for the reader to make room.\<close>

definition pipe_WriteMultiBuffer ::
    "(MultiBuffer \<Rightarrow> MultiBuffer) option \<Rightarrow> MultiBuffer \<Rightarrow> pipe \<Rightarrow> (go_error option \<times> pipe) option" where
  "pipe_WriteMultiBuffer onTransmission mb p =
     (if mb_IsEmpty mb then Some (None, p)
      else let mb' = (case onTransmission of None \<Rightarrow> mb | Some f \<Rightarrow> f mb) in
        case pipe_writeMultiBufferInternal mb' p of
          (None, p') \<Rightarrow> Some (None, p')
        | (Some err, p') \<Rightarrow>
            if err = errBufferFull \<and> p_discardOverflow p then Some (None, p')
            else if err \<noteq> errBufferFull then Some (Some err, p')
            else None)"

definition pipe_Close :: "pipe \<Rightarrow> go_error option \<times> pipe" where
  "pipe_Close p =
     (if p_state p = pipe_closed \<or> p_state p = pipe_errord then (None, p) else (None, p\<lparr>p_state := pipe_closed\<rparr>))"

definition pipe_Interrupt :: "pipe \<Rightarrow> pipe" where
  "pipe_Interrupt p =
     (if p_state p = pipe_closed \<or> p_state p = pipe_errord then p
      else if \<not> mb_IsEmpty (pipe_bytes p) then p\<lparr>p_state := pipe_errord, p_data := None\<rparr>
      else p\<lparr>p_state := pipe_errord\<rparr>)"

section \<open>Caching and replaying readers\<close>

record 'r cachedReader =
  cr_reader :: 'r
  cr_cache :: MultiBuffer

record 'r replayReader =
  rr_reader :: 'r
  rr_cache :: MultiBuffer

definition replay_TakeBuffered :: "'r replayReader \<Rightarrow> MultiBuffer \<times> 'r replayReader" where
  "replay_TakeBuffered r = (rr_cache r, r\<lparr>rr_cache := []\<rparr>)"

definition replay_ReadMultiBuffer :: "'r read_op \<Rightarrow> 'r replayReader read_op" where
  "replay_ReadMultiBuffer rd r =
     (if \<not> mb_IsEmpty (rr_cache r) then Some ((rr_cache r, None), r\<lparr>rr_cache := []\<rparr>)
      else case rd (rr_reader r) of
        None \<Rightarrow> None
      | Some (out, r') \<Rightarrow> Some (out, r\<lparr>rr_reader := r'\<rparr>))"

definition replay_Interrupt :: "('r \<Rightarrow> 'r) \<Rightarrow> 'r replayReader \<Rightarrow> 'r replayReader" where
  "replay_Interrupt interrupt r = r\<lparr>rr_cache := mb_ReleaseMulti (rr_cache r), rr_reader := interrupt (rr_reader r)\<rparr>"

text \<open>
  \<open>Cache\<close> reads once (with the timeout when the reader supports it), appends what it got to the
  cache and returns the first \<open>buf.Size\<close> bytes of the cache as the payload to sniff.
\<close>

definition cached_Cache ::
    "'r read_op \<Rightarrow> 'r read_op option \<Rightarrow> 'r cachedReader \<Rightarrow> (byte list \<times> 'r cachedReader) option" where
  "cached_Cache rd rdT r =
     (case (case rdT of Some f \<Rightarrow> f (cr_reader r) | None \<Rightarrow> rd (cr_reader r)) of
        None \<Rightarrow> None
      | Some ((mb, _), r') \<Rightarrow>
          let cache' = (if \<not> mb_IsEmpty mb then mb_MergeMulti (cr_cache r) mb else cr_cache r) in
          Some (mb_Copy cache' buf_Size, r\<lparr>cr_reader := r', cr_cache := cache'\<rparr>))"

definition cached_readInternal :: "'r cachedReader \<Rightarrow> MultiBuffer option \<times> 'r cachedReader" where
  "cached_readInternal r =
     (if \<not> mb_IsEmpty (cr_cache r) then (Some (cr_cache r), r\<lparr>cr_cache := []\<rparr>) else (None, r))"

definition cached_ReadMultiBuffer :: "'r read_op \<Rightarrow> 'r cachedReader read_op" where
  "cached_ReadMultiBuffer rd r =
     (case cached_readInternal r of
        (Some mb, r') \<Rightarrow> Some ((mb, None), r')
      | (None, r') \<Rightarrow>
          (case rd (cr_reader r') of
             None \<Rightarrow> None
           | Some (out, rr) \<Rightarrow> Some (out, r'\<lparr>cr_reader := rr\<rparr>)))"

definition cached_ReadMultiBufferTimeout :: "'r read_op \<Rightarrow> 'r read_op option \<Rightarrow> 'r cachedReader read_op" where
  "cached_ReadMultiBufferTimeout rd rdT r =
     (case cached_readInternal r of
        (Some mb, r') \<Rightarrow> Some ((mb, None), r')
      | (None, r') \<Rightarrow>
          (case (case rdT of Some f \<Rightarrow> f (cr_reader r') | None \<Rightarrow> rd (cr_reader r')) of
             None \<Rightarrow> None
           | Some (out, rr) \<Rightarrow> Some (out, r'\<lparr>cr_reader := rr\<rparr>)))"

definition cached_Interrupt :: "('r \<Rightarrow> 'r) \<Rightarrow> 'r cachedReader \<Rightarrow> 'r cachedReader" where
  "cached_Interrupt interrupt r = r\<lparr>cr_cache := mb_ReleaseMulti (cr_cache r), cr_reader := interrupt (cr_reader r)\<rparr>"

definition cached_TakeBuffered :: "'r cachedReader \<Rightarrow> MultiBuffer \<times> 'r cachedReader" where
  "cached_TakeBuffered r = (cr_cache r, r\<lparr>cr_cache := []\<rparr>)"

text \<open>\<open>ReplayReader\<close> hands the plain reader back when nothing is cached.\<close>

datatype 'r input_reader = PlainReader 'r | Replayed "'r replayReader"

definition cached_ReplayReader :: "'r cachedReader \<Rightarrow> 'r input_reader \<times> 'r cachedReader" where
  "cached_ReplayReader r =
     (if mb_IsEmpty (cr_cache r) then (PlainReader (cr_reader r), r)
      else (Replayed \<lparr>rr_reader = cr_reader r, rr_cache = cr_cache r\<rparr>, r\<lparr>cr_cache := []\<rparr>))"

definition input_ReadMultiBuffer :: "'r read_op \<Rightarrow> 'r input_reader read_op" where
  "input_ReadMultiBuffer rd i =
     (case i of
        PlainReader r \<Rightarrow> map_option (\<lambda>(out, r'). (out, PlainReader r')) (rd r)
      | Replayed r \<Rightarrow> map_option (\<lambda>(out, r'). (out, Replayed r')) (replay_ReadMultiBuffer rd r))"

section \<open>Counting wrappers\<close>

definition SizeStatReader_ReadMultiBuffer :: "nat \<Rightarrow> 'r read_op \<Rightarrow> (StatsManager \<times> 'r) read_op" where
  "SizeStatReader_ReadMultiBuffer c rd s =
     (case rd (snd s) of
        None \<Rightarrow> None
      | Some ((mb, err), r') \<Rightarrow>
          Some ((mb, err),
            if \<not> mb_IsEmpty mb then snd (counter_Add c (word_of_int (mb_Len mb)) (fst s)) else fst s, r'))"

definition SizeStatWriter_WriteMultiBuffer ::
    "nat \<Rightarrow> ('w \<Rightarrow> MultiBuffer \<Rightarrow> go_error option \<times> 'w) \<Rightarrow> StatsManager \<times> 'w \<Rightarrow> MultiBuffer
     \<Rightarrow> go_error option \<times> StatsManager \<times> 'w" where
  "SizeStatWriter_WriteMultiBuffer c wr s mb =
     (let m = snd (counter_Add c (word_of_int (mb_Len mb)) (fst s)); (err, w') = wr (snd s) mb in (err, m, w'))"

section \<open>Byte sources\<close>

text \<open>Reading a source a number of times: the bytes come in order, none missing.\<close>

fun read_times :: "nat \<Rightarrow> ('s \<Rightarrow> ((MultiBuffer \<times> go_error option) \<times> 's) option) \<Rightarrow> 's \<Rightarrow> byte list \<times> 's" where
  "read_times 0 f s = ([], s)"
| "read_times (Suc n) f s =
     (case f s of
        None \<Rightarrow> ([], s)
      | Some ((mb, err), s') \<Rightarrow> let (bs, s'') = read_times n f s' in (concat mb @ bs, s''))"

text \<open>
  The contract of a reader: each read takes a prefix off the bytes that are still to come.
  Readers built on a source are sources again, with the cached bytes in front.
\<close>

locale byte_source =
  fixes rd :: "'r \<Rightarrow> ((MultiBuffer \<times> go_error option) \<times> 'r) option"
    and rdT :: "('r \<Rightarrow> ((MultiBuffer \<times> go_error option) \<times> 'r) option) option"
    and content :: "'r \<Rightarrow> byte list"
  assumes read_prefix: "rd r = Some ((mb, err), r') \<Longrightarrow> content r = concat mb @ content r'"
    and timed_prefix: "rdT = Some f \<Longrightarrow> f r = Some ((mb, err), r') \<Longrightarrow> content r = concat mb @ content r'"
begin

definition cached_content :: "'r cachedReader \<Rightarrow> byte list" where
  "cached_content r = concat (cr_cache r) @ content (cr_reader r)"

definition input_content :: "'r input_reader \<Rightarrow> byte list" where
  "input_content i = (case i of PlainReader r \<Rightarrow> content r | Replayed r \<Rightarrow> concat (rr_cache r) @ content (rr_reader r))"

lemma Cache_content:
  assumes "cached_Cache rd rdT r = Some (payload, r')"
  shows "cached_content r' = cached_content r \<and> payload = take buf_Size (concat (cr_cache r'))"
  using assms read_prefix timed_prefix
  by (auto simp: cached_Cache_def cached_content_def Let_def mb_MergeMulti_def mb_Copy_take
      mb_IsEmpty_concat split: option.splits if_splits)

lemma cached_read_content:
  assumes "cached_ReadMultiBuffer rd r = Some ((mb, err), r')"
  shows "cached_content r = concat mb @ cached_content r'"
  using assms read_prefix
  by (auto simp: cached_ReadMultiBuffer_def cached_readInternal_def cached_content_def
      mb_IsEmpty_concat simp del: concat_eq_Nil_conv split: option.splits if_splits)

lemma cached_timed_content:
  assumes "cached_ReadMultiBufferTimeout rd rdT r = Some ((mb, err), r')"
  shows "cached_content r = concat mb @ cached_content r'"
  using assms read_prefix timed_prefix
  by (auto simp: cached_ReadMultiBufferTimeout_def cached_readInternal_def cached_content_def
      mb_IsEmpty_concat simp del: concat_eq_Nil_conv split: option.splits if_splits)

lemma cached_is_source:
  "byte_source (cached_ReadMultiBuffer rd) (Some (cached_ReadMultiBufferTimeout rd rdT)) cached_content"
  by (rule byte_source.intro) (auto dest: cached_read_content cached_timed_content)

lemma ReplayReader_content:
  "cached_ReplayReader r = (i, r') \<Longrightarrow> input_content i = cached_content r"
  by (auto simp: cached_ReplayReader_def input_content_def cached_content_def mb_IsEmpty_concat
      split: if_splits)

lemma input_read_content:
  assumes "input_ReadMultiBuffer rd i = Some ((mb, err), i')"
  shows "input_content i = concat mb @ input_content i'"
  using assms read_prefix
  by (auto simp: input_ReadMultiBuffer_def input_content_def replay_ReadMultiBuffer_def
      mb_IsEmpty_concat simp del: concat_eq_Nil_conv split: input_reader.splits option.splits if_splits)

lemma read_times_input:
  "read_times n (input_ReadMultiBuffer rd) i = (bs, i') \<Longrightarrow> input_content i = bs @ input_content i'"
  by (induction n arbitrary: i bs) (auto dest!: input_read_content split: option.splits prod.splits)

end

text \<open>The pipe is a byte source: what it will deliver is what it holds, unless it was broken off.\<close>

definition pipe_content :: "pipe \<Rightarrow> byte list" where
  "pipe_content p = (if p_state p = pipe_errord then [] else concat (pipe_bytes p))"

lemma pipe_read_content:
  assumes "pipe_readMultiBufferInternal p = ((d, err), p')"
  shows "pipe_content p = concat (case d of None \<Rightarrow> [] | Some mb \<Rightarrow> mb) @ pipe_content p'"
  using assms
  by (auto simp: pipe_readMultiBufferInternal_def pipe_getState_def pipe_content_def pipe_bytes_def
      split: option.splits pipe_state.splits if_splits)

interpretation pipe_source: byte_source pipe_ReadMultiBuffer "Some pipe_ReadMultiBufferTimeout" pipe_content
  by unfold_locales
    (auto simp: pipe_ReadMultiBuffer_def pipe_ReadMultiBufferTimeout_def dest: pipe_read_content
      split: option.splits prod.splits)

text \<open>A cached reader over a pipe is a source again, with the cached bytes in front.\<close>

interpretation cached_pipe: byte_source "cached_ReadMultiBuffer pipe_ReadMultiBuffer"
    "Some (cached_ReadMultiBufferTimeout pipe_ReadMultiBuffer (Some pipe_ReadMultiBufferTimeout))"
    pipe_source.cached_content
  by (rule pipe_source.cached_is_source)

section \<open>Properties\<close>

text \<open>Repeated caching, as the sniffing loop does it.\<close>

fun cache_times :: "nat \<Rightarrow> 'r read_op \<Rightarrow> 'r read_op option \<Rightarrow> 'r cachedReader \<Rightarrow> 'r cachedReader option" where
  "cache_times 0 rd rdT r = Some r"
| "cache_times (Suc n) rd rdT r =
     (case cached_Cache rd rdT r of None \<Rightarrow> None | Some (_, r') \<Rightarrow> cache_times n rd rdT r')"

lemma cache_times_content:
  assumes "byte_source rd rdT content"
  shows "cache_times n rd rdT r = Some r' \<Longrightarrow>
    byte_source.cached_content content r' = byte_source.cached_content content r"
  by (induction n arbitrary: r)
    (auto dest: byte_source.Cache_content [OF assms] split: option.splits)

text \<open>
  Sniffing is lossless. Whatever reader carries the connection, after any number of
  \<open>Cache\<close> calls the replay reader delivers, over any number of reads, a prefix of exactly the
  bytes the connection had before sniffing, and the rest is still to come: nothing is lost,
  duplicated or reordered.
\<close>

theorem replay_lossless:
  assumes source: "byte_source rd rdT content"
    and "cache_times n rd rdT \<lparr>cr_reader = r0, cr_cache = []\<rparr> = Some r"
    and "cached_ReplayReader r = (i, r')"
    and "read_times k (input_ReadMultiBuffer rd) i = (bs, i')"
  shows "content r0 = bs @ byte_source.input_content content i'"
proof -
  have "byte_source.cached_content content r = content r0"
    using cache_times_content [OF source assms(2)]
    by (simp add: byte_source.cached_content_def [OF source])
  then have "byte_source.input_content content i = content r0"
    using byte_source.ReplayReader_content [OF source assms(3)] by simp
  then show ?thesis
    using byte_source.read_times_input [OF source assms(4)] by simp
qed

theorem replay_lossless_witness:
  "let p = \<lparr>p_data = Some [[1, 2], [3]], p_state = pipe_open, p_limit = 0, p_discardOverflow = False\<rparr> in
   \<exists>r i r' bs i'. cache_times 2 pipe_ReadMultiBuffer (Some pipe_ReadMultiBufferTimeout)
       \<lparr>cr_reader = p, cr_cache = []\<rparr> = Some r
     \<and> cached_ReplayReader r = (i, r')
     \<and> read_times 1 (input_ReadMultiBuffer pipe_ReadMultiBuffer) i = (bs, i')
     \<and> [1, 2, 3] = bs @ byte_source.input_content pipe_content i'"
proof -
  let ?p = "\<lparr>p_data = Some [[1, 2], [3]], p_state = pipe_open, p_limit = 0, p_discardOverflow = False\<rparr>"
  obtain r where r: "cache_times 2 pipe_ReadMultiBuffer (Some pipe_ReadMultiBufferTimeout)
      \<lparr>cr_reader = ?p, cr_cache = []\<rparr> = Some r"
    by (simp add: numeral_2_eq_2 cached_Cache_def pipe_ReadMultiBufferTimeout_def
        pipe_readMultiBufferInternal_def pipe_getState_def Let_def)
  obtain i r' where i: "cached_ReplayReader r = (i, r')" by fastforce
  obtain bs i' where bs: "read_times 1 (input_ReadMultiBuffer pipe_ReadMultiBuffer) i = (bs, i')"
    by fastforce
  have "pipe_content ?p = [1, 2, 3]" by (simp add: pipe_content_def pipe_bytes_def)
  with replay_lossless [OF pipe_source.byte_source_axioms r i bs] r i bs show ?thesis by auto
qed

text \<open>
  The payload handed to the sniffers is the first \<open>buf.Size\<close> bytes of everything cached so
  far, which is a prefix of the connection's bytes.
\<close>

theorem sniff_payload_is_prefix:
  assumes source: "byte_source rd rdT content"
    and "cache_times n rd rdT \<lparr>cr_reader = r0, cr_cache = []\<rparr> = Some r"
    and "cached_Cache rd rdT r = Some (payload, r')"
  shows "payload = take (length payload) (content r0)
    \<and> length payload = min buf_Size (length (concat (cr_cache r')))"
proof -
  have c: "byte_source.cached_content content r' = content r0"
    and p: "payload = take buf_Size (concat (cr_cache r'))"
    using cache_times_content [OF source assms(2)] byte_source.Cache_content [OF source assms(3)]
    by (auto simp: byte_source.cached_content_def [OF source])
  from p have "length payload = min buf_Size (length (concat (cr_cache r')))" by simp
  moreover have "payload = take (length payload) (content r0)"
    unfolding c [symmetric] using p
    by (simp add: byte_source.cached_content_def [OF source] min_def)
  ultimately show ?thesis by simp
qed

theorem sniff_payload_is_prefix_witness:
  "let p = \<lparr>p_data = Some [[1, 2], [3]], p_state = pipe_open, p_limit = 0, p_discardOverflow = False\<rparr> in
   \<exists>payload r'. cached_Cache pipe_ReadMultiBuffer (Some pipe_ReadMultiBufferTimeout)
       \<lparr>cr_reader = p, cr_cache = []\<rparr> = Some (payload, r')
     \<and> payload = take (length payload) [1, 2, 3]"
proof -
  let ?p = "\<lparr>p_data = Some [[1, 2], [3]], p_state = pipe_open, p_limit = 0, p_discardOverflow = False\<rparr>"
  have start: "cache_times 0 pipe_ReadMultiBuffer (Some pipe_ReadMultiBufferTimeout)
      \<lparr>cr_reader = ?p, cr_cache = []\<rparr> = Some \<lparr>cr_reader = ?p, cr_cache = []\<rparr>" by simp
  obtain payload r' where c: "cached_Cache pipe_ReadMultiBuffer (Some pipe_ReadMultiBufferTimeout)
      \<lparr>cr_reader = ?p, cr_cache = []\<rparr> = Some (payload, r')"
    by (simp add: cached_Cache_def pipe_ReadMultiBufferTimeout_def
        pipe_readMultiBufferInternal_def pipe_getState_def Let_def)
  have "pipe_content ?p = [1, 2, 3]" by (simp add: pipe_content_def pipe_bytes_def)
  with sniff_payload_is_prefix [OF pipe_source.byte_source_axioms start c] c show ?thesis by auto
qed

end
