(* ===== verification/User_IO.thy ===== *)
theory User_IO
  imports Limiter User_Flow Readers
begin

text \<open>
  The per-connection user state of \<open>app/mydispatcher/default.go\<close>: how a connection gets its
  flow, rate bucket and counters (\<open>getUserIO\<close>), how it spends and returns them, and the
  reader and writer stacks built around a link. The dispatcher's own state is the limiter,
  the audit rules, the statistics and the flow registry; the rules are added in the theory
  of the dispatcher.
\<close>

section \<open>State and session\<close>

record 'c flow_state =
  fs_Limiter :: "'c Limiter"
  fs_stats :: StatsManager
  fs_flows :: userFlowRegistry

record session_user =
  su_Email :: string
  su_Level :: uint32

record session_inbound =
  si_Tag :: string
  si_SourceIP :: string
  si_User :: "session_user option"

record policy_stats =
  ps_UserUplink :: bool
  ps_UserDownlink :: bool

section \<open>Counters of a user\<close>

text \<open>
  \<open>getOrRegisterCounter\<close> re-reads the manager when the registration lost a race. The result
  keeps both the counter and the error, as the callers drop the error.
\<close>

definition getOrRegisterCounter :: "string \<Rightarrow> StatsManager \<Rightarrow> (nat option \<times> go_error option) \<times> StatsManager" where
  "getOrRegisterCounter name m =
     (case GetOrRegisterCounter name m of
        (Inr c, m') \<Rightarrow> ((Some c, None), m')
      | (Inl err, m') \<Rightarrow>
          (case GetCounter name m' of
             Some c \<Rightarrow> ((Some c, None), m')
           | None \<Rightarrow> ((None, Some err), m')))"

section \<open>Opening a flow\<close>

definition getUserIO ::
    "'c cache_iface \<Rightarrow> (uint32 \<Rightarrow> policy_stats) \<Rightarrow> session_inbound option \<Rightarrow> 'c flow_state \<Rightarrow>
     userIO result \<times> 'c flow_state" where
  "getUserIO iface ForLevel sess d =
     (case sess of
        None \<Rightarrow> (Inr new_userIO, d)
      | Some si \<Rightarrow>
      (case si_User si of
        None \<Rightarrow> (Inr new_userIO, d)
      | Some user \<Rightarrow>
        if su_Email user = '''' then (Inr new_userIO, d)
        else
          (case flow_acquire (si_Tag si) (su_Email user) (fs_flows d) of
             (None, flows) \<Rightarrow> (Inl (Error (''user is no longer active: '' @ su_Email user)), d\<lparr>fs_flows := flows\<rparr>)
           | (Some runtime, flows) \<Rightarrow>
               let res = new_userIO\<lparr>uio_runtime := Some runtime\<rparr>;
                   ((bucket, ok, reject), lim) = GetUserBucket iface (fs_Limiter d) (si_Tag si) (su_Email user) (si_SourceIP si);
                   d1 = d\<lparr>fs_flows := flows, fs_Limiter := lim\<rparr>
               in
               if reject then
                 (Inl (Error (''Devices reach the limit: '' @ su_Email user)),
                  d1\<lparr>fs_flows := snd (userIO_Release res (fs_flows d1))\<rparr>)
               else
                 let res1 = res\<lparr>uio_bucket := bucket, uio_speedLimited := ok\<rparr>;
                     p = ForLevel (su_Level user);
                     (res2, d2) =
                       (if ps_UserUplink p then
                          let ((c, _), m) = getOrRegisterCounter (userUplinkCounterName (su_Email user)) (fs_stats d1)
                          in (res1\<lparr>uio_uplinkCounter := c\<rparr>, d1\<lparr>fs_stats := m\<rparr>)
                        else (res1, d1));
                     (res3, d3) =
                       (if ps_UserDownlink p then
                          let ((c, _), m) = getOrRegisterCounter (userDownlinkCounterName (su_Email user)) (fs_stats d2)
                          in (res2\<lparr>uio_downlinkCounter := c\<rparr>, d2\<lparr>fs_stats := m\<rparr>)
                        else (res2, d2))
                 in (Inr res3, d3))))"

section \<open>Spending tokens without blocking\<close>

text \<open>
  \<open>Acquire\<close> of the direct path: reservations of at most the burst; the answer is the longest
  delay. \<open>reserveN\<close> is the bucket's \<open>ReserveN\<close>, \<open>None\<close> when the reservation is refused.
\<close>

partial_function (option) reserve_loop ::
    "('l \<Rightarrow> int \<Rightarrow> int option \<times> 'l) \<Rightarrow> int \<Rightarrow> int \<Rightarrow> int \<Rightarrow> 'l \<Rightarrow> ((int \<times> bool) \<times> 'l) option" where
  "reserve_loop reserveN burst bytes ready l =
     (if 0 < bytes then
        (let chunk = (if burst < bytes then burst else bytes) in
         case reserveN l chunk of
           (None, l') \<Rightarrow> Some ((0, False), l')
         | (Some delay, l') \<Rightarrow>
             reserve_loop reserveN burst (bytes - chunk) (if ready < delay then delay else ready) l')
      else Some ((ready, True), l))"

definition userIO_Acquire ::
    "('l \<Rightarrow> int \<Rightarrow> int option \<times> 'l) \<Rightarrow> ('l \<Rightarrow> int) \<Rightarrow> userIO \<Rightarrow> int \<Rightarrow> 'l \<Rightarrow> ((int \<times> bool) \<times> 'l) option" where
  "userIO_Acquire reserveN burst_of u bytes l =
     (if bytes \<le> 0 \<or> \<not> uio_speedLimited u \<or> uio_bucket u = None then Some ((0, True), l)
      else let burst = burst_of l in
        if burst \<le> 0 then Some ((0, False), l) else reserve_loop reserveN burst bytes 0 l)"

definition userIO_OwnerEligible :: "('l \<Rightarrow> int) \<Rightarrow> userIO \<Rightarrow> 'l \<Rightarrow> bool" where
  "userIO_OwnerEligible burst_of u l =
     (if \<not> uio_speedLimited u \<or> uio_bucket u = None then True else 64 * 1024 \<le> burst_of l)"

section \<open>Reader and writer stacks\<close>

datatype 'w writer_stack =
    BaseWriter 'w
  | RateWriter "nat option" "'w writer_stack"
  | SizeStatWriter nat "'w writer_stack"

datatype 'r reader_stack =
    BaseReader 'r
  | RateReader "nat option" "'r reader_stack"
  | SizeStatReader nat "'r reader_stack"

definition wrapUserWriter :: "'w writer_stack \<Rightarrow> nat option \<Rightarrow> bool \<Rightarrow> nat option \<Rightarrow> 'w writer_stack" where
  "wrapUserWriter w bucket speedLimited counter =
     (let w1 = (if speedLimited then RateWriter bucket w else w) in
      case counter of None \<Rightarrow> w1 | Some c \<Rightarrow> SizeStatWriter c w1)"

definition wrapUserReader :: "'r reader_stack \<Rightarrow> nat option \<Rightarrow> bool \<Rightarrow> nat option \<Rightarrow> 'r reader_stack" where
  "wrapUserReader r bucket speedLimited counter =
     (let r1 = (case counter of None \<Rightarrow> r | Some c \<Rightarrow> SizeStatReader c r) in
      if speedLimited then RateReader bucket r1 else r1)"

text \<open>
  A write through a stack, from the outside in. \<open>waitN\<close> and \<open>burst_of\<close> work on the limiter
  objects, addressed by the bucket; a nil bucket would crash, which the stack never has
  (see the facts below), and is modelled as a call that does not return.
\<close>

fun stack_write ::
    "('l \<Rightarrow> int \<Rightarrow> go_error option \<times> 'l) \<Rightarrow> ('l \<Rightarrow> int) \<Rightarrow> ('w \<Rightarrow> MultiBuffer \<Rightarrow> go_error option \<times> 'w) \<Rightarrow>
     'w writer_stack \<Rightarrow> MultiBuffer \<Rightarrow> StatsManager \<times> (nat \<Rightarrow> 'l) \<Rightarrow>
     (go_error option \<times> (StatsManager \<times> (nat \<Rightarrow> 'l)) \<times> 'w writer_stack) option" where
  "stack_write waitN burst_of wr (BaseWriter w) mb s =
     (let (err, w') = wr w mb in Some (err, s, BaseWriter w'))"
| "stack_write waitN burst_of wr (SizeStatWriter c ws) mb (m, lims) =
     (case stack_write waitN burst_of wr ws mb (snd (counter_Add c (word_of_int (mb_Len mb)) m), lims) of
        None \<Rightarrow> None
      | Some (err, s', ws') \<Rightarrow> Some (err, s', SizeStatWriter c ws'))"
| "stack_write waitN burst_of wr (RateWriter None ws) mb s = None"
| "stack_write waitN burst_of wr (RateWriter (Some b) ws) mb (m, lims) =
     (case waitRateLimit waitN burst_of (lims b) (mb_Len mb) of
        None \<Rightarrow> None
      | Some (Some err, l') \<Rightarrow> Some (Some err, (m, lims(b := l')), RateWriter (Some b) ws)
      | Some (None, l') \<Rightarrow>
          (case stack_write waitN burst_of wr ws mb (m, lims(b := l')) of
             None \<Rightarrow> None
           | Some (err, s', ws') \<Rightarrow> Some (err, s', RateWriter (Some b) ws')))"

fun base_writer :: "'w writer_stack \<Rightarrow> 'w" where
  "base_writer (BaseWriter w) = w"
| "base_writer (RateWriter b ws) = base_writer ws"
| "base_writer (SizeStatWriter c ws) = base_writer ws"

section \<open>What opening a flow does\<close>

lemma getOrRegisterCounter_spec:
  assumes "stats_inv m" and "getOrRegisterCounter name m = ((oc, err), m')"
  shows "err = None \<and> oc = GetCounter name m' \<and> oc \<noteq> None \<and> stats_inv m'
     \<and> (\<forall>n c. GetCounter n m = Some c \<longrightarrow> GetCounter n m' = Some c)"
proof -
  obtain res m1 where g: "GetOrRegisterCounter name m = (res, m1)" by fastforce
  obtain c where c: "res = Inr c" "GetCounter name m1 = Some c"
    "\<forall>n. n \<noteq> name \<longrightarrow> GetCounter n m1 = GetCounter n m"
    using GetOrRegisterCounter_spec [OF assms(1) g] by (elim exE conjE) (rule that)
  have "m' = m1" "oc = Some c" "err = None"
    using assms(2) g c(1) by (simp_all add: getOrRegisterCounter_def)
  moreover have "GetCounter name m1 = Some x" if "GetCounter name m = Some x" for x
    using g that by (simp add: GetOrRegisterCounter_def)
  moreover have "stats_inv m1"
    using stats_inv_GetOrRegister [OF assms(1), of name] g by simp
  ultimately have "GetCounter n m' = Some x" if "GetCounter n m = Some x" for n x
    using that c(3) by (cases "n = name") auto
  with \<open>m' = m1\<close> \<open>oc = Some c\<close> \<open>err = None\<close> \<open>stats_inv m1\<close> c(2) show ?thesis by simp
qed

text \<open>What two registries with the same admissions share.\<close>

definition same_admissions :: "userFlowRegistry \<Rightarrow> userFlowRegistry \<Rightarrow> bool" where
  "same_admissions r r' \<longleftrightarrow> (\<forall>t e. runtime_of r' t e = runtime_of r t e \<and> is_current r' t e = is_current r t e)
     \<and> (\<forall>t. managed r' t = managed r t) \<and> fr_next r \<le> fr_next r'"

lemma flow_acquire_same: "flow_inv r \<Longrightarrow> flow_acquire tag e r = (oa, r') \<Longrightarrow> same_admissions r r'"
  by (simp add: same_admissions_def flow_acquire_spec(7-10))

definition keeps_counters :: "StatsManager \<Rightarrow> StatsManager \<Rightarrow> bool" where
  "keeps_counters m m' \<longleftrightarrow> (\<forall>n c. GetCounter n m = Some c \<longrightarrow> GetCounter n m' = Some c)"

lemma keeps_counters_refl [simp]: "keeps_counters m m"
  by (simp add: keeps_counters_def)

lemma keeps_counters_trans: "keeps_counters m m1 \<Longrightarrow> keeps_counters m1 m2 \<Longrightarrow> keeps_counters m m2"
  by (simp add: keeps_counters_def)

lemma getOrRegisterCounter_keeps:
  "stats_inv m \<Longrightarrow> getOrRegisterCounter name m = ((oc, err), m') \<Longrightarrow> keeps_counters m m' \<and> stats_inv m'
     \<and> (\<forall>c. oc = Some c \<longrightarrow> GetCounter name m' = Some c)"
  using getOrRegisterCounter_spec [of m name oc err m'] by (auto simp: keeps_counters_def)

text \<open>
  The four ways \<open>getUserIO\<close> ends: no user to account for, admission refused, device limit
  reached (the acquired runtime is given back), and success.
\<close>

lemma getUserIO_cases:
  assumes "flow_inv (fs_flows d)" and "stats_inv (fs_stats d)"
    and "getUserIO iface ForLevel sess d = (res, d')"
  obtains (anonymous) "res = Inr new_userIO" "d' = d"
  | (failed) err where "res = Inl err" "fs_stats d' = fs_stats d" "flow_inv (fs_flows d')"
      "fr_active (fs_flows d') = fr_active (fs_flows d)" "same_admissions (fs_flows d) (fs_flows d')"
  | (opened) u si user a where "res = Inr u" "sess = Some si" "si_User si = Some user"
      "flow_acquire (si_Tag si) (su_Email user) (fs_flows d) = (Some a, fs_flows d')"
      "uio_runtime u = Some a" "\<not> uio_released u" "stats_inv (fs_stats d')"
      "keeps_counters (fs_stats d) (fs_stats d')"
      "\<And>c. uio_uplinkCounter u = Some c \<Longrightarrow> GetCounter (userUplinkCounterName (su_Email user)) (fs_stats d') = Some c"
      "\<And>c. uio_downlinkCounter u = Some c \<Longrightarrow> GetCounter (userDownlinkCounterName (su_Email user)) (fs_stats d') = Some c"
proof (cases "\<exists>si user. sess = Some si \<and> si_User si = Some user \<and> su_Email user \<noteq> ''''")
  case False
  then have "getUserIO iface ForLevel sess d = (Inr new_userIO, d)"
    by (auto simp: getUserIO_def split: option.splits)
  with assms(3) anonymous show ?thesis by simp
next
  case True
  then obtain si user where su: "sess = Some si" "si_User si = Some user" "su_Email user \<noteq> ''''" by blast
  obtain oa r1 where acq: "flow_acquire (si_Tag si) (su_Email user) (fs_flows d) = (oa, r1)" by fastforce
  note acquire = flow_acquire_spec [OF assms(1) acq]
  show ?thesis
  proof (cases oa)
    case None
    then have "r1 = fs_flows d" using acquire(3) by simp
    with None su acq assms(3) have "res = Inl (Error (''user is no longer active: '' @ su_Email user))" "d' = d"
      by (auto simp: getUserIO_def)
    with failed assms(1,2) show ?thesis by (auto simp: same_admissions_def)
  next
    case (Some a)
    obtain bucket ok reject lim where b:
      "GetUserBucket iface (fs_Limiter d) (si_Tag si) (su_Email user) (si_SourceIP si) = ((bucket, ok, reject), lim)"
      by (metis surj_pair)
    show ?thesis
    proof (cases reject)
      case True
      have "0 < fr_active r1 a" using acquire(4) [OF Some] flow_invD(4) [OF assms(1), of a] by simp
      then have "fr_active (runtime_release a r1) = fr_active (fs_flows d)"
        using acquire(4) [OF Some] by (auto simp: runtime_release_def fun_eq_iff)
      moreover have "same_admissions (fs_flows d) (runtime_release a r1)"
        using flow_acquire_same [OF assms(1) acq] by (simp add: same_admissions_def)
      moreover have "flow_inv (runtime_release a r1)"
        using acquire(1) by (rule flow_inv_runtime_release)
      moreover have "res = Inl (Error (''Devices reach the limit: '' @ su_Email user))"
        "fs_flows d' = runtime_release a r1" "fs_stats d' = fs_stats d"
        using assms(3) su acq Some b True by (auto simp: getUserIO_def userIO_Release_def new_userIO_def)
      ultimately show ?thesis using failed by metis
    next
      case False
      let ?p = "ForLevel (su_Level user)"
      obtain c1 e1 m1 where u1: "getOrRegisterCounter (userUplinkCounterName (su_Email user)) (fs_stats d) = ((c1, e1), m1)"
        by (metis surj_pair)
      define m1' where "m1' = (if ps_UserUplink ?p then m1 else fs_stats d)"
      obtain c2 e2 m2 where u2: "getOrRegisterCounter (userDownlinkCounterName (su_Email user)) m1' = ((c2, e2), m2)"
        by (metis surj_pair)
      define m2' where "m2' = (if ps_UserDownlink ?p then m2 else m1')"
      define u where "u = new_userIO\<lparr>uio_runtime := Some a, uio_bucket := bucket, uio_speedLimited := ok,
         uio_uplinkCounter := (if ps_UserUplink ?p then c1 else None),
         uio_downlinkCounter := (if ps_UserDownlink ?p then c2 else None)\<rparr>"
      have res: "res = Inr u" "fs_stats d' = m2'" "fs_flows d' = r1"
        using assms(3) su acq Some b False u1 u2
        by (auto simp: getUserIO_def m1'_def m2'_def u_def new_userIO_def Let_def split: if_splits prod.splits)
      have k1: "keeps_counters (fs_stats d) m1'" "stats_inv m1'"
        and c1: "ps_UserUplink ?p \<Longrightarrow> c1 = Some c \<Longrightarrow> GetCounter (userUplinkCounterName (su_Email user)) m1' = Some c" for c
        using getOrRegisterCounter_keeps [OF assms(2) u1] assms(2) by (auto simp: m1'_def)
      have k2: "keeps_counters m1' m2'" "stats_inv m2'"
        and c2: "ps_UserDownlink ?p \<Longrightarrow> c2 = Some c \<Longrightarrow> GetCounter (userDownlinkCounterName (su_Email user)) m2' = Some c" for c
        using getOrRegisterCounter_keeps [OF k1(2) u2] k1(2) by (auto simp: m2'_def)
      show ?thesis
      proof (rule opened [OF res(1) su(1,2)])
        show "flow_acquire (si_Tag si) (su_Email user) (fs_flows d) = (Some a, fs_flows d')"
          using acq Some res by simp
        show "uio_runtime u = Some a" "\<not> uio_released u" by (simp_all add: u_def new_userIO_def)
        show "stats_inv (fs_stats d')" using k2 res by simp
        show "keeps_counters (fs_stats d) (fs_stats d')"
          using keeps_counters_trans [OF k1(1) k2(1)] res by simp
        show "GetCounter (userUplinkCounterName (su_Email user)) (fs_stats d') = Some c"
          if "uio_uplinkCounter u = Some c" for c
          using that c1 [of c] k2(1) res by (auto simp: u_def new_userIO_def keeps_counters_def split: if_splits)
        show "GetCounter (userDownlinkCounterName (su_Email user)) (fs_stats d') = Some c"
          if "uio_downlinkCounter u = Some c" for c
          using that c2 [of c] res by (auto simp: u_def new_userIO_def split: if_splits)
      qed
    qed
  qed
qed

section \<open>The flow system\<close>

text \<open>
  All the goroutines that touch flows, as one step relation: the controller publishes and
  retires users and finalises retired ones, connections open, count and end, and the traffic
  report drains counters. Each step is one operation of the code; they interleave freely.
  A connection remembers whether its inbound was managed when it was opened. The parameter
  \<open>owner\<close> gives the inbound tag a user key belongs to; every step uses a key with its own tag.
\<close>

record conn =
  cn_tag :: string
  cn_email :: string
  cn_io :: userIO
  cn_managed :: bool

record 'c world =
  wd_state :: "'c flow_state"
  wd_conns :: "conn list"

inductive flow_step ::
    "(string \<Rightarrow> string) \<Rightarrow> 'c cache_iface \<Rightarrow> (uint32 \<Rightarrow> policy_stats) \<Rightarrow> 'c world \<Rightarrow> 'c world \<Rightarrow> bool"
  for owner iface ForLevel where
  step_register: "\<forall>e \<in> set emails. owner e = tag \<Longrightarrow>
    flow_step owner iface ForLevel w
      (w\<lparr>wd_state := (wd_state w)\<lparr>fs_flows := flow_register tag emails (fs_flows (wd_state w))\<rparr>\<rparr>)"
| step_retire: "\<forall>e \<in> set emails. owner e = tag \<Longrightarrow>
    flow_step owner iface ForLevel w
      (w\<lparr>wd_state := (wd_state w)\<lparr>fs_flows := flow_retire tag emails (fs_flows (wd_state w))\<rparr>\<rparr>)"
| step_finalize: "owner email = tag \<Longrightarrow>
    FinalizeRetiredUser tag email (fs_flows (wd_state w), fs_stats (wd_state w)) = (ok, r', m') \<Longrightarrow>
    flow_step owner iface ForLevel w (w\<lparr>wd_state := (wd_state w)\<lparr>fs_flows := r', fs_stats := m'\<rparr>\<rparr>)"
| step_open: "getUserIO iface ForLevel sess (wd_state w) = (Inr u, d') \<Longrightarrow>
    sess = Some si \<Longrightarrow> si_User si = Some user \<Longrightarrow> su_Email user \<noteq> '''' \<Longrightarrow> owner (su_Email user) = si_Tag si \<Longrightarrow>
    flow_step owner iface ForLevel w
      (w\<lparr>wd_state := d', wd_conns := \<lparr>cn_tag = si_Tag si, cn_email = su_Email user, cn_io = u,
          cn_managed = managed (fs_flows (wd_state w)) (si_Tag si)\<rparr> # wd_conns w\<rparr>)"
| step_rejected: "getUserIO iface ForLevel sess (wd_state w) = (Inl err, d') \<Longrightarrow>
    flow_step owner iface ForLevel w (w\<lparr>wd_state := d'\<rparr>)"
| step_count: "i < length (wd_conns w) \<Longrightarrow> u = cn_io (wd_conns w ! i) \<Longrightarrow>
    flow_step owner iface ForLevel w
      (w\<lparr>wd_state := (wd_state w)\<lparr>fs_stats := userIO_AddDownlink u dn (userIO_AddUplink u up (fs_stats (wd_state w)))\<rparr>\<rparr>)"
| step_close: "i < length (wd_conns w) \<Longrightarrow>
    userIO_Release (cn_io (wd_conns w ! i)) (fs_flows (wd_state w)) = (u', r') \<Longrightarrow>
    flow_step owner iface ForLevel w
      (w\<lparr>wd_state := (wd_state w)\<lparr>fs_flows := r'\<rparr>, wd_conns := take i (wd_conns w) @ drop (Suc i) (wd_conns w)\<rparr>)"
| step_drain: "flow_step owner iface ForLevel w
      (w\<lparr>wd_state := (wd_state w)\<lparr>fs_stats := (fs_stats (wd_state w))\<lparr>ctr_value := h\<rparr>\<rparr>\<rparr>)"
| step_limiter: "flow_step owner iface ForLevel w (w\<lparr>wd_state := (wd_state w)\<lparr>fs_Limiter := l\<rparr>\<rparr>)"

definition initial_world :: "'c world" where
  "initial_world = \<lparr>wd_state = \<lparr>fs_Limiter = limiter_New, fs_stats = NewManager, fs_flows = empty_registry\<rparr>,
     wd_conns = []\<rparr>"

inductive flow_reach ::
    "(string \<Rightarrow> string) \<Rightarrow> 'c cache_iface \<Rightarrow> (uint32 \<Rightarrow> policy_stats) \<Rightarrow> 'c world \<Rightarrow> bool"
  for owner iface ForLevel where
  reach_initial: "flow_reach owner iface ForLevel initial_world"
| reach_step: "flow_reach owner iface ForLevel w \<Longrightarrow> flow_step owner iface ForLevel w w' \<Longrightarrow>
    flow_reach owner iface ForLevel w'"

inductive_cases flow_stepE: "flow_step owner iface ForLevel w w'"

subsection \<open>Invariant\<close>

text \<open>
  The connections that hold a runtime object are what its count says; a managed connection
  holds its user's object, and its counters are the ones registered under its names.
\<close>

definition holders :: "conn list \<Rightarrow> nat \<Rightarrow> nat" where
  "holders cs a = length (filter (\<lambda>c. uio_runtime (cn_io c) = Some a) cs)"

definition conn_ok :: "(string \<Rightarrow> string) \<Rightarrow> userFlowRegistry \<Rightarrow> StatsManager \<Rightarrow> conn \<Rightarrow> bool" where
  "conn_ok owner r m c \<longleftrightarrow>
     (\<exists>a. uio_runtime (cn_io c) = Some a \<and> a < fr_next r \<and> \<not> uio_released (cn_io c) \<and>
       owner (cn_email c) = cn_tag c \<and>
       (cn_managed c \<longrightarrow> runtime_of r (cn_tag c) (cn_email c) = Some a
          \<and> (\<forall>k. uio_uplinkCounter (cn_io c) = Some k \<longrightarrow> GetCounter (userUplinkCounterName (cn_email c)) m = Some k)
          \<and> (\<forall>k. uio_downlinkCounter (cn_io c) = Some k \<longrightarrow> GetCounter (userDownlinkCounterName (cn_email c)) m = Some k)))"

definition world_inv :: "(string \<Rightarrow> string) \<Rightarrow> 'c world \<Rightarrow> bool" where
  "world_inv owner w \<longleftrightarrow>
     flow_inv (fs_flows (wd_state w)) \<and> stats_inv (fs_stats (wd_state w))
     \<and> (\<forall>t e. runtime_of (fs_flows (wd_state w)) t e \<noteq> None \<longrightarrow> owner e = t)
     \<and> (\<forall>a. fr_active (fs_flows (wd_state w)) a = int (holders (wd_conns w) a))
     \<and> (\<forall>c \<in> set (wd_conns w). conn_ok owner (fs_flows (wd_state w)) (fs_stats (wd_state w)) c)"

lemma world_invD:
  assumes "world_inv owner w"
  shows "flow_inv (fs_flows (wd_state w))" and "stats_inv (fs_stats (wd_state w))"
    and "runtime_of (fs_flows (wd_state w)) t e = Some a \<Longrightarrow> owner e = t"
    and "fr_active (fs_flows (wd_state w)) b = int (holders (wd_conns w) b)"
    and "c \<in> set (wd_conns w) \<Longrightarrow> conn_ok owner (fs_flows (wd_state w)) (fs_stats (wd_state w)) c"
  using assms unfolding world_inv_def by (simp_all add: option.discI)

lemma world_invI:
  assumes "flow_inv (fs_flows (wd_state w))" and "stats_inv (fs_stats (wd_state w))"
    and "\<And>t e a. runtime_of (fs_flows (wd_state w)) t e = Some a \<Longrightarrow> owner e = t"
    and "\<And>b. fr_active (fs_flows (wd_state w)) b = int (holders (wd_conns w) b)"
    and "\<And>c. c \<in> set (wd_conns w) \<Longrightarrow> conn_ok owner (fs_flows (wd_state w)) (fs_stats (wd_state w)) c"
  shows "world_inv owner w"
  using assms unfolding world_inv_def by blast

lemma conn_ok_mono:
  assumes "conn_ok owner r m c" and "fr_next r \<le> fr_next r'"
    and "\<And>a. runtime_of r (cn_tag c) (cn_email c) = Some a \<Longrightarrow> runtime_of r' (cn_tag c) (cn_email c) = Some a"
    and "keeps_counters m m'"
  shows "conn_ok owner r' m' c"
  using assms unfolding conn_ok_def keeps_counters_def by (meson less_le_trans)

lemma holders_Cons [simp]:
  "holders (c # cs) a = (if uio_runtime (cn_io c) = Some a then Suc (holders cs a) else holders cs a)"
  by (simp add: holders_def)

lemma holders_remove:
  assumes "i < length cs"
  shows "holders cs a = (if uio_runtime (cn_io (cs ! i)) = Some a then 1 else 0)
           + holders (take i cs @ drop (Suc i) cs) a"
proof -
  have "cs = take i cs @ cs ! i # drop (Suc i) cs" using assms by (rule id_take_nth_drop)
  then have "holders cs a = holders (take i cs @ cs ! i # drop (Suc i) cs) a" by simp
  then show ?thesis by (simp add: holders_def)
qed

lemma userUplinkCounterName_inj [simp]: "userUplinkCounterName e = userUplinkCounterName e' \<longleftrightarrow> e = e'"
  by (auto simp: userUplinkCounterName_def)

lemma userDownlinkCounterName_inj [simp]: "userDownlinkCounterName e = userDownlinkCounterName e' \<longleftrightarrow> e = e'"
  by (auto simp: userDownlinkCounterName_def)

lemma uplink_not_downlink [simp]: "userUplinkCounterName e \<noteq> userDownlinkCounterName e'"
proof
  assume "userUplinkCounterName e = userDownlinkCounterName e'"
  then have "take 8 (rev (userUplinkCounterName e)) = take 8 (rev (userDownlinkCounterName e'))" by simp
  then show False by (simp add: userUplinkCounterName_def userDownlinkCounterName_def)
qed

lemmas downlink_not_uplink [simp] = uplink_not_downlink [symmetric]

subsection \<open>Every step keeps it\<close>

lemma world_inv_initial: "world_inv owner initial_world"
  by (simp add: world_inv_def initial_world_def wf_intros holders_def)
    (simp add: empty_registry_def runtime_of_def)

lemma world_inv_open:
  assumes inv: "world_inv owner w"
    and g: "getUserIO iface ForLevel sess (wd_state w) = (Inr u, d')"
    and s: "sess = Some si" "si_User si = Some user" "su_Email user \<noteq> ''''" "owner (su_Email user) = si_Tag si"
  shows "world_inv owner (w\<lparr>wd_state := d', wd_conns := \<lparr>cn_tag = si_Tag si, cn_email = su_Email user, cn_io = u,
          cn_managed = managed (fs_flows (wd_state w)) (si_Tag si)\<rparr> # wd_conns w\<rparr>)"
proof -
  let ?r = "fs_flows (wd_state w)" and ?m = "fs_stats (wd_state w)"
  have fi: "flow_inv ?r" and si: "stats_inv ?m" using inv by (simp_all add: world_inv_def)
  obtain oa r1 where acq0: "flow_acquire (si_Tag si) (su_Email user) ?r = (oa, r1)" by fastforce
  show ?thesis
  proof (rule getUserIO_cases [OF fi si g], goal_cases)
    case 1
    then show ?case
      using g s acq0 flow_acquire_spec [OF fi acq0]
      by (auto simp: getUserIO_def new_userIO_def Let_def split: option.splits prod.splits if_splits)
  next
    case 2
    then show ?case by simp
  next
    case (3 u' si' user' a)
    have eq: "u' = u" "si' = si" "user' = user" using 3 s by auto
    note sp = flow_acquire_spec [OF fi 3(4) [unfolded eq]]
    let ?c = "\<lparr>cn_tag = si_Tag si, cn_email = su_Email user, cn_io = u, cn_managed = managed ?r (si_Tag si)\<rparr>"
    have old: "conn_ok owner (fs_flows d') (fs_stats d') c" if "c \<in> set (wd_conns w)" for c
      using world_invD(5) [OF inv that] sp(10) by (rule conn_ok_mono) (simp_all add: sp(7) 3(8))
    have new: "conn_ok owner (fs_flows d') (fs_stats d') ?c"
      unfolding conn_ok_def
      using 3(5,6,9,10) sp(5) [of a] sp(7) sp(11) [of a] s(4) by (simp add: eq)
    show ?case
    proof (rule world_invI)
      show "flow_inv (fs_flows (wd_state (w\<lparr>wd_state := d', wd_conns := ?c # wd_conns w\<rparr>)))"
        using sp(1) by simp
      show "stats_inv (fs_stats (wd_state (w\<lparr>wd_state := d', wd_conns := ?c # wd_conns w\<rparr>)))"
        using 3(7) by simp
      show "owner e = t" if "runtime_of (fs_flows (wd_state (w\<lparr>wd_state := d', wd_conns := ?c # wd_conns w\<rparr>))) t e = Some x" for t e x
        using that sp(7) world_invD(3) [OF inv] by simp
      show "fr_active (fs_flows (wd_state (w\<lparr>wd_state := d', wd_conns := ?c # wd_conns w\<rparr>))) b =
          int (holders (wd_conns (w\<lparr>wd_state := d', wd_conns := ?c # wd_conns w\<rparr>)) b)" for b
        using sp(4) [of a] world_invD(4) [OF inv] 3(5) by (simp add: eq)
      show "conn_ok owner (fs_flows (wd_state (w\<lparr>wd_state := d', wd_conns := ?c # wd_conns w\<rparr>)))
          (fs_stats (wd_state (w\<lparr>wd_state := d', wd_conns := ?c # wd_conns w\<rparr>))) c"
        if "c \<in> set (wd_conns (w\<lparr>wd_state := d', wd_conns := ?c # wd_conns w\<rparr>))" for c
        using that old new by auto
    qed
  qed
qed

lemma world_inv_rejected:
  assumes inv: "world_inv owner w" and g: "getUserIO iface ForLevel sess (wd_state w) = (Inl err, d')"
  shows "world_inv owner (w\<lparr>wd_state := d'\<rparr>)"
proof -
  let ?r = "fs_flows (wd_state w)" and ?m = "fs_stats (wd_state w)"
  have fi: "flow_inv ?r" and si: "stats_inv ?m" using inv by (simp_all add: world_inv_def)
  show ?thesis
  proof (rule getUserIO_cases [OF fi si g], goal_cases)
    case 1
    then show ?case by simp
  next
    case (2 e)
    have adm: "runtime_of (fs_flows d') t e = runtime_of ?r t e" "fr_next ?r \<le> fr_next (fs_flows d')" for t e
      using 2(5) by (simp_all add: same_admissions_def)
    have "conn_ok owner (fs_flows d') (fs_stats d') c" if "c \<in> set (wd_conns w)" for c
      using world_invD(5) [OF inv that] adm(2) by (rule conn_ok_mono) (simp_all add: adm 2(2))
    then show ?case
      using 2(2-4) adm(1) world_invD(2-4) [OF inv] by (intro world_invI) simp_all
  next
    case 3
    then show ?case by simp
  qed
qed

lemma world_inv_finalize:
  assumes inv: "world_inv owner w" and "owner email = tag"
    and f: "FinalizeRetiredUser tag email (fs_flows (wd_state w), fs_stats (wd_state w)) = (ok, r', m')"
  shows "world_inv owner (w\<lparr>wd_state := (wd_state w)\<lparr>fs_flows := r', fs_stats := m'\<rparr>\<rparr>)"
proof (cases ok)
  case False
  with FinalizeRetiredUser_cases(2) [OF f] inv show ?thesis by simp
next
  case True
  let ?r = "fs_flows (wd_state w)" and ?m = "fs_stats (wd_state w)"
  note v = finalize_views [OF f [unfolded True [THEN eqTrueI]]]
  obtain a where a: "runtime_of ?r tag email = Some a" "fr_active ?r a = 0"
    using FinalizeRetiredUser_cases(1) [OF f] True by (auto simp: can_finalize_def)
  have none: "uio_runtime (cn_io c) \<noteq> Some a" if "c \<in> set (wd_conns w)" for c
  proof -
    have "holders (wd_conns w) a = 0" using world_invD(4) [OF inv, of a] a(2) by simp
    with that show ?thesis by (auto simp: holders_def filter_empty_conv)
  qed
  have live: "conn_ok owner r' m' c" if c: "c \<in> set (wd_conns w)" for c
  proof -
    note ok = world_invD(5) [OF inv c]
    have "cn_email c \<noteq> email" if "cn_managed c"
    proof
      assume "cn_email c = email"
      with ok that a(1) \<open>owner email = tag\<close> have "uio_runtime (cn_io c) = Some a"
        by (auto simp: conn_ok_def)
      with none [OF c] show False by simp
    qed
    with ok show ?thesis by (auto simp: conn_ok_def v)
  qed
  show ?thesis
  proof (rule world_invI)
    show "flow_inv (fs_flows (wd_state (w\<lparr>wd_state := (wd_state w)\<lparr>fs_flows := r', fs_stats := m'\<rparr>\<rparr>)))"
      and "stats_inv (fs_stats (wd_state (w\<lparr>wd_state := (wd_state w)\<lparr>fs_flows := r', fs_stats := m'\<rparr>\<rparr>)))"
      using FinalizeRetiredUser_inv [OF world_invD(1) [OF inv] world_invD(2) [OF inv] f] by simp_all
  qed (use live world_invD(3,4) [OF inv] in \<open>auto simp: v split: if_splits\<close>)
qed

lemma world_inv_close:
  assumes inv: "world_inv owner w" and i: "i < length (wd_conns w)"
    and rel: "userIO_Release (cn_io (wd_conns w ! i)) (fs_flows (wd_state w)) = (u', r')"
  shows "world_inv owner (w\<lparr>wd_state := (wd_state w)\<lparr>fs_flows := r'\<rparr>,
           wd_conns := take i (wd_conns w) @ drop (Suc i) (wd_conns w)\<rparr>)"
proof -
  let ?r = "fs_flows (wd_state w)" and ?cs = "take i (wd_conns w) @ drop (Suc i) (wd_conns w)"
  have "wd_conns w ! i \<in> set (wd_conns w)" using i by simp
  from world_invD(5) [OF inv this] obtain a where
    a: "uio_runtime (cn_io (wd_conns w ! i)) = Some a" "\<not> uio_released (cn_io (wd_conns w ! i))"
    by (auto simp: conn_ok_def)
  have r': "r' = runtime_release a ?r" using rel a by (auto simp: userIO_Release_def)
  have "fr_active r' b = int (holders ?cs b)" for b
    using holders_remove [OF i, of b] holders_remove [OF i, of a] world_invD(4) [OF inv] a(1)
    by (auto simp: r' runtime_release_def)
  moreover have "conn_ok owner r' (fs_stats (wd_state w)) c" if "c \<in> set ?cs" for c
  proof -
    have "c \<in> set (wd_conns w)" using that by (auto dest: in_set_takeD in_set_dropD)
    from world_invD(5) [OF inv this] show ?thesis by (rule conn_ok_mono) (simp_all add: r')
  qed
  ultimately show ?thesis
    using world_invD(1-3) [OF inv] flow_inv_runtime_release [of ?r a]
    by (intro world_invI) (simp_all add: r')
qed

lemma userIO_Add_keeps:
  "GetCounter n (userIO_AddUplink u v m) = GetCounter n m"
  "GetCounter n (userIO_AddDownlink u v m) = GetCounter n m"
  "stats_inv m \<Longrightarrow> stats_inv (userIO_AddUplink u v m)"
  "stats_inv m \<Longrightarrow> stats_inv (userIO_AddDownlink u v m)"
  by (simp_all add: userIO_AddUplink_def userIO_AddDownlink_def stats_inv_Add split: option.split)

lemma world_inv_stats:
  assumes inv: "world_inv owner w" and "stats_inv m'" and "keeps_counters (fs_stats (wd_state w)) m'"
  shows "world_inv owner (w\<lparr>wd_state := (wd_state w)\<lparr>fs_stats := m'\<rparr>\<rparr>)"
proof -
  have "conn_ok owner (fs_flows (wd_state w)) m' c" if "c \<in> set (wd_conns w)" for c
    using world_invD(5) [OF inv that] order_refl by (rule conn_ok_mono) (simp_all add: assms)
  with assms(2) world_invD(1,3,4) [OF inv] show ?thesis by (intro world_invI) simp_all
qed

lemma world_inv_registry:
  assumes inv: "world_inv owner w" and "flow_inv r'" and "fr_active r' = fr_active (fs_flows (wd_state w))"
    and "fr_next (fs_flows (wd_state w)) \<le> fr_next r'"
    and "\<And>t e a. runtime_of (fs_flows (wd_state w)) t e = Some a \<Longrightarrow> runtime_of r' t e = Some a"
    and "\<And>t e. runtime_of r' t e \<noteq> None \<Longrightarrow> owner e = t"
  shows "world_inv owner (w\<lparr>wd_state := (wd_state w)\<lparr>fs_flows := r'\<rparr>\<rparr>)"
proof -
  have "conn_ok owner r' (fs_stats (wd_state w)) c" if "c \<in> set (wd_conns w)" for c
    using world_invD(5) [OF inv that] assms(4) by (rule conn_ok_mono) (simp_all add: assms(5))
  with assms(2,3,6) world_invD(2,4) [OF inv] show ?thesis by (intro world_invI) auto
qed

lemma ensure_runtime_dom:
  "ensure_runtime email n r = (n', r') \<Longrightarrow> load (mn_runtime n') e \<noteq> None \<Longrightarrow> load (mn_runtime n) e \<noteq> None \<or> e = email"
  by (auto simp: ensure_runtime_def split: option.splits prod.splits if_splits)

lemma register_loop_dom:
  "register_loop emails n r = (n', r') \<Longrightarrow> load (mn_runtime n') e \<noteq> None \<Longrightarrow>
   load (mn_runtime n) e \<noteq> None \<or> e \<in> set emails"
proof (induction emails arbitrary: n r)
  case (Cons email emails)
  obtain n1 r1 where e: "ensure_runtime email (n\<lparr>mn_current := store email () (mn_current n)\<rparr>) r = (n1, r1)"
    by fastforce
  with Cons.prems have "register_loop emails n1 r1 = (n', r')" by simp
  from Cons.IH [OF this Cons.prems(2)] ensure_runtime_dom [OF e, of e] show ?case by auto
qed simp

lemma retire_loop_dom:
  "retire_loop emails n r = (n', r') \<Longrightarrow> load (mn_runtime n') e \<noteq> None \<Longrightarrow>
   load (mn_runtime n) e \<noteq> None \<or> e \<in> set emails"
proof (induction emails arbitrary: n r)
  case (Cons email emails)
  obtain n1 r1 where e: "ensure_runtime email (n\<lparr>mn_current := del email (mn_current n)\<rparr>) r = (n1, r1)"
    by fastforce
  with Cons.prems have "retire_loop emails n1 r1 = (n', r')" by simp
  from Cons.IH [OF this Cons.prems(2)] ensure_runtime_dom [OF e, of e] show ?case by auto
qed simp

lemma loop_nodes:
  "register_loop emails n r = (n', r') \<Longrightarrow> fr_nodes r' = fr_nodes r"
  "retire_loop emails n r = (n', r') \<Longrightarrow> fr_nodes r' = fr_nodes r"
  by (induction emails arbitrary: n r)
    (auto simp: ensure_runtime_def new_runtime_def split: option.splits prod.splits)

lemma runtime_of_store:
  "runtime_of (r\<lparr>fr_nodes := store tag n (fr_nodes r)\<rparr>) t e =
     (if t = tag then load (mn_runtime n) e else runtime_of r t e)"
  by (simp add: runtime_of_def)

lemma flow_register_dom:
  assumes "runtime_of (flow_register tag emails r) t e \<noteq> None"
  shows "runtime_of r t e \<noteq> None \<or> t = tag \<and> e \<in> set emails"
proof -
  obtain n r1 where n: "registry_node tag r = (n, r1)" by fastforce
  obtain n' r2 where l: "register_loop emails n r1 = (n', r2)" by fastforce
  have "fr_nodes r2 = fr_nodes r1" using loop_nodes(1) [OF l] .
  then have "runtime_of (flow_register tag emails r) t e = (if t = tag then load (mn_runtime n') e else runtime_of r1 t e)"
    by (simp add: flow_register_def n l runtime_of_def)
  moreover have "runtime_of r1 t e = runtime_of r t e" and "load (mn_runtime n) e = runtime_of r tag e"
    using registry_node_eq [OF n] by (simp_all add: runtime_of_node_at)
  ultimately show ?thesis
    using assms register_loop_dom [OF l, of e] by (cases "t = tag") auto
qed

lemma flow_retire_dom:
  assumes "runtime_of (flow_retire tag emails r) t e \<noteq> None"
  shows "runtime_of r t e \<noteq> None \<or> t = tag \<and> e \<in> set emails"
proof -
  obtain n r1 where n: "registry_node tag r = (n, r1)" by fastforce
  obtain n' r2 where l: "retire_loop emails n r1 = (n', r2)" by fastforce
  have "fr_nodes r2 = fr_nodes r1" using loop_nodes(2) [OF l] .
  then have "runtime_of (flow_retire tag emails r) t e = (if t = tag then load (mn_runtime n') e else runtime_of r1 t e)"
    by (simp add: flow_retire_def n l runtime_of_def)
  moreover have "runtime_of r1 t e = runtime_of r t e" and "load (mn_runtime n) e = runtime_of r tag e"
    using registry_node_eq [OF n] by (simp_all add: runtime_of_node_at)
  ultimately show ?thesis
    using assms retire_loop_dom [OF l, of e] by (cases "t = tag") auto
qed

lemma world_inv_step:
  assumes "world_inv owner w" and "flow_step owner iface ForLevel w w'"
  shows "world_inv owner w'"
  using assms(2)
proof cases
  case (step_register emails tag)
  note sp = flow_register_spec [OF world_invD(1) [OF assms(1)]]
  have "owner e = t" if "runtime_of (flow_register tag emails (fs_flows (wd_state w))) t e \<noteq> None" for t e
    using flow_register_dom [OF that] step_register world_invD(3) [OF assms(1)] by auto
  with sp(1-3,6) show ?thesis unfolding step_register(1) by (intro world_inv_registry [OF assms(1)])
next
  case (step_retire emails tag)
  note sp = flow_retire_spec [OF world_invD(1) [OF assms(1)]]
  have "owner e = t" if "runtime_of (flow_retire tag emails (fs_flows (wd_state w))) t e \<noteq> None" for t e
    using flow_retire_dom [OF that] step_retire world_invD(3) [OF assms(1)] by auto
  with sp(1-3,6) show ?thesis unfolding step_retire(1) by (intro world_inv_registry [OF assms(1)])
next
  case step_finalize
  with world_inv_finalize [OF assms(1)] show ?thesis by simp
next
  case step_open
  with world_inv_open [OF assms(1)] show ?thesis by simp
next
  case step_rejected
  with world_inv_rejected [OF assms(1)] show ?thesis by simp
next
  case (step_count i u dn up)
  show ?thesis unfolding step_count(1)
    by (rule world_inv_stats [OF assms(1)])
      (simp_all add: userIO_Add_keeps keeps_counters_def world_invD(2) [OF assms(1)])
next
  case step_close
  with world_inv_close [OF assms(1)] show ?thesis by simp
next
  case (step_drain h)
  show ?thesis unfolding step_drain
    by (rule world_inv_stats [OF assms(1)])
      (simp_all add: keeps_counters_def world_invD(2) [OF assms(1)])
next
  case (step_limiter l)
  with world_invD [OF assms(1)] show ?thesis by (intro world_invI) simp_all
qed

lemma flow_reach_inv: "flow_reach owner iface ForLevel w \<Longrightarrow> world_inv owner w"
  by (induction rule: flow_reach.induct) (auto intro: world_inv_initial world_inv_step)

section \<open>Properties\<close>

text \<open>
  In every reachable state of the flow system, the active count of a runtime object is the
  number of open connections that hold it, and the counters of an open connection of a managed
  inbound are the ones registered under its user's names: whatever interleaving of publishing,
  retiring, finalising, opening, closing and draining happens, traffic counted by an open
  connection is visible to the next report.
\<close>

theorem open_flows_keep_counters:
  assumes "flow_reach owner iface ForLevel w" and "c \<in> set (wd_conns w)" and "cn_managed c"
  shows "(\<exists>a. uio_runtime (cn_io c) = Some a
            \<and> runtime_of (fs_flows (wd_state w)) (cn_tag c) (cn_email c) = Some a
            \<and> fr_active (fs_flows (wd_state w)) a = int (holders (wd_conns w) a))
    \<and> (\<forall>k. uio_uplinkCounter (cn_io c) = Some k \<longrightarrow>
          GetCounter (userUplinkCounterName (cn_email c)) (fs_stats (wd_state w)) = Some k)
    \<and> (\<forall>k. uio_downlinkCounter (cn_io c) = Some k \<longrightarrow>
          GetCounter (userDownlinkCounterName (cn_email c)) (fs_stats (wd_state w)) = Some k)"
  using flow_reach_inv [OF assms(1)] assms(2,3) by (auto simp: world_inv_def conn_ok_def)

definition example_registered :: "unit world" where
  "example_registered = initial_world\<lparr>wd_state := (wd_state initial_world)
     \<lparr>fs_flows := flow_register ''in'' [''in|a|1''] empty_registry\<rparr>\<rparr>"

definition example_session :: session_inbound where
  "example_session = \<lparr>si_Tag = ''in'', si_SourceIP = ''1.1.1.1'',
     si_User = Some \<lparr>su_Email = ''in|a|1'', su_Level = 0\<rparr>\<rparr>"

lemma example_open:
  "\<exists>u d'. getUserIO no_cache (\<lambda>_. \<lparr>ps_UserUplink = True, ps_UserDownlink = True\<rparr>) (Some example_session)
      (wd_state example_registered) = (Inr u, d') \<and> uio_uplinkCounter u = Some 0
      \<and> managed (fs_flows (wd_state example_registered)) ''in''"
  by (simp add: getUserIO_def example_session_def example_registered_def initial_world_def
      flow_register_def registry_node_def empty_registry_def empty_node_def ensure_runtime_def
      new_runtime_def flow_acquire_def runtime_acquire_def GetUserBucket_def limiter_New_def
      getOrRegisterCounter_def GetOrRegisterCounter_def RegisterCounter_def GetCounter_def
      NewManager_def new_userIO_def managed_def)

theorem open_flows_keep_counters_witness:
  "\<exists>w c. c \<in> set (wd_conns (w :: unit world)) \<and> uio_uplinkCounter (cn_io c) = Some 0
     \<and> GetCounter (userUplinkCounterName (cn_email c)) (fs_stats (wd_state w)) = Some 0"
proof -
  let ?lv = "\<lambda>_. \<lparr>ps_UserUplink = True, ps_UserDownlink = True\<rparr>"
  let ?owner = "\<lambda>_. ''in''"
  obtain u d' where g: "getUserIO no_cache ?lv (Some example_session) (wd_state example_registered) = (Inr u, d')"
    and u: "uio_uplinkCounter u = Some 0" and m: "managed (fs_flows (wd_state example_registered)) ''in''"
    using example_open by blast
  have reg: "flow_reach ?owner no_cache ?lv example_registered"
    using reach_step [OF reach_initial step_register, of "[''in|a|1'']" ?owner "''in''" no_cache ?lv]
    by (simp add: example_registered_def initial_world_def)
  let ?c = "\<lparr>cn_tag = si_Tag example_session, cn_email = ''in|a|1'', cn_io = u,
      cn_managed = managed (fs_flows (wd_state example_registered)) (si_Tag example_session)\<rparr>"
  let ?w = "example_registered\<lparr>wd_state := d', wd_conns := ?c # wd_conns example_registered\<rparr>"
  have user: "si_User example_session = Some \<lparr>su_Email = ''in|a|1'', su_Level = 0\<rparr>"
    and tag: "si_Tag example_session = ''in''" by (simp_all add: example_session_def)
  have "flow_step ?owner no_cache ?lv example_registered ?w"
    using step_open [OF g refl user, of ?owner] by (simp add: tag)
  from reach_step [OF reg this] have r: "flow_reach ?owner no_cache ?lv ?w" .
  have c: "?c \<in> set (wd_conns ?w)" "cn_managed ?c" using m by (simp_all add: tag)
  have "GetCounter (userUplinkCounterName (cn_email ?c)) (fs_stats (wd_state ?w)) = Some 0"
    using open_flows_keep_counters [OF r c] u by simp
  with c(1) u show ?thesis by (intro exI [of _ ?w] exI [of _ ?c]) simp
qed

text \<open>
  A connection attempt that fails in \<open>getUserIO\<close> leaves no trace in the flow registry: the
  active counts, the admissions and the statistics are as before. One that succeeds for a
  user of a managed inbound means that the user was admitted at that moment.
\<close>

theorem getUserIO_failure_releases:
  assumes "flow_inv (fs_flows d)" and "stats_inv (fs_stats d)"
    and "getUserIO iface ForLevel sess d = (res, d')"
  shows "(isl res \<longrightarrow> fr_active (fs_flows d') = fr_active (fs_flows d)
            \<and> same_admissions (fs_flows d) (fs_flows d') \<and> fs_stats d' = fs_stats d)
    \<and> (\<forall>u si user. res = Inr u \<and> sess = Some si \<and> si_User si = Some user \<and> su_Email user \<noteq> ''''
          \<and> managed (fs_flows d) (si_Tag si) \<longrightarrow> is_current (fs_flows d) (si_Tag si) (su_Email user))"
proof -
  have "is_current (fs_flows d) (si_Tag si) (su_Email user)"
    if h: "res = Inr u" "sess = Some si" "si_User si = Some user" "su_Email user \<noteq> ''''" "managed (fs_flows d) (si_Tag si)"
    for u si user
  proof (rule ccontr)
    assume n: "\<not> is_current (fs_flows d) (si_Tag si) (su_Email user)"
    obtain oa r1 where acq: "flow_acquire (si_Tag si) (su_Email user) (fs_flows d) = (oa, r1)" by fastforce
    have "oa = None" using flow_acquire_spec(2) [OF assms(1) acq] n h(5) by simp
    with assms(3) h acq show False by (simp add: getUserIO_def)
  qed
  moreover have "fr_active (fs_flows d') = fr_active (fs_flows d)
      \<and> same_admissions (fs_flows d) (fs_flows d') \<and> fs_stats d' = fs_stats d" if "isl res"
    by (rule getUserIO_cases [OF assms]) (use that in simp_all)
  ultimately show ?thesis by blast
qed

theorem getUserIO_failure_releases_witness:
  "let d = \<lparr>fs_Limiter = limiter_New, fs_stats = NewManager,
            fs_flows = flow_retire ''in'' [''in|a|1''] empty_registry\<rparr>;
       out = getUserIO no_cache (\<lambda>_. \<lparr>ps_UserUplink = True, ps_UserDownlink = True\<rparr>) (Some example_session) d in
   fr_active (fs_flows (snd out)) = fr_active (fs_flows d)"
proof -
  let ?d = "\<lparr>fs_Limiter = limiter_New, fs_stats = NewManager,
            fs_flows = flow_retire ''in'' [''in|a|1''] empty_registry\<rparr>"
  let ?out = "getUserIO no_cache (\<lambda>_. \<lparr>ps_UserUplink = True, ps_UserDownlink = True\<rparr>) (Some example_session) ?d"
  have i: "flow_inv (fs_flows ?d)" "stats_inv (fs_stats ?d)" by (simp_all add: wf_intros)
  have "isl (fst ?out)"
    by (simp add: getUserIO_def example_session_def flow_retire_def registry_node_def empty_registry_def
        empty_node_def ensure_runtime_def new_runtime_def flow_acquire_def)
  with getUserIO_failure_releases [OF i prod.collapse [symmetric],
      of no_cache "\<lambda>_. \<lparr>ps_UserUplink = True, ps_UserDownlink = True\<rparr>" "Some example_session"]
  show ?thesis by simp
qed

section \<open>Writing and reserving\<close>

lemma GetUserBucket_limited:
  assumes "GetUserBucket iface l tag email ip = ((bucket, True, reject), l')"
  shows "bucket \<noteq> None"
  using assms
  by (auto simp: GetUserBucket_def userBucket_def Let_def split: option.splits prod.splits if_splits)
    metis+

text \<open>The reservations of \<open>Acquire\<close>, one per chunk, until one is refused.\<close>

fun run_reserves :: "('l \<Rightarrow> int \<Rightarrow> int option \<times> 'l) \<Rightarrow> int list \<Rightarrow> int \<Rightarrow> 'l \<Rightarrow> (int \<times> bool) \<times> 'l" where
  "run_reserves reserveN [] ready l = ((ready, True), l)"
| "run_reserves reserveN (c # cs) ready l =
     (case reserveN l c of
        (None, l') \<Rightarrow> ((0, False), l')
      | (Some delay, l') \<Rightarrow> run_reserves reserveN cs (max ready delay) l')"

lemma reserve_loop_run:
  assumes "0 < burst"
  shows "reserve_loop reserveN burst bytes ready l =
     Some (run_reserves reserveN (wait_chunks burst bytes) ready l)"
proof (induction "nat bytes" arbitrary: bytes ready l rule: less_induct)
  case less
  have mx: "(if ready < d then d else ready) = max ready d" for d by (simp add: max_def)
  consider "bytes \<le> 0" | "0 < bytes" "bytes \<le> burst" | "burst < bytes" by linarith
  then show ?case
  proof cases
    case 1
    then show ?thesis by (subst reserve_loop.simps) (simp add: wait_chunks_def)
  next
    case 2
    then show ?thesis
      by (subst reserve_loop.simps)
        (auto simp: wait_chunks_last mx reserve_loop.simps [of reserveN burst 0] split: prod.splits option.splits)
  next
    case 3
    then have "nat (bytes - burst) < nat bytes" using assms by linarith
    then have "reserve_loop reserveN burst (bytes - burst) r' l' =
        Some (run_reserves reserveN (wait_chunks burst (bytes - burst)) r' l')" for r' l'
      by (rule less)
    with 3 assms show ?thesis
      by (subst reserve_loop.simps) (auto simp: wait_chunks_step mx split: prod.splits option.splits)
  qed
qed

text \<open>
  C37. \<open>userIO.Acquire\<close> always returns. For a limited user with a positive burst it reserves the
  requested bytes in chunks of at most the burst that add up to the request, and answers with
  the longest delay, or refuses as soon as one reservation is refused; without a limit it
  reserves nothing.
\<close>

theorem userIO_Acquire_chunks:
  "userIO_Acquire reserveN burst_of u bytes l =
     Some (if bytes \<le> 0 \<or> \<not> uio_speedLimited u \<or> uio_bucket u = None then ((0, True), l)
           else if burst_of l \<le> 0 then ((0, False), l)
           else run_reserves reserveN (wait_chunks (burst_of l) bytes) 0 l)
   \<and> (0 < burst_of l \<and> 0 \<le> bytes \<longrightarrow>
        sum_list (wait_chunks (burst_of l) bytes) = bytes
        \<and> (\<forall>c \<in> set (wait_chunks (burst_of l) bytes). 0 < c \<and> c \<le> burst_of l))"
  using sum_wait_chunks [of "burst_of l" bytes] wait_chunks_bound [of "burst_of l" _ bytes]
  by (auto simp: userIO_Acquire_def reserve_loop_run Let_def)

theorem userIO_Acquire_chunks_witness:
  "userIO_Acquire (\<lambda>l n. (Some n, l @ [n])) (\<lambda>l. 4) (new_userIO\<lparr>uio_speedLimited := True, uio_bucket := Some 0\<rparr>) 10 []
     = Some ((4, True), [4, 4, 2])
   \<and> sum_list (wait_chunks 4 10) = 10"
  using userIO_Acquire_chunks [of "\<lambda>l n. (Some n, l @ [n])" "\<lambda>l. 4"
      "new_userIO\<lparr>uio_speedLimited := True, uio_bucket := Some 0\<rparr>" 10 "[]"]
  by (simp add: wait_chunks_def numeral_eq_Suc new_userIO_def)

text \<open>
  A write through the stack that \<open>wrapUserWriter\<close> builds always returns. It adds exactly the
  bytes of the buffer to the user's counter when there is one, touches no other statistics
  and no other rate bucket, and passes the whole buffer on once, or nothing with an error
  when the rate limiter refuses.
\<close>

theorem user_writer_counts_and_limits:
  assumes "speedLimited \<Longrightarrow> bucket \<noteq> None"
  shows "\<exists>err m' lims' ws'.
     stack_write waitN burst_of wr (wrapUserWriter (BaseWriter w) bucket speedLimited counter) mb (m, lims)
       = Some (err, (m', lims'), ws')
     \<and> (base_writer ws' = w \<and> err \<noteq> None \<and> speedLimited \<or> (err, base_writer ws') = wr w mb)
     \<and> m' = (case counter of None \<Rightarrow> m | Some c \<Rightarrow> snd (counter_Add c (word_of_int (mb_Len mb)) m))
     \<and> (\<forall>b. \<not> (speedLimited \<and> bucket = Some b) \<longrightarrow> lims' b = lims b)"
proof -
  obtain werr w' where wr: "wr w mb = (werr, w')" by fastforce
  have inner: "\<exists>err lims' ws'. stack_write waitN burst_of wr (if speedLimited then RateWriter bucket (BaseWriter w) else BaseWriter w) mb (k, lims)
       = Some (err, (k, lims'), ws')
     \<and> (base_writer ws' = w \<and> err \<noteq> None \<and> speedLimited \<or> (err, base_writer ws') = wr w mb)
     \<and> (\<forall>b. \<not> (speedLimited \<and> bucket = Some b) \<longrightarrow> lims' b = lims b)" for k
  proof (cases speedLimited)
    case False
    with wr show ?thesis by simp
  next
    case True
    then obtain b where b: "bucket = Some b" using assms by auto
    obtain e l' where "waitRateLimit waitN burst_of (lims b) (mb_Len mb) = Some (e, l')"
      using waitRateLimit_terminates [of waitN burst_of "lims b" "mb_Len mb"] by fastforce
    with True b wr show ?thesis by (cases e) auto
  qed
  show ?thesis
  proof (cases counter)
    case None
    with inner [of m] show ?thesis by (auto simp: wrapUserWriter_def Let_def)
  next
    case (Some c)
    with inner [of "snd (counter_Add c (word_of_int (mb_Len mb)) m)"] show ?thesis
      by (fastforce simp: wrapUserWriter_def Let_def)
  qed
qed

theorem user_writer_counts_and_limits_witness:
  "\<exists>err m' lims' ws'.
     stack_write (\<lambda>l n. (None, l + n)) (\<lambda>l. 4) (\<lambda>w b. (None, w @ b))
       (wrapUserWriter (BaseWriter []) (Some 0) True (Some 3)) [[1, 2], [3]] (NewManager, \<lambda>_. 0 :: int)
       = Some (err, (m', lims'), ws')
     \<and> m' = snd (counter_Add 3 3 NewManager)"
  using user_writer_counts_and_limits [of True "Some 0" "\<lambda>l n. (None, l + n)" "\<lambda>l. 4" "\<lambda>w b. (None, w @ b)"
      "[]" "Some 3" "[[1, 2], [3]]" NewManager "\<lambda>_. 0 :: int"]
  by auto

end
