(* ===== verification/Rule.thy ===== *)
theory Rule
  imports Api_Model
begin

text \<open>
  The audit-rule manager of \<open>common/rule/rule.go\<close>. The manager keeps, per inbound tag, a
  snapshot of the rule list and a shared set of recorded hits. The hit sets are objects that
  concurrent calls alias (a \<open>Detect\<close> that has loaded a set keeps using it while
  \<open>GetDetectResult\<close> removes it from the map), so they live in a small heap and the map
  holds references. \<open>Detect\<close> runs outside any lock: its recording part is split where other
  goroutines can run, between the \<open>LoadOrStore\<close> and the \<open>Add\<close> with the final \<open>Store\<close>.
\<close>

section \<open>State\<close>

record Manager =
  InboundRule :: "(string, DetectRule list) gomap"
  InboundDetectResult :: "(string, nat) gomap"
  resultSets :: "DetectResult list list"

definition rule_New :: Manager where
  "rule_New = \<lparr>InboundRule = [], InboundDetectResult = [], resultSets = []\<rparr>"

section \<open>Operations\<close>

text \<open>The loop of \<open>sameRuleList\<close> over the common index range.\<close>

fun sameRules :: "DetectRule list \<Rightarrow> DetectRule list \<Rightarrow> bool" where
  "sameRules (o' # os) (n # ns) =
     (if dr_ID o' \<noteq> dr_ID n then False
      else if dr_Pattern o' = None \<or> dr_Pattern n = None then
        (if dr_Pattern o' \<noteq> dr_Pattern n then False else sameRules os ns)
      else if the (dr_Pattern o') \<noteq> the (dr_Pattern n) then False
      else sameRules os ns)"
| "sameRules _ _ = True"

definition sameRuleList :: "DetectRule list \<Rightarrow> DetectRule list \<Rightarrow> bool" where
  "sameRuleList old new = (if length old \<noteq> length new then False else sameRules old new)"

definition UpdateRule :: "string \<Rightarrow> DetectRule list \<Rightarrow> Manager \<Rightarrow> go_error option \<times> Manager" where
  "UpdateRule tag newRuleList r =
     (if newRuleList = [] then (None, r\<lparr>InboundRule := del tag (InboundRule r)\<rparr>)
      else case load (InboundRule r) tag of
        Some v \<Rightarrow>
          if sameRuleList v newRuleList then (None, r)
          else (None, r\<lparr>InboundRule := store tag newRuleList (InboundRule r)\<rparr>)
      | None \<Rightarrow> (None, r\<lparr>InboundRule := store tag newRuleList (InboundRule r)\<rparr>))"

definition GetDetectResult :: "string \<Rightarrow> Manager \<Rightarrow> DetectResult list result \<times> Manager" where
  "GetDetectResult tag r =
     (case load (InboundDetectResult r) tag of
        None \<Rightarrow> (Inr [], r)
      | Some a \<Rightarrow> (Inr (resultSets r ! a), r\<lparr>InboundDetectResult := del tag (InboundDetectResult r)\<rparr>))"

text \<open>The rule loop of \<open>Detect\<close>: the id of the first rule that matches the destination.\<close>

fun firstHit :: "(string \<Rightarrow> string \<Rightarrow> bool) \<Rightarrow> DetectRule list \<Rightarrow> string \<Rightarrow> int option" where
  "firstHit matches [] destination = None"
| "firstHit matches (r # rs) destination =
     (case dr_Pattern r of
        None \<Rightarrow> firstHit matches rs destination
      | Some p \<Rightarrow> if matches p destination then Some (dr_ID r) else firstHit matches rs destination)"

text \<open>The uid at the end of a user key, \<open>None\<close> where the code logs and gives up.\<close>

definition hitUID :: "string \<Rightarrow> int option" where
  "hitUID email =
     (let separator = LastIndexByte email (CHR ''|'') in
      if separator < 0 \<or> separator = int (length email) - 1 then None
      else case Atoi (drop (nat separator + 1) email) of Inl _ \<Rightarrow> None | Inr uid \<Rightarrow> Some uid)"

text \<open>
  First half of the recording: \<open>LoadOrStore\<close> of a fresh singleton set. The result is the
  existing set, when there was one.
\<close>

definition loadOrStoreResult :: "string \<Rightarrow> DetectResult \<Rightarrow> Manager \<Rightarrow> nat option \<times> Manager" where
  "loadOrStoreResult tag d r =
     (case load (InboundDetectResult r) tag of
        Some a \<Rightarrow> (Some a, r)
      | None \<Rightarrow> (None, r\<lparr>InboundDetectResult := store tag (length (resultSets r)) (InboundDetectResult r),
                        resultSets := resultSets r @ [[d]]\<rparr>))"

text \<open>Second half: \<open>Add\<close> to the loaded set and, for a new element, \<open>Store\<close> of that set.\<close>

definition addResult :: "string \<Rightarrow> nat \<Rightarrow> DetectResult \<Rightarrow> Manager \<Rightarrow> Manager" where
  "addResult tag a d r =
     (if d \<in> set (resultSets r ! a) then r
      else r\<lparr>resultSets := (resultSets r)[a := resultSets r ! a @ [d]],
             InboundDetectResult := store tag a (InboundDetectResult r)\<rparr>)"

definition Detect ::
    "(string \<Rightarrow> string \<Rightarrow> bool) \<Rightarrow> string \<Rightarrow> string \<Rightarrow> string \<Rightarrow> Manager \<Rightarrow> bool \<times> Manager" where
  "Detect matches tag destination email r =
     (case load (InboundRule r) tag of
        None \<Rightarrow> (False, r)
      | Some ruleList \<Rightarrow>
          (case firstHit matches ruleList destination of
             None \<Rightarrow> (False, r)
           | Some hitRuleID \<Rightarrow>
               if hitRuleID = - 1 then (True, r)
               else case hitUID email of
                 None \<Rightarrow> (True, r)
               | Some uid \<Rightarrow>
                   let d = \<lparr>res_UID = uid, res_RuleID = hitRuleID\<rparr>;
                       (v, r') = loadOrStoreResult tag d r in
                   case v of None \<Rightarrow> (True, r') | Some a \<Rightarrow> (True, addResult tag a d r')))"

section \<open>Invariant\<close>

text \<open>
  Every reference is live, the sets have no duplicates, and no two tags share a set.
\<close>

definition rule_inv :: "Manager \<Rightarrow> bool" where
  "rule_inv r \<longleftrightarrow> wf_map (InboundRule r) \<and> wf_map (InboundDetectResult r)
     \<and> (\<forall>tag a. load (InboundDetectResult r) tag = Some a \<longrightarrow> a < length (resultSets r))
     \<and> (\<forall>s \<in> set (resultSets r). distinct s)
     \<and> inj_on (load (InboundDetectResult r)) (dom (load (InboundDetectResult r)))"

text \<open>What an observer sees: the rules in force and the pending hits of a tag.\<close>

definition rules_of :: "Manager \<Rightarrow> string \<Rightarrow> DetectRule list" where
  "rules_of r tag = (case load (InboundRule r) tag of None \<Rightarrow> [] | Some rs \<Rightarrow> rs)"

definition pending :: "Manager \<Rightarrow> string \<Rightarrow> DetectResult set" where
  "pending r tag =
     (case load (InboundDetectResult r) tag of None \<Rightarrow> {} | Some a \<Rightarrow> set (resultSets r ! a))"

section \<open>Rule lists\<close>

lemma sameRules_eq: "length os = length ns \<Longrightarrow> sameRules os ns \<longleftrightarrow> os = ns"
  by (induction os ns rule: sameRules.induct) (auto intro: DetectRule.equality simp: option.expand)

lemma sameRuleList_iff: "sameRuleList old new \<longleftrightarrow> old = new"
  by (auto simp: sameRuleList_def sameRules_eq)

lemma rules_of_UpdateRule:
  "rules_of (snd (UpdateRule tag rs r)) t = (if t = tag then rs else rules_of r t)"
  by (auto simp: UpdateRule_def rules_of_def sameRuleList_iff split: option.splits)

lemma pending_UpdateRule: "pending (snd (UpdateRule tag rs r)) t = pending r t"
  by (auto simp: UpdateRule_def pending_def split: option.splits)

lemma firstHit_None:
  "firstHit matches rs d = None \<longleftrightarrow> (\<forall>x \<in> set rs. \<forall>p. dr_Pattern x = Some p \<longrightarrow> \<not> matches p d)"
  by (induction rs) (auto split: option.splits)

lemma firstHit_Some:
  "firstHit matches rs d = Some i \<Longrightarrow>
     \<exists>x \<in> set rs. \<exists>p. dr_ID x = i \<and> dr_Pattern x = Some p \<and> matches p d"
  by (induction rs) (auto split: option.splits if_splits)

lemma hitUID_user_key: "in_int uid \<Longrightarrow> hitUID (formatUserKey tag email uid) = Some uid"
  using Atoi_Itoa [of uid]
  by (simp add: hitUID_def formatUserKey_last_bar formatUserKey_suffix nat_add_distrib
      Let_def nat_eq_iff2) (simp add: formatUserKey_def)

section \<open>Recording and collecting hits\<close>

lemma rule_inv_New [wf_intros]: "rule_inv rule_New"
  by (simp add: rule_inv_def rule_New_def)

lemma rule_inv_UpdateRule [wf_intros]: "rule_inv r \<Longrightarrow> rule_inv (snd (UpdateRule tag rs r))"
  by (auto simp: UpdateRule_def rule_inv_def split: option.splits)

lemma rule_inv_GetDetectResult [wf_intros]:
  "rule_inv r \<Longrightarrow> rule_inv (snd (GetDetectResult tag r))"
  by (auto simp: GetDetectResult_def rule_inv_def inj_on_def dom_def split: option.splits if_splits)

lemma rule_inv_loadOrStore [wf_intros]:
  "rule_inv r \<Longrightarrow> rule_inv (snd (loadOrStoreResult tag d r))"
  by (fastforce simp: loadOrStoreResult_def rule_inv_def inj_on_def dom_def less_Suc_eq
      split: option.splits if_splits)

lemma addResult_live:
  assumes "rule_inv r" and "load (InboundDetectResult r) tag = Some a"
  shows "load (InboundDetectResult (addResult tag a d r)) = load (InboundDetectResult r)"
  using assms by (auto simp: addResult_def fun_eq_iff)

lemma rule_inv_addResult [wf_intros]:
  assumes "rule_inv r" and "load (InboundDetectResult r) tag = Some a"
  shows "rule_inv (addResult tag a d r)"
proof -
  have a: "a < length (resultSets r)" using assms by (auto simp: rule_inv_def)
  then have "\<forall>s \<in> set (resultSets (addResult tag a d r)). distinct s"
    using assms by (auto simp: addResult_def rule_inv_def dest!: set_update_subset_insert [THEN subsetD])
  moreover have "wf_map (InboundDetectResult (addResult tag a d r))"
    and "wf_map (InboundRule (addResult tag a d r))"
    and "length (resultSets (addResult tag a d r)) = length (resultSets r)"
    using assms by (auto simp: addResult_def rule_inv_def)
  ultimately show ?thesis
    using assms addResult_live [OF assms] by (simp add: rule_inv_def)
qed

lemma pending_loadOrStore:
  assumes "rule_inv r"
  shows "pending (snd (loadOrStoreResult tag d r)) t =
     (if t = tag \<and> load (InboundDetectResult r) tag = None then {d} else pending r t)"
  using assms by (auto simp: loadOrStoreResult_def pending_def rule_inv_def nth_append
      split: option.splits if_splits)

lemma pending_addResult:
  assumes "rule_inv r" and "load (InboundDetectResult r) tag = Some a"
  shows "pending (addResult tag a d r) t = (if t = tag then insert d (pending r t) else pending r t)"
proof -
  have a: "a < length (resultSets r)" using assms by (auto simp: rule_inv_def)
  have other: "b \<noteq> a" if "t \<noteq> tag" "load (InboundDetectResult r) t = Some b" for b
    using that assms by (auto simp: rule_inv_def inj_on_def dom_def)
  have live: "load (InboundDetectResult (addResult tag a d r)) t = load (InboundDetectResult r) t"
    using addResult_live [OF assms] by simp
  show ?thesis
  proof (cases "t = tag")
    case True
    with a assms(2) show ?thesis by (auto simp: pending_def addResult_def)
  next
    case False
    with live other show ?thesis
      by (auto simp: pending_def addResult_def split: option.splits)
  qed
qed

text \<open>The hit that a call of \<open>Detect\<close> has to record, if any.\<close>

definition hit_of :: "(string \<Rightarrow> string \<Rightarrow> bool) \<Rightarrow> DetectRule list \<Rightarrow> string \<Rightarrow> string \<Rightarrow> DetectResult option" where
  "hit_of matches rs destination email =
     (case firstHit matches rs destination of
        None \<Rightarrow> None
      | Some i \<Rightarrow> if i = - 1 then None
                 else map_option (\<lambda>uid. \<lparr>res_UID = uid, res_RuleID = i\<rparr>) (hitUID email))"

lemma Detect_cases:
  "Detect matches tag destination email r =
     (firstHit matches (rules_of r tag) destination \<noteq> None,
      case hit_of matches (rules_of r tag) destination email of
        None \<Rightarrow> r
      | Some d \<Rightarrow> (case loadOrStoreResult tag d r of
                      (None, r') \<Rightarrow> r' | (Some a, r') \<Rightarrow> addResult tag a d r'))"
  by (simp add: Detect_def rules_of_def hit_of_def Let_def split: option.splits prod.splits)

lemma loadOrStoreResult_Some:
  "loadOrStoreResult tag d r = (Some a, r') \<Longrightarrow> r' = r \<and> load (InboundDetectResult r) tag = Some a"
  by (auto simp: loadOrStoreResult_def split: option.splits)

lemma rule_inv_Detect [wf_intros]:
  "rule_inv r \<Longrightarrow> rule_inv (snd (Detect matches tag destination email r))"
  unfolding Detect_cases
  using rule_inv_loadOrStore [of r tag]
  by (auto split: option.splits prod.splits dest!: loadOrStoreResult_Some intro: rule_inv_addResult)
    (metis snd_conv)

lemma pending_Detect:
  assumes "rule_inv r"
  shows "pending (snd (Detect matches tag destination email r)) t =
     (if t = tag then pending r t \<union> set_option (hit_of matches (rules_of r tag) destination email)
      else pending r t)"
proof (cases "hit_of matches (rules_of r tag) destination email")
  case None
  then show ?thesis by (simp add: Detect_cases)
next
  case (Some d)
  show ?thesis
  proof (cases "load (InboundDetectResult r) tag")
    case None
    then obtain r' where r': "loadOrStoreResult tag d r = (None, r')"
      by (auto simp: loadOrStoreResult_def)
    moreover have "pending r tag = {}" using None by (simp add: pending_def)
    ultimately show ?thesis
      using Some None pending_loadOrStore [OF assms, of tag d t] by (auto simp: Detect_cases)
  next
    case (Some a)
    then have "loadOrStoreResult tag d r = (Some a, r)" by (simp add: loadOrStoreResult_def)
    with \<open>hit_of _ _ _ _ = Some d\<close> show ?thesis
      using pending_addResult [OF assms Some, of d t] by (simp add: Detect_cases)
  qed
qed

lemma rules_of_Detect: "rules_of (snd (Detect matches tag destination email r)) t = rules_of r t"
  by (auto simp: Detect_cases rules_of_def loadOrStoreResult_def addResult_def
      split: option.splits prod.splits if_splits)

lemma GetDetectResult_Inr:
  "rule_inv r \<Longrightarrow> \<exists>ds. fst (GetDetectResult tag r) = Inr ds \<and> distinct ds \<and> set ds = pending r tag"
  by (auto simp: GetDetectResult_def pending_def rule_inv_def split: option.splits)

lemma pending_GetDetectResult:
  "pending (snd (GetDetectResult tag r)) t = (if t = tag then {} else pending r t)"
  by (auto simp: GetDetectResult_def pending_def split: option.splits)

lemma rules_of_GetDetectResult: "rules_of (snd (GetDetectResult tag r)) t = rules_of r t"
  by (auto simp: GetDetectResult_def rules_of_def split: option.splits)

section \<open>The audit log as an interface\<close>

text \<open>
  What the controller and the dispatcher rely on: a log whose \<open>detect\<close> adds at most the hit of
  the rules in force, whose \<open>collect\<close> hands over the pending hits and empties them, and whose
  \<open>update\<close> touches the rules only. Over any sequence of these calls a hit is either pending or
  in some report, and nothing else is ever reported.
\<close>

datatype audit_op =
    AuditDetect string string string
  | AuditCollect string
  | AuditUpdate string "DetectRule list"

locale audit_log =
  fixes matches :: "string \<Rightarrow> string \<Rightarrow> bool"
    and inv :: "'s \<Rightarrow> bool"
    and rules :: "'s \<Rightarrow> string \<Rightarrow> DetectRule list"
    and hits :: "'s \<Rightarrow> string \<Rightarrow> DetectResult set"
    and detect :: "string \<Rightarrow> string \<Rightarrow> string \<Rightarrow> 's \<Rightarrow> bool \<times> 's"
    and collect :: "string \<Rightarrow> 's \<Rightarrow> DetectResult list result \<times> 's"
    and update :: "string \<Rightarrow> DetectRule list \<Rightarrow> 's \<Rightarrow> go_error option \<times> 's"
  assumes inv_detect: "inv s \<Longrightarrow> inv (snd (detect tag dest email s))"
    and inv_collect: "inv s \<Longrightarrow> inv (snd (collect tag s))"
    and inv_update: "inv s \<Longrightarrow> inv (snd (update tag rs s))"
    and hits_detect: "inv s \<Longrightarrow> hits (snd (detect tag dest email s)) t =
          (if t = tag then hits s t \<union> set_option (hit_of matches (rules s tag) dest email) else hits s t)"
    and collect_all: "inv s \<Longrightarrow> \<exists>ds. fst (collect tag s) = Inr ds \<and> distinct ds \<and> set ds = hits s tag"
    and hits_collect: "inv s \<Longrightarrow> hits (snd (collect tag s)) t = (if t = tag then {} else hits s t)"
    and hits_update: "inv s \<Longrightarrow> hits (snd (update tag rs s)) t = hits s t"
    and rules_update: "inv s \<Longrightarrow> rules (snd (update tag rs s)) t = (if t = tag then rs else rules s t)"
    and rules_detect: "inv s \<Longrightarrow> rules (snd (detect tag dest email s)) t = rules s t"
    and rules_collect: "inv s \<Longrightarrow> rules (snd (collect tag s)) t = rules s t"
begin

fun run_audit :: "audit_op list \<Rightarrow> 's \<Rightarrow> (string \<times> DetectResult list) list \<times> 's" where
  "run_audit [] s = ([], s)"
| "run_audit (AuditDetect tag dest email # ops) s = run_audit ops (snd (detect tag dest email s))"
| "run_audit (AuditUpdate tag rs # ops) s = run_audit ops (snd (update tag rs s))"
| "run_audit (AuditCollect tag # ops) s =
     (let (ds, s') = collect tag s; (out, s'') = run_audit ops s' in
      ((tag, case ds of Inl _ \<Rightarrow> [] | Inr xs \<Rightarrow> xs) # out, s''))"

text \<open>The hits that the rules in force at each call ask for; it follows the rules only.\<close>

fun hits_due :: "audit_op list \<Rightarrow> (string \<Rightarrow> DetectRule list) \<Rightarrow> string \<Rightarrow> DetectResult set" where
  "hits_due [] R t = {}"
| "hits_due (AuditDetect tag dest email # ops) R t =
     (if t = tag then set_option (hit_of matches (R tag) dest email) else {}) \<union> hits_due ops R t"
| "hits_due (AuditUpdate tag rs # ops) R t = hits_due ops (R(tag := rs)) t"
| "hits_due (AuditCollect tag # ops) R t = hits_due ops R t"

definition reported :: "(string \<times> DetectResult list) list \<Rightarrow> string \<Rightarrow> DetectResult set" where
  "reported out t = (\<Union>(tag, ds) \<in> set out. if tag = t then set ds else {})"

lemma reported_Cons: "reported ((tag, ds) # out) t = (if tag = t then set ds else {}) \<union> reported out t"
  by (simp add: reported_def)

lemma hits_accounted:
  "inv s \<Longrightarrow> reported (fst (run_audit ops s)) t \<union> hits (snd (run_audit ops s)) t
             = hits s t \<union> hits_due ops (rules s) t"
proof (induction ops arbitrary: s)
  case Nil
  then show ?case by (simp add: reported_def)
next
  case (Cons op ops)
  show ?case
  proof (cases op)
    case (AuditDetect tag dest email)
    have "rules (snd (detect tag dest email s)) = rules s"
      using Cons.prems by (simp add: rules_detect fun_eq_iff)
    with AuditDetect Cons.IH [OF inv_detect [OF Cons.prems, of tag dest email]] show ?thesis
      by (auto simp: hits_detect [OF Cons.prems])
  next
    case (AuditUpdate tag rs)
    have "rules (snd (update tag rs s)) = (rules s)(tag := rs)"
      using Cons.prems by (simp add: rules_update fun_eq_iff)
    with AuditUpdate Cons.IH [OF inv_update [OF Cons.prems, of tag rs]] show ?thesis
      by (simp only: run_audit.simps hits_due.simps hits_update [OF Cons.prems])
  next
    case (AuditCollect tag)
    obtain ds s' where c: "collect tag s = (ds, s')" by fastforce
    obtain out s'' where r: "run_audit ops s' = (out, s'')" by fastforce
    have ds: "\<exists>xs. ds = Inr xs \<and> set xs = hits s tag"
      using collect_all [OF Cons.prems, of tag] c by auto
    have "rules s' = rules s"
      using rules_collect [OF Cons.prems, of tag] c by (simp add: fun_eq_iff)
    with AuditCollect c r ds Cons.IH [of s'] inv_collect [OF Cons.prems, of tag]
      hits_collect [OF Cons.prems, of tag t] show ?thesis
      by (auto simp: reported_Cons split: if_splits)
  qed
qed

end

interpretation rule_log: audit_log matches rule_inv rules_of pending "Detect matches" GetDetectResult UpdateRule
  for matches
  by unfold_locales
    (simp_all add: wf_intros pending_Detect GetDetectResult_Inr pending_GetDetectResult
      pending_UpdateRule rules_of_UpdateRule rules_of_Detect rules_of_GetDetectResult)

section \<open>Properties\<close>

text \<open>
  C13. Over any sequence of \<open>Detect\<close>, \<open>GetDetectResult\<close> and \<open>UpdateRule\<close> calls that do not
  overlap, starting from a fresh manager, the hits of an inbound that were reported together
  with the ones still pending are exactly the hits its rules asked for at the time of each
  call: no hit is lost and none is invented.
\<close>

theorem audit_hits_accounted:
  "rule_log.reported (fst (rule_log.run_audit matches ops rule_New)) tag
     \<union> pending (snd (rule_log.run_audit matches ops rule_New)) tag
   = rule_log.hits_due matches ops (\<lambda>_. []) tag"
proof -
  have "rules_of rule_New = (\<lambda>_. [])" and "pending rule_New tag = {}"
    by (simp_all add: rules_of_def rule_New_def pending_def fun_eq_iff)
  then show ?thesis using rule_log.hits_accounted [OF rule_inv_New, of matches ops tag] by simp
qed

text \<open>
  \<open>Detect\<close> rejects a destination exactly when some rule of the inbound with a compiled
  pattern matches it, whatever the user key looks like. For a key built by \<open>formatUserKey\<close> the
  recorded hit carries that user's id and the id of the first matching rule; a rule with the
  local id -1 rejects without a record. Rules and other inbounds are untouched.
\<close>

theorem Detect_rejects_and_records:
  fixes matches :: "string \<Rightarrow> string \<Rightarrow> bool" and tag destination email :: string
  assumes "rule_inv r" and "in_int uid"
  defines "res \<equiv> Detect matches tag destination (formatUserKey tag email uid) r"
  shows "(fst res \<longleftrightarrow> (\<exists>x \<in> set (rules_of r tag). \<exists>p. dr_Pattern x = Some p \<and> matches p destination))
    \<and> rules_of (snd res) = rules_of r
    \<and> (\<forall>t. t \<noteq> tag \<longrightarrow> pending (snd res) t = pending r t)
    \<and> pending (snd res) tag = pending r tag \<union>
        (case firstHit matches (rules_of r tag) destination of
           None \<Rightarrow> {}
         | Some i \<Rightarrow> if i = - 1 then {} else {\<lparr>res_UID = uid, res_RuleID = i\<rparr>})"
  unfolding res_def
  using assms(1,2) firstHit_None [of matches "rules_of r tag" destination]
  by (auto simp: pending_Detect rules_of_Detect fun_eq_iff hit_of_def hitUID_user_key
      split: option.splits) (auto simp: Detect_cases)

theorem Detect_rejects_and_records_witness:
  "fst (Detect (\<lambda>p d. p = d) ''in'' ''evil.com'' (formatUserKey ''in'' ''a@b'' 7)
       (snd (UpdateRule ''in'' [\<lparr>dr_ID = 3, dr_Pattern = Some ''evil.com''\<rparr>] rule_New)))"
proof -
  have "in_int 7" by (simp add: in_int_def int_min_def int_max_def)
  from Detect_rejects_and_records [OF rule_inv_UpdateRule [OF rule_inv_New] this,
      of "\<lambda>p d. p = d" "''in''" "''evil.com''" "''a@b''" "''in''"
         "[\<lparr>dr_ID = 3, dr_Pattern = Some ''evil.com''\<rparr>]"]
  show ?thesis by (simp add: rules_of_UpdateRule)
qed

text \<open>
  \<open>UpdateRule\<close> always leaves exactly the new list in force for its inbound, also when it
  recognises an unchanged list and skips the store, and touches neither other inbounds nor
  pending hits; an empty list removes the entry.
\<close>

theorem UpdateRule_installs:
  "rules_of (snd (UpdateRule tag rs r)) = (rules_of r)(tag := rs)
   \<and> pending (snd (UpdateRule tag rs r)) = pending r
   \<and> fst (UpdateRule tag rs r) = None
   \<and> load (InboundRule (snd (UpdateRule tag [] r))) tag = None"
  by (auto simp: rules_of_UpdateRule pending_UpdateRule fun_eq_iff)
    (auto simp: UpdateRule_def split: option.splits)

text \<open>
  C39. The recording of \<open>Detect\<close> is not atomic. When a collection and the first hit of another
  connection fall between the \<open>LoadOrStore\<close> and the \<open>Add\<close> of a call, its final \<open>Store\<close> puts the
  collected set back over the other connection's: that hit is neither in the report nor
  pending any more.
\<close>

theorem Detect_race_loses_hit:
  fixes r :: Manager and tag :: string and d1 d2 :: DetectResult
  assumes "rule_inv r" and "load (InboundDetectResult r) tag = Some a"
    and "d1 \<notin> pending r tag" and "d2 \<notin> pending r tag" and "d1 \<noteq> d2"
  defines "first \<equiv> loadOrStoreResult tag d1 r"
  defines "coll \<equiv> GetDetectResult tag (snd first)"
  defines "second \<equiv> loadOrStoreResult tag d2 (snd coll)"
  defines "final \<equiv> addResult tag (the (fst first)) d1 (snd second)"
  shows "fst second = None \<and> (\<exists>ds. fst coll = Inr ds \<and> d2 \<notin> set ds) \<and> d2 \<notin> pending final tag"
proof -
  have a: "a < length (resultSets r)" using assms by (auto simp: rule_inv_def)
  then show ?thesis using assms
    by (auto simp: loadOrStoreResult_def GetDetectResult_def addResult_def pending_def nth_append
        list_update_append1)
qed

theorem Detect_race_loses_hit_witness:
  "let hit = (\<lambda>i. \<lparr>res_UID = i, res_RuleID = 1\<rparr>);
       r = snd (loadOrStoreResult ''in'' (hit 0) rule_New);
       coll = GetDetectResult ''in'' r;
       second = loadOrStoreResult ''in'' (hit 2) (snd coll) in
   hit 2 \<notin> pending (addResult ''in'' 0 (hit 1) (snd second)) ''in''"
proof -
  let ?r = "snd (loadOrStoreResult ''in'' \<lparr>res_UID = 0, res_RuleID = 1\<rparr> rule_New)"
  have "rule_inv ?r" by (intro rule_inv_loadOrStore rule_inv_New)
  from Detect_race_loses_hit [OF this, of "''in''" 0 "\<lparr>res_UID = 1, res_RuleID = 1\<rparr>"
      "\<lparr>res_UID = 2, res_RuleID = 1\<rparr>"]
  show ?thesis
    by (simp add: Let_def loadOrStoreResult_def rule_New_def pending_def)
qed

end
