(* ===== verification/Sniffer.thy ===== *)
theory Sniffer
  imports Rate Go_Strings
begin

text \<open>
  Protocol sniffing of \<open>app/mydispatcher/sniffer.go\<close> and \<open>fakednssniffer.go\<close>. The five content
  sniffers (HTTP, TLS, BitTorrent, QUIC, uTP) and the fake DNS engine belong to xray-core and
  are parameters. A sniffer is a function of the connection context and of the bytes seen
  so far (\<open>None\<close> is the nil payload of a metadata sniffer); besides its answer it may write the
  \<open>addressInRange\<close> option that the context carries, which is returned as a second value.
\<close>

section \<open>Destinations\<close>

datatype Network = Network_Unknown | Network_RawTCP | Network_TCP | Network_UDP | Network_UNIX

datatype Address = IPAddress string | DomainAddress string

record Destination =
  dest_Address :: Address
  dest_Port :: uint16
  dest_Network :: Network

definition addr_IsIP :: "Address \<Rightarrow> bool" where
  "addr_IsIP a = (case a of IPAddress _ \<Rightarrow> True | DomainAddress _ \<Rightarrow> False)"

definition addr_IsDomain :: "Address \<Rightarrow> bool" where
  "addr_IsDomain a = (case a of IPAddress _ \<Rightarrow> False | DomainAddress _ \<Rightarrow> True)"

definition addr_String :: "Address \<Rightarrow> string" where
  "addr_String a = (case a of IPAddress s \<Rightarrow> s | DomainAddress s \<Rightarrow> s)"

definition dest_NetAddr :: "Destination \<Rightarrow> string" where
  "dest_NetAddr d =
     (if dest_Network d = Network_TCP \<or> dest_Network d = Network_UDP
      then addr_String (dest_Address d) @ '':'' @ Itoa (int (unat (dest_Port d)))
      else if dest_Network d = Network_UNIX then addr_String (dest_Address d) else '''')"

definition dest_String :: "Destination \<Rightarrow> string" where
  "dest_String d =
     (case dest_Network d of Network_TCP \<Rightarrow> ''tcp:'' | Network_UDP \<Rightarrow> ''udp:'' | Network_UNIX \<Rightarrow> ''unix:''
        | _ \<Rightarrow> ''unknown:'') @ dest_NetAddr d"

definition dest_IsValid :: "Destination \<Rightarrow> bool" where
  "dest_IsValid d \<longleftrightarrow> dest_Network d \<noteq> Network_Unknown"

section \<open>Results\<close>

datatype SniffResult =
    ProtocolResult string string
  | FakeDNSSniffResult string
  | DNSThenOthersSniffResult string string
  | CompositeResult SniffResult SniffResult

primrec Protocol :: "SniffResult \<Rightarrow> string" where
  "Protocol (ProtocolResult p d) = p"
| "Protocol (FakeDNSSniffResult d) = ''fakedns''"
| "Protocol (DNSThenOthersSniffResult d p) = ''fakedns+others''"
| "Protocol (CompositeResult domainResult protocolResult) = Protocol protocolResult"

primrec Domain :: "SniffResult \<Rightarrow> string" where
  "Domain (ProtocolResult p d) = d"
| "Domain (FakeDNSSniffResult d) = d"
| "Domain (DNSThenOthersSniffResult d p) = d"
| "Domain (CompositeResult domainResult protocolResult) = Domain domainResult"

text \<open>\<open>ProtocolForDomainResult\<close> and \<open>IsProtoSubsetOf\<close> exist only on some result types.\<close>

fun ProtocolForDomainResult :: "SniffResult \<Rightarrow> string option" where
  "ProtocolForDomainResult (CompositeResult domainResult protocolResult) = Some (Protocol domainResult)"
| "ProtocolForDomainResult _ = None"

fun IsProtoSubsetOf :: "SniffResult \<Rightarrow> string \<Rightarrow> bool" where
  "IsProtoSubsetOf (DNSThenOthersSniffResult d p) protocolName = HasPrefix protocolName p"
| "IsProtoSubsetOf _ _ = False"

text \<open>
  The answer of a sniffer: a result, an error, or nil for both. Asking the domain of a nil
  result panics.
\<close>

datatype sniff_error = ErrNoClue | SniffFailure string

datatype sniff_outcome = Sniffed SniffResult | SniffErr sniff_error | SniffNil | SniffPanic

definition errUnknownContent :: sniff_error where
  "errUnknownContent = SniffFailure ''unknown content''"

definition errSniffingTimeout :: sniff_error where
  "errSniffingTimeout = SniffFailure ''timeout on sniffing''"

section \<open>Sniffers\<close>

record sniff_ctx =
  sc_Target :: Destination
  sc_wantsInRange :: bool

type_synonym protocolSniffer = "sniff_ctx \<Rightarrow> byte list option \<Rightarrow> sniff_outcome \<times> bool option"

record protocolSnifferWithMetadata =
  psm_sniffer :: protocolSniffer
  psm_metadataSniffer :: bool
  psm_network :: Network

text \<open>The fake DNS engine; \<open>IsIPInIPPool\<close> is there when it implements the newer interface.\<close>

record FakeDNSEngine =
  fe_GetDomainFromFakeDNS :: "Address \<Rightarrow> string"
  fe_IsIPInIPPool :: "(Address \<Rightarrow> bool) option"

definition fakeDNSProtocolSniffer :: "FakeDNSEngine \<Rightarrow> protocolSniffer" where
  "fakeDNSProtocolSniffer engine ctx bytes =
     (let Target = sc_Target ctx; domain = fe_GetDomainFromFakeDNS engine (dest_Address Target) in
      if (dest_Network Target = Network_TCP \<or> dest_Network Target = Network_UDP) \<and> domain \<noteq> ''''
      then (Sniffed (FakeDNSSniffResult domain), None)
      else (SniffErr ErrNoClue,
            if sc_wantsInRange ctx
            then map_option (\<lambda>inPool. inPool (dest_Address Target)) (fe_IsIPInIPPool engine)
            else None))"

definition newFakeDNSSniffer :: "FakeDNSEngine option \<Rightarrow> protocolSnifferWithMetadata result" where
  "newFakeDNSSniffer engine =
     (case engine of
        None \<Rightarrow> Inl (Error ''FakeDNSEngine is not initialized, but such a sniffer is used'')
      | Some e \<Rightarrow> Inr \<lparr>psm_sniffer = fakeDNSProtocolSniffer e, psm_metadataSniffer = True,
                       psm_network = Network_Unknown\<rparr>)"

fun sniffOthers :: "protocolSnifferWithMetadata list \<Rightarrow> sniff_ctx \<Rightarrow> byte list option \<Rightarrow> sniff_outcome" where
  "sniffOthers [] ctx bytes = SniffErr ErrNoClue"
| "sniffOthers (v # vs) ctx bytes =
     (if psm_metadataSniffer v \<or> bytes \<noteq> None then
        (case fst (psm_sniffer v ctx bytes) of
           Sniffed result \<Rightarrow> Sniffed (DNSThenOthersSniffResult (Domain result) (Protocol result))
         | SniffNil \<Rightarrow> SniffPanic
         | SniffPanic \<Rightarrow> SniffPanic
         | SniffErr _ \<Rightarrow> sniffOthers vs ctx bytes)
      else sniffOthers vs ctx bytes)"

text \<open>The composed sniffer sets the option of the context itself, so it writes nothing outside.\<close>

definition fakeDNSThenOthersSniffer ::
    "protocolSnifferWithMetadata \<Rightarrow> protocolSnifferWithMetadata list \<Rightarrow> protocolSniffer" where
  "fakeDNSThenOthersSniffer fakeDNS others ctx bytes =
     (let ctx' = ctx\<lparr>sc_wantsInRange := True\<rparr> in
      case psm_sniffer fakeDNS ctx' bytes of
        (Sniffed result, _) \<Rightarrow> (Sniffed result, None)
      | (SniffNil, _) \<Rightarrow> (SniffNil, None)
      | (SniffPanic, _) \<Rightarrow> (SniffPanic, None)
      | (SniffErr _, Some True) \<Rightarrow> (sniffOthers others ctx' bytes, None)
      | (SniffErr _, _) \<Rightarrow> (SniffErr ErrNoClue, None))"

definition newFakeDNSThenOthers ::
    "protocolSnifferWithMetadata \<Rightarrow> protocolSnifferWithMetadata list \<Rightarrow> protocolSnifferWithMetadata result" where
  "newFakeDNSThenOthers fakeDNSSniffer others =
     Inr \<lparr>psm_sniffer = fakeDNSThenOthersSniffer fakeDNSSniffer others,
          psm_metadataSniffer = False, psm_network = Network_Unknown\<rparr>"

text \<open>The content sniffers of xray-core, in the order of \<open>NewSniffer\<close>.\<close>

record content_sniffers =
  cs_SniffHTTP :: "byte list option \<Rightarrow> sniff_outcome"
  cs_SniffTLS :: "byte list option \<Rightarrow> sniff_outcome"
  cs_SniffBittorrent :: "byte list option \<Rightarrow> sniff_outcome"
  cs_SniffQUIC :: "byte list option \<Rightarrow> sniff_outcome"
  cs_SniffUTP :: "byte list option \<Rightarrow> sniff_outcome"

definition content_sniffer :: "(byte list option \<Rightarrow> sniff_outcome) \<Rightarrow> Network \<Rightarrow> protocolSnifferWithMetadata" where
  "content_sniffer f network =
     \<lparr>psm_sniffer = (\<lambda>ctx b. (f b, None)), psm_metadataSniffer = False, psm_network = network\<rparr>"

definition NewSniffer :: "content_sniffers \<Rightarrow> FakeDNSEngine option \<Rightarrow> protocolSnifferWithMetadata list" where
  "NewSniffer cs engine =
     (let base = [content_sniffer (cs_SniffHTTP cs) Network_TCP, content_sniffer (cs_SniffTLS cs) Network_TCP,
                  content_sniffer (cs_SniffBittorrent cs) Network_TCP, content_sniffer (cs_SniffQUIC cs) Network_UDP,
                  content_sniffer (cs_SniffUTP cs) Network_UDP] in
      case newFakeDNSSniffer engine of
        Inl _ \<Rightarrow> base
      | Inr sniffer \<Rightarrow>
          (case newFakeDNSThenOthers sniffer base of
             Inl _ \<Rightarrow> base @ [sniffer]
           | Inr thenOthers \<Rightarrow> [thenOthers] @ (base @ [sniffer])))"

section \<open>Running the sniffers\<close>

text \<open>
  The loop of \<open>Sniff\<close>: the answer of the first sniffer that settles, or the sniffers that had no
  clue.
\<close>

fun sniff_loop ::
    "protocolSnifferWithMetadata list \<Rightarrow> sniff_ctx \<Rightarrow> byte list option \<Rightarrow> Network \<Rightarrow>
     protocolSnifferWithMetadata list \<Rightarrow> sniff_outcome + protocolSnifferWithMetadata list" where
  "sniff_loop [] c payload network pending = Inr pending"
| "sniff_loop (si # sis) c payload network pending =
     (if psm_metadataSniffer si \<or> psm_network si \<noteq> network then sniff_loop sis c payload network pending
      else case fst (psm_sniffer si c payload) of
        SniffErr e \<Rightarrow> if e = ErrNoClue then sniff_loop sis c payload network (pending @ [si])
                      else sniff_loop sis c payload network pending
      | Sniffed result \<Rightarrow> Inl (Sniffed result)
      | SniffNil \<Rightarrow> sniff_loop sis c payload network pending
      | SniffPanic \<Rightarrow> Inl SniffPanic)"

definition Sniff ::
    "protocolSnifferWithMetadata list \<Rightarrow> sniff_ctx \<Rightarrow> byte list option \<Rightarrow> Network \<Rightarrow>
     sniff_outcome \<times> protocolSnifferWithMetadata list" where
  "Sniff sniffers c payload network =
     (case sniff_loop sniffers c payload network [] of
        Inl out \<Rightarrow> (out, sniffers)
      | Inr pending \<Rightarrow> if pending \<noteq> [] then (SniffErr ErrNoClue, pending)
                       else (SniffErr errUnknownContent, sniffers))"

fun metadata_loop ::
    "protocolSnifferWithMetadata list \<Rightarrow> sniff_ctx \<Rightarrow>
     protocolSnifferWithMetadata list \<Rightarrow> sniff_outcome + protocolSnifferWithMetadata list" where
  "metadata_loop [] c pending = Inr pending"
| "metadata_loop (si # sis) c pending =
     (if \<not> psm_metadataSniffer si then metadata_loop sis c (pending @ [si])
      else case fst (psm_sniffer si c None) of
        SniffErr e \<Rightarrow> if e = ErrNoClue then metadata_loop sis c (pending @ [si])
                      else metadata_loop sis c pending
      | Sniffed result \<Rightarrow> Inl (Sniffed result)
      | SniffNil \<Rightarrow> metadata_loop sis c pending
      | SniffPanic \<Rightarrow> Inl SniffPanic)"

definition SniffMetadata ::
    "protocolSnifferWithMetadata list \<Rightarrow> sniff_ctx \<Rightarrow> sniff_outcome \<times> protocolSnifferWithMetadata list" where
  "SniffMetadata sniffers c =
     (case metadata_loop sniffers c [] of
        Inl out \<Rightarrow> (out, sniffers)
      | Inr pending \<Rightarrow> if pending \<noteq> [] then (SniffErr ErrNoClue, pending)
                       else (SniffErr errUnknownContent, sniffers))"

section \<open>What the loops compute\<close>

definition applies :: "Network \<Rightarrow> protocolSnifferWithMetadata \<Rightarrow> bool" where
  "applies network si \<longleftrightarrow> \<not> psm_metadataSniffer si \<and> psm_network si = network"

definition answer :: "sniff_ctx \<Rightarrow> byte list option \<Rightarrow> protocolSnifferWithMetadata \<Rightarrow> sniff_outcome" where
  "answer c payload si = fst (psm_sniffer si c payload)"

definition settles :: "sniff_outcome \<Rightarrow> bool" where
  "settles out = (case out of Sniffed _ \<Rightarrow> True | SniffPanic \<Rightarrow> True | _ \<Rightarrow> False)"

lemma settles_simps [simp]:
  "settles (Sniffed r)" "settles SniffPanic" "\<not> settles SniffNil" "\<not> settles (SniffErr e)"
  by (simp_all add: settles_def)

lemma sniff_loop_spec:
  "sniff_loop sis c payload network pending =
     (case find (\<lambda>si. applies network si \<and> settles (answer c payload si)) sis of
        Some si \<Rightarrow> Inl (answer c payload si)
      | None \<Rightarrow> Inr (pending @ filter (\<lambda>si. applies network si \<and> answer c payload si = SniffErr ErrNoClue) sis))"
proof (induction sis arbitrary: pending)
  case Nil
  then show ?case by simp
next
  case (Cons si sis)
  have skip: "psm_metadataSniffer si \<or> psm_network si \<noteq> network \<longleftrightarrow> \<not> applies network si"
    by (auto simp: applies_def)
  show ?case
    using Cons.IH by (cases "answer c payload si") (auto simp: skip answer_def [symmetric] split: option.split)
qed

lemma metadata_loop_spec:
  "metadata_loop sis c pending =
     (case find (\<lambda>si. psm_metadataSniffer si \<and> settles (answer c None si)) sis of
        Some si \<Rightarrow> Inl (answer c None si)
      | None \<Rightarrow> Inr (pending @ filter (\<lambda>si. psm_metadataSniffer si \<longrightarrow> answer c None si = SniffErr ErrNoClue) sis))"
proof (induction sis arbitrary: pending)
  case Nil
  then show ?case by simp
next
  case (Cons si sis)
  then show ?case
    by (cases "answer c None si") (auto simp: answer_def [symmetric] split: option.split)
qed

lemma Sniff_subset: "Sniff sis c payload network = (out, sis') \<Longrightarrow> set sis' \<subseteq> set sis"
  by (auto simp: Sniff_def sniff_loop_spec split: option.splits sum.splits if_splits)

lemma SniffMetadata_subset: "SniffMetadata sis c = (out, sis') \<Longrightarrow> set sis' \<subseteq> set sis"
  by (auto simp: SniffMetadata_def metadata_loop_spec split: option.splits sum.splits if_splits)

lemma Sniff_result_from:
  "Sniff sis c payload network = (Sniffed r, sis') \<Longrightarrow>
   \<exists>si \<in> set sis. applies network si \<and> answer c payload si = Sniffed r"
  by (auto simp: Sniff_def sniff_loop_spec find_Some_iff
      split: option.splits sum.splits if_splits)

text \<open>
  The composed fake DNS sniffer is registered without a network: no lookup for TCP or UDP
  content reaches it, and the metadata pass skips it.
\<close>

lemma NewSniffer_applies:
  assumes "si \<in> set (NewSniffer cs engine)" and "applies network si" and "network \<noteq> Network_Unknown"
  shows "\<exists>f n. si = content_sniffer f n \<and>
    f \<in> {cs_SniffHTTP cs, cs_SniffTLS cs, cs_SniffBittorrent cs, cs_SniffQUIC cs, cs_SniffUTP cs}"
  using assms
  by (auto simp: NewSniffer_def newFakeDNSSniffer_def newFakeDNSThenOthers_def Let_def applies_def
      split: option.splits sum.splits)

section \<open>Properties\<close>

text \<open>
  \<open>Sniff\<close> answers with the first sniffer of the connection's network, in registration
  order, that recognises the payload. When none does, it keeps exactly the sniffers that
  asked for more data, so a protocol that was excluded is not asked again, and it gives up
  with the unknown-content error exactly when no sniffer is left.
\<close>

theorem Sniff_first_match_and_narrow:
  fixes c :: sniff_ctx and payload :: "byte list option" and network :: Network
  defines "good \<equiv> (\<lambda>si. applies network si \<and> settles (answer c payload si))"
  defines "unsure \<equiv> (\<lambda>si. applies network si \<and> answer c payload si = SniffErr ErrNoClue)"
  shows "Sniff sniffers c payload network =
     (case find good sniffers of
        Some si \<Rightarrow> (answer c payload si, sniffers)
      | None \<Rightarrow> if filter unsure sniffers \<noteq> [] then (SniffErr ErrNoClue, filter unsure sniffers)
                else (SniffErr errUnknownContent, sniffers))"
  by (simp add: Sniff_def sniff_loop_spec good_def unsure_def split: option.split)

text \<open>
  The sniffer that combines fake DNS with the content sniffers is never consulted: no
  content result for TCP or UDP comes from it, because it is registered for the unknown
  network. A protocol result of \<open>Sniff\<close> always comes from one of the five content sniffers.
\<close>

theorem fakeDNSThenOthers_unreachable:
  assumes "network = Network_TCP \<or> network = Network_UDP"
    and "set sniffers \<subseteq> set (NewSniffer cs engine)"
    and "Sniff sniffers c payload network = (Sniffed r, sniffers')"
  shows "Sniffed r \<in> {cs_SniffHTTP cs payload, cs_SniffTLS cs payload, cs_SniffBittorrent cs payload,
                      cs_SniffQUIC cs payload, cs_SniffUTP cs payload}"
proof -
  obtain si where si: "si \<in> set sniffers" "applies network si" "answer c payload si = Sniffed r"
    using Sniff_result_from [OF assms(3)] by blast
  obtain f n where "si = content_sniffer f n"
    and "f \<in> {cs_SniffHTTP cs, cs_SniffTLS cs, cs_SniffBittorrent cs, cs_SniffQUIC cs, cs_SniffUTP cs}"
    using NewSniffer_applies [of si cs engine network] si assms(1,2) by auto
  with si(3) show ?thesis by (auto simp: answer_def content_sniffer_def)
qed

definition example_sniffers :: content_sniffers where
  "example_sniffers = \<lparr>cs_SniffHTTP = (\<lambda>b. SniffErr ErrNoClue),
     cs_SniffTLS = (\<lambda>b. Sniffed (ProtocolResult ''tls'' ''a.com'')),
     cs_SniffBittorrent = (\<lambda>b. SniffErr errUnknownContent), cs_SniffQUIC = (\<lambda>b. SniffErr ErrNoClue),
     cs_SniffUTP = (\<lambda>b. SniffErr ErrNoClue)\<rparr>"

definition example_engine :: FakeDNSEngine where
  "example_engine = \<lparr>fe_GetDomainFromFakeDNS = (\<lambda>a. ''''), fe_IsIPInIPPool = Some (\<lambda>a. True)\<rparr>"

theorem fakeDNSThenOthers_unreachable_witness:
  "Sniffed (ProtocolResult ''tls'' ''a.com'') \<in>
     {cs_SniffHTTP example_sniffers (Some [1]), cs_SniffTLS example_sniffers (Some [1]),
      cs_SniffBittorrent example_sniffers (Some [1]), cs_SniffQUIC example_sniffers (Some [1]),
      cs_SniffUTP example_sniffers (Some [1])}"
proof -
  let ?c = "\<lparr>sc_Target = \<lparr>dest_Address = IPAddress ''198.18.0.1'', dest_Port = 443, dest_Network = Network_TCP\<rparr>,
             sc_wantsInRange = False\<rparr>"
  have "\<exists>s'. Sniff (NewSniffer example_sniffers (Some example_engine)) ?c (Some [1]) Network_TCP
          = (Sniffed (ProtocolResult ''tls'' ''a.com''), s')"
    by (simp add: Sniff_def NewSniffer_def newFakeDNSSniffer_def newFakeDNSThenOthers_def
        content_sniffer_def example_sniffers_def)
  then obtain s' where "Sniff (NewSniffer example_sniffers (Some example_engine)) ?c (Some [1]) Network_TCP
          = (Sniffed (ProtocolResult ''tls'' ''a.com''), s')" by blast
  from fakeDNSThenOthers_unreachable [OF _ subset_refl this] show ?thesis by simp
qed

end
