(* ===== verification/Dispatcher.thy ===== *)
theory Dispatcher
  imports User_IO Rule Sniffer
begin

text \<open>
  The dispatcher of \<open>app/mydispatcher/default.go\<close>: sniffing a connection, overriding its
  destination, auditing it, choosing the outbound, and the two ways to carry it (a link of
  pipes, or the direct path that hands the outbound socket over). Handlers, router, DNS and
  fake DNS belong to xray-core and are parameters, collected in an environment record; so is
  \<open>net.ParseAddress\<close>. Logging is left out.
\<close>

section \<open>Environment and state\<close>

record session_outbound =
  so_Target :: Destination
  so_RouteTarget :: "Destination option"

record SniffingRequest =
  sr_ExcludeForDomain :: "string list"
  sr_OverrideDestinationForProtocol :: "string list"
  sr_Enabled :: bool
  sr_MetadataOnly :: bool
  sr_RouteOnly :: bool

text \<open>What opening a direct outbound gives: an error, no support, or a link that may be nil or
  incomplete.\<close>

record ('r, 'w) DirectLink =
  dl_Reader :: "'r reader_stack option"
  dl_Writer :: "'w writer_stack option"
  dl_flow :: "userIO option"

datatype ('r, 'w) open_direct =
    OpenError go_error
  | OpenUnsupported
  | OpenLink "('r, 'w) DirectLink option"

record ('h, 'r, 'w) disp_env =
  de_LookupHosts :: "(string \<Rightarrow> Address option) option"
  de_GetHandler :: "string \<Rightarrow> 'h option"
  de_GetDefaultHandler :: "'h option"
  de_HandlerTag :: "'h \<Rightarrow> string"
  de_OpenDirect :: "'h \<Rightarrow> (Destination \<Rightarrow> ('r, 'w) open_direct) option"
  de_PickRoute :: "(session_outbound \<Rightarrow> string \<Rightarrow> string result) option"
  de_matches :: "string \<Rightarrow> string \<Rightarrow> bool"
  de_fdns :: "FakeDNSEngine option"
  de_ParseAddress :: "string \<Rightarrow> Address"
  de_sniffers :: content_sniffers
  de_ForLevel :: "uint32 \<Rightarrow> policy_stats"

record direct_metrics =
  dm_attempts :: nat
  dm_fallback :: nat
  dm_success :: nat
  dm_failures :: "(string, nat) gomap"

record 'c dispatcher =
  dd_flow :: "'c flow_state"
  dd_RuleManager :: Manager
  dd_metrics :: direct_metrics
  dd_linksClosed :: nat

section \<open>Sniffing a connection\<close>

text \<open>
  The loop of \<open>sniffer\<close>: at most \<open>n\<close> more attempts. \<open>done\<close> tells, for each attempt, whether the
  context was cancelled. \<open>None\<close> is a read that blocks.
\<close>

fun sniff_attempts ::
    "nat \<Rightarrow> (nat \<Rightarrow> string option) \<Rightarrow> 'r read_op \<Rightarrow> 'r read_op option \<Rightarrow> sniff_ctx \<Rightarrow> Network \<Rightarrow>
     protocolSnifferWithMetadata list \<Rightarrow> 'r cachedReader \<Rightarrow> (sniff_outcome \<times> 'r cachedReader) option" where
  "sniff_attempts 0 done rd rdT ctx network sniffers cReader =
     (case done 0 of
        Some err \<Rightarrow> Some (SniffErr (SniffFailure err), cReader)
      | None \<Rightarrow> Some (SniffErr errSniffingTimeout, cReader))"
| "sniff_attempts (Suc n) done rd rdT ctx network sniffers cReader =
     (case done (Suc n) of
        Some err \<Rightarrow> Some (SniffErr (SniffFailure err), cReader)
      | None \<Rightarrow>
          (case cached_Cache rd rdT cReader of
             None \<Rightarrow> None
           | Some (payload, cReader') \<Rightarrow>
               let (out, sniffers') =
                     (if payload \<noteq> [] then Sniff sniffers ctx (Some payload) network
                      else (SniffErr ErrNoClue, sniffers)) in
               if payload \<noteq> [] \<and> out \<noteq> SniffErr ErrNoClue then Some (out, cReader')
               else if buf_Size \<le> length payload then Some (SniffErr errUnknownContent, cReader')
               else sniff_attempts n done rd rdT ctx network sniffers' cReader'))"

definition sniffer ::
    "content_sniffers \<Rightarrow> FakeDNSEngine option \<Rightarrow> (nat \<Rightarrow> string option) \<Rightarrow> 'r read_op \<Rightarrow> 'r read_op option \<Rightarrow>
     sniff_ctx \<Rightarrow> bool \<Rightarrow> Network \<Rightarrow> 'r cachedReader \<Rightarrow> (sniff_outcome \<times> 'r cachedReader) option" where
  "sniffer cs engine done rd rdT ctx metadataOnly network cReader =
     (let (meta, sniffers) = SniffMetadata (NewSniffer cs engine) ctx in
      if metadataOnly then Some (meta, cReader)
      else
        (case sniff_attempts 2 done rd rdT ctx network sniffers cReader of
           None \<Rightarrow> None
         | Some (content, cReader') \<Rightarrow>
             Some (case (content, meta) of
                     (SniffErr _, Sniffed m) \<Rightarrow> Sniffed m
                   | (Sniffed c, Sniffed m) \<Rightarrow> Sniffed (CompositeResult m c)
                   | _ \<Rightarrow> content, cReader')))"

section \<open>Overriding the destination\<close>

definition shouldOverride ::
    "FakeDNSEngine option \<Rightarrow> SniffResult \<Rightarrow> SniffingRequest \<Rightarrow> Destination \<Rightarrow> bool" where
  "shouldOverride fdns res request destination =
     (let domain = Domain res in
      if \<exists>d \<in> set (sr_ExcludeForDomain request). ToLower domain = d then False
      else
        let protocolString = (case ProtocolForDomainResult res of Some p \<Rightarrow> p | None \<Rightarrow> Protocol res);
            inPool = (case Option.bind fdns fe_IsIPInIPPool of
                        None \<Rightarrow> False
                      | Some f \<Rightarrow> addr_IsIP (dest_Address destination) \<and> f (dest_Address destination))
        in \<exists>p \<in> set (sr_OverrideDestinationForProtocol request).
             HasPrefix protocolString p
             \<or> (protocolString \<noteq> ''bittorrent'' \<and> p = ''fakedns'' \<and> inPool)
             \<or> IsProtoSubsetOf res p)"

text \<open>
  The sniffing part that \<open>Dispatch\<close>, \<open>DispatchLink\<close> and \<open>DispatchDirect\<close> share: the content's
  protocol (unchanged when nothing was recognised), the new destination and the new outbound
  session.
\<close>

definition sniffAndOverride ::
    "('h, 'x, 'w) disp_env \<Rightarrow> (nat \<Rightarrow> string option) \<Rightarrow> 'r read_op \<Rightarrow> 'r read_op option \<Rightarrow> SniffingRequest \<Rightarrow>
     string \<Rightarrow> Destination \<Rightarrow> session_outbound \<Rightarrow> 'r cachedReader \<Rightarrow>
     (string \<times> Destination \<times> session_outbound \<times> 'r cachedReader) option" where
  "sniffAndOverride env done rd rdT request protocol destination ob cReader =
     (case sniffer (de_sniffers env) (de_fdns env) done rd rdT
             \<lparr>sc_Target = so_Target ob, sc_wantsInRange = False\<rparr>
             (sr_MetadataOnly request) (dest_Network destination) cReader of
        None \<Rightarrow> None
      | Some (Sniffed result, cReader') \<Rightarrow>
          if shouldOverride (de_fdns env) result request destination then
            (let destination' = destination\<lparr>dest_Address := de_ParseAddress env (Domain result)\<rparr>;
                 ob' = (if sr_RouteOnly request \<and> Protocol result \<noteq> ''fakedns''
                        then ob\<lparr>so_RouteTarget := Some destination'\<rparr>
                        else ob\<lparr>so_Target := destination'\<rparr>)
             in Some (Protocol result, destination', ob', cReader'))
          else Some (Protocol result, destination, ob, cReader')
      | Some (_, cReader') \<Rightarrow> Some (protocol, destination, ob, cReader'))"

section \<open>Choosing the outbound\<close>

record 'h outboundSelection =
  os_handler :: 'h
  os_destination :: Destination
  os_inboundTag :: string
  os_pickRoute :: nat

definition selectOutbound ::
    "('h, 'x, 'w) disp_env \<Rightarrow> session_inbound option \<Rightarrow> string \<Rightarrow> string \<Rightarrow> session_outbound option \<Rightarrow> Destination \<Rightarrow> Manager \<Rightarrow>
     'h outboundSelection result \<times> session_outbound option \<times> Manager" where
  "selectOutbound env sess protocol forcedOutboundTag ob0 destination0 rm =
     (case ob0 of
        None \<Rightarrow> (Inl (Error ''outbound session not found''), ob0, rm)
      | Some ob1 \<Rightarrow>
          let proxied = (case de_LookupHosts env of
                           None \<Rightarrow> None
                         | Some lookup \<Rightarrow> if addr_IsDomain (dest_Address destination0)
                                          then lookup (dest_String (so_Target ob1)) else None);
              destination = (case proxied of None \<Rightarrow> destination0
                               | Some a \<Rightarrow> destination0\<lparr>dest_Address := a\<rparr>);
              ob = (case proxied of
                      None \<Rightarrow> ob1
                    | Some a \<Rightarrow> if so_RouteTarget ob1 = Some destination0
                               then ob1\<lparr>so_RouteTarget := Some destination\<rparr>
                               else ob1\<lparr>so_Target := destination\<rparr>);
              (rejected, rm') = (case sess of
                   None \<Rightarrow> (False, rm)
                 | Some si \<Rightarrow> (case si_User si of
                       None \<Rightarrow> (False, rm)
                     | Some user \<Rightarrow> Detect (de_matches env) (si_Tag si) (dest_String destination) (su_Email user) rm))
          in
          if rejected then (Inl (Error ''destination is reject by rule''), Some ob, rm')
          else
            let inTag = (case sess of None \<Rightarrow> '''' | Some si \<Rightarrow> si_Tag si);
                fallback = (case de_GetHandler env inTag of Some h \<Rightarrow> Some h | None \<Rightarrow> de_GetDefaultHandler env);
                finish = (\<lambda>picked pick. case (case picked of Some h \<Rightarrow> Some h | None \<Rightarrow> fallback) of
                      None \<Rightarrow> (Inl (Error ''default outbound handler not exist''), Some ob, rm')
                    | Some h \<Rightarrow> (Inr \<lparr>os_handler = h, os_destination = so_Target ob, os_inboundTag = inTag,
                                      os_pickRoute = pick\<rparr>, Some ob, rm'))
            in
            if forcedOutboundTag \<noteq> '''' then
              (case de_GetHandler env forcedOutboundTag of
                 Some h \<Rightarrow> finish (Some h) 1
               | None \<Rightarrow> (Inl (Error (''non existing tag for platform initialized detour: '' @ forcedOutboundTag)), Some ob, rm'))
            else
              (case de_PickRoute env of
                 None \<Rightarrow> finish None 0
               | Some route \<Rightarrow>
                   (case route ob protocol of
                      Inl _ \<Rightarrow> finish None 0
                    | Inr outTag \<Rightarrow>
                        (case de_GetHandler env outTag of
                           Some h \<Rightarrow> finish (Some h) 2
                         | None \<Rightarrow> finish None 0))))"

text \<open>\<open>recordAccess\<close> names the route in the access log.\<close>

definition recordAccess :: "('h, 'x, 'w) disp_env \<Rightarrow> 'h outboundSelection \<Rightarrow> string \<Rightarrow> string" where
  "recordAccess env selection detour =
     (let tag = de_HandlerTag env (os_handler selection) in
      if tag = '''' then detour
      else if os_inboundTag selection = '''' then tag
      else if os_pickRoute selection = 1 then os_inboundTag selection @ '' ==> '' @ tag
      else if os_pickRoute selection = 2 then os_inboundTag selection @ '' -> '' @ tag
      else os_inboundTag selection @ '' >> '' @ tag)"

section \<open>The direct path\<close>

definition fail_metric :: "string \<Rightarrow> direct_metrics \<Rightarrow> direct_metrics" where
  "fail_metric k m =
     m\<lparr>dm_failures := store k (Suc (case load (dm_failures m) k of None \<Rightarrow> 0 | Some n \<Rightarrow> n)) (dm_failures m)\<rparr>"

definition fallback_metric :: "direct_metrics \<Rightarrow> direct_metrics" where
  "fallback_metric m = m\<lparr>dm_fallback := Suc (dm_fallback m)\<rparr>"

definition release_flow :: "userIO \<Rightarrow> (direct_metrics \<Rightarrow> direct_metrics) \<Rightarrow> 'c dispatcher \<Rightarrow> 'c dispatcher" where
  "release_flow u metric d =
     d\<lparr>dd_flow := (dd_flow d)\<lparr>fs_flows := snd (userIO_Release u (fs_flows (dd_flow d)))\<rparr>,
       dd_metrics := metric (dd_metrics d)\<rparr>"

text \<open>The part after sniffing: select, open, wrap.\<close>

definition openDirect ::
    "('h, 'x, 'w) disp_env \<Rightarrow> session_inbound option \<Rightarrow> string \<Rightarrow> string \<Rightarrow> session_outbound \<Rightarrow> Destination \<Rightarrow> userIO \<Rightarrow>
     'i \<Rightarrow> 'c dispatcher \<Rightarrow> (('x, 'w) DirectLink option \<times> 'i \<times> go_error option) \<times> 'c dispatcher" where
  "openDirect env sess protocol forcedTag ob destination u replay d =
     (let (sel, _, rm') = selectOutbound env sess protocol forcedTag (Some ob) destination (dd_RuleManager d);
          d1 = d\<lparr>dd_RuleManager := rm'\<rparr>
      in case sel of
        Inl err \<Rightarrow> ((None, replay, Some err), release_flow u (fail_metric ''select_outbound'') d1)
      | Inr selection \<Rightarrow>
          (case de_OpenDirect env (os_handler selection) of
             None \<Rightarrow> ((None, replay, None), release_flow u fallback_metric d1)
           | Some open \<Rightarrow>
               (case open (os_destination selection) of
                  OpenError err \<Rightarrow> ((None, replay, Some err), release_flow u (fail_metric ''open_direct'') d1)
                | OpenUnsupported \<Rightarrow> ((None, replay, None), release_flow u fallback_metric d1)
                | OpenLink ol \<Rightarrow>
                    (case Option.bind ol (\<lambda>l. Option.bind (dl_Reader l) (\<lambda>r. map_option (\<lambda>w. (l, r, w)) (dl_Writer l))) of
                       None \<Rightarrow> ((None, replay, Some (Error ''direct outbound returned an invalid link'')),
                                release_flow u (fail_metric ''invalid_link'')
                                  (if ol = None then d1 else d1\<lparr>dd_linksClosed := Suc (dd_linksClosed d1)\<rparr>))
                     | Some (l, r, w) \<Rightarrow>
                         ((Some (l\<lparr>dl_flow := Some u,
                                   dl_Writer := Some (wrapUserWriter w (uio_bucket u) (uio_speedLimited u) (uio_uplinkCounter u)),
                                   dl_Reader := Some (wrapUserReader r (uio_bucket u) (uio_speedLimited u) (uio_downlinkCounter u))\<rparr>),
                           replay, None),
                          d1\<lparr>dd_metrics := (dd_metrics d1)\<lparr>dm_success := Suc (dm_success (dd_metrics d1))\<rparr>\<rparr>)))))"

definition DispatchDirect ::
    "bool \<Rightarrow> 'c cache_iface \<Rightarrow> ('h, 'x, 'w) disp_env \<Rightarrow> (nat \<Rightarrow> string option) \<Rightarrow> 'r read_op \<Rightarrow> 'r read_op option \<Rightarrow>
     session_inbound option \<Rightarrow> SniffingRequest \<Rightarrow> string \<Rightarrow> string \<Rightarrow> Destination \<Rightarrow> 'r \<Rightarrow> 'c dispatcher \<Rightarrow>
     ((('x, 'w) DirectLink option \<times> 'r input_reader \<times> go_error option) \<times> 'c dispatcher) option" where
  "DispatchDirect enabled iface env done rd rdT sess request protocol forcedTag destination input d0 =
     (if \<not> enabled then Some ((None, PlainReader input, None), d0)
      else
      let d = d0\<lparr>dd_metrics := (dd_metrics d0)\<lparr>dm_attempts := Suc (dm_attempts (dd_metrics d0))\<rparr>\<rparr> in
      if \<not> dest_IsValid destination then
        Some ((None, PlainReader input, Some (Error ''Dispatcher: Invalid destination.'')),
              d\<lparr>dd_metrics := fail_metric ''invalid_destination'' (dd_metrics d)\<rparr>)
      else if dest_Network destination \<noteq> Network_TCP then Some ((None, PlainReader input, None), d)
      else
        (case getUserIO iface (de_ForLevel env) sess (dd_flow d) of
           (Inl err, fs) \<Rightarrow>
             Some ((None, PlainReader input, Some err),
                   d\<lparr>dd_flow := fs, dd_metrics := fail_metric ''user_io'' (dd_metrics d)\<rparr>)
         | (Inr u, fs) \<Rightarrow>
             let d1 = d\<lparr>dd_flow := fs\<rparr>; ob = \<lparr>so_Target = destination, so_RouteTarget = None\<rparr> in
             if sr_Enabled request then
               (case sniffAndOverride env done rd rdT request protocol destination ob \<lparr>cr_reader = input, cr_cache = []\<rparr> of
                  None \<Rightarrow> None
                | Some (protocol', destination', ob', cReader) \<Rightarrow>
                    Some (openDirect env sess protocol' forcedTag ob' destination' u (fst (cached_ReplayReader cReader)) d1))
             else Some (openDirect env sess protocol forcedTag ob destination u (PlainReader input) d1)))"

section \<open>Links of pipes\<close>

subsection \<open>UDP hooks\<close>

text \<open>
  \<open>getLink\<close> gives the pipes of a UDP connection transmission hooks that translate between
  domains, fake addresses and resolved addresses. The two hooks share the map \<open>ip2domain\<close>
  (\<open>None\<close> is the nil map).
\<close>

record udp_buffer =
  ub_data :: "byte list"
  ub_Address :: "Address option"

record udp_env =
  ue_Rev0 :: "((Address \<Rightarrow> bool) \<times> (Address \<Rightarrow> string) \<times> (string \<Rightarrow> Address list)) option"
  ue_LookupIP :: "string \<Rightarrow> string list result"

definition uplink_buffer :: "udp_env \<Rightarrow> bool \<Rightarrow> udp_buffer \<Rightarrow> (string \<rightharpoonup> string) option \<Rightarrow> udp_buffer \<times> (string \<rightharpoonup> string) option" where
  "uplink_buffer ue sniffing b ip2domain =
     (case ub_Address b of
        None \<Rightarrow> (b, ip2domain)
      | Some (IPAddress ip) \<Rightarrow>
          (case ue_Rev0 ue of
             Some (inPool, getDomain, _) \<Rightarrow>
               if inPool (IPAddress ip) \<and> sniffing then
                 (let domain = getDomain (IPAddress ip) in
                  if domain \<noteq> '''' then (b\<lparr>ub_Address := Some (DomainAddress domain)\<rparr>, ip2domain) else (b, ip2domain))
               else (b, ip2domain)
           | None \<Rightarrow> (b, ip2domain))
      | Some (DomainAddress domain) \<Rightarrow>
          let m = (case ip2domain of None \<Rightarrow> Map.empty | Some m \<Rightarrow> m) in
          (b, Some (case ue_LookupIP ue domain of
                      Inl _ \<Rightarrow> m
                    | Inr ips \<Rightarrow> foldl (\<lambda>m ip. m(ip \<mapsto> domain)) m ips)))"

fun uplink_hook :: "udp_env \<Rightarrow> bool \<Rightarrow> udp_buffer list \<Rightarrow> (string \<rightharpoonup> string) option \<Rightarrow> udp_buffer list \<times> (string \<rightharpoonup> string) option" where
  "uplink_hook ue sniffing [] ip2domain = ([], ip2domain)"
| "uplink_hook ue sniffing (b # bs) ip2domain =
     (let (b', m') = uplink_buffer ue sniffing b ip2domain; (bs', m'') = uplink_hook ue sniffing bs m' in (b' # bs', m''))"

text \<open>A fake address pool that gives no address for a domain would panic at \<open>fakeIp[0]\<close>: \<open>None\<close>.\<close>

definition downlink_buffer :: "udp_env \<Rightarrow> (string \<rightharpoonup> string) option \<Rightarrow> udp_buffer \<Rightarrow> udp_buffer option" where
  "downlink_buffer ue ip2domain b =
     (case ub_Address b of
        None \<Rightarrow> Some b
      | Some (IPAddress ip) \<Rightarrow>
          (case ip2domain of
             None \<Rightarrow> Some b
           | Some m \<Rightarrow> (case m ip of None \<Rightarrow> Some b | Some domain \<Rightarrow> Some (b\<lparr>ub_Address := Some (DomainAddress domain)\<rparr>)))
      | Some (DomainAddress domain) \<Rightarrow>
          (case ue_Rev0 ue of
             None \<Rightarrow> Some b
           | Some (_, _, getFakeIP) \<Rightarrow>
               (case getFakeIP domain of [] \<Rightarrow> None | a # _ \<Rightarrow> Some (b\<lparr>ub_Address := Some a\<rparr>))))"

fun downlink_hook :: "udp_env \<Rightarrow> (string \<rightharpoonup> string) option \<Rightarrow> udp_buffer list \<Rightarrow> udp_buffer list option" where
  "downlink_hook ue ip2domain [] = Some []"
| "downlink_hook ue ip2domain (b # bs) =
     (case downlink_buffer ue ip2domain b of
        None \<Rightarrow> None
      | Some b' \<Rightarrow> map_option (\<lambda>bs'. b' # bs') (downlink_hook ue ip2domain bs))"

subsection \<open>Building a link\<close>

datatype pipe_end = UplinkPipe | DownlinkPipe

text \<open>
  Both links of a connection over its two pipes: the inbound link reads the downlink pipe and
  writes the uplink pipe, the outbound link the other way round. The writers share one
  lifecycle.
\<close>

record connection =
  co_up :: pipe
  co_down :: pipe
  co_inWriter :: "pipe_end writer_stack lifecycleWriter"
  co_outWriter :: "pipe_end writer_stack lifecycleWriter"
  co_outCache :: MultiBuffer
  co_lifecycle :: "userConnectionLifecycle option"

definition new_pipe :: "int \<Rightarrow> bool \<Rightarrow> pipe" where
  "new_pipe limit discard = \<lparr>p_data = None, p_state = pipe_open, p_limit = limit, p_discardOverflow = discard\<rparr>"

text \<open>
  Closing a writer stack closes the pipe below it. Interrupting it interrupts the pipe, except
  that a rate-limited writer has no \<open>Interrupt\<close>, for which \<open>common.Interrupt\<close> falls back to
  \<open>Close\<close>.
\<close>

fun stack_closes_only :: "'w writer_stack \<Rightarrow> bool" where
  "stack_closes_only (BaseWriter w) = False"
| "stack_closes_only (RateWriter b ws) = True"
| "stack_closes_only (SizeStatWriter c ws) = stack_closes_only ws"

definition getLink ::
    "'c cache_iface \<Rightarrow> (uint32 \<Rightarrow> policy_stats) \<Rightarrow> session_inbound option \<Rightarrow> int \<Rightarrow> bool \<Rightarrow> 'c flow_state \<Rightarrow>
     connection result \<times> (pipe \<times> pipe) \<times> 'c flow_state" where
  "getLink iface ForLevel sess limit discard d =
     (let up = new_pipe limit discard; down = new_pipe limit discard in
      case getUserIO iface ForLevel sess d of
        (Inl err, d') \<Rightarrow>
          (Inl err,
           (pipe_Interrupt (snd (pipe_Close up)), pipe_Interrupt (snd (pipe_Close down))), d')
      | (Inr io, d') \<Rightarrow>
          (Inr \<lparr>co_up = up, co_down = down,
                co_inWriter = \<lparr>lw_Writer = wrapUserWriter (BaseWriter UplinkPipe) (uio_bucket io) (uio_speedLimited io) (uio_uplinkCounter io), lw_once = False\<rparr>,
                co_outWriter = \<lparr>lw_Writer = wrapUserWriter (BaseWriter DownlinkPipe) (uio_bucket io) (uio_speedLimited io) (uio_downlinkCounter io), lw_once = False\<rparr>,
                co_outCache = [],
                co_lifecycle = Some (newUserConnectionLifecycle (Some io) 2)\<rparr>, (up, down), d'))"

text \<open>Closing the outbound writer, and interrupting the outbound reader with what it cached.\<close>

definition close_outbound_writer :: "connection \<Rightarrow> userFlowRegistry \<Rightarrow> connection \<times> userFlowRegistry" where
  "close_outbound_writer c r =
     (let (_, w', l', r') = lifecycleWriter_Close (\<lambda>w. (None, w)) (co_outWriter c, co_lifecycle c, r) in
      (c\<lparr>co_outWriter := w', co_lifecycle := l', co_down := snd (pipe_Close (co_down c))\<rparr>, r'))"

definition interrupt_outbound_reader :: "connection \<Rightarrow> connection" where
  "interrupt_outbound_reader c = c\<lparr>co_outCache := mb_ReleaseMulti (co_outCache c), co_up := pipe_Interrupt (co_up c)\<rparr>"

definition close_inbound_writer :: "connection \<Rightarrow> userFlowRegistry \<Rightarrow> connection \<times> userFlowRegistry" where
  "close_inbound_writer c r =
     (let (_, w', l', r') = lifecycleWriter_Close (\<lambda>w. (None, w)) (co_inWriter c, co_lifecycle c, r) in
      (c\<lparr>co_inWriter := w', co_lifecycle := l', co_up := snd (pipe_Close (co_up c))\<rparr>, r'))"

text \<open>Interrupting the inbound writer: the pipe is broken off, or only closed under a rate limit.\<close>

definition interrupt_inbound_writer :: "connection \<Rightarrow> userFlowRegistry \<Rightarrow> connection \<times> userFlowRegistry" where
  "interrupt_inbound_writer c r =
     (let (w', l', r') = lifecycleWriter_Interrupt (\<lambda>w. w) (co_inWriter c, co_lifecycle c, r) in
      (c\<lparr>co_inWriter := w', co_lifecycle := l',
         co_up := (if stack_closes_only (lw_Writer (co_inWriter c)) then snd (pipe_Close (co_up c)) else pipe_Interrupt (co_up c))\<rparr>, r'))"

definition routedDispatch ::
    "('h, 'x, 'w) disp_env \<Rightarrow> session_inbound option \<Rightarrow> string \<Rightarrow> string \<Rightarrow> session_outbound \<Rightarrow> Destination \<Rightarrow>
     string \<Rightarrow> connection \<Rightarrow> 'c dispatcher \<Rightarrow> ('h \<times> string) option \<times> connection \<times> 'c dispatcher" where
  "routedDispatch env sess protocol forcedTag ob destination detour c d =
     (case selectOutbound env sess protocol forcedTag (Some ob) destination (dd_RuleManager d) of
        (Inl err, _, rm) \<Rightarrow>
          let (c', r') = close_outbound_writer c (fs_flows (dd_flow d)) in
          (None, interrupt_outbound_reader c', d\<lparr>dd_RuleManager := rm, dd_flow := (dd_flow d)\<lparr>fs_flows := r'\<rparr>\<rparr>)
      | (Inr selection, _, rm) \<Rightarrow>
          (Some (os_handler selection, recordAccess env selection detour), c, d\<lparr>dd_RuleManager := rm\<rparr>))"

text \<open>
  The goroutine that \<open>Dispatch\<close> and \<open>DispatchLink\<close> start for an outbound link: sniff when asked to,
  then route. It reads the uplink pipe through the caching reader.
\<close>

definition dispatchRoutine ::
    "('h, 'x, 'w) disp_env \<Rightarrow> (nat \<Rightarrow> string option) \<Rightarrow> session_inbound option \<Rightarrow> SniffingRequest \<Rightarrow> string \<Rightarrow> string \<Rightarrow>
     Destination \<Rightarrow> string \<Rightarrow> connection \<Rightarrow> 'c dispatcher \<Rightarrow> (('h \<times> string) option \<times> connection \<times> 'c dispatcher) option" where
  "dispatchRoutine env done sess request protocol forcedTag destination detour c d =
     (let ob = \<lparr>so_Target = destination, so_RouteTarget = None\<rparr> in
      if \<not> sr_Enabled request
      then Some (routedDispatch env sess protocol forcedTag ob destination detour c d)
      else
        (case sniffAndOverride env done pipe_ReadMultiBuffer (Some pipe_ReadMultiBufferTimeout) request protocol
                destination ob \<lparr>cr_reader = co_up c, cr_cache = co_outCache c\<rparr> of
           None \<Rightarrow> None
         | Some (protocol', destination', ob', cReader) \<Rightarrow>
             Some (routedDispatch env sess protocol' forcedTag ob' destination' detour
                     (c\<lparr>co_up := cr_reader cReader, co_outCache := cr_cache cReader\<rparr>) d)))"

datatype 'a dispatch_result = DispatchPanic | DispatchFailed go_error | Dispatched 'a

definition Dispatch ::
    "'c cache_iface \<Rightarrow> ('h, 'x, 'w) disp_env \<Rightarrow> session_inbound option \<Rightarrow> int \<Rightarrow> bool \<Rightarrow> Destination \<Rightarrow> 'c dispatcher \<Rightarrow>
     connection dispatch_result \<times> 'c dispatcher" where
  "Dispatch iface env sess limit discard destination d =
     (if \<not> dest_IsValid destination then (DispatchPanic, d)
      else case getLink iface (de_ForLevel env) sess limit discard (dd_flow d) of
        (Inl err, _, fs) \<Rightarrow> (DispatchFailed err, d\<lparr>dd_flow := fs\<rparr>)
      | (Inr c, _, fs) \<Rightarrow> (Dispatched c, d\<lparr>dd_flow := fs\<rparr>))"

text \<open>
  \<open>DispatchLink\<close> runs the same goroutine on a link the caller brings; the value is the returned
  error together with what the goroutine leaves behind.
\<close>

definition DispatchLink ::
    "('h, 'x, 'w) disp_env \<Rightarrow> (nat \<Rightarrow> string option) \<Rightarrow> session_inbound option \<Rightarrow> SniffingRequest \<Rightarrow> string \<Rightarrow> string \<Rightarrow>
     Destination \<Rightarrow> string \<Rightarrow> connection \<Rightarrow> 'c dispatcher \<Rightarrow>
     go_error option \<times> (('h \<times> string) option \<times> connection \<times> 'c dispatcher) option" where
  "DispatchLink env done sess request protocol forcedTag destination detour c d =
     (if \<not> dest_IsValid destination then (Some (Error ''Dispatcher: Invalid destination.''), Some (None, c, d))
      else (None, dispatchRoutine env done sess request protocol forcedTag destination detour c d))"

section \<open>Facts\<close>

lemma sniff_attempts_content:
  assumes "byte_source rd rdT content"
  shows "sniff_attempts n done rd rdT ctx network sniffers r = Some (out, r') \<Longrightarrow>
    byte_source.cached_content content r' = byte_source.cached_content content r"
proof (induction n arbitrary: sniffers r)
  case 0
  then show ?case by (auto split: option.splits)
next
  case (Suc n)
  show ?case
  proof (cases "done (Suc n)")
    case None
    then obtain payload r1 where c: "cached_Cache rd rdT r = Some (payload, r1)"
      using Suc.prems by (auto split: option.splits)
    have keep: "byte_source.cached_content content r1 = byte_source.cached_content content r"
      using byte_source.Cache_content [OF assms c] by simp
    show ?thesis
      using Suc.prems Suc.IH [of _ r1] None c keep by (auto simp: Let_def split: prod.splits if_splits)
  next
    case (Some e)
    with Suc.prems show ?thesis by simp
  qed
qed

lemma sniffer_content:
  assumes "byte_source rd rdT content"
    and "sniffer cs engine done rd rdT ctx metadataOnly network r = Some (out, r')"
  shows "byte_source.cached_content content r' = byte_source.cached_content content r"
  using assms(2) sniff_attempts_content [OF assms(1)]
  by (auto simp: sniffer_def split: prod.splits if_splits option.splits)

lemma sniffAndOverride_content:
  assumes "byte_source rd rdT content"
    and "sniffAndOverride env done rd rdT request protocol destination ob r = Some (p', dst', ob', r')"
  shows "byte_source.cached_content content r' = byte_source.cached_content content r
    \<and> dest_Network dst' = dest_Network destination"
  using assms(2) sniffer_content [OF assms(1)]
  by (auto simp: sniffAndOverride_def Let_def split: option.splits prod.splits sniff_outcome.splits if_splits)

text \<open>What \<open>openDirect\<close> does with the flow: given back unless a link is returned.\<close>

lemma release_flow_proj [simp]:
  "fs_flows (dd_flow (release_flow u f d)) = snd (userIO_Release u (fs_flows (dd_flow d)))"
  "dd_RuleManager (release_flow u f d) = dd_RuleManager d"
  by (simp_all add: release_flow_def)

lemma openDirect_flow:
  assumes "openDirect env sess protocol forcedTag ob destination u replay d = ((link, reader, err), d')"
  shows "reader = replay"
    and "link = None \<Longrightarrow> fs_flows (dd_flow d') = snd (userIO_Release u (fs_flows (dd_flow d)))"
    and "link = Some l \<Longrightarrow> dl_flow l = Some u \<and> err = None \<and> dd_flow d' = dd_flow d"
  using assms
  by (auto simp: openDirect_def Let_def split: prod.splits sum.splits option.splits open_direct.splits bind_splits)

text \<open>The three ways through \<open>DispatchDirect\<close>.\<close>

lemma DispatchDirect_cases:
  assumes "DispatchDirect enabled iface env done rd rdT sess request protocol forcedTag destination input d
           = Some ((link, reader, err), d')"
    and g: "getUserIO iface (de_ForLevel env) sess (dd_flow d) = (res, fs)"
  obtains (early) "link = None" "reader = PlainReader input" "dd_flow d' = dd_flow d"
  | (failed) e where "res = Inl e" "link = None" "reader = PlainReader input" "dd_flow d' = fs"
  | (opened) u pr ob dst rp d1 where "res = Inr u" "dd_flow d1 = fs" "dd_RuleManager d1 = dd_RuleManager d"
      "openDirect env sess pr forcedTag ob dst u rp d1 = ((link, reader, err), d')"
      "rp = PlainReader input \<or> (\<exists>p' dst' ob' cReader. sniffAndOverride env done rd rdT request protocol destination
          \<lparr>so_Target = destination, so_RouteTarget = None\<rparr> \<lparr>cr_reader = input, cr_cache = []\<rparr> = Some (p', dst', ob', cReader)
          \<and> rp = fst (cached_ReplayReader cReader))"
proof -
  let ?d = "d\<lparr>dd_metrics := (dd_metrics d)\<lparr>dm_attempts := Suc (dm_attempts (dd_metrics d))\<rparr>\<rparr>"
  let ?ob = "\<lparr>so_Target = destination, so_RouteTarget = None\<rparr>"
  let ?sniff = "sniffAndOverride env done rd rdT request protocol destination ?ob \<lparr>cr_reader = input, cr_cache = []\<rparr>"
  show ?thesis
  proof (cases "enabled \<and> dest_IsValid destination \<and> dest_Network destination = Network_TCP")
    case False
    with assms(1) early show ?thesis
      by (auto simp: DispatchDirect_def Let_def split: if_splits)
  next
    case True
    show ?thesis
    proof (cases res)
      case (Inl e)
      with True assms(1) g failed show ?thesis by (auto simp: DispatchDirect_def Let_def)
    next
      case (Inr u)
      show ?thesis
      proof (cases "sr_Enabled request")
        case False
        with True Inr assms(1) g
        have "openDirect env sess protocol forcedTag ?ob destination u (PlainReader input) (?d\<lparr>dd_flow := fs\<rparr>)
            = ((link, reader, err), d')" by (simp add: DispatchDirect_def Let_def)
        then show ?thesis by (rule opened [OF Inr, rotated 2]) simp_all
      next
        case en: True
        with True Inr assms(1) g obtain p' dst' ob' cReader where s: "?sniff = Some (p', dst', ob', cReader)"
          and "openDirect env sess p' forcedTag ob' dst' u (fst (cached_ReplayReader cReader)) (?d\<lparr>dd_flow := fs\<rparr>)
            = ((link, reader, err), d')"
          by (auto simp: DispatchDirect_def Let_def split: option.splits)
        from this(2) show ?thesis by (rule opened [OF Inr, rotated 2]) (use s in auto)
      qed
    qed
  qed
qed

section \<open>Properties\<close>

text \<open>
  C6. \<open>DispatchDirect\<close> keeps the flow accounting exact on every path: whenever it returns no link
  (an error, or the fallback to the regular dispatcher) the active counts are as before the
  call; a returned link carries the flow it acquired, not yet released, and exactly that flow
  is counted once more.
\<close>

theorem DispatchDirect_flow_ownership:
  assumes "flow_inv (fs_flows (dd_flow d))" and "stats_inv (fs_stats (dd_flow d))"
    and "DispatchDirect enabled iface env done rd rdT sess request protocol forcedTag destination input d
           = Some ((link, reader, err), d')"
  shows "case link of
      None \<Rightarrow> fr_active (fs_flows (dd_flow d')) = fr_active (fs_flows (dd_flow d))
    | Some l \<Rightarrow> err = None \<and> (\<exists>u. dl_flow l = Some u \<and> \<not> uio_released u
        \<and> fr_active (fs_flows (dd_flow d')) =
            (case uio_runtime u of
               None \<Rightarrow> fr_active (fs_flows (dd_flow d))
             | Some a \<Rightarrow> (fr_active (fs_flows (dd_flow d)))(a := fr_active (fs_flows (dd_flow d)) a + 1)))"
proof -
  let ?r = "fs_flows (dd_flow d)"
  obtain res fs where g: "getUserIO iface (de_ForLevel env) sess (dd_flow d) = (res, fs)" by fastforce
  have flow: "case res of
      Inl e \<Rightarrow> fr_active (fs_flows fs) = fr_active ?r
    | Inr u \<Rightarrow> \<not> uio_released u \<and> fr_active (fs_flows fs) =
        (case uio_runtime u of None \<Rightarrow> fr_active ?r | Some a \<Rightarrow> (fr_active ?r)(a := fr_active ?r a + 1))"
    by (rule getUserIO_cases [OF assms(1,2) g])
      (simp_all add: new_userIO_def flow_acquire_spec(4) [OF assms(1)])
  show ?thesis
  proof (rule DispatchDirect_cases [OF assms(3) g], goal_cases)
    case 1
    then show ?case by simp
  next
    case 2
    with flow show ?case by simp
  next
    case (3 u pr ob dst rp d1)
    show ?case
    proof (cases link)
      case None
      have "\<not> fr_active ?r a + 1 \<le> 0" for a using flow_invD(4) [OF assms(1), of a] by linarith
      with None 3 flow openDirect_flow(2) [OF 3(4)] show ?thesis
        by (auto simp: userIO_Release_def runtime_release_def fun_eq_iff split: option.splits)
    next
      case (Some l)
      with 3 flow openDirect_flow(3) [OF 3(4)] show ?thesis by auto
    qed
  qed
qed

definition example_env :: "(string, unit, unit) disp_env" where
  "example_env = \<lparr>de_LookupHosts = None, de_GetHandler = (\<lambda>t. if t = ''in'' then Some ''out'' else None),
     de_GetDefaultHandler = Some ''freedom'', de_HandlerTag = (\<lambda>h. h),
     de_OpenDirect = (\<lambda>h. Some (\<lambda>d. OpenLink (Some \<lparr>dl_Reader = Some (BaseReader ()), dl_Writer = Some (BaseWriter ()), dl_flow = None\<rparr>))),
     de_PickRoute = None, de_matches = (\<lambda>p s. p = s), de_fdns = None, de_ParseAddress = DomainAddress,
     de_sniffers = example_sniffers, de_ForLevel = (\<lambda>_. \<lparr>ps_UserUplink = True, ps_UserDownlink = True\<rparr>)\<rparr>"

definition example_dispatcher :: "unit dispatcher" where
  "example_dispatcher = \<lparr>dd_flow = wd_state example_registered, dd_RuleManager = rule_New,
     dd_metrics = \<lparr>dm_attempts = 0, dm_fallback = 0, dm_success = 0, dm_failures = []\<rparr>, dd_linksClosed = 0\<rparr>"

definition example_request :: SniffingRequest where
  "example_request = \<lparr>sr_ExcludeForDomain = [], sr_OverrideDestinationForProtocol = [''tls''], sr_Enabled = True,
     sr_MetadataOnly = False, sr_RouteOnly = False\<rparr>"

definition example_destination :: Destination where
  "example_destination = \<lparr>dest_Address = IPAddress ''1.2.3.4'', dest_Port = 443, dest_Network = Network_TCP\<rparr>"

definition example_pipe :: pipe where
  "example_pipe = \<lparr>p_data = Some [[22, 3]], p_state = pipe_open, p_limit = 0, p_discardOverflow = False\<rparr>"

lemma example_dispatcher_inv:
  "flow_inv (fs_flows (dd_flow example_dispatcher))" "stats_inv (fs_stats (dd_flow example_dispatcher))"
  by (simp_all add: example_dispatcher_def example_registered_def initial_world_def wf_intros)

lemma example_direct:
  "\<exists>l reader d'. DispatchDirect True no_cache example_env (\<lambda>_. None) pipe_ReadMultiBuffer (Some pipe_ReadMultiBufferTimeout)
     (Some example_session) example_request '''' '''' example_destination example_pipe example_dispatcher
     = Some ((Some l, reader, None), d')"
  by (simp add: DispatchDirect_def example_destination_def dest_IsValid_def getUserIO_def example_session_def
      example_dispatcher_def example_registered_def initial_world_def flow_register_def registry_node_def
      empty_registry_def empty_node_def ensure_runtime_def new_runtime_def flow_acquire_def
      GetUserBucket_def limiter_New_def example_env_def getOrRegisterCounter_def GetOrRegisterCounter_def
      RegisterCounter_def GetCounter_def NewManager_def example_request_def sniffAndOverride_def sniffer_def
      NewSniffer_def newFakeDNSSniffer_def SniffMetadata_def content_sniffer_def example_sniffers_def
      numeral_2_eq_2 cached_Cache_def pipe_ReadMultiBufferTimeout_def example_pipe_def
      pipe_readMultiBufferInternal_def pipe_getState_def mb_MergeMulti_def buf_Size_def Sniff_def
      shouldOverride_def HasPrefix_def openDirect_def selectOutbound_def addr_IsDomain_def Detect_def rule_New_def Let_def)

theorem DispatchDirect_flow_ownership_witness:
  "\<exists>l reader d' u. DispatchDirect True no_cache example_env (\<lambda>_. None) pipe_ReadMultiBuffer (Some pipe_ReadMultiBufferTimeout)
     (Some example_session) example_request '''' '''' example_destination example_pipe example_dispatcher
     = Some ((Some l, reader, None), d') \<and> dl_flow l = Some u \<and> \<not> uio_released u"
proof -
  obtain l reader d' where d: "DispatchDirect True no_cache example_env (\<lambda>_. None) pipe_ReadMultiBuffer (Some pipe_ReadMultiBufferTimeout)
     (Some example_session) example_request '''' '''' example_destination example_pipe example_dispatcher
     = Some ((Some l, reader, None), d')" using example_direct by blast
  from DispatchDirect_flow_ownership [OF example_dispatcher_inv d] d show ?thesis by auto
qed



text \<open>
  The outbound of a connection. A connection whose (possibly host-mapped) destination
  matches an audit rule of its inbound gets no outbound. Otherwise a forced tag decides alone
  and must exist; else the router's choice is taken when its handler exists; else the
  outbound with the inbound's own tag; else the default outbound; and only without any of
  them selection fails.
\<close>

theorem selectOutbound_priority:
  fixes env :: "('h, 'x, 'w) disp_env" and si :: session_inbound and ob :: session_outbound
    and rm :: Manager and protocol forced :: string and destination :: Destination
  assumes user: "si_User si = Some user" and ip: "\<not> addr_IsDomain (dest_Address destination)"
  defines "rejected \<equiv> \<exists>x \<in> set (rules_of rm (si_Tag si)). \<exists>p. dr_Pattern x = Some p \<and> de_matches env p (dest_String destination)"
  defines "routed \<equiv> Option.bind (de_PickRoute env) (\<lambda>route. case route ob protocol of Inl _ \<Rightarrow> None | Inr t \<Rightarrow> de_GetHandler env t)"
  defines "own \<equiv> (case de_GetHandler env (si_Tag si) of Some h \<Rightarrow> Some h | None \<Rightarrow> de_GetDefaultHandler env)"
  shows "map_option os_handler (case fst (selectOutbound env (Some si) protocol forced (Some ob) destination rm) of Inl _ \<Rightarrow> None | Inr s \<Rightarrow> Some s) =
    (if rejected then None
     else if forced \<noteq> '''' then de_GetHandler env forced
     else case routed of Some h \<Rightarrow> Some h | None \<Rightarrow> own)"
proof -
  obtain rej rm' where det: "Detect (de_matches env) (si_Tag si) (dest_String destination) (su_Email user) rm = (rej, rm')"
    by fastforce
  have rej: "rej = rejected"
    using det firstHit_None [of "de_matches env" "rules_of rm (si_Tag si)" "dest_String destination"]
    by (auto simp: Detect_cases rejected_def)
  have nohost: "(case de_LookupHosts env of None \<Rightarrow> None
      | Some lookup \<Rightarrow> if addr_IsDomain (dest_Address destination) then lookup (dest_String (so_Target ob)) else None) = None"
    using ip by (simp split: option.split)
  show ?thesis
    unfolding selectOutbound_def
    by (simp add: user nohost det rej routed_def own_def Let_def split: option.split sum.split)
qed

theorem selectOutbound_priority_witness:
  "map_option os_handler (case fst (selectOutbound example_env (Some example_session) '''' '''' (Some \<lparr>so_Target = example_destination, so_RouteTarget = None\<rparr>)
      example_destination rule_New) of Inl _ \<Rightarrow> None | Inr s \<Rightarrow> Some s) = Some ''out''"
proof -
  have user: "si_User example_session = Some \<lparr>su_Email = ''in|a|1'', su_Level = 0\<rparr>"
    by (simp add: example_session_def)
  have ip: "\<not> addr_IsDomain (dest_Address example_destination)"
    by (simp add: example_destination_def addr_IsDomain_def)
  show ?thesis
    unfolding selectOutbound_priority [OF user ip]
    by (simp add: rules_of_def rule_New_def example_env_def example_session_def)
qed



text \<open>The lifecycle of a fresh connection over its two closes.\<close>

lemma close_both:
  assumes "getLink iface ForLevel sess limit discard fs = (Inr c, ps, fs')"
    and "close_outbound_writer c r = (c1, r1)"
    and "close_inbound_writer (interrupt_outbound_reader c1) r1 = (c2, r2)"
  shows "\<exists>io. getUserIO iface ForLevel sess fs = (Inr io, fs') \<and> r2 = snd (userIO_Release io r)
     \<and> p_state (co_down c2) = pipe_closed \<and> p_state (co_up c2) = pipe_errord"
  using assms
  by (auto simp: getLink_def close_outbound_writer_def close_inbound_writer_def interrupt_outbound_reader_def
      lifecycleWriter_Close_def lifecycle_release_def newUserConnectionLifecycle_def new_pipe_def
      pipe_Close_def pipe_Interrupt_def pipe_bytes_def Let_def
      split: sum.splits prod.splits)

text \<open>
  C34. A connection that is refused after its link was built gives everything back: when routing
  finds no outbound (an audit rule, a missing tag), the goroutine closes its side, and once
  the inbound closes its own writer the flow is released, so the active counts are those
  before the connection; both pipes are shut.
\<close>

theorem refused_connection_releases:
  assumes "flow_inv (fs_flows fs)" and "stats_inv (fs_stats fs)"
    and link: "getLink iface ForLevel sess limit discard fs = (Inr c, ps, fs')"
    and d: "dd_flow d = fs'"
    and routed: "routedDispatch env sess protocol forced ob destination detour c d = (None, c1, d1)"
    and close: "close_inbound_writer c1 (fs_flows (dd_flow d1)) = (c2, r2)"
  shows "fr_active r2 = fr_active (fs_flows fs)
    \<and> p_state (co_down c2) = pipe_closed \<and> p_state (co_up c2) = pipe_errord"
proof -
  obtain c0 r0 where c0: "close_outbound_writer c (fs_flows fs') = (c0, r0)" by fastforce
  have c1: "c1 = interrupt_outbound_reader c0" "fs_flows (dd_flow d1) = r0"
    using routed c0 d by (auto simp: routedDispatch_def Let_def split: prod.splits sum.splits)
  obtain io where io: "getUserIO iface ForLevel sess fs = (Inr io, fs')" "r2 = snd (userIO_Release io (fs_flows fs'))"
    "p_state (co_down c2) = pipe_closed" "p_state (co_up c2) = pipe_errord"
    using close_both [OF link c0 close [unfolded c1]] by blast
  have "fr_active (snd (userIO_Release io (fs_flows fs'))) = fr_active (fs_flows fs)"
  proof (rule getUserIO_cases [OF assms(1,2) io(1)], goal_cases)
    case 1
    then show ?case by (simp add: userIO_Release_def new_userIO_def)
  next
    case 2
    then show ?case by simp
  next
    case (3 u si user a)
    have "\<not> fr_active (fs_flows fs) a + 1 \<le> 0" using flow_invD(4) [OF assms(1), of a] by linarith
    with 3 flow_acquire_spec(4) [OF assms(1) 3(4), of a] show ?case
      by (auto simp: userIO_Release_def runtime_release_def fun_eq_iff)
  qed
  with io show ?thesis by simp
qed

theorem refused_connection_releases_witness:
  "\<exists>c ps fs' c1 d1 c2 r2.
     getLink no_cache (de_ForLevel example_env) (Some example_session) 0 False (wd_state example_registered) = (Inr c, ps, fs')
     \<and> routedDispatch example_env (Some example_session) '''' ''nowhere'' \<lparr>so_Target = example_destination, so_RouteTarget = None\<rparr>
         example_destination '''' c (example_dispatcher\<lparr>dd_flow := fs'\<rparr>) = (None, c1, d1)
     \<and> close_inbound_writer c1 (fs_flows (dd_flow d1)) = (c2, r2)
     \<and> fr_active r2 = fr_active (fs_flows (wd_state example_registered))"
proof -
  have inv: "flow_inv (fs_flows (wd_state example_registered))" "stats_inv (fs_stats (wd_state example_registered))"
    using example_dispatcher_inv by (simp_all add: example_dispatcher_def)
  obtain u d' where g: "getUserIO no_cache (de_ForLevel example_env) (Some example_session) (wd_state example_registered) = (Inr u, d')"
    using example_open by (auto simp: example_env_def)
  obtain c ps where link: "getLink no_cache (de_ForLevel example_env) (Some example_session) 0 False (wd_state example_registered) = (Inr c, ps, d')"
    using g by (auto simp: getLink_def Let_def)
  obtain c1 d1 where routed: "routedDispatch example_env (Some example_session) '''' ''nowhere'' \<lparr>so_Target = example_destination, so_RouteTarget = None\<rparr>
         example_destination '''' c (example_dispatcher\<lparr>dd_flow := d'\<rparr>) = (None, c1, d1)"
    by (cases "close_outbound_writer c (fs_flows d')")
      (simp add: routedDispatch_def selectOutbound_def example_env_def example_session_def
        example_dispatcher_def Detect_def rule_New_def example_destination_def addr_IsDomain_def Let_def)
  obtain c2 r2 where close: "close_inbound_writer c1 (fs_flows (dd_flow d1)) = (c2, r2)" by fastforce
  have "fr_active r2 = fr_active (fs_flows (wd_state example_registered))"
    using refused_connection_releases [OF inv link _ routed close] by simp
  with link routed close show ?thesis by blast
qed

text \<open>How the map grows while the uplink hook runs.\<close>

definition restores :: "udp_env \<Rightarrow> (string \<rightharpoonup> string) option \<Rightarrow> bool" where
  "restores ue im \<longleftrightarrow> (\<forall>m ip nm. im = Some m \<and> m ip = Some nm \<longrightarrow>
     (\<exists>ips. ue_LookupIP ue nm = Inr ips \<and> ip \<in> set ips))"

lemma foldl_ip_map:
  "foldl (\<lambda>m ip. m(ip \<mapsto> nm)) m ips ip = (if ip \<in> set ips then Some nm else m ip)"
  by (induction ips arbitrary: m) auto

lemma uplink_buffer_restores:
  assumes "uplink_buffer ue sniffing b im = (b', im')" and "restores ue im"
  shows "restores ue im' \<and> ub_data b' = ub_data b"
  using assms
  by (auto simp: uplink_buffer_def restores_def foldl_ip_map Let_def
      split: option.splits Address.splits sum.splits if_splits prod.splits)

lemma uplink_hook_restores:
  "uplink_hook ue sniffing bs im = (bs', im') \<Longrightarrow> restores ue im \<Longrightarrow>
   restores ue im' \<and> map ub_data bs' = map ub_data bs"
proof (induction bs arbitrary: im bs' im')
  case Nil
  then show ?case by simp
next
  case (Cons b bs)
  obtain b1 im1 where b: "uplink_buffer ue sniffing b im = (b1, im1)" by fastforce
  obtain bs1 im2 where bs: "uplink_hook ue sniffing bs im1 = (bs1, im2)" by fastforce
  from Cons.prems Cons.IH [OF bs] uplink_buffer_restores [OF b] b bs show ?case by auto
qed

definition known_ip :: "(string \<rightharpoonup> string) option \<Rightarrow> string \<Rightarrow> bool" where
  "known_ip im ip \<longleftrightarrow> (\<exists>m. im = Some m \<and> m ip \<noteq> None)"

lemma uplink_buffer_known:
  assumes "uplink_buffer ue sniffing b im = (b', im')"
  shows "known_ip im ip \<Longrightarrow> known_ip im' ip"
    and "ub_Address b = Some (DomainAddress nm) \<Longrightarrow> ue_LookupIP ue nm = Inr ips \<Longrightarrow> ip \<in> set ips \<Longrightarrow> known_ip im' ip"
  using assms
  by (auto simp: uplink_buffer_def known_ip_def foldl_ip_map Let_def
      split: option.splits Address.splits sum.splits if_splits prod.splits)

lemma uplink_hook_known:
  "uplink_hook ue sniffing bs im = (bs', im') \<Longrightarrow>
   known_ip im ip \<or> (\<exists>b \<in> set bs. \<exists>nm ips. ub_Address b = Some (DomainAddress nm) \<and> ue_LookupIP ue nm = Inr ips \<and> ip \<in> set ips)
   \<Longrightarrow> known_ip im' ip"
proof (induction bs arbitrary: im bs' im')
  case Nil
  then show ?case by simp
next
  case (Cons b bs)
  obtain b1 im1 where b: "uplink_buffer ue sniffing b im = (b1, im1)" by fastforce
  obtain bs1 im2 where bs: "uplink_hook ue sniffing bs im1 = (bs1, im2)" by fastforce
  have im': "im' = im2" using Cons.prems(1) b bs by simp
  show ?case
  proof (cases "known_ip im1 ip")
    case True
    with Cons.IH [OF bs] im' show ?thesis by simp
  next
    case False
    with Cons.prems(2) uplink_buffer_known [OF b] 
    have "\<exists>b \<in> set bs. \<exists>nm ips. ub_Address b = Some (DomainAddress nm) \<and> ue_LookupIP ue nm = Inr ips \<and> ip \<in> set ips"
      by auto
    with Cons.IH [OF bs] im' show ?thesis by simp
  qed
qed

text \<open>
  C40. The UDP hooks restore names. After the client sent a datagram to a domain, a reply from
  any address that the domain resolves to is delivered with a domain that resolves to this
  address, never with the bare address, and neither hook changes the payload of a datagram.
\<close>

theorem udp_reply_restored:
  assumes "uplink_hook ue sniffing bs None = (bs', im)"
    and "b \<in> set bs" and "ub_Address b = Some (DomainAddress nm)"
    and "ue_LookupIP ue nm = Inr ips" and "ip \<in> set ips"
    and "ub_Address reply = Some (IPAddress ip)"
  shows "map ub_data bs' = map ub_data bs
    \<and> (\<exists>nm' ips'. downlink_buffer ue im reply = Some (reply\<lparr>ub_Address := Some (DomainAddress nm')\<rparr>)
         \<and> ue_LookupIP ue nm' = Inr ips' \<and> ip \<in> set ips')"
proof -
  have r: "restores ue im" "map ub_data bs' = map ub_data bs"
    using uplink_hook_restores [OF assms(1)] by (auto simp: restores_def)
  have "known_ip im ip" using uplink_hook_known [OF assms(1)] assms(2-5) by blast
  then obtain m nm' where m: "im = Some m" "m ip = Some nm'" by (auto simp: known_ip_def)
  with r(1) obtain ips' where "ue_LookupIP ue nm' = Inr ips'" "ip \<in> set ips'"
    by (auto simp: restores_def)
  with m r(2) assms(6) show ?thesis by (auto simp: downlink_buffer_def)
qed

theorem udp_reply_restored_witness:
  "let ue = \<lparr>ue_Rev0 = None, ue_LookupIP = (\<lambda>d. Inr [''9.9.9.9''])\<rparr>;
       b = \<lparr>ub_data = [1], ub_Address = Some (DomainAddress ''a.com'')\<rparr>;
       reply = \<lparr>ub_data = [2], ub_Address = Some (IPAddress ''9.9.9.9'')\<rparr> in
   \<exists>nm'. downlink_buffer ue (snd (uplink_hook ue False [b] None)) reply = Some (reply\<lparr>ub_Address := Some (DomainAddress nm')\<rparr>)"
  using udp_reply_restored [OF prod.collapse [symmetric], of "\<lparr>ub_data = [1], ub_Address = Some (DomainAddress ''a.com'')\<rparr>"
      "[\<lparr>ub_data = [1], ub_Address = Some (DomainAddress ''a.com'')\<rparr>]" "''a.com''"
      "\<lparr>ue_Rev0 = None, ue_LookupIP = (\<lambda>d. Inr [''9.9.9.9''])\<rparr>" "[''9.9.9.9'']" "''9.9.9.9''"
      "\<lparr>ub_data = [2], ub_Address = Some (IPAddress ''9.9.9.9'')\<rparr>" False]
  by (auto simp: Let_def)

end
