(* ===== verification/Traffic.thy ===== *)
theory Traffic
  imports Stats Api_Model
begin

text \<open>
  Traffic collection and reporting of \<open>service/controller/control.go\<close>: draining the counters of
  a user, aggregating by panel user id, and the flush that hands the samples to the panel
  and puts them back when it does not take them.
\<close>

section \<open>Draining a user's counters\<close>

record trafficCounterDelta =
  td_counter :: nat
  td_value :: int64

definition drainTrafficCounter ::
    "nat option \<Rightarrow> StatsManager \<Rightarrow> trafficCounterDelta option \<times> StatsManager" where
  "drainTrafficCounter counter m =
     (case counter of
        None \<Rightarrow> (None, m)
      | Some c \<Rightarrow>
          let (v, m') = counter_Set c 0 m in
          if sint v \<le> 0 then
            (if sint v < 0 then (None, snd (counter_Add c v m')) else (None, m'))
          else (Some \<lparr>td_counter = c, td_value = v\<rparr>, m'))"

fun restoreTraffic :: "trafficCounterDelta list \<Rightarrow> StatsManager \<Rightarrow> StatsManager" where
  "restoreTraffic [] m = m"
| "restoreTraffic (d # ds) m = restoreTraffic ds (snd (counter_Add (td_counter d) (td_value d) m))"

definition upCounterName :: "string \<Rightarrow> string" where
  "upCounterName email = ''user>>>'' @ email @ ''>>>traffic>>>uplink''"

definition downCounterName :: "string \<Rightarrow> string" where
  "downCounterName email = ''user>>>'' @ email @ ''>>>traffic>>>downlink''"

definition drainTraffic ::
    "string \<Rightarrow> StatsManager \<Rightarrow> (int64 \<times> int64 \<times> trafficCounterDelta list) \<times> StatsManager" where
  "drainTraffic email m =
     (let (ud, m1) = drainTrafficCounter (GetCounter (upCounterName email) m) m;
          (up, deltas1) = (case ud of None \<Rightarrow> (0, []) | Some d \<Rightarrow> (td_value d, [d]));
          (dd, m2) = drainTrafficCounter (GetCounter (downCounterName email) m1) m1;
          (down, deltas2) = (case dd of None \<Rightarrow> (0, deltas1) | Some d \<Rightarrow> (td_value d, deltas1 @ [d]))
      in ((up, down, deltas2), m2))"

section \<open>Aggregation by user id\<close>

definition appendUserTraffic ::
    "UserTraffic list \<Rightarrow> (int \<rightharpoonup> nat) \<Rightarrow> UserInfo \<Rightarrow> int64 \<Rightarrow> int64 \<Rightarrow> UserTraffic list \<times> (int \<rightharpoonup> nat)" where
  "appendUserTraffic traffic index user up down =
     (if sint up \<le> 0 \<and> sint down \<le> 0 then (traffic, index)
      else case index (u_UID user) of
        Some position \<Rightarrow>
          (traffic[position := (traffic ! position)
             \<lparr>ut_Upload := ut_Upload (traffic ! position) + up,
              ut_Download := ut_Download (traffic ! position) + down\<rparr>], index)
      | None \<Rightarrow>
          (traffic @ [\<lparr>ut_UID = u_UID user, ut_Email = u_Email user, ut_Upload = up, ut_Download = down\<rparr>],
           index(u_UID user \<mapsto> length traffic)))"

text \<open>What one round has collected so far: the report, its index and the drained deltas.\<close>

record traffic_acc =
  ta_traffic :: "UserTraffic list"
  ta_index :: "int \<rightharpoonup> nat"
  ta_deltas :: "trafficCounterDelta list"

definition no_traffic :: traffic_acc where
  "no_traffic = \<lparr>ta_traffic = [], ta_index = Map.empty, ta_deltas = []\<rparr>"

text \<open>
  One pass of the loop over the retiring users in \<open>userInfoMonitor\<close>: drain, append, keep the
  deltas. The email is the user key under the tag the user was retired from.
\<close>

definition collectUser :: "string \<times> UserInfo \<Rightarrow> traffic_acc \<times> StatsManager \<Rightarrow> traffic_acc \<times> StatsManager" where
  "collectUser eu st =
     (let (email, user) = eu; (acc, m) = st;
          ((up, down, deltas), m') = drainTraffic email m;
          (traffic', index') = appendUserTraffic (ta_traffic acc) (ta_index acc) user up down
      in (\<lparr>ta_traffic = traffic', ta_index = index', ta_deltas = ta_deltas acc @ deltas\<rparr>, m'))"

fun collectUsers :: "(string \<times> UserInfo) list \<Rightarrow> traffic_acc \<times> StatsManager \<Rightarrow> traffic_acc \<times> StatsManager" where
  "collectUsers [] st = st"
| "collectUsers (eu # eus) st = collectUsers eus (collectUser eu st)"

section \<open>The flush\<close>

text \<open>
  The report call runs panel code, and while it runs other goroutines keep counting: it is
  a function of the panel's world and of the statistics. It returns an error value or
  panics; the deferred restore covers both.
\<close>

datatype report_outcome = Returned "go_error option" | Panicked

definition flushUserTraffic ::
    "(UserTraffic list \<Rightarrow> 'w \<times> StatsManager \<Rightarrow> report_outcome \<times> 'w \<times> StatsManager) \<Rightarrow> bool \<Rightarrow>
     UserTraffic list \<Rightarrow> trafficCounterDelta list \<Rightarrow> 'w \<times> StatsManager \<Rightarrow>
     report_outcome \<times> 'w \<times> StatsManager" where
  "flushUserTraffic ReportUserTraffic disabled userTraffic deltas s =
     (if disabled then (Returned None, s)
      else case ReportUserTraffic userTraffic s of
        (Returned None, s') \<Rightarrow> (Returned None, s')
      | (Returned (Some err), (w, m)) \<Rightarrow> (Returned (Some err), (w, restoreTraffic deltas m))
      | (Panicked, (w, m)) \<Rightarrow> (Panicked, (w, restoreTraffic deltas m)))"

section \<open>Deltas\<close>

definition delta_sum :: "nat \<Rightarrow> trafficCounterDelta list \<Rightarrow> int64" where
  "delta_sum c ds = sum_list (map td_value (filter (\<lambda>d. td_counter d = c) ds))"

lemma delta_sum_simps [simp]:
  "delta_sum c [] = 0"
  "delta_sum c (d # ds) = (if td_counter d = c then td_value d else 0) + delta_sum c ds"
  "delta_sum c (ds @ es) = delta_sum c ds + delta_sum c es"
  by (simp_all add: delta_sum_def)

lemma ctr_value_restore: "ctr_value (restoreTraffic ds m) c = ctr_value m c + delta_sum c ds"
  by (induction ds m rule: restoreTraffic.induct) auto

lemma GetCounter_restore [simp]: "GetCounter n (restoreTraffic ds m) = GetCounter n m"
  by (induction ds m rule: restoreTraffic.induct) auto

lemma stats_inv_restore [wf_intros]: "stats_inv m \<Longrightarrow> stats_inv (restoreTraffic ds m)"
  by (induction ds m rule: restoreTraffic.induct) (auto simp: stats_inv_Add)

text \<open>Draining moves a positive value out and leaves anything else in place.\<close>

definition positive_part :: "int64 \<Rightarrow> int64" where
  "positive_part v = (if 0 < sint v then v else 0)"

lemma drainTrafficCounter_spec:
  "drainTrafficCounter counter m =
     (case counter of
        None \<Rightarrow> (None, m)
      | Some c \<Rightarrow>
         (if 0 < sint (ctr_value m c) then Some \<lparr>td_counter = c, td_value = ctr_value m c\<rparr> else None,
          m\<lparr>ctr_value := (ctr_value m)(c := ctr_value m c - positive_part (ctr_value m c))\<rparr>))"
proof (cases counter)
  case None
  then show ?thesis by (simp add: drainTrafficCounter_def)
next
  case (Some c)
  have "ctr_value m c = 0" if "\<not> 0 < sint (ctr_value m c)" "\<not> sint (ctr_value m c) < 0"
    using that by (metis linorder_less_linear signed_eq_0_iff)
  moreover have "m\<lparr>ctr_value := (ctr_value m)(c := 0)\<rparr> = m" if "ctr_value m c = 0"
    using that by (simp add: fun_upd_idem)
  ultimately show ?thesis
    using Some
    by (auto simp: drainTrafficCounter_def counter_Set_def counter_Add_def positive_part_def Let_def)
qed

lemma drainTrafficCounter_conserves:
  "drainTrafficCounter counter m = (od, m') \<Longrightarrow>
   ctr_value m a = ctr_value m' a + delta_sum a (case od of None \<Rightarrow> [] | Some d \<Rightarrow> [d])"
  by (auto simp: drainTrafficCounter_spec positive_part_def split: option.splits if_splits)

lemma drainTrafficCounter_counters:
  "drainTrafficCounter counter m = (od, m') \<Longrightarrow> counters m' = counters m \<and> ctr_next m' = ctr_next m"
  by (auto simp: drainTrafficCounter_spec split: option.splits)

lemma drainTraffic_unfold:
  "drainTraffic email m =
     (let (ud, m1) = drainTrafficCounter (GetCounter (upCounterName email) m) m;
          (dd, m2) = drainTrafficCounter (GetCounter (downCounterName email) m1) m1
      in ((case ud of None \<Rightarrow> 0 | Some d \<Rightarrow> td_value d, case dd of None \<Rightarrow> 0 | Some d \<Rightarrow> td_value d,
           (case ud of None \<Rightarrow> [] | Some d \<Rightarrow> [d]) @ (case dd of None \<Rightarrow> [] | Some d \<Rightarrow> [d])), m2))"
  by (simp add: drainTraffic_def Let_def split: prod.splits option.splits)

lemma drainTraffic_conserves:
  assumes "drainTraffic email m = ((up, down, deltas), m')"
  shows "ctr_value m a = ctr_value m' a + delta_sum a deltas"
proof -
  obtain ud m1 where u: "drainTrafficCounter (GetCounter (upCounterName email) m) m = (ud, m1)"
    by fastforce
  obtain dd m2 where d: "drainTrafficCounter (GetCounter (downCounterName email) m1) m1 = (dd, m2)"
    by fastforce
  show ?thesis
    using assms u d drainTrafficCounter_conserves [OF u, of a] drainTrafficCounter_conserves [OF d, of a]
    by (auto simp: drainTraffic_unfold)
qed

lemma drainTraffic_counters:
  assumes "drainTraffic email m = (x, m')"
  shows "counters m' = counters m \<and> ctr_next m' = ctr_next m"
proof -
  obtain ud m1 where u: "drainTrafficCounter (GetCounter (upCounterName email) m) m = (ud, m1)"
    by fastforce
  obtain dd m2 where d: "drainTrafficCounter (GetCounter (downCounterName email) m1) m1 = (dd, m2)"
    by fastforce
  show ?thesis
    using assms u d drainTrafficCounter_counters [OF u] drainTrafficCounter_counters [OF d]
    by (simp add: drainTraffic_unfold)
qed

section \<open>What a round reports\<close>

text \<open>The index points to the only entry of each user id in the report.\<close>

definition index_ok :: "UserTraffic list \<Rightarrow> (int \<rightharpoonup> nat) \<Rightarrow> bool" where
  "index_ok traffic index \<longleftrightarrow>
     (\<forall>uid p. index uid = Some p \<longleftrightarrow> p < length traffic \<and> ut_UID (traffic ! p) = uid)"

definition up_of :: "int \<Rightarrow> UserTraffic list \<Rightarrow> int64" where
  "up_of uid ts = sum_list (map ut_Upload (filter (\<lambda>t. ut_UID t = uid) ts))"

definition down_of :: "int \<Rightarrow> UserTraffic list \<Rightarrow> int64" where
  "down_of uid ts = sum_list (map ut_Download (filter (\<lambda>t. ut_UID t = uid) ts))"

lemma index_ok_empty [simp]: "index_ok [] Map.empty"
  by (simp add: index_ok_def)

lemma index_ok_distinct:
  assumes "index_ok traffic index"
  shows "distinct (map ut_UID traffic)"
proof (rule distinct_conv_nth [THEN iffD2], intro allI impI)
  fix i j assume ij: "i < length (map ut_UID traffic)" "j < length (map ut_UID traffic)" "i \<noteq> j"
  have "index (ut_UID (traffic ! i)) = Some i" and "index (ut_UID (traffic ! j)) = Some j"
    using assms ij by (simp_all add: index_ok_def)
  with ij show "map ut_UID traffic ! i \<noteq> map ut_UID traffic ! j" by auto
qed

text \<open>Changing one entry of a list changes a conditional sum by the difference.\<close>

lemma sum_filter_update:
  fixes f :: "'a \<Rightarrow> int64"
  assumes "p < length ts" and "P (ts ! p) = P x"
  shows "sum_list (map f (filter P (ts[p := x]))) =
         sum_list (map f (filter P ts)) + (if P x then f x - f (ts ! p) else 0)"
  using assms
proof (induction ts arbitrary: p)
  case Nil
  then show ?case by simp
next
  case (Cons t ts)
  then show ?case by (cases p) (auto simp: algebra_simps)
qed

lemma index_ok_append:
  assumes "index_ok traffic index" and "index (ut_UID x) = None"
  shows "index_ok (traffic @ [x]) (index(ut_UID x \<mapsto> length traffic))"
proof -
  have fresh: "ut_UID (traffic ! p) \<noteq> ut_UID x" if "p < length traffic" for p
    using assms that unfolding index_ok_def by (metis option.distinct(1))
  have old: "index uid = Some p \<longleftrightarrow> p < length traffic \<and> ut_UID (traffic ! p) = uid" for uid p
    using assms(1) by (simp add: index_ok_def)
  show ?thesis
    unfolding index_ok_def
    by (auto simp: nth_append less_Suc_eq old fresh split: if_splits)
qed

lemma appendUserTraffic_spec:
  assumes "index_ok traffic index"
    and "appendUserTraffic traffic index user up down = (traffic', index')"
    and "0 < sint up \<or> up = 0" and "0 < sint down \<or> down = 0"
  shows "index_ok traffic' index' \<and>
     up_of uid traffic' = up_of uid traffic + (if u_UID user = uid then up else 0) \<and>
     down_of uid traffic' = down_of uid traffic + (if u_UID user = uid then down else 0)"
proof (cases "sint up \<le> 0 \<and> sint down \<le> 0")
  case True
  with assms(3,4) have "up = 0" "down = 0" by auto
  with True assms(1,2) show ?thesis by (simp add: appendUserTraffic_def)
next
  case False
  note nz = this
  show ?thesis
  proof (cases "index (u_UID user)")
    case None
    let ?x = "\<lparr>ut_UID = u_UID user, ut_Email = u_Email user, ut_Upload = up, ut_Download = down\<rparr>"
    have "traffic' = traffic @ [?x]" and "index' = index(ut_UID ?x \<mapsto> length traffic)"
      using nz None assms(2) by (auto simp: appendUserTraffic_def)
    with index_ok_append [OF assms(1), of ?x] None show ?thesis
      by (simp add: up_of_def down_of_def)
  next
    case (Some p)
    then have p: "p < length traffic" "ut_UID (traffic ! p) = u_UID user"
      using assms(1) by (auto simp: index_ok_def)
    let ?x = "(traffic ! p)\<lparr>ut_Upload := ut_Upload (traffic ! p) + up,
                ut_Download := ut_Download (traffic ! p) + down\<rparr>"
    have eq: "traffic' = traffic[p := ?x]" "index' = index"
      using nz Some assms(2) by (auto simp: appendUserTraffic_def)
    have "index_ok traffic' index'"
      using assms(1) p by (auto simp: eq index_ok_def nth_list_update)
    moreover have "up_of uid traffic' = up_of uid traffic + (if u_UID user = uid then up else 0)"
      using sum_filter_update [OF p(1), of "\<lambda>t. ut_UID t = uid" ?x ut_Upload] p
      by (simp add: eq up_of_def)
    moreover have "down_of uid traffic' = down_of uid traffic + (if u_UID user = uid then down else 0)"
      using sum_filter_update [OF p(1), of "\<lambda>t. ut_UID t = uid" ?x ut_Download] p
      by (simp add: eq down_of_def)
    ultimately show ?thesis by simp
  qed
qed

subsection \<open>Counter names\<close>

lemma upCounterName_inj [simp]: "upCounterName e = upCounterName e' \<longleftrightarrow> e = e'"
  by (auto simp: upCounterName_def)

lemma downCounterName_inj [simp]: "downCounterName e = downCounterName e' \<longleftrightarrow> e = e'"
  by (auto simp: downCounterName_def)

lemma up_not_down [simp]: "upCounterName e \<noteq> downCounterName e'"
proof
  assume "upCounterName e = downCounterName e'"
  then have "take 8 (rev (upCounterName e)) = take 8 (rev (downCounterName e'))" by simp
  then show False by (simp add: upCounterName_def downCounterName_def)
qed

lemmas down_not_up [simp] = up_not_down [symmetric]

text \<open>The value that a drain of the counter of a name takes.\<close>

definition drained :: "string \<Rightarrow> StatsManager \<Rightarrow> int64" where
  "drained name m = (case GetCounter name m of None \<Rightarrow> 0 | Some c \<Rightarrow> positive_part (ctr_value m c))"

lemma drained_pos: "0 < sint (drained name m) \<or> drained name m = 0"
  by (auto simp: drained_def positive_part_def split: option.splits)

lemma drain_other_counter:
  assumes "stats_inv m" and "drainTrafficCounter (GetCounter n m) m = (od, m')" and "n' \<noteq> n"
  shows "drained n' m' = drained n' m"
proof (cases "GetCounter n m")
  case None
  with assms show ?thesis by (simp add: drainTrafficCounter_spec)
next
  case (Some c)
  moreover have "c' \<noteq> c" if "GetCounter n' m = Some c'" for c'
    using that Some assms by (metis GetCounter_inj)
  ultimately show ?thesis
    using assms(2) by (auto simp: drainTrafficCounter_spec drained_def split: option.splits)
qed

lemma drainTrafficCounter_amount:
  "drainTrafficCounter (GetCounter n m) m = (od, m') \<Longrightarrow>
   (case od of None \<Rightarrow> 0 | Some d \<Rightarrow> td_value d) = drained n m"
  by (auto simp: drainTrafficCounter_spec drained_def positive_part_def split: option.splits if_splits)

lemma stats_inv_counters: "counters m' = counters m \<Longrightarrow> ctr_next m' = ctr_next m \<Longrightarrow> stats_inv m' = stats_inv m"
  by (simp add: stats_inv_def)

lemma drainTraffic_amounts:
  assumes "stats_inv m" and "drainTraffic email m = ((up, down, deltas), m')"
  shows "up = drained (upCounterName email) m \<and> down = drained (downCounterName email) m \<and> stats_inv m' \<and>
     (\<forall>e. e \<noteq> email \<longrightarrow> drained (upCounterName e) m' = drained (upCounterName e) m
                    \<and> drained (downCounterName e) m' = drained (downCounterName e) m)"
proof -
  obtain ud m1 where u: "drainTrafficCounter (GetCounter (upCounterName email) m) m = (ud, m1)"
    by fastforce
  obtain dd m2 where d: "drainTrafficCounter (GetCounter (downCounterName email) m1) m1 = (dd, m2)"
    by fastforce
  have i1: "stats_inv m1"
    using drainTrafficCounter_counters [OF u] assms(1) stats_inv_counters [of m1 m] by simp
  have i2: "stats_inv m'" using drainTraffic_counters [OF assms(2)] assms(1) stats_inv_counters [of m' m] by simp
  have "m2 = m'" "up = drained (upCounterName email) m" "down = drained (downCounterName email) m1"
    using assms(2) u d drainTrafficCounter_amount [OF u] drainTrafficCounter_amount [OF d]
    by (simp_all add: drainTraffic_unfold)
  with i2 show ?thesis
    using drain_other_counter [OF assms(1) u] drain_other_counter [OF i1 d] by simp
qed

definition due :: "(string \<Rightarrow> string) \<Rightarrow> int \<Rightarrow> (string \<times> UserInfo) list \<Rightarrow> StatsManager \<Rightarrow> int64" where
  "due name uid eus m = sum_list (map (\<lambda>(e, u). drained (name e) m) (filter (\<lambda>(e, u). u_UID u = uid) eus))"

lemma due_Cons:
  "due name uid ((e, u) # eus) m = (if u_UID u = uid then drained (name e) m else 0) + due name uid eus m"
  by (simp add: due_def)

lemma due_cong:
  "(\<And>e u. (e, u) \<in> set eus \<Longrightarrow> drained (name e) m' = drained (name e) m) \<Longrightarrow>
   due name uid eus m' = due name uid eus m"
  unfolding due_def by (rule arg_cong [of _ _ sum_list], rule map_cong) auto

lemma collectUsers_report:
  assumes "stats_inv m" and "distinct (map fst eus)" and "index_ok (ta_traffic acc) (ta_index acc)"
    and "collectUsers eus (acc, m) = (acc', m')"
  shows "index_ok (ta_traffic acc') (ta_index acc') \<and> stats_inv m' \<and>
     up_of uid (ta_traffic acc') = up_of uid (ta_traffic acc) + due upCounterName uid eus m \<and>
     down_of uid (ta_traffic acc') = down_of uid (ta_traffic acc) + due downCounterName uid eus m"
  using assms
proof (induction eus arbitrary: acc m)
  case Nil
  then show ?case by (simp add: due_def)
next
  case (Cons eu eus)
  obtain e u where eu: "eu = (e, u)" by fastforce
  obtain up down ds m1 where dr: "drainTraffic e m = ((up, down, ds), m1)"
    by (metis surj_pair)
  obtain tr ix where ap: "appendUserTraffic (ta_traffic acc) (ta_index acc) u up down = (tr, ix)"
    by fastforce
  note amounts = drainTraffic_amounts [OF Cons.prems(1) dr]
  have step: "index_ok tr ix \<and> up_of uid tr = up_of uid (ta_traffic acc) + (if u_UID u = uid then up else 0)
      \<and> down_of uid tr = down_of uid (ta_traffic acc) + (if u_UID u = uid then down else 0)"
    using amounts drained_pos by (intro appendUserTraffic_spec [OF Cons.prems(3) ap]) auto
  have notin: "\<And>e' u'. (e', u') \<in> set eus \<Longrightarrow> e' \<noteq> e" using Cons.prems(2) eu by force
  have "due upCounterName uid eus m1 = due upCounterName uid eus m"
    and "due downCounterName uid eus m1 = due downCounterName uid eus m"
    using amounts notin by (auto intro!: due_cong)
  with Cons.IH [of m1 "\<lparr>ta_traffic = tr, ta_index = ix, ta_deltas = ta_deltas acc @ ds\<rparr>"]
    Cons.prems eu dr ap amounts step
  show ?case by (simp add: collectUser_def due_Cons)
qed

lemma collectUsers_conserves:
  "collectUsers eus (acc, m) = (acc', m') \<Longrightarrow>
   ctr_value m a + delta_sum a (ta_deltas acc) = ctr_value m' a + delta_sum a (ta_deltas acc')
   \<and> counters m' = counters m \<and> ctr_next m' = ctr_next m"
proof (induction eus arbitrary: acc m)
  case Nil
  then show ?case by simp
next
  case (Cons eu eus)
  obtain e u where eu: "eu = (e, u)" by fastforce
  obtain up down ds m1 where dr: "drainTraffic e m = ((up, down, ds), m1)"
    by (metis surj_pair)
  obtain tr ix where ap: "appendUserTraffic (ta_traffic acc) (ta_index acc) u up down = (tr, ix)"
    by fastforce
  show ?case
    using Cons.IH [of "\<lparr>ta_traffic = tr, ta_index = ix, ta_deltas = ta_deltas acc @ ds\<rparr>" m1]
      Cons.prems eu dr ap drainTraffic_conserves [OF dr, of a] drainTraffic_counters [OF dr]
    by (simp add: collectUser_def ac_simps)
qed

section \<open>The traffic ledger\<close>

text \<open>
  What the panel relies on: counters that data paths add to, and rounds that sample a group
  of counters and either commit the sample or put it back. Counting goes on while the panel
  call of a round runs. Over any history the current value of a counter together with what
  was committed from it is what was counted on it.
\<close>

datatype 'q traffic_event =
    Counted nat int64
  | Round 'q "(nat \<times> int64) list" bool

locale traffic_ledger =
  fixes amount_in :: "'s \<Rightarrow> nat \<Rightarrow> int64"
    and count :: "nat \<Rightarrow> int64 \<Rightarrow> 's \<Rightarrow> 's"
    and round :: "'q \<Rightarrow> (nat \<times> int64) list \<Rightarrow> bool \<Rightarrow> 's \<Rightarrow> trafficCounterDelta list \<times> 's"
  assumes count_amount: "amount_in (count c n s) a = amount_in s a + (if c = a then n else 0)"
    and round_amount: "round q incs ok s = (ds, s') \<Longrightarrow>
          amount_in s' a + delta_sum a ds
            = amount_in s a + sum_list (map snd (filter (\<lambda>i. fst i = a) incs))"
begin

fun history :: "'q traffic_event list \<Rightarrow> 's \<Rightarrow> trafficCounterDelta list \<times> 's" where
  "history [] s = ([], s)"
| "history (Counted c n # es) s = history es (count c n s)"
| "history (Round q incs ok # es) s =
     (let (ds, s') = round q incs ok s; (out, s'') = history es s' in (ds @ out, s''))"

lemma ledger_balance:
  "history es s = (out, s') \<Longrightarrow>
   amount_in s' a + delta_sum a out = amount_in s a +
     sum_list (map (\<lambda>e. case e of Counted c n \<Rightarrow> if c = a then n else 0
       | Round q incs ok \<Rightarrow> sum_list (map snd (filter (\<lambda>i. fst i = a) incs))) es)"
proof (induction es arbitrary: s out)
  case Nil
  then show ?case by simp
next
  case (Cons e es)
  show ?case
  proof (cases e)
    case (Counted c n)
    with Cons.prems Cons.IH [of "count c n s" out] show ?thesis
      by (simp add: count_amount)
  next
    case (Round q incs ok)
    obtain ds s1 where r: "round q incs ok s = (ds, s1)" by fastforce
    obtain out1 where h: "history es s1 = (out1, s')" and o: "out = ds @ out1"
      using Cons.prems Round r by (auto split: prod.splits)
    let ?S = "sum_list (map (\<lambda>e. case e of Counted c n \<Rightarrow> if c = a then n else 0
       | Round q incs ok \<Rightarrow> sum_list (map snd (filter (\<lambda>i. fst i = a) incs))) es)"
    have "amount_in s' a + delta_sum a out = delta_sum a ds + (amount_in s' a + delta_sum a out1)"
      by (simp add: o ac_simps)
    also have "\<dots> = (amount_in s1 a + delta_sum a ds) + ?S"
      using Cons.IH [OF h] by (simp add: ac_simps)
    also have "\<dots> = amount_in s a + sum_list (map snd (filter (\<lambda>i. fst i = a) incs)) + ?S"
      using round_amount [OF r, of a] by simp
    finally show ?thesis by (simp add: Round ac_simps)
  qed
qed

end

text \<open>
  The model's round: the collection loop followed by \<open>flushUserTraffic\<close> with a panel that
  accepts or refuses, while \<open>incs\<close> are counted during the call. The committed deltas are those of
  a report the panel took.
\<close>

definition count_all :: "(nat \<times> int64) list \<Rightarrow> StatsManager \<Rightarrow> StatsManager" where
  "count_all incs m = foldl (\<lambda>m (c, n). snd (counter_Add c n m)) m incs"

definition report_round ::
    "(string \<times> UserInfo) list \<Rightarrow> (nat \<times> int64) list \<Rightarrow> bool \<Rightarrow> StatsManager \<Rightarrow>
     trafficCounterDelta list \<times> StatsManager" where
  "report_round eus incs ok m =
     (let (acc, m1) = collectUsers eus (no_traffic, m);
          panel = (\<lambda>traffic (w, m). (Returned (if ok then None else Some (Error ''report failed'')), w, count_all incs m));
          (outcome, (_, m2)) = flushUserTraffic panel False (ta_traffic acc) (ta_deltas acc) ((), m1)
      in (if outcome = Returned None then ta_deltas acc else [], m2))"

lemma ctr_value_count_all:
  "ctr_value (count_all incs m) a = ctr_value m a + sum_list (map snd (filter (\<lambda>i. fst i = a) incs))"
  unfolding count_all_def
  by (induction incs arbitrary: m) (auto simp: ac_simps)

lemma report_round_amount:
  assumes "report_round eus incs ok m = (ds, m')"
  shows "ctr_value m' a + delta_sum a ds
           = ctr_value m a + sum_list (map snd (filter (\<lambda>i. fst i = a) incs))"
proof -
  obtain acc m1 where c: "collectUsers eus (no_traffic, m) = (acc, m1)" by fastforce
  show ?thesis
    using assms c collectUsers_conserves [OF c, of a]
    by (auto simp: report_round_def flushUserTraffic_def no_traffic_def ctr_value_restore
        ctr_value_count_all ac_simps split: if_splits)
qed

interpretation user_ledger: traffic_ledger ctr_value "\<lambda>c n m. snd (counter_Add c n m)" report_round
  by unfold_locales (auto intro: report_round_amount)

section \<open>Properties\<close>

text \<open>
  No traffic is lost or counted twice: over any history of counting by data paths and of
  report rounds that succeed or fail, with counting going on during the panel call, the
  value left in a counter plus everything committed from it equals its initial value plus
  everything counted on it (in the wrap-around arithmetic of \<open>int64\<close>).
\<close>

theorem traffic_conserved:
  assumes "user_ledger.history events m = (committed, m')"
  shows "ctr_value m' a + delta_sum a committed = ctr_value m a +
     sum_list (map (\<lambda>e. case e of Counted c n \<Rightarrow> if c = a then n else 0
       | Round users incs ok \<Rightarrow> sum_list (map snd (filter (\<lambda>i. fst i = a) incs))) events)"
  using assms by (rule user_ledger.ledger_balance)

theorem traffic_conserved_witness:
  "let m = snd (RegisterCounter (upCounterName ''k'') NewManager);
       es = [Counted 0 5, Round [(''k'', zero_UserInfo)] [(0, 2)] False,
             Round [(''k'', zero_UserInfo)] [(0, 1)] True] in
   ctr_value (snd (user_ledger.history es m)) 0 + delta_sum 0 (fst (user_ledger.history es m)) = 8"
  unfolding Let_def
  by (subst traffic_conserved [OF prod.collapse [symmetric]])
    (simp add: RegisterCounter_def NewManager_def)

text \<open>
  A round reports, for every panel user id, exactly the sums of the positive uplink and
  downlink counters of that user's keys, in one entry per user id, when the keys of the
  round are pairwise distinct.
\<close>

theorem report_totals:
  assumes "stats_inv m" and "distinct (map fst eus)"
    and "collectUsers eus (no_traffic, m) = (acc, m')"
  shows "distinct (map ut_UID (ta_traffic acc))
    \<and> up_of uid (ta_traffic acc) = due upCounterName uid eus m
    \<and> down_of uid (ta_traffic acc) = due downCounterName uid eus m"
  using collectUsers_report [OF assms(1,2) _ assms(3), of uid] index_ok_distinct
  by (auto simp: no_traffic_def up_of_def down_of_def)

theorem report_totals_witness:
  "let m = snd (counter_Add 0 5 (snd (RegisterCounter (upCounterName ''k'') NewManager))) in
   up_of 0 (ta_traffic (fst (collectUsers [(''k'', zero_UserInfo)] (no_traffic, m)))) = 5"
proof -
  let ?m = "snd (counter_Add 0 5 (snd (RegisterCounter (upCounterName ''k'') NewManager)))"
  have "stats_inv ?m" by (intro wf_intros)
  from report_totals [OF this _ prod.collapse [symmetric], of "[(''k'', zero_UserInfo)]" 0]
  show ?thesis
    by (simp add: due_def zero_UserInfo_def drained_def positive_part_def Let_def GetCounter_def
        RegisterCounter_def NewManager_def counter_Add_def)
qed

text \<open>
  A flush that the panel does not take, by returning an error or by panicking, adds every
  drained amount back to its counter on top of what was counted meanwhile and changes no
  counter's registration; a flush that succeeds, or a disabled upload, leaves the counters
  as the panel call left them.
\<close>

theorem flushUserTraffic_restores:
  "(\<exists>out w m'. flushUserTraffic report False traffic deltas s = (out, w, m')
      \<and> (case report traffic s of (rout, rw, rm) \<Rightarrow>
           out = rout \<and> w = rw \<and> GetCounter n m' = GetCounter n rm
           \<and> ctr_value m' a = ctr_value rm a + (if rout = Returned None then 0 else delta_sum a deltas)))
   \<and> flushUserTraffic report True traffic deltas s = (Returned None, s)"
  by (auto simp: flushUserTraffic_def ctr_value_restore
      split: prod.splits report_outcome.splits option.splits)

end
