(* ===== verification/Controller.thy ===== *)
theory Controller
  imports Core_Managers Dispatcher Traffic
begin

text \<open>
  The node controller of \<open>service/controller\<close>: it owns one node of a panel, builds its inbound and
  outbound, publishes its users to the proxy, the limiter and the flow registry, and runs the
  two periodic monitors that follow the panel and report to it. The panel is an \<open>api.API\<close>
  value: a record of functions on a state of its own. Logging is left out.
\<close>

section \<open>State\<close>

record LimitInfo =
  li_end :: int
  li_currentSpeedLimit :: int
  li_originSpeedLimit :: uint64

record retiringUser =
  rt_tag :: string
  rt_user :: UserInfo

record Controller =
  c_config :: Config
  c_panelType :: string
  c_nodeInfo :: "NodeInfo option"
  c_Tag :: string
  c_userList :: "UserInfo list option"
  c_tasks :: "(string \<times> int) list"
  c_limitedUsers :: "(UserInfo, LimitInfo) gomap"
  c_warnedUsers :: "(UserInfo, int) gomap"
  c_retiringUsers :: "(string \<times> string, retiringUser) gomap"
  c_monitorClosed :: bool

record 'p API =
  api_GetNodeInfo :: "'p \<Rightarrow> NodeInfo result \<times> 'p"
  api_GetUserList :: "'p \<Rightarrow> UserInfo list result \<times> 'p"
  api_ReportNodeStatus :: "'p \<Rightarrow> go_error option \<times> 'p"
  api_ReportNodeOnlineUsers :: "OnlineUser list \<Rightarrow> 'p \<Rightarrow> go_error option \<times> 'p"
  api_ReportUserTraffic :: "UserTraffic list \<Rightarrow> 'p \<Rightarrow> go_error option \<times> 'p"
  api_GetNodeRule :: "'p \<Rightarrow> DetectRule list result \<times> 'p"
  api_ReportIllegal :: "DetectResult list \<Rightarrow> 'p \<Rightarrow> go_error option \<times> 'p"

text \<open>A node: the controller with everything it works on.\<close>

record ('p, 'c, 'ih, 'oh) node =
  nd_panel :: 'p
  nd_disp :: "'c dispatcher"
  nd_core :: "('ih, 'oh) core_state"
  nd_ctl :: Controller

definition node_limiter :: "('p, 'c, 'ih, 'oh) node \<Rightarrow> 'c Limiter" where
  "node_limiter w = fs_Limiter (dd_flow (nd_disp w))"

definition node_stats :: "('p, 'c, 'ih, 'oh) node \<Rightarrow> StatsManager" where
  "node_stats w = fs_stats (dd_flow (nd_disp w))"

definition node_flows :: "('p, 'c, 'ih, 'oh) node \<Rightarrow> userFlowRegistry" where
  "node_flows w = fs_flows (dd_flow (nd_disp w))"

definition node_rules :: "('p, 'c, 'ih, 'oh) node \<Rightarrow> Manager" where
  "node_rules w = dd_RuleManager (nd_disp w)"

definition set_limiter :: "'c Limiter \<Rightarrow> ('p, 'c, 'ih, 'oh) node \<Rightarrow> ('p, 'c, 'ih, 'oh) node" where
  "set_limiter l w = w\<lparr>nd_disp := (nd_disp w)\<lparr>dd_flow := (dd_flow (nd_disp w))\<lparr>fs_Limiter := l\<rparr>\<rparr>\<rparr>"

definition set_stats :: "StatsManager \<Rightarrow> ('p, 'c, 'ih, 'oh) node \<Rightarrow> ('p, 'c, 'ih, 'oh) node" where
  "set_stats m w = w\<lparr>nd_disp := (nd_disp w)\<lparr>dd_flow := (dd_flow (nd_disp w))\<lparr>fs_stats := m\<rparr>\<rparr>\<rparr>"

definition set_flows :: "userFlowRegistry \<Rightarrow> ('p, 'c, 'ih, 'oh) node \<Rightarrow> ('p, 'c, 'ih, 'oh) node" where
  "set_flows r w = w\<lparr>nd_disp := (nd_disp w)\<lparr>dd_flow := (dd_flow (nd_disp w))\<lparr>fs_flows := r\<rparr>\<rparr>\<rparr>"

definition set_rules :: "Manager \<Rightarrow> ('p, 'c, 'ih, 'oh) node \<Rightarrow> ('p, 'c, 'ih, 'oh) node" where
  "set_rules rm w = w\<lparr>nd_disp := (nd_disp w)\<lparr>dd_RuleManager := rm\<rparr>\<rparr>"

definition set_ctl :: "(Controller \<Rightarrow> Controller) \<Rightarrow> ('p, 'c, 'ih, 'oh) node \<Rightarrow> ('p, 'c, 'ih, 'oh) node" where
  "set_ctl f w = w\<lparr>nd_ctl := f (nd_ctl w)\<rparr>"

text \<open>Go's \<open>int\<close> and \<open>int64\<close> products wrap at 64 bits.\<close>

definition int_wrap :: "int \<Rightarrow> int" where
  "int_wrap i = sint (word_of_int i :: int64)"

section \<open>Retirement of users\<close>

definition runtimeUserEmails :: "string \<Rightarrow> UserInfo list \<Rightarrow> string list" where
  "runtimeUserEmails tag users = map (buildUserTagWithTag tag) users"

definition registerManagedUsers :: "string \<Rightarrow> UserInfo list \<Rightarrow> ('p, 'c, 'ih, 'oh) node \<Rightarrow> ('p, 'c, 'ih, 'oh) node" where
  "registerManagedUsers tag users w =
     (let emails = runtimeUserEmails tag users;
          w1 = set_flows (flow_register tag emails (node_flows w)) w in
      set_ctl (\<lambda>c. c\<lparr>c_retiringUsers := foldl (\<lambda>m email. del (tag, email) m) (c_retiringUsers c) emails\<rparr>) w1)"

definition retireManagedUsers :: "string \<Rightarrow> UserInfo list \<Rightarrow> ('p, 'c, 'ih, 'oh) node \<Rightarrow> ('p, 'c, 'ih, 'oh) node" where
  "retireManagedUsers tag users w =
     (if users = [] then w
      else
        let emails = runtimeUserEmails tag users;
            w1 = set_flows (flow_retire tag emails (node_flows w)) w in
        set_ctl (\<lambda>c. c\<lparr>c_retiringUsers := foldl (\<lambda>m (email, user). store (tag, email) \<lparr>rt_tag = tag, rt_user = user\<rparr> m)
                          (c_retiringUsers c) (zip emails users)\<rparr>) w1)"

definition restoreManagedUsers :: "string \<Rightarrow> UserInfo list \<Rightarrow> ('p, 'c, 'ih, 'oh) node \<Rightarrow> ('p, 'c, 'ih, 'oh) node" where
  "restoreManagedUsers tag users w = registerManagedUsers tag users w"

definition retiringUserSnapshot :: "Controller \<Rightarrow> retiringUser list" where
  "retiringUserSnapshot c = map snd (c_retiringUsers c)"

fun finalizeRetiringUsers :: "retiringUser list \<Rightarrow> ('p, 'c, 'ih, 'oh) node \<Rightarrow> ('p, 'c, 'ih, 'oh) node" where
  "finalizeRetiringUsers [] w = w"
| "finalizeRetiringUsers (retired # users) w =
     (let email = buildUserTagWithTag (rt_tag retired) (rt_user retired);
          (ok, r', m') = FinalizeRetiredUser (rt_tag retired) email (node_flows w, node_stats w);
          w1 = set_stats m' (set_flows r' w) in
      if \<not> ok then finalizeRetiringUsers users w1
      else
        let key = (rt_tag retired, email);
            w2 = set_ctl (\<lambda>c. case load (c_retiringUsers c) key of
                    Some current \<Rightarrow> if rt_user current = rt_user retired
                                    then c\<lparr>c_retiringUsers := del key (c_retiringUsers c)\<rparr> else c
                  | None \<Rightarrow> c) w1
        in finalizeRetiringUsers users w2)"

section \<open>Adding users\<close>

definition buildUsers ::
    "string list \<Rightarrow> string \<Rightarrow> UserInfo list \<Rightarrow> NodeInfo \<Rightarrow> string \<Rightarrow> ProtocolUser option list result" where
  "buildUsers ss2022 panelType userInfo nodeInfo tag =
     (if ni_NodeType nodeInfo = ''V2ray'' then
        (if ni_EnableVless nodeInfo then Inr (buildVlessUser userInfo tag)
         else
           let alterID = (if (panelType = ''V2board'' \<or> panelType = ''V2RaySocks'') \<and> userInfo \<noteq> []
                          then u_AlterID (hd userInfo) else ni_AlterID nodeInfo)
           in Inr (buildVmessUser userInfo alterID tag))
      else if ni_NodeType nodeInfo = ''Trojan'' then Inr (buildTrojanUser userInfo tag)
      else if ni_NodeType nodeInfo = ''Shadowsocks'' then Inr (buildSSUser ss2022 panelType userInfo (ni_CypherMethod nodeInfo) tag)
      else if ni_NodeType nodeInfo = ''Shadowsocks-Plugin'' then Inr (buildSSPluginUser ss2022 panelType userInfo tag)
      else Inl (Error (''unsupported node type: '' @ ni_NodeType nodeInfo)))"

definition addNewUser ::
    "('ic, 'oc, 'ih, 'oh) core_env \<Rightarrow> UserInfo list \<Rightarrow> NodeInfo \<Rightarrow> string \<Rightarrow> ('p, 'c, 'ih, 'oh) node \<Rightarrow>
     go_error option \<times> ('p, 'c, 'ih, 'oh) node" where
  "addNewUser ce userInfo nodeInfo tag w =
     (case buildUsers (be_ss2022 (ce_builder ce)) (c_panelType (nd_ctl w)) userInfo nodeInfo tag of
        Inl err \<Rightarrow> (Some err, w)
      | Inr users \<Rightarrow>
          let w1 = registerManagedUsers tag userInfo w;
              (err, x) = addUsers ce users tag (nd_core w1);
              w2 = w1\<lparr>nd_core := x\<rparr>
          in case err of
               Some e \<Rightarrow> (Some e, retireManagedUsers tag userInfo w2)
             | None \<Rightarrow> (None, w2))"

section \<open>Comparing user lists\<close>

definition sameRuntimeUser :: "UserInfo \<Rightarrow> UserInfo \<Rightarrow> bool" where
  "sameRuntimeUser old new \<longleftrightarrow>
     u_UID old = u_UID new \<and> u_Email old = u_Email new \<and> u_Passwd old = u_Passwd new \<and> u_Port old = u_Port new
     \<and> u_Method old = u_Method new \<and> u_Protocol old = u_Protocol new \<and> u_ProtocolParam old = u_ProtocolParam new
     \<and> u_Obfs old = u_Obfs new \<and> u_ObfsParam old = u_ObfsParam new \<and> u_UUID old = u_UUID new
     \<and> u_AlterID old = u_AlterID new"

definition oldIndex :: "UserInfo list \<Rightarrow> int \<rightharpoonup> nat" where
  "oldIndex old = foldl (\<lambda>m (index, user). m(u_UID user \<mapsto> index)) Map.empty (enumerate 0 old)"

record user_diff =
  ud_deleted :: "UserInfo list"
  ud_added :: "UserInfo list"
  ud_limitUpdated :: "UserInfo list"

definition diff_step :: "UserInfo list \<Rightarrow> user_diff \<Rightarrow> UserInfo \<Rightarrow> user_diff" where
  "diff_step old d user =
     (case oldIndex old (u_UID user) of
        None \<Rightarrow> d\<lparr>ud_added := ud_added d @ [user]\<rparr>
      | Some oldPosition \<Rightarrow>
          let oldUser = old ! oldPosition in
          if \<not> sameRuntimeUser oldUser user then
            d\<lparr>ud_deleted := ud_deleted d @ [oldUser], ud_added := ud_added d @ [user]\<rparr>
          else if u_SpeedLimit oldUser \<noteq> u_SpeedLimit user \<or> u_DeviceLimit oldUser \<noteq> u_DeviceLimit user then
            d\<lparr>ud_limitUpdated := ud_limitUpdated d @ [user]\<rparr>
          else d)"

definition compareUserList :: "UserInfo list \<Rightarrow> UserInfo list \<Rightarrow> user_diff" where
  "compareUserList old new =
     (let newUIDs = u_UID ` set new;
          d = foldl (diff_step old) \<lparr>ud_deleted = [], ud_added = [], ud_limitUpdated = []\<rparr> new in
      d\<lparr>ud_deleted := ud_deleted d @ filter (\<lambda>user. u_UID user \<notin> newUIDs) old\<rparr>)"

definition buildNodeTag :: "Config \<Rightarrow> NodeInfo \<Rightarrow> string" where
  "buildNodeTag config nodeInfo =
     ni_NodeType nodeInfo @ ''_'' @ cfg_ListenIP config @ ''_'' @ Itoa (int (unat (ni_Port nodeInfo)))"

section \<open>Following the panel: the node monitor\<close>

definition checkRules :: "'p API \<Rightarrow> string \<Rightarrow> ('p, 'c, 'ih, 'oh) node \<Rightarrow> ('p, 'c, 'ih, 'oh) node" where
  "checkRules api tag w =
     (if cfg_DisableGetRule (c_config (nd_ctl w)) then w
      else
        let (rl, p') = api_GetNodeRule api (nd_panel w); w1 = w\<lparr>nd_panel := p'\<rparr> in
        case rl of
          Inl _ \<Rightarrow> w1
        | Inr ruleList \<Rightarrow> set_rules (snd (UpdateRule tag ruleList (node_rules w1))) w1)"

text \<open>
  Replacing the inbound when the node description changed. The answer is the active tag, or
  \<open>None\<close> where the monitor gives up for this round.
\<close>

definition switchTag ::
    "('ic, 'oc, 'ih, 'oh) core_env \<Rightarrow> NodeInfo \<Rightarrow> string \<Rightarrow> UserInfo list \<Rightarrow> NodeInfo \<Rightarrow> ('p, 'c, 'ih, 'oh) node \<Rightarrow>
     string option \<times> ('p, 'c, 'ih, 'oh) node" where
  "switchTag ce oldNodeInfo oldTag oldUserInfo newNodeInfo w =
     (let w1 = retireManagedUsers oldTag oldUserInfo w;
          (err, x) = removeOldTag ce oldTag (nd_core w1);
          w2 = w1\<lparr>nd_core := x\<rparr> in
      if err \<noteq> None then (None, restoreManagedUsers oldTag oldUserInfo w2)
      else
        let (err2, x2) = (if ni_NodeType oldNodeInfo = ''Shadowsocks-Plugin''
                          then removeOldTag ce (dokodemoTag oldTag) (nd_core w2) else (None, nd_core w2));
            w3 = w2\<lparr>nd_core := x2\<rparr> in
        if err2 \<noteq> None then (None, restoreManagedUsers oldTag oldUserInfo w3)
        else
          let activeTag = buildNodeTag (c_config (nd_ctl w3)) newNodeInfo;
              (err3, x3) = addNewTag ce (c_config (nd_ctl w3)) newNodeInfo activeTag (nd_core w3);
              w4 = w3\<lparr>nd_core := x3\<rparr> in
          if err3 \<noteq> None then (None, w4)
          else (Some activeTag, set_limiter (fst (DeleteInboundLimiter (node_limiter w4) oldTag)) w4))"

text \<open>Applying the difference of the user lists; \<open>False\<close> where the monitor gives up.\<close>

definition applyUserDiff ::
    "('ic, 'oc, 'ih, 'oh) core_env \<Rightarrow> NodeInfo \<Rightarrow> string \<Rightarrow> user_diff \<Rightarrow> ('p, 'c, 'ih, 'oh) node \<Rightarrow>
     bool \<times> ('p, 'c, 'ih, 'oh) node" where
  "applyUserDiff ce oldNodeInfo activeTag d w =
     (let (continue, w1) =
            (if ud_deleted d = [] then (True, w)
             else
               let wa = retireManagedUsers activeTag (ud_deleted d) w;
                   deletedEmail = map (buildUserTagWithTag activeTag) (ud_deleted d);
                   (err, x) = removeUsers ce deletedEmail activeTag (nd_core wa);
                   wb = wa\<lparr>nd_core := x\<rparr> in
               if err \<noteq> None then (False, restoreManagedUsers activeTag (ud_deleted d) wb)
               else (True, set_limiter (snd (DeleteInboundLimiterUsers (node_limiter wb) activeTag (ud_deleted d))) wb))
      in
      if \<not> continue then (False, w1)
      else
        let w2 = (if ud_added d = [] then w1 else snd (addNewUser ce (ud_added d) oldNodeInfo activeTag w1));
            w3 = (if ud_added d = [] \<and> ud_limitUpdated d = [] then w2
                  else set_limiter (snd (UpdateInboundLimiter (node_limiter w2) activeTag (ud_added d @ ud_limitUpdated d))) w2)
        in (True, w3))"

definition users_of :: "Controller \<Rightarrow> UserInfo list" where
  "users_of c = (case c_userList c of None \<Rightarrow> [] | Some us \<Rightarrow> us)"

text \<open>
  One round of the node monitor. \<open>elapsed\<close> is the time since the controller was created; before
  \<open>Start\<close> has set the node description no monitor runs.
\<close>

definition nodeInfoMonitor ::
    "'c cache_iface \<Rightarrow> ('ic, 'oc, 'ih, 'oh) core_env \<Rightarrow> 'p API \<Rightarrow> int \<Rightarrow> ('p, 'c, 'ih, 'oh) node \<Rightarrow> ('p, 'c, 'ih, 'oh) node" where
  "nodeInfoMonitor iface ce api elapsed w0 =
     (if elapsed < cfg_UpdatePeriodic (c_config (nd_ctl w0)) then w0
      else case c_nodeInfo (nd_ctl w0) of None \<Rightarrow> w0 | Some oldNodeInfo \<Rightarrow>
      let oldTag = c_Tag (nd_ctl w0); oldUserInfo = users_of (nd_ctl w0);
          (ni, p1) = api_GetNodeInfo api (nd_panel w0); w1 = w0\<lparr>nd_panel := p1\<rparr> in
      case ni of
        Inl _ \<Rightarrow> w1
      | Inr newNodeInfo \<Rightarrow>
          let (ul, p2) = api_GetUserList api (nd_panel w1); w2 = w1\<lparr>nd_panel := p2\<rparr>;
              users = (case ul of
                         Inr us \<Rightarrow> Some (True, us)
                       | Inl (Error e) \<Rightarrow> if e = ''users no change'' then Some (False, oldUserInfo) else None) in
          (case users of
             None \<Rightarrow> w2
           | Some (usersChanged, newUserInfo) \<Rightarrow>
               if oldNodeInfo \<noteq> newNodeInfo then
                 (case switchTag ce oldNodeInfo oldTag oldUserInfo newNodeInfo w2 of
                    (None, w3) \<Rightarrow> w3
                  | (Some activeTag, w3) \<Rightarrow>
                      let w4 = checkRules api activeTag w3;
                          (err, w5) = addNewUser ce newUserInfo newNodeInfo activeTag w4 in
                      if err \<noteq> None then w5
                      else
                        let w6 = set_limiter (fst (AddInboundLimiter iface (node_limiter w5) activeTag (ni_SpeedLimit newNodeInfo)
                                    newUserInfo (cfg_GlobalDeviceLimitConfig (c_config (nd_ctl w5))))) w5
                        in set_ctl (\<lambda>c. c\<lparr>c_nodeInfo := Some newNodeInfo, c_Tag := activeTag, c_userList := Some newUserInfo\<rparr>) w6)
               else
                 let w3 = checkRules api oldTag w2;
                     (continue, w4) = (if usersChanged
                        then applyUserDiff ce oldNodeInfo oldTag (compareUserList oldUserInfo newUserInfo) w3
                        else (True, w3)) in
                 if \<not> continue then w4
                 else set_ctl (\<lambda>c. c\<lparr>c_userList := Some newUserInfo\<rparr>) w4))"

section \<open>Reporting to the panel: the user monitor\<close>

definition auto_limit :: "Controller \<Rightarrow> AutoSpeedLimitConfig" where
  "auto_limit c = (case cfg_AutoSpeedLimitConfig (c_config c) of
     None \<Rightarrow> \<lparr>as_Limit = 0, as_WarnTimes = 0, as_LimitSpeed = 0, as_LimitDuration = 0\<rparr> | Some a \<Rightarrow> a)"

definition limitUser :: "int \<Rightarrow> UserInfo \<Rightarrow> UserInfo list \<times> Controller \<Rightarrow> UserInfo list \<times> Controller" where
  "limitUser now user s =
     (let (silentUsers, c) = s; a = auto_limit c;
          info = \<lparr>li_end = int_wrap (now + int_wrap (as_LimitDuration a * 60)),
                  li_currentSpeedLimit = as_LimitSpeed a, li_originSpeedLimit = u_SpeedLimit user\<rparr> in
      (silentUsers @ [user\<lparr>u_SpeedLimit := word_of_int (go_div (int_wrap (as_LimitSpeed a * 1000000)) 8)\<rparr>],
       c\<lparr>c_limitedUsers := store user info (c_limitedUsers c)\<rparr>))"

text \<open>Releasing the users whose limit has expired, in the order of the iteration.\<close>

fun release_loop :: "int \<Rightarrow> (UserInfo \<times> LimitInfo) list \<Rightarrow> UserInfo list \<times> Controller \<Rightarrow> UserInfo list \<times> Controller" where
  "release_loop now [] s = s"
| "release_loop now ((user, limitInfo) # rest) (toRelease, c) =
     (if li_end limitInfo < now then
        let user' = user\<lparr>u_SpeedLimit := li_originSpeedLimit limitInfo\<rparr> in
        release_loop now rest (toRelease @ [user'], c\<lparr>c_limitedUsers := del user' (c_limitedUsers c)\<rparr>)
      else release_loop now rest (toRelease, c))"

definition releaseLimitedUsers :: "int \<Rightarrow> string \<Rightarrow> ('p, 'c, 'ih, 'oh) node \<Rightarrow> ('p, 'c, 'ih, 'oh) node" where
  "releaseLimitedUsers now tag w =
     (if as_Limit (auto_limit (nd_ctl w)) > 0 \<and> c_limitedUsers (nd_ctl w) \<noteq> [] then
        (let (toRelease, c') = release_loop now (c_limitedUsers (nd_ctl w)) ([], nd_ctl w);
             w1 = w\<lparr>nd_ctl := c'\<rparr> in
         if toRelease \<noteq> [] then set_limiter (snd (UpdateInboundLimiter (node_limiter w1) tag toRelease)) w1 else w1)
      else w)"

definition speed_threshold :: "Controller \<Rightarrow> int" where
  "speed_threshold c =
     go_div (int_wrap (int_wrap (as_Limit (auto_limit c) * 1000000) * cfg_UpdatePeriodic (c_config c))) 8"

record traffic_round =
  tr_acc :: traffic_acc
  tr_stats :: StatsManager
  tr_limited :: "UserInfo list"
  tr_ctl :: Controller

text \<open>
  The watch over a user with traffic: over the threshold it is warned or slowed down, below it
  the warnings are forgotten.
\<close>

definition watchUser :: "int \<Rightarrow> UserInfo \<Rightarrow> int64 \<Rightarrow> int64 \<Rightarrow> UserInfo list \<times> Controller \<Rightarrow> UserInfo list \<times> Controller" where
  "watchUser now user up down s =
     (let (limited, c) = s in
      if 0 < as_Limit (auto_limit c) then
        (if speed_threshold c < sint down \<or> speed_threshold c < sint up then
           (if load (c_limitedUsers c) user = None then
              (if as_WarnTimes (auto_limit c) = 0 then limitUser now user (limited, c)
               else
                 let n = (case load (c_warnedUsers c) user of None \<Rightarrow> 0 | Some k \<Rightarrow> k) + 1;
                     c1 = c\<lparr>c_warnedUsers := store user n (c_warnedUsers c)\<rparr> in
                 if as_WarnTimes (auto_limit c) < n then
                   (let (l2, c2) = limitUser now user (limited, c1) in
                    (l2, c2\<lparr>c_warnedUsers := del user (c_warnedUsers c2)\<rparr>))
                 else (limited, c1))
            else (limited, c))
         else (limited, c\<lparr>c_warnedUsers := del user (c_warnedUsers c)\<rparr>))
      else (limited, c))"

text \<open>The loop over the current users, one pass.\<close>

definition trafficUser :: "int \<Rightarrow> string \<Rightarrow> traffic_round \<Rightarrow> UserInfo \<Rightarrow> traffic_round" where
  "trafficUser now tag s user =
     (let ((up, down, deltas), m') = drainTraffic (buildUserTagWithTag tag user) (tr_stats s); c = tr_ctl s in
      if 0 < sint up \<or> 0 < sint down then
        (let (limited', c') = watchUser now user up down (tr_limited s, c);
             (traffic', index') = appendUserTraffic (ta_traffic (tr_acc s)) (ta_index (tr_acc s)) user up down
         in \<lparr>tr_acc = \<lparr>ta_traffic = traffic', ta_index = index', ta_deltas = ta_deltas (tr_acc s) @ deltas\<rparr>,
             tr_stats = m', tr_limited = limited', tr_ctl = c'\<rparr>)
      else s\<lparr>tr_stats := m', tr_ctl := c\<lparr>c_warnedUsers := del user (c_warnedUsers c)\<rparr>\<rparr>)"

text \<open>The retiring users, with the keys under the tags they were retired from.\<close>

definition retired_keys :: "retiringUser list \<Rightarrow> (string \<times> UserInfo) list" where
  "retired_keys rs = map (\<lambda>r. (buildUserTagWithTag (rt_tag r) (rt_user r), rt_user r)) rs"

text \<open>Collecting the traffic of the current and the retiring users, slowing down the users over
  the limit, the report, and the finalisation of the retiring users when nothing was refused.\<close>

definition settleTraffic ::
    "'p API \<Rightarrow> int \<Rightarrow> string \<Rightarrow> UserInfo list \<Rightarrow> retiringUser list \<Rightarrow> ('p, 'c, 'ih, 'oh) node \<Rightarrow> ('p, 'c, 'ih, 'oh) node" where
  "settleTraffic api now tag userInfo retiringUsers w2 =
     (let s = foldl (trafficUser now tag)
                \<lparr>tr_acc = no_traffic, tr_stats = node_stats w2, tr_limited = [], tr_ctl = nd_ctl w2\<rparr> userInfo;
          (acc, m) = collectUsers (retired_keys retiringUsers) (tr_acc s, tr_stats s);
          w3 = set_stats m (w2\<lparr>nd_ctl := tr_ctl s\<rparr>);
          w4 = (if tr_limited s \<noteq> [] then set_limiter (snd (UpdateInboundLimiter (node_limiter w3) tag (tr_limited s))) w3 else w3);
          (ok, w5) =
            (if ta_traffic acc = [] then (True, w4)
             else
               let (out, (p, m')) = flushUserTraffic
                     (\<lambda>traffic (p, m). let (e, p') = api_ReportUserTraffic api traffic p in (Returned e, p', m))
                     (cfg_DisableUploadTraffic (c_config (nd_ctl w4))) (ta_traffic acc) (ta_deltas acc) (nd_panel w4, node_stats w4)
               in (out = Returned None, set_stats m' (w4\<lparr>nd_panel := p\<rparr>)))
      in if ok then finalizeRetiringUsers retiringUsers w5 else w5)"

text \<open>The reports of online devices and of audit hits; a failed report is only logged.\<close>

definition reportDevices :: "'p API \<Rightarrow> string \<Rightarrow> ('p, 'c, 'ih, 'oh) node \<Rightarrow> ('p, 'c, 'ih, 'oh) node" where
  "reportDevices api tag w6 =
     (let (online, lim) = GetOnlineDevice (node_limiter w6) tag;
          w7 = set_limiter lim w6
      in case online of
           Inl _ \<Rightarrow> w7
         | Inr devices \<Rightarrow> if devices \<noteq> [] then w7\<lparr>nd_panel := snd (api_ReportNodeOnlineUsers api devices (nd_panel w7))\<rparr> else w7)"

definition reportIllegals :: "'p API \<Rightarrow> string \<Rightarrow> ('p, 'c, 'ih, 'oh) node \<Rightarrow> ('p, 'c, 'ih, 'oh) node" where
  "reportIllegals api tag w8 =
     (let (detected, rm) = GetDetectResult tag (node_rules w8);
          w9 = set_rules rm w8
      in case detected of
           Inl _ \<Rightarrow> w9
         | Inr results \<Rightarrow> if results \<noteq> [] then w9\<lparr>nd_panel := snd (api_ReportIllegal api results (nd_panel w9))\<rparr> else w9)"

definition userInfoMonitor ::
    "'p API \<Rightarrow> int \<Rightarrow> int \<Rightarrow> ('p, 'c, 'ih, 'oh) node \<Rightarrow> ('p, 'c, 'ih, 'oh) node" where
  "userInfoMonitor api elapsed now w0 =
     (if elapsed < cfg_UpdatePeriodic (c_config (nd_ctl w0)) then w0
      else
      let (_, p1) = api_ReportNodeStatus api (nd_panel w0); w1 = w0\<lparr>nd_panel := p1\<rparr>;
          tag = c_Tag (nd_ctl w1); userInfo = users_of (nd_ctl w1);
          retiringUsers = retiringUserSnapshot (nd_ctl w1);
          w2 = releaseLimitedUsers now tag w1;
          w6 = settleTraffic api now tag userInfo retiringUsers w2
      in reportIllegals api tag (reportDevices api tag w6))"

section \<open>Start and close\<close>

definition add_tasks :: "Config \<Rightarrow> bool \<Rightarrow> (string \<times> int) list \<Rightarrow> (string \<times> int) list" where
  "add_tasks config tls tasks =
     tasks @ [(''node info monitor'', cfg_UpdatePeriodic config), (''user info monitor'', cfg_UpdatePeriodic config)]
     @ (if tls then [(''cert monitor'', cfg_UpdatePeriodic config * 60)] else [])"

text \<open>A failing \<open>addNewTag\<close> panics (\<open>log.Panic\<close>); every other failure is returned.\<close>

definition ctl_Start ::
    "'c cache_iface \<Rightarrow> ('ic, 'oc, 'ih, 'oh) core_env \<Rightarrow> 'p API \<Rightarrow> ('p, 'c, 'ih, 'oh) node \<Rightarrow>
     report_outcome \<times> ('p, 'c, 'ih, 'oh) node" where
  "ctl_Start iface ce api w0 =
     (let (ni, p1) = api_GetNodeInfo api (nd_panel w0); w1 = w0\<lparr>nd_panel := p1\<rparr> in
      case ni of
        Inl err \<Rightarrow> (Returned (Some err), w1)
      | Inr newNodeInfo \<Rightarrow>
          let tag = buildNodeTag (c_config (nd_ctl w1)) newNodeInfo;
              w2 = set_ctl (\<lambda>c. c\<lparr>c_nodeInfo := Some newNodeInfo, c_Tag := tag\<rparr>) w1;
              (err, x) = addNewTag ce (c_config (nd_ctl w2)) newNodeInfo tag (nd_core w2);
              w3 = w2\<lparr>nd_core := x\<rparr> in
          if err \<noteq> None then (Panicked, w3)
          else
            let (ul, p2) = api_GetUserList api (nd_panel w3); w4 = w3\<lparr>nd_panel := p2\<rparr> in
            case ul of
              Inl e \<Rightarrow> (Returned (Some e), w4)
            | Inr userInfo \<Rightarrow>
                let w5 = set_ctl (\<lambda>c. c\<lparr>c_userList := Some userInfo\<rparr>) w4;
                    (err2, w6) = addNewUser ce userInfo newNodeInfo tag w5 in
                if err2 \<noteq> None then (Returned err2, w6)
                else
                  let w7 = set_limiter (fst (AddInboundLimiter iface (node_limiter w6) tag (ni_SpeedLimit newNodeInfo)
                              userInfo (cfg_GlobalDeviceLimitConfig (c_config (nd_ctl w6))))) w6;
                      w8 = checkRules api tag w7;
                      w9 = set_ctl (\<lambda>c. c\<lparr>c_config := (c_config c)\<lparr>cfg_AutoSpeedLimitConfig := Some (auto_limit c)\<rparr>\<rparr>) w8;
                      w10 = (if 0 < as_Limit (auto_limit (nd_ctl w9))
                             then set_ctl (\<lambda>c. c\<lparr>c_limitedUsers := [], c_warnedUsers := []\<rparr>) w9 else w9)
                  in (Returned None,
                      set_ctl (\<lambda>c. c\<lparr>c_tasks := add_tasks (c_config c) (ni_EnableTLS newNodeInfo) (c_tasks c),
                                     c_monitorClosed := False\<rparr>) w10))"

text \<open>\<open>certMonitor\<close> renews through \<open>mylego\<close> for the issuing modes; the answer says whether it did.\<close>

definition certMonitor :: "(CertConfig \<Rightarrow> unit result) \<Rightarrow> Controller \<Rightarrow> unit result option" where
  "certMonitor renew c =
     (case c_nodeInfo c of
        None \<Rightarrow> None
      | Some ni \<Rightarrow>
          if ni_EnableTLS ni then
            (case cfg_CertConfig (c_config c) of
               None \<Rightarrow> None
             | Some cert \<Rightarrow> if cc_CertMode cert \<in> {''dns'', ''http'', ''tls''} then Some (renew cert) else None)
          else None)"

end
