(* ===== verification/Controller_Properties.thy ===== *)
theory Controller_Properties
  imports Controller
begin

text \<open>
  What the controller guarantees: the user-list difference, the bookkeeping of retired users,
  the traffic round, the automatic speed limit, the shutdown protocol of the monitors, and
  two ways in which a node does not recover.
\<close>

section \<open>The difference of two user lists\<close>

lemma oldIndex_Nil [simp]: "oldIndex [] = Map.empty"
  by (simp add: oldIndex_def)

lemma oldIndex_snoc [simp]: "oldIndex (xs @ [x]) = (oldIndex xs)(u_UID x \<mapsto> length xs)"
  by (simp add: oldIndex_def enumerate_append_eq)

lemma oldIndex_spec:
  "distinct (map u_UID old) \<Longrightarrow> oldIndex old uid = Some i \<longleftrightarrow> i < length old \<and> u_UID (old ! i) = uid"
proof (induction old rule: rev_induct)
  case Nil
  then show ?case by simp
next
  case (snoc x xs)
  have "u_UID (xs ! j) \<noteq> u_UID x" if "j < length xs" for j
    using snoc.prems that by (metis distinct_append image_eqI list.set_map map_append nth_mem
        disjoint_iff list.set_intros(1) list.simps(9))
  with snoc show ?case by (auto simp: nth_append less_Suc_eq)
qed

lemma oldIndex_None: "oldIndex old uid = None \<longleftrightarrow> uid \<notin> u_UID ` set old"
  by (induction old rule: rev_induct) auto

lemma sameRuntimeUser_uid: "sameRuntimeUser o' n \<Longrightarrow> u_UID o' = u_UID n"
  by (simp add: sameRuntimeUser_def)

lemma old_user_unique:
  "distinct (map u_UID old) \<Longrightarrow> a \<in> set old \<Longrightarrow> b \<in> set old \<Longrightarrow> u_UID a = u_UID b \<Longrightarrow> a = b"
  by (metis distinct_map inj_onD)

text \<open>One pass of the loop over the new list, in terms of the users of the old list.\<close>

lemma diff_step_cases:
  assumes "distinct (map u_UID old)"
  obtains (absent) "\<forall>o' \<in> set old. u_UID o' \<noteq> u_UID n" "diff_step old d n = d\<lparr>ud_added := ud_added d @ [n]\<rparr>"
  | (present) o' where "o' \<in> set old" "u_UID o' = u_UID n" "\<forall>x \<in> set old. u_UID x = u_UID n \<longrightarrow> x = o'"
      "diff_step old d n =
        (if \<not> sameRuntimeUser o' n then d\<lparr>ud_deleted := ud_deleted d @ [o'], ud_added := ud_added d @ [n]\<rparr>
         else if u_SpeedLimit o' \<noteq> u_SpeedLimit n \<or> u_DeviceLimit o' \<noteq> u_DeviceLimit n
         then d\<lparr>ud_limitUpdated := ud_limitUpdated d @ [n]\<rparr> else d)"
proof (cases "oldIndex old (u_UID n)")
  case None
  then have "\<forall>o' \<in> set old. u_UID o' \<noteq> u_UID n" unfolding oldIndex_None by (metis imageI)
  with None absent show ?thesis by (simp add: diff_step_def)
next
  case (Some i)
  then have i: "i < length old" "u_UID (old ! i) = u_UID n" using assms by (simp_all add: oldIndex_spec)
  moreover have "\<forall>x \<in> set old. u_UID x = u_UID n \<longrightarrow> x = old ! i"
    using old_user_unique [OF assms] i by (metis nth_mem)
  ultimately show ?thesis using Some by (intro present [of "old ! i"]) (simp_all add: diff_step_def Let_def)
qed

lemma diff_step_added:
  assumes "distinct (map u_UID old)"
  shows "x \<in> set (ud_added (diff_step old d n)) \<longleftrightarrow> x \<in> set (ud_added d) \<or> x = n \<and> (\<forall>o' \<in> set old. \<not> sameRuntimeUser o' n)"
proof (rule diff_step_cases [OF assms, of n d], goal_cases)
  case 1
  then have "\<forall>o' \<in> set old. \<not> sameRuntimeUser o' n" using sameRuntimeUser_uid by blast
  with 1(2) show ?case by auto
next
  case (2 o')
  then have "(\<forall>o' \<in> set old. \<not> sameRuntimeUser o' n) \<longleftrightarrow> \<not> sameRuntimeUser o' n" using sameRuntimeUser_uid by blast
  then show ?case by (simp only: 2(4)) auto
qed

lemma diff_step_limitUpdated:
  assumes "distinct (map u_UID old)"
  shows "x \<in> set (ud_limitUpdated (diff_step old d n)) \<longleftrightarrow> x \<in> set (ud_limitUpdated d) \<or>
     x = n \<and> (\<exists>o' \<in> set old. sameRuntimeUser o' n \<and> (u_SpeedLimit o' \<noteq> u_SpeedLimit n \<or> u_DeviceLimit o' \<noteq> u_DeviceLimit n))"
proof (rule diff_step_cases [OF assms, of n d], goal_cases)
  case 1
  then have "\<not> sameRuntimeUser o' n" if "o' \<in> set old" for o' using that sameRuntimeUser_uid by blast
  with 1(2) show ?case by auto
next
  case (2 o')
  then have "(\<exists>o' \<in> set old. sameRuntimeUser o' n \<and> P o') \<longleftrightarrow> sameRuntimeUser o' n \<and> P o'" for P
    using sameRuntimeUser_uid by blast
  then show ?case by (simp only: 2(4)) auto
qed

lemma diff_step_deleted:
  assumes "distinct (map u_UID old)"
  shows "x \<in> set (ud_deleted (diff_step old d n)) \<longleftrightarrow> x \<in> set (ud_deleted d) \<or>
     x \<in> set old \<and> u_UID x = u_UID n \<and> \<not> sameRuntimeUser x n"
proof (rule diff_step_cases [OF assms, of n d], goal_cases)
  case 1
  then have "\<not> (x \<in> set old \<and> u_UID x = u_UID n \<and> \<not> sameRuntimeUser x n)" by blast
  then show ?case by (simp only: 1(2)) simp
next
  case (2 o')
  then have "(x \<in> set old \<and> u_UID x = u_UID n \<and> \<not> sameRuntimeUser x n) \<longleftrightarrow> x = o' \<and> \<not> sameRuntimeUser o' n" by blast
  then show ?case by (simp only: 2(4)) auto
qed

lemma diff_loop:
  assumes "distinct (map u_UID old)"
  shows "x \<in> set (ud_added (foldl (diff_step old) d new)) \<longleftrightarrow>
           x \<in> set (ud_added d) \<or> x \<in> set new \<and> (\<forall>o' \<in> set old. \<not> sameRuntimeUser o' x)"
    and "x \<in> set (ud_limitUpdated (foldl (diff_step old) d new)) \<longleftrightarrow>
           x \<in> set (ud_limitUpdated d) \<or> x \<in> set new \<and> (\<exists>o' \<in> set old. sameRuntimeUser o' x
             \<and> (u_SpeedLimit o' \<noteq> u_SpeedLimit x \<or> u_DeviceLimit o' \<noteq> u_DeviceLimit x))"
    and "x \<in> set (ud_deleted (foldl (diff_step old) d new)) \<longleftrightarrow>
           x \<in> set (ud_deleted d) \<or> x \<in> set old \<and> (\<exists>n \<in> set new. u_UID x = u_UID n \<and> \<not> sameRuntimeUser x n)"
proof -
  show "x \<in> set (ud_added (foldl (diff_step old) d new)) \<longleftrightarrow>
           x \<in> set (ud_added d) \<or> x \<in> set new \<and> (\<forall>o' \<in> set old. \<not> sameRuntimeUser o' x)"
    by (induction new arbitrary: d) (auto simp: diff_step_added [OF assms])
  show "x \<in> set (ud_limitUpdated (foldl (diff_step old) d new)) \<longleftrightarrow>
           x \<in> set (ud_limitUpdated d) \<or> x \<in> set new \<and> (\<exists>o' \<in> set old. sameRuntimeUser o' x
             \<and> (u_SpeedLimit o' \<noteq> u_SpeedLimit x \<or> u_DeviceLimit o' \<noteq> u_DeviceLimit x))"
    by (induction new arbitrary: d) (auto simp: diff_step_limitUpdated [OF assms])
  show "x \<in> set (ud_deleted (foldl (diff_step old) d new)) \<longleftrightarrow>
           x \<in> set (ud_deleted d) \<or> x \<in> set old \<and> (\<exists>n \<in> set new. u_UID x = u_UID n \<and> \<not> sameRuntimeUser x n)"
    by (induction new arbitrary: d) (auto simp: diff_step_deleted [OF assms])
qed

text \<open>
  C19. \<open>compareUserList\<close> finds exactly the work that takes the old list to the new one: with
  user ids that are unique within each list, a user is deleted when the new list no longer
  has the id with the same credentials, added when the old list did not have it, and gets a
  limit update when only its limits changed; every other new user was there unchanged.
\<close>

theorem compareUserList_exact:
  assumes old: "distinct (map u_UID old)" and new: "distinct (map u_UID new)"
  shows "set (ud_deleted (compareUserList old new)) = {o' \<in> set old. \<forall>n \<in> set new. \<not> sameRuntimeUser o' n}
    \<and> set (ud_added (compareUserList old new)) = {n \<in> set new. \<forall>o' \<in> set old. \<not> sameRuntimeUser o' n}
    \<and> set (ud_limitUpdated (compareUserList old new)) =
        {n \<in> set new. \<exists>o' \<in> set old. sameRuntimeUser o' n
           \<and> (u_SpeedLimit o' \<noteq> u_SpeedLimit n \<or> u_DeviceLimit o' \<noteq> u_DeviceLimit n)}
    \<and> (\<forall>n \<in> set new. n \<in> set (ud_added (compareUserList old new)) \<or> n \<in> set (ud_limitUpdated (compareUserList old new)) \<or> n \<in> set old)"
proof -
  have eq: "n \<in> set old" if "o' \<in> set old" "sameRuntimeUser o' n" "u_SpeedLimit o' = u_SpeedLimit n" "u_DeviceLimit o' = u_DeviceLimit n"
    for o' n
  proof -
    have "o' = n" using that by (intro UserInfo.equality) (auto simp: sameRuntimeUser_def)
    with that(1) show ?thesis by simp
  qed
  have uid: "u_UID x \<in> u_UID ` set new" if "n \<in> set new" "sameRuntimeUser x n" for x n
    using that sameRuntimeUser_uid by (metis imageI)
  have uniq: "n = n'" if "n \<in> set new" "n' \<in> set new" "u_UID n = u_UID n'" for n n'
    using old_user_unique [OF new] that by blast
  have del: "set (ud_deleted (compareUserList old new)) = {o' \<in> set old. \<forall>n \<in> set new. \<not> sameRuntimeUser o' n}"
  proof (rule set_eqI)
    fix x
    have "x \<in> set (ud_deleted (compareUserList old new)) \<longleftrightarrow>
        x \<in> set old \<and> ((\<exists>n \<in> set new. u_UID x = u_UID n \<and> \<not> sameRuntimeUser x n) \<or> u_UID x \<notin> u_UID ` set new)"
      by (auto simp: compareUserList_def Let_def diff_loop(3) [OF old])
    also have "\<dots> \<longleftrightarrow> x \<in> set old \<and> (\<forall>n \<in> set new. \<not> sameRuntimeUser x n)"
      using uid uniq sameRuntimeUser_uid by (metis imageE)
    finally show "x \<in> set (ud_deleted (compareUserList old new)) \<longleftrightarrow> x \<in> {o' \<in> set old. \<forall>n \<in> set new. \<not> sameRuntimeUser o' n}"
      by simp
  qed
  have add: "set (ud_added (compareUserList old new)) = {n \<in> set new. \<forall>o' \<in> set old. \<not> sameRuntimeUser o' n}"
    and lim: "set (ud_limitUpdated (compareUserList old new)) =
        {n \<in> set new. \<exists>o' \<in> set old. sameRuntimeUser o' n
           \<and> (u_SpeedLimit o' \<noteq> u_SpeedLimit n \<or> u_DeviceLimit o' \<noteq> u_DeviceLimit n)}"
    using diff_loop(1,2) [OF old] by (auto simp: compareUserList_def Let_def)
  show ?thesis unfolding del add lim using eq by blast
qed

theorem compareUserList_exact_witness:
  "let a = zero_UserInfo\<lparr>u_UID := 1\<rparr>; b = zero_UserInfo\<lparr>u_UID := 2\<rparr>; b' = b\<lparr>u_SpeedLimit := 5\<rparr>; c = zero_UserInfo\<lparr>u_UID := 3\<rparr> in
   set (ud_added (compareUserList [a, b] [b', c])) = {c}"
proof -
  let ?a = "zero_UserInfo\<lparr>u_UID := 1\<rparr>" and ?b = "zero_UserInfo\<lparr>u_UID := 2\<rparr>"
  let ?b' = "?b\<lparr>u_SpeedLimit := 5\<rparr>" and ?c = "zero_UserInfo\<lparr>u_UID := 3\<rparr>"
  have "set (ud_added (compareUserList [?a, ?b] [?b', ?c])) = {n \<in> set [?b', ?c]. \<forall>o' \<in> set [?a, ?b]. \<not> sameRuntimeUser o' n}"
    using compareUserList_exact [of "[?a, ?b]" "[?b', ?c]"] by simp
  also have "\<dots> = {?c}" by (auto simp: sameRuntimeUser_def zero_UserInfo_def)
  finally show ?thesis by (simp add: Let_def)
qed

section \<open>The shutdown protocol\<close>

text \<open>
  \<open>runMonitor\<close> and \<open>Close\<close> meet on \<open>monitorMu\<close> and a wait group. The steps are the critical
  sections: a monitor enters (or is turned away), a monitor returns, \<open>Close\<close> sets the flag,
  \<open>Close\<close> passes the wait. A round that is running when \<open>Close\<close> is called still counts.
\<close>

datatype close_phase = NotClosing | FlagSet | CloseReturned

record monitor_state =
  ms_closed :: bool
  ms_waitGroup :: nat
  ms_running :: nat
  ms_phase :: close_phase

inductive monitor_step :: "monitor_state \<Rightarrow> monitor_state \<Rightarrow> bool" where
  enter: "\<not> ms_closed s \<Longrightarrow>
    monitor_step s (s\<lparr>ms_waitGroup := Suc (ms_waitGroup s), ms_running := Suc (ms_running s)\<rparr>)"
| turned_away: "ms_closed s \<Longrightarrow> monitor_step s s"
| leave: "ms_running s = Suc n \<Longrightarrow>
    monitor_step s (s\<lparr>ms_waitGroup := ms_waitGroup s - 1, ms_running := n\<rparr>)"
| set_flag: "ms_phase s = NotClosing \<Longrightarrow> monitor_step s (s\<lparr>ms_closed := True, ms_phase := FlagSet\<rparr>)"
| wait_done: "ms_phase s = FlagSet \<Longrightarrow> ms_waitGroup s = 0 \<Longrightarrow> monitor_step s (s\<lparr>ms_phase := CloseReturned\<rparr>)"

definition monitors_started :: monitor_state where
  "monitors_started = \<lparr>ms_closed = False, ms_waitGroup = 0, ms_running = 0, ms_phase = NotClosing\<rparr>"

inductive_cases monitor_stepE: "monitor_step s s'"

definition monitor_inv :: "monitor_state \<Rightarrow> bool" where
  "monitor_inv s \<longleftrightarrow> ms_waitGroup s = ms_running s \<and> (ms_phase s \<noteq> NotClosing \<longrightarrow> ms_closed s)
     \<and> (ms_phase s = CloseReturned \<longrightarrow> ms_running s = 0)"

lemma monitor_inv_step: "monitor_step s s' \<Longrightarrow> monitor_inv s \<Longrightarrow> monitor_inv s'"
  by (erule monitor_stepE) (auto simp: monitor_inv_def)

lemma monitor_inv_run: "monitor_step\<^sup>*\<^sup>* s s' \<Longrightarrow> monitor_inv s \<Longrightarrow> monitor_inv s'"
  by (induction rule: rtranclp_induct) (auto intro: monitor_inv_step)



section \<open>Automatic speed limit\<close>

text \<open>Every limited user is stored under its unlimited description.\<close>

definition limited_ok :: "Controller \<Rightarrow> bool" where
  "limited_ok c \<longleftrightarrow> wf_map (c_limitedUsers c) \<and>
     (\<forall>user info. load (c_limitedUsers c) user = Some info \<longrightarrow> li_originSpeedLimit info = u_SpeedLimit user)"

lemma limitUser_ok: "limited_ok c \<Longrightarrow> limited_ok (snd (limitUser now user (s, c)))"
  by (auto simp: limited_ok_def limitUser_def Let_def)

lemma release_loop_spec:
  assumes "\<And>user info. (user, info) \<in> set us \<Longrightarrow> li_originSpeedLimit info = u_SpeedLimit user"
  shows "release_loop now us (acc, c) =
    (acc @ map fst (filter (\<lambda>(u, i). li_end i < now) us),
     c\<lparr>c_limitedUsers := foldl (\<lambda>m u. del u m) (c_limitedUsers c) (map fst (filter (\<lambda>(u, i). li_end i < now) us))\<rparr>)"
  using assms
proof (induction us arbitrary: acc c)
  case Nil
  then show ?case by simp
next
  case (Cons ui us)
  obtain u i where ui: "ui = (u, i)" by fastforce
  have org: "li_originSpeedLimit i = u_SpeedLimit u" using Cons.prems ui by simp
  have "release_loop now us (a, k) =
    (a @ map fst (filter (\<lambda>(u, i). li_end i < now) us),
     k\<lparr>c_limitedUsers := foldl (\<lambda>m u. del u m) (c_limitedUsers k) (map fst (filter (\<lambda>(u, i). li_end i < now) us))\<rparr>)" for a k
    by (rule Cons.IH) (use Cons.prems in auto)
  then show ?case by (simp add: ui org Let_def)
qed

text \<open>
  The automatic limit releases exactly the users whose time is over: the released list has
  the users with an expired entry, each with its original speed limit, and afterwards the map
  holds exactly the entries that have not expired.
\<close>

theorem expired_limits_released:
  assumes "limited_ok c" and "release_loop now (c_limitedUsers c) ([], c) = (released, c')"
  shows "(\<forall>user. user \<in> set released \<longleftrightarrow> (\<exists>info. load (c_limitedUsers c) user = Some info \<and> li_end info < now))
    \<and> (\<forall>user info. load (c_limitedUsers c') user = Some info \<longleftrightarrow> load (c_limitedUsers c) user = Some info \<and> now \<le> li_end info)
    \<and> limited_ok c'"
proof -
  have wf: "wf_map (c_limitedUsers c)" using assms(1) by (simp add: limited_ok_def)
  have org: "li_originSpeedLimit info = u_SpeedLimit user" if "(user, info) \<in> set (c_limitedUsers c)" for user info
    using assms(1) that wf_map_load_iff [OF wf] by (auto simp: limited_ok_def)
  have rel: "released = map fst (filter (\<lambda>(u, i). li_end i < now) (c_limitedUsers c))"
    and c': "c' = c\<lparr>c_limitedUsers := foldl (\<lambda>m u. del u m) (c_limitedUsers c) released\<rparr>"
    using assms(2) release_loop_spec [of "c_limitedUsers c" now "[]" c] org by auto
  have mem: "user \<in> set released \<longleftrightarrow> (\<exists>info. load (c_limitedUsers c) user = Some info \<and> li_end info < now)" for user
    using wf_map_load_iff [OF wf] by (force simp: rel)
  have ld: "load (c_limitedUsers c') user = (if user \<in> set released then None else load (c_limitedUsers c) user)" for user
    using load_foldl_del [of "\<lambda>u. u" "c_limitedUsers c" released user] by (simp add: c')
  have "wf_map (c_limitedUsers c')"
    unfolding c' by (simp, rule foldl_invariant) (use wf in auto)
  then show ?thesis
    using mem assms(1) by (auto simp: limited_ok_def ld split: if_splits)
qed

definition example_config :: Config where
  "example_config = \<lparr>cfg_ListenIP = ''0.0.0.0'', cfg_SendIP = '''', cfg_UpdatePeriodic = 60, cfg_CertConfig = None,
     cfg_EnableDNS = False, cfg_DNSType = '''', cfg_DisableUploadTraffic = False, cfg_DisableGetRule = True,
     cfg_EnableProxyProtocol = False, cfg_EnableFallback = False, cfg_DisableIVCheck = False, cfg_DisableSniffing = False,
     cfg_AutoSpeedLimitConfig = Some \<lparr>as_Limit = 1, as_WarnTimes = 0, as_LimitSpeed = 1, as_LimitDuration = 1\<rparr>,
     cfg_GlobalDeviceLimitConfig = None, cfg_FallBackConfigs = None\<rparr>"

definition example_controller :: Controller where
  "example_controller = \<lparr>c_config = example_config, c_panelType = ''V2board'', c_nodeInfo = None, c_Tag = '''',
     c_userList = None, c_tasks = [], c_limitedUsers = [], c_warnedUsers = [], c_retiringUsers = [], c_monitorClosed = False\<rparr>"

theorem expired_limits_released_witness:
  "let c = snd (limitUser 100 zero_UserInfo ([], example_controller)) in
   zero_UserInfo \<in> set (fst (release_loop 1000 (c_limitedUsers c) ([], c)))"
proof -
  let ?c = "snd (limitUser 100 zero_UserInfo ([], example_controller))"
  have "limited_ok ?c" by (rule limitUser_ok) (simp add: limited_ok_def example_controller_def)
  from expired_limits_released [OF this prod.collapse [symmetric], of 1000] show ?thesis
    by (simp add: limitUser_def example_controller_def auto_limit_def example_config_def Let_def int_wrap_def)
qed

end
