(* ===== verification/Node_Rounds.thy ===== *)
theory Node_Rounds
  imports Controller_Properties
begin

text \<open>
  The rounds of the two monitors, as the rest of the development uses them: the invariant that
  every retired user with a runtime object is on the controller's list of retiring users, what
  a traffic round drains, and how the retiring users are finalised.
\<close>

section \<open>Projections of the node\<close>

lemma node_views [simp]:
  "node_flows (set_limiter l w) = node_flows w" "node_flows (set_stats m w) = node_flows w"
  "node_flows (set_flows r w) = r" "node_flows (set_rules rm w) = node_flows w" "node_flows (set_ctl f w) = node_flows w"
  "node_stats (set_limiter l w) = node_stats w" "node_stats (set_stats m w) = m"
  "node_stats (set_flows r w) = node_stats w" "node_stats (set_rules rm w) = node_stats w" "node_stats (set_ctl f w) = node_stats w"
  "node_limiter (set_limiter l w) = l" "node_limiter (set_stats m w) = node_limiter w"
  "node_limiter (set_flows r w) = node_limiter w" "node_limiter (set_rules rm w) = node_limiter w" "node_limiter (set_ctl f w) = node_limiter w"
  "nd_ctl (set_limiter l w) = nd_ctl w" "nd_ctl (set_stats m w) = nd_ctl w" "nd_ctl (set_flows r w) = nd_ctl w"
  "nd_ctl (set_rules rm w) = nd_ctl w" "nd_ctl (set_ctl f w) = f (nd_ctl w)"
  "nd_core (set_limiter l w) = nd_core w" "nd_core (set_stats m w) = nd_core w" "nd_core (set_flows r w) = nd_core w"
  "nd_core (set_rules rm w) = nd_core w" "nd_core (set_ctl f w) = nd_core w"
  "nd_panel (set_limiter l w) = nd_panel w" "nd_panel (set_stats m w) = nd_panel w" "nd_panel (set_flows r w) = nd_panel w"
  "nd_panel (set_rules rm w) = nd_panel w" "nd_panel (set_ctl f w) = nd_panel w"
  by (simp_all add: node_flows_def node_stats_def node_limiter_def set_limiter_def set_stats_def set_flows_def
      set_rules_def set_ctl_def)

lemma node_views_update [simp]:
  "node_flows (w\<lparr>nd_core := x\<rparr>) = node_flows w" "node_flows (w\<lparr>nd_panel := p\<rparr>) = node_flows w" "node_flows (w\<lparr>nd_ctl := c\<rparr>) = node_flows w"
  "node_stats (w\<lparr>nd_core := x\<rparr>) = node_stats w" "node_stats (w\<lparr>nd_panel := p\<rparr>) = node_stats w" "node_stats (w\<lparr>nd_ctl := c\<rparr>) = node_stats w"
  "node_limiter (w\<lparr>nd_core := x\<rparr>) = node_limiter w" "node_limiter (w\<lparr>nd_panel := p\<rparr>) = node_limiter w" "node_limiter (w\<lparr>nd_ctl := c\<rparr>) = node_limiter w"
  by (simp_all add: node_flows_def node_stats_def node_limiter_def)

section \<open>Retired users are tracked\<close>

text \<open>
  Several controllers can work on one dispatcher; \<open>F\<close> are the keys that the others look after.
\<close>

definition tracked :: "(string \<times> string) set \<Rightarrow> userFlowRegistry \<Rightarrow> (string \<times> string, retiringUser) gomap \<Rightarrow> bool" where
  "tracked F r retiring \<longleftrightarrow>
     (\<forall>t e. runtime_of r t e \<noteq> None \<and> \<not> is_current r t e \<and> (t, e) \<notin> F \<longrightarrow> load retiring (t, e) \<noteq> None)
     \<and> (\<forall>k u. load retiring k = Some u \<longrightarrow> k = (rt_tag u, user_key (rt_tag u) (rt_user u)))"

definition node_inv_upto :: "(string \<times> string) set \<Rightarrow> ('p, 'c, 'ih, 'oh) node \<Rightarrow> bool" where
  "node_inv_upto F w \<longleftrightarrow> flow_inv (node_flows w) \<and> stats_inv (node_stats w) \<and> tracked F (node_flows w) (c_retiringUsers (nd_ctl w))
     \<and> wf_map (c_retiringUsers (nd_ctl w))"

text \<open>For a node on its own: nothing is left to other controllers.\<close>

abbreviation node_inv :: "('p, 'c, 'ih, 'oh) node \<Rightarrow> bool" where
  "node_inv w \<equiv> node_inv_upto {} w"

lemma node_invD:
  assumes "node_inv_upto F w"
  shows "flow_inv (node_flows w)" and "stats_inv (node_stats w)"
    and "runtime_of (node_flows w) t e \<noteq> None \<Longrightarrow> \<not> is_current (node_flows w) t e \<Longrightarrow> (t, e) \<notin> F \<Longrightarrow>
      load (c_retiringUsers (nd_ctl w)) (t, e) \<noteq> None"
    and "load (c_retiringUsers (nd_ctl w)) k = Some u \<Longrightarrow> k = (rt_tag u, user_key (rt_tag u) (rt_user u))"
    and "wf_map (c_retiringUsers (nd_ctl w))"
  using assms unfolding node_inv_upto_def tracked_def by blast+

text \<open>The invariant only looks at three parts of a node.\<close>

lemma node_inv_cong:
  "node_flows w' = node_flows w \<Longrightarrow> node_stats w' = node_stats w \<Longrightarrow> c_retiringUsers (nd_ctl w') = c_retiringUsers (nd_ctl w) \<Longrightarrow>
   node_inv_upto F w' = node_inv_upto F w"
  by (simp add: node_inv_upto_def)

lemma node_inv_frame [simp]:
  "node_inv_upto F (set_limiter l w) = node_inv_upto F w" "node_inv_upto F (set_rules rm w) = node_inv_upto F w"
  "node_inv_upto F (w\<lparr>nd_core := x\<rparr>) = node_inv_upto F w" "node_inv_upto F (w\<lparr>nd_panel := p\<rparr>) = node_inv_upto F w"
  by (simp_all add: node_inv_upto_def)

lemma node_inv_ctl:
  "c_retiringUsers (f (nd_ctl w)) = c_retiringUsers (nd_ctl w) \<Longrightarrow> node_inv_upto F (set_ctl f w) = node_inv_upto F w"
  by (simp add: node_inv_upto_def)

lemma load_foldl_store_retiring:
  "load (foldl (\<lambda>m (email, user). store (tag, email) (f user) m) m (zip (map g us) us)) k =
     (case find (\<lambda>u. k = (tag, g u)) (rev us) of None \<Rightarrow> load m k | Some u \<Rightarrow> Some (f u))"
proof (induction us rule: rev_induct)
  case (snoc u us)
  then show ?case by simp
qed simp

lemma runtimeUserEmails_key: "runtimeUserEmails tag us = map (user_key tag) us"
  by (simp add: runtimeUserEmails_def buildUserTagWithTag_key)

lemma registerManagedUsers_inv [wf_intros]:
  assumes "node_inv_upto F w"
  shows "node_inv_upto F (registerManagedUsers tag us w)"
proof -
  let ?r = "node_flows w" and ?r' = "flow_register tag (runtimeUserEmails tag us) (node_flows w)"
  let ?m = "c_retiringUsers (nd_ctl w)" and ?m' = "foldl (\<lambda>m email. del (tag, email) m) (c_retiringUsers (nd_ctl w)) (runtimeUserEmails tag us)"
  have fi: "flow_inv ?r" using assms by (simp add: node_inv_upto_def)
  note sp = flow_register_spec [OF fi]
  have ld: "load ?m' k = (if k \<in> (\<lambda>e. (tag, e)) ` set (runtimeUserEmails tag us) then None else load ?m k)" for k
    using load_foldl_del [of "\<lambda>e. (tag, e)" ?m "runtimeUserEmails tag us" k] by simp
  have "load ?m' (t, e) \<noteq> None" if "runtime_of ?r' t e \<noteq> None" "\<not> is_current ?r' t e" "(t, e) \<notin> F" for t e
  proof -
    have no: "\<not> (t = tag \<and> e \<in> set (runtimeUserEmails tag us))" "\<not> is_current ?r t e" using that(2) sp(5) by auto
    with flow_register_dom [OF that(1)] have "runtime_of ?r t e \<noteq> None" by blast
    with no assms that(3) have "load ?m (t, e) \<noteq> None" unfolding node_inv_upto_def tracked_def by blast
    moreover have "(t, e) \<notin> (\<lambda>e. (tag, e)) ` set (runtimeUserEmails tag us)" using no by auto
    ultimately show ?thesis by (simp only: ld if_False not_False_eq_True)
  qed
  moreover have "k = (rt_tag u, user_key (rt_tag u) (rt_user u))" if "load ?m' k = Some u" for k u
    using that node_invD(4) [OF assms, of k u] by (simp add: ld split: if_splits)
  moreover have "wf_map ?m'" by (rule foldl_invariant) (use assms in \<open>auto simp: node_inv_upto_def\<close>)
  ultimately show ?thesis
    using assms sp(1) by (simp add: node_inv_upto_def registerManagedUsers_def Let_def tracked_def)
qed

lemma retireManagedUsers_inv [wf_intros]:
  assumes "node_inv_upto F w"
  shows "node_inv_upto F (retireManagedUsers tag us w)"
proof (cases "us = []")
  case True
  with assms show ?thesis by (simp add: retireManagedUsers_def)
next
  case False
  let ?es = "runtimeUserEmails tag us" and ?f = "\<lambda>user. \<lparr>rt_tag = tag, rt_user = user\<rparr>"
  let ?r = "node_flows w" and ?r' = "flow_retire tag ?es (node_flows w)"
  let ?m = "c_retiringUsers (nd_ctl w)" and ?m' = "foldl (\<lambda>m (email, user). store (tag, email) (?f user) m) (c_retiringUsers (nd_ctl w)) (zip ?es us)"
  have fi: "flow_inv ?r" using assms by (simp add: node_inv_upto_def)
  note sp = flow_retire_spec [OF fi]
  have ld: "load ?m' k = (case find (\<lambda>u. k = (tag, user_key tag u)) (rev us) of None \<Rightarrow> load ?m k | Some u \<Rightarrow> Some (?f u))" for k
    unfolding runtimeUserEmails_key by (rule load_foldl_store_retiring)
  have "load ?m' (t, e) \<noteq> None" if "runtime_of ?r' t e \<noteq> None" "\<not> is_current ?r' t e" "(t, e) \<notin> F" for t e
  proof (cases "t = tag \<and> e \<in> set ?es")
    case True
    then have "find (\<lambda>u. (t, e) = (tag, user_key tag u)) (rev us) \<noteq> None"
      by (auto simp: find_None_iff runtimeUserEmails_key)
    then show ?thesis by (auto simp: ld)
  next
    case False
    with that sp(5) flow_retire_dom [OF that(1)] have "runtime_of ?r t e \<noteq> None" "\<not> is_current ?r t e" by auto
    with assms that(3) have "load ?m (t, e) \<noteq> None" unfolding node_inv_upto_def tracked_def by blast
    then show ?thesis by (auto simp: ld split: option.splits)
  qed
  moreover have "k = (rt_tag u, user_key (rt_tag u) (rt_user u))" if "load ?m' k = Some u" for k u
    using that node_invD(4) [OF assms, of k u] by (auto simp: ld find_Some_iff split: option.splits)
  moreover have "wf_map ?m'" by (rule foldl_invariant) (use assms in \<open>auto simp: node_inv_upto_def\<close>)
  ultimately show ?thesis
    using False assms sp(1) by (simp add: node_inv_upto_def retireManagedUsers_def Let_def tracked_def)
qed

lemma restoreManagedUsers_inv [wf_intros]: "node_inv_upto F w \<Longrightarrow> node_inv_upto F (restoreManagedUsers tag us w)"
  by (simp add: restoreManagedUsers_def registerManagedUsers_inv)


lemma finalize_tracked:
  assumes "FinalizeRetiredUser tag email (r, m) = (True, r', m')" and "tracked F r retiring"
  shows "tracked F r' (del (tag, email) retiring)" and "tracked F r' retiring"
proof -
  have tr: "load retiring (t, e) \<noteq> None" if "runtime_of r t e \<noteq> None" "\<not> is_current r t e" "(t, e) \<notin> F" for t e
    using assms(2) that unfolding tracked_def by blast
  have k: "k = (rt_tag u, user_key (rt_tag u) (rt_user u))" if "load retiring k = Some u" for k u
    using assms(2) that unfolding tracked_def by blast
  have left: "runtime_of r t e \<noteq> None \<and> (t, e) \<noteq> (tag, email)" if "runtime_of r' t e \<noteq> None" for t e
    using that finalize_views(1) [OF assms(1)] by (simp split: if_splits)
  have cur: "is_current r' t e \<longleftrightarrow> is_current r t e" for t e using finalize_views(2) [OF assms(1)] .
  have d: "load (del (tag, email) retiring) k = (if k = (tag, email) then None else load retiring k)" for k by simp
  show "tracked F r' retiring" unfolding tracked_def cur using tr left k by blast
  show "tracked F r' (del (tag, email) retiring)" unfolding tracked_def cur d
    using tr left k by (metis option.distinct(1))
qed

lemma finalizeRetiringUsers_inv [wf_intros]: "node_inv_upto F w \<Longrightarrow> node_inv_upto F (finalizeRetiringUsers rs w)"
proof (induction rs arbitrary: w)
  case Nil
  then show ?case by simp
next
  case (Cons r rs)
  let ?email = "buildUserTagWithTag (rt_tag r) (rt_user r)"
  obtain ok fl m where f: "FinalizeRetiredUser (rt_tag r) ?email (node_flows w, node_stats w) = (ok, fl, m)" by (metis surj_pair)
  note inv = FinalizeRetiredUser_inv [OF node_invD(1,2) [OF Cons.prems] f]
  let ?w1 = "set_stats m (set_flows fl w)"
  show ?case
  proof (cases ok)
    case False
    with FinalizeRetiredUser_cases(2) [OF f] have "fl = node_flows w" "m = node_stats w" by auto
    then have "node_inv_upto F ?w1 = node_inv_upto F w" by (intro node_inv_cong) simp_all
    with Cons f False show ?thesis by (simp add: Let_def)
  next
    case True
    note tr = finalize_tracked [OF f [unfolded True [THEN eqTrueI]]]
    have "node_inv_upto F (set_ctl (\<lambda>c. case load (c_retiringUsers c) (rt_tag r, ?email) of
              Some current \<Rightarrow> if rt_user current = rt_user r
                 then c\<lparr>c_retiringUsers := del (rt_tag r, ?email) (c_retiringUsers c)\<rparr> else c
            | None \<Rightarrow> c) ?w1)"
      using Cons.prems inv tr by (auto simp: node_inv_upto_def split: option.splits)
    from Cons.IH [OF this] f True show ?thesis by (simp add: Let_def)
  qed
qed

section \<open>Every round keeps it\<close>

lemma addNewUser_inv [wf_intros]:
  "node_inv_upto F w \<Longrightarrow> node_inv_upto F (snd (addNewUser ce us ni tag w))"
  by (simp add: addNewUser_def Let_def registerManagedUsers_inv retireManagedUsers_inv split: sum.split option.split prod.split)

lemma checkRules_inv [wf_intros]: "node_inv_upto F w \<Longrightarrow> node_inv_upto F (checkRules api tag w)"
  by (simp add: checkRules_def Let_def split: prod.split sum.split)

lemma switchTag_inv [wf_intros]: "node_inv_upto F w \<Longrightarrow> node_inv_upto F (snd (switchTag ce old oldTag us new w))"
  by (simp add: switchTag_def Let_def retireManagedUsers_inv restoreManagedUsers_inv split: prod.split)

lemma applyUserDiff_inv [wf_intros]: "node_inv_upto F w \<Longrightarrow> node_inv_upto F (snd (applyUserDiff ce ni tag d w))"
  by (auto simp: applyUserDiff_def Let_def retireManagedUsers_inv restoreManagedUsers_inv addNewUser_inv split: prod.splits if_splits)

lemma nodeInfoMonitor_inv [wf_intros]:
  assumes "node_inv_upto F w"
  shows "node_inv_upto F (nodeInfoMonitor iface ce api elapsed w)"
proof -
  have sw: "node_inv_upto F w2 \<Longrightarrow> node_inv_upto F w3" if "switchTag ce old oldTag us new w2 = (x, w3)" for old oldTag us new w2 x w3
    using switchTag_inv [of F w2 ce old oldTag us new] that by simp
  have ad: "node_inv_upto F w4 \<Longrightarrow> node_inv_upto F w5" if "addNewUser ce us ni tag w4 = (x, w5)" for us ni tag w4 x w5
    using addNewUser_inv [of F w4 ce us ni tag] that by simp
  have df: "node_inv_upto F w4 \<Longrightarrow> node_inv_upto F w5" if "applyUserDiff ce ni tag d w4 = (x, w5)" for d ni tag w4 x w5
    using applyUserDiff_inv [of F w4 ce ni tag d] that by simp
  show ?thesis
    using assms
    by (auto simp: nodeInfoMonitor_def Let_def node_inv_ctl checkRules_inv split: option.split sum.split go_error.split prod.split
        dest!: sw ad df)
qed


section \<open>The traffic round\<close>

text \<open>The loop over the current users collects like the loop over the retiring ones.\<close>

lemma trafficUser_collect:
  "(tr_acc (trafficUser now tag s u), tr_stats (trafficUser now tag s u)) = collectUser (user_key tag u, u) (tr_acc s, tr_stats s)
   \<and> c_retiringUsers (tr_ctl (trafficUser now tag s u)) = c_retiringUsers (tr_ctl s)"
proof -
  obtain up down ds m' where dr: "drainTraffic (user_key tag u) (tr_stats s) = ((up, down, ds), m')" by (metis surj_pair)
  have none: "ds = []" if "\<not> (0 < sint up \<or> 0 < sint down)"
    using dr that by (auto simp: drainTraffic_unfold drainTrafficCounter_spec Let_def split: option.splits if_splits prod.splits)
  show ?thesis
  proof (cases "0 < sint up \<or> 0 < sint down")
    case True
    then show ?thesis using dr
      by (simp add: trafficUser_def watchUser_def collectUser_def buildUserTagWithTag_key limitUser_def Let_def split: prod.splits)
  next
    case False
    with none dr show ?thesis
      by (simp add: trafficUser_def watchUser_def collectUser_def buildUserTagWithTag_key appendUserTraffic_def Let_def)
  qed
qed

lemma foldl_trafficUser:
  "(tr_acc (foldl (trafficUser now tag) s us), tr_stats (foldl (trafficUser now tag) s us)) =
     collectUsers (map (\<lambda>u. (user_key tag u, u)) us) (tr_acc s, tr_stats s)
   \<and> c_retiringUsers (tr_ctl (foldl (trafficUser now tag) s us)) = c_retiringUsers (tr_ctl s)"
proof (induction us arbitrary: s)
  case (Cons u us)
  with trafficUser_collect [of now tag s u] show ?case by simp
qed simp

lemma collectUsers_append: "collectUsers (xs @ ys) st = collectUsers ys (collectUsers xs st)"
  by (induction xs arbitrary: st) simp_all

text \<open>What a report round has to settle: the current users under the current tag, and the
  retiring users under the tags they were retired from.\<close>

definition round_users :: "Controller \<Rightarrow> (string \<times> UserInfo) list" where
  "round_users c = map (\<lambda>u. (user_key (c_Tag c) u, u)) (users_of c) @ retired_keys (retiringUserSnapshot c)"


lemma release_loop_ctl:
  "release_loop now us (acc, c) = (rel, c') \<Longrightarrow> \<exists>l. c' = c\<lparr>c_limitedUsers := l\<rparr>"
proof (induction us arbitrary: acc c)
  case Nil
  then show ?case by (auto intro: exI [of _ "c_limitedUsers c"])
next
  case (Cons ui us)
  obtain u i where ui: "ui = (u, i)" by fastforce
  show ?case
  proof (cases "li_end i < now")
    case True
    with Cons.prems ui have "release_loop now us (acc @ [u\<lparr>u_SpeedLimit := li_originSpeedLimit i\<rparr>],
        c\<lparr>c_limitedUsers := del (u\<lparr>u_SpeedLimit := li_originSpeedLimit i\<rparr>) (c_limitedUsers c)\<rparr>) = (rel, c')"
      by (simp add: Let_def)
    from Cons.IH [OF this] show ?thesis by auto
  next
    case False
    with Cons.prems ui Cons.IH show ?thesis by simp
  qed
qed

lemma releaseLimitedUsers_views:
  fixes w :: "('p, 'c, 'ih, 'oh) node" and now :: int and tag :: string
  defines "w' \<equiv> releaseLimitedUsers now tag w"
  shows "node_flows w' = node_flows w" "node_stats w' = node_stats w" "nd_panel w' = nd_panel w" "nd_core w' = nd_core w"
    "c_retiringUsers (nd_ctl w') = c_retiringUsers (nd_ctl w)" "c_Tag (nd_ctl w') = c_Tag (nd_ctl w)"
    "c_nodeInfo (nd_ctl w') = c_nodeInfo (nd_ctl w)" "c_config (nd_ctl w') = c_config (nd_ctl w)"
    "c_userList (nd_ctl w') = c_userList (nd_ctl w)"
proof -
  obtain rel c' where r: "release_loop now (c_limitedUsers (nd_ctl w)) ([], nd_ctl w) = (rel, c')" by fastforce
  obtain l where l: "c' = (nd_ctl w)\<lparr>c_limitedUsers := l\<rparr>" using release_loop_ctl [OF r] by blast
  show "node_flows w' = node_flows w" "node_stats w' = node_stats w" "nd_panel w' = nd_panel w" "nd_core w' = nd_core w"
    "c_retiringUsers (nd_ctl w') = c_retiringUsers (nd_ctl w)" "c_Tag (nd_ctl w') = c_Tag (nd_ctl w)"
    "c_nodeInfo (nd_ctl w') = c_nodeInfo (nd_ctl w)" "c_config (nd_ctl w') = c_config (nd_ctl w)"
    "c_userList (nd_ctl w') = c_userList (nd_ctl w)"
    unfolding w'_def releaseLimitedUsers_def r l by (simp_all add: Let_def)
qed

lemma trafficUser_ctl:
  "c_Tag (tr_ctl (trafficUser now tag s u)) = c_Tag (tr_ctl s)"
  "c_nodeInfo (tr_ctl (trafficUser now tag s u)) = c_nodeInfo (tr_ctl s)"
  "c_config (tr_ctl (trafficUser now tag s u)) = c_config (tr_ctl s)"
  "c_userList (tr_ctl (trafficUser now tag s u)) = c_userList (tr_ctl s)"
proof -
  obtain up down ds m' where dr: "drainTraffic (buildUserTagWithTag tag u) (tr_stats s) = ((up, down, ds), m')" by (metis surj_pair)
  obtain tr ix where ap: "appendUserTraffic (ta_traffic (tr_acc s)) (ta_index (tr_acc s)) u up down = (tr, ix)" by fastforce
  show "c_Tag (tr_ctl (trafficUser now tag s u)) = c_Tag (tr_ctl s)"
    "c_nodeInfo (tr_ctl (trafficUser now tag s u)) = c_nodeInfo (tr_ctl s)"
    "c_config (tr_ctl (trafficUser now tag s u)) = c_config (tr_ctl s)"
    "c_userList (tr_ctl (trafficUser now tag s u)) = c_userList (tr_ctl s)"
    by (simp_all add: trafficUser_def watchUser_def dr ap limitUser_def Let_def)
qed

lemma foldl_trafficUser_ctl:
  "c_Tag (tr_ctl (foldl (trafficUser now tag) s us)) = c_Tag (tr_ctl s)"
  "c_nodeInfo (tr_ctl (foldl (trafficUser now tag) s us)) = c_nodeInfo (tr_ctl s)"
  "c_config (tr_ctl (foldl (trafficUser now tag) s us)) = c_config (tr_ctl s)"
  "c_userList (tr_ctl (foldl (trafficUser now tag) s us)) = c_userList (tr_ctl s)"
  by (induction us arbitrary: s) (simp_all add: trafficUser_ctl)

lemma reports_views:
  fixes w :: "('p, 'c, 'ih, 'oh) node" and api :: "'p API" and tag :: string
  defines "w' \<equiv> reportIllegals api tag (reportDevices api tag w)"
  shows "node_flows w' = node_flows w" "node_stats w' = node_stats w" "nd_ctl w' = nd_ctl w" "nd_core w' = nd_core w"
  by (simp_all add: w'_def reportDevices_def reportIllegals_def Let_def split: prod.split sum.split)

text \<open>
  A round of the user monitor in terms of what it collects: the traffic of the round's users
  goes to the panel, and the retiring users are finalised unless the panel refused it.
\<close>

lemma userInfoMonitor_round:
  fixes w :: "('p, 'c, 'ih, 'oh) node" and api :: "'p API" and acc :: traffic_acc
  assumes due: "\<not> elapsed < cfg_UpdatePeriodic (c_config (nd_ctl w))"
    and coll: "collectUsers (round_users (nd_ctl w)) (no_traffic, node_stats w) = (acc, m)"
  defines "panel \<equiv> snd (api_ReportNodeStatus api (nd_panel w))"
  defines "sent \<equiv> ta_traffic acc \<noteq> [] \<and> \<not> cfg_DisableUploadTraffic (c_config (nd_ctl w))"
  defines "refused \<equiv> sent \<and> fst (api_ReportUserTraffic api (ta_traffic acc) panel) \<noteq> None"
  obtains w5 where "node_flows w5 = node_flows w" "c_retiringUsers (nd_ctl w5) = c_retiringUsers (nd_ctl w)"
    "nd_core w5 = nd_core w" "c_Tag (nd_ctl w5) = c_Tag (nd_ctl w)" "c_nodeInfo (nd_ctl w5) = c_nodeInfo (nd_ctl w)"
    "node_stats w5 = (if refused then restoreTraffic (ta_deltas acc) m else m)"
    "nd_panel w5 = (if sent then snd (api_ReportUserTraffic api (ta_traffic acc) panel) else panel)"
    "userInfoMonitor api elapsed now w =
       reportIllegals api (c_Tag (nd_ctl w)) (reportDevices api (c_Tag (nd_ctl w))
         (if refused then w5 else finalizeRetiringUsers (retiringUserSnapshot (nd_ctl w)) w5))"
proof -
  obtain e0 p1 where st: "api_ReportNodeStatus api (nd_panel w) = (e0, p1)" by fastforce
  then have p1: "panel = p1" by (simp add: panel_def)
  let ?w1 = "w\<lparr>nd_panel := p1\<rparr>" let ?tag = "c_Tag (nd_ctl w)" let ?us = "users_of (nd_ctl w)" let ?rs = "retiringUserSnapshot (nd_ctl w)"
  let ?w2 = "releaseLimitedUsers now ?tag ?w1"
  note rl = releaseLimitedUsers_views [of now ?tag ?w1]
  define s where "s = foldl (trafficUser now ?tag) \<lparr>tr_acc = no_traffic, tr_stats = node_stats ?w2, tr_limited = [], tr_ctl = nd_ctl ?w2\<rparr> ?us"
  have fs: "(tr_acc s, tr_stats s) = collectUsers (map (\<lambda>u. (user_key ?tag u, u)) ?us) (no_traffic, node_stats w)"
      "c_retiringUsers (tr_ctl s) = c_retiringUsers (nd_ctl w)" "c_Tag (tr_ctl s) = ?tag" "c_nodeInfo (tr_ctl s) = c_nodeInfo (nd_ctl w)"
      "c_config (tr_ctl s) = c_config (nd_ctl w)"
    using foldl_trafficUser [of now ?tag "\<lparr>tr_acc = no_traffic, tr_stats = node_stats ?w2, tr_limited = [], tr_ctl = nd_ctl ?w2\<rparr>" ?us] rl
    by (simp_all add: s_def foldl_trafficUser_ctl)
  have c2: "collectUsers (retired_keys ?rs) (tr_acc s, tr_stats s) = (acc, m)"
    using coll by (simp add: round_users_def collectUsers_append fs(1))
  define w3 where "w3 = set_stats m (?w2\<lparr>nd_ctl := tr_ctl s\<rparr>)"
  define w4 where "w4 = (if tr_limited s \<noteq> [] then set_limiter (snd (UpdateInboundLimiter (node_limiter w3) ?tag (tr_limited s))) w3 else w3)"
  have w4: "node_flows w4 = node_flows w" "node_stats w4 = m" "nd_core w4 = nd_core w" "nd_panel w4 = p1" "nd_ctl w4 = tr_ctl s"
    using rl by (simp_all add: w4_def w3_def)
  obtain e p2 where rep: "api_ReportUserTraffic api (ta_traffic acc) p1 = (e, p2)" by fastforce
  define w5 where "w5 = (if ta_traffic acc = [] then w4
     else set_stats (if refused then restoreTraffic (ta_deltas acc) m else m) (w4\<lparr>nd_panel := if sent then p2 else p1\<rparr>))"
  have fl: "flushUserTraffic (\<lambda>traffic (p, m). let (e, p') = api_ReportUserTraffic api traffic p in (Returned e, p', m))
        (cfg_DisableUploadTraffic (c_config (nd_ctl w4))) (ta_traffic acc) (ta_deltas acc) (nd_panel w4, node_stats w4) =
      (if refused then Returned e else Returned None, if sent then p2 else p1, if refused then restoreTraffic (ta_deltas acc) m else m)"
    if "ta_traffic acc \<noteq> []"
    using that w4 fs(5) by (auto simp: flushUserTraffic_def rep refused_def sent_def p1 split: option.split)
  have ref: "refused \<Longrightarrow> e \<noteq> None" "refused \<Longrightarrow> ta_traffic acc \<noteq> []" by (auto simp: refused_def sent_def p1 rep)
  have set6: "settleTraffic api now ?tag ?us ?rs ?w2 = (if refused then w5 else finalizeRetiringUsers ?rs w5)"
    unfolding settleTraffic_def Let_def s_def [symmetric] c2 prod.case w3_def [symmetric] w4_def [symmetric]
    using ref fl by (auto simp: w5_def)
  have mon: "userInfoMonitor api elapsed now w = reportIllegals api ?tag (reportDevices api ?tag (if refused then w5 else finalizeRetiringUsers ?rs w5))"
    using due by (simp add: userInfoMonitor_def Let_def st set6)
  show ?thesis
  proof (rule that [of w5])
    show "userInfoMonitor api elapsed now w =
       reportIllegals api ?tag (reportDevices api ?tag (if refused then w5 else finalizeRetiringUsers ?rs w5))"
      by (rule mon)
  qed (use w4 fs ref rep in \<open>auto simp: w5_def sent_def p1\<close>)
qed


section \<open>Draining empties the counters\<close>

lemma counter_names: "upCounterName = userUplinkCounterName" "downCounterName = userDownlinkCounterName"
  by (simp_all add: fun_eq_iff upCounterName_def userUplinkCounterName_def downCounterName_def userDownlinkCounterName_def)

lemma drainTrafficCounter_value:
  "ctr_value (snd (drainTrafficCounter oc m)) a =
     (if oc = Some a \<and> 0 < sint (ctr_value m a) then 0 else ctr_value m a)"
  by (simp add: drainTrafficCounter_spec positive_part_def split: option.split)

lemma drainTraffic_value:
  assumes "drainTraffic e m = (x, m')"
  shows "ctr_value m' a = (if (GetCounter (upCounterName e) m = Some a \<or> GetCounter (downCounterName e) m = Some a)
            \<and> 0 < sint (ctr_value m a) then 0 else ctr_value m a)"
proof -
  obtain ud m1 where u: "drainTrafficCounter (GetCounter (upCounterName e) m) m = (ud, m1)" by fastforce
  obtain dd m2 where d: "drainTrafficCounter (GetCounter (downCounterName e) m1) m1 = (dd, m2)" by fastforce
  have g: "GetCounter n m1 = GetCounter n m" for n
    using drainTrafficCounter_counters [OF u] by (simp add: GetCounter_def)
  have "ctr_value m1 a = (if GetCounter (upCounterName e) m = Some a \<and> 0 < sint (ctr_value m a) then 0 else ctr_value m a)"
    using drainTrafficCounter_value [of "GetCounter (upCounterName e) m" m a] u by simp
  moreover have "ctr_value m2 a = (if GetCounter (downCounterName e) m = Some a \<and> 0 < sint (ctr_value m1 a) then 0 else ctr_value m1 a)"
    using drainTrafficCounter_value [of "GetCounter (downCounterName e) m1" m1 a] d g by simp
  moreover have "m' = m2" using assms u d by (simp add: drainTraffic_unfold)
  ultimately show ?thesis by auto
qed

lemma collectUser_value:
  assumes "collectUser (e, u) (acc, m) = (acc', m')"
  shows "ctr_value m' a = (if (GetCounter (upCounterName e) m = Some a \<or> GetCounter (downCounterName e) m = Some a)
            \<and> 0 < sint (ctr_value m a) then 0 else ctr_value m a)"
    and "GetCounter n m' = GetCounter n m"
proof -
  obtain x m1 where dr: "drainTraffic e m = (x, m1)" by fastforce
  have "m' = m1" using assms dr by (cases x) (auto simp: collectUser_def Let_def split: prod.splits)
  with drainTraffic_value [OF dr, of a] drainTraffic_counters [OF dr]
  show "ctr_value m' a = (if (GetCounter (upCounterName e) m = Some a \<or> GetCounter (downCounterName e) m = Some a)
            \<and> 0 < sint (ctr_value m a) then 0 else ctr_value m a)" and "GetCounter n m' = GetCounter n m"
    by (simp_all add: GetCounter_def)
qed

lemma collectUsers_empties:
  assumes "collectUsers eus (acc, m) = (acc', m')" and "0 \<le> sint (ctr_value m a)"
    and "\<exists>(e, u) \<in> set eus. GetCounter (upCounterName e) m = Some a \<or> GetCounter (downCounterName e) m = Some a"
  shows "ctr_value m' a = 0"
proof -
  have zero: "ctr_value m'' a = 0" if "collectUsers eus (acc, m) = (acc'', m'')" "ctr_value m a = 0" for eus acc m acc'' m''
    using that
  proof (induction eus arbitrary: acc m)
    case (Cons eu eus)
    obtain e u where eu: "eu = (e, u)" by fastforce
    obtain acc1 m1 where c: "collectUser (e, u) (acc, m) = (acc1, m1)" by fastforce
    have "ctr_value m1 a = 0" using collectUser_value(1) [OF c, of a] Cons.prems(2) by simp
    with Cons.IH [of acc1 m1] Cons.prems(1) c eu show ?case by simp
  qed simp
  show ?thesis using assms
  proof (induction eus arbitrary: acc m)
    case (Cons eu eus)
    obtain e u where eu: "eu = (e, u)" by fastforce
    obtain acc1 m1 where c: "collectUser (e, u) (acc, m) = (acc1, m1)" by fastforce
    have rest: "collectUsers eus (acc1, m1) = (acc', m')" using Cons.prems(1) c eu by simp
    note v = collectUser_value(1) [OF c, of a]
    show ?case
    proof (cases "GetCounter (upCounterName e) m = Some a \<or> GetCounter (downCounterName e) m = Some a")
      case True
      have "ctr_value m a = 0" if "\<not> 0 < sint (ctr_value m a)"
        using that Cons.prems(2) by (metis le_less signed_eq_0_iff)
      with True v have "ctr_value m1 a = 0" by auto
      with zero [OF rest] show ?thesis .
    next
      case False
      with Cons.prems(3) eu have "\<exists>(e, u) \<in> set eus. GetCounter (upCounterName e) m1 = Some a \<or> GetCounter (downCounterName e) m1 = Some a"
        by (auto simp: collectUser_value(2) [OF c])
      moreover have "0 \<le> sint (ctr_value m1 a)" using v Cons.prems(2) by simp
      ultimately show ?thesis using Cons.IH [OF rest] by blast
    qed
  qed simp
qed

text \<open>Every drained amount is in the report.\<close>

lemma collectUsers_no_deltas:
  assumes "collectUsers eus (acc, m) = (acc', m')" and "ta_traffic acc = [] \<Longrightarrow> ta_deltas acc = [] \<and> ta_index acc = Map.empty" and "ta_traffic acc' = []"
  shows "ta_deltas acc' = []"
  using assms
proof (induction eus arbitrary: acc m)
  case (Cons eu eus)
  obtain e u where eu: "eu = (e, u)" by fastforce
  obtain up down ds m1 where dr: "drainTraffic e m = ((up, down, ds), m1)" by (metis surj_pair)
  obtain tr ix where ap: "appendUserTraffic (ta_traffic acc) (ta_index acc) u up down = (tr, ix)" by fastforce
  have none: "ds = []" if "sint up \<le> 0 \<and> sint down \<le> 0"
    using dr that by (auto simp: drainTraffic_unfold drainTrafficCounter_spec Let_def split: option.splits if_splits prod.splits)
  have "ta_deltas acc @ ds = [] \<and> ix = Map.empty" if "tr = []"
  proof -
    have e: "ta_traffic acc = []" using ap that by (auto simp: appendUserTraffic_def split: if_splits option.splits)
    then have "ta_index acc = Map.empty" "ta_deltas acc = []" using Cons.prems(2) by auto
    moreover from this have "sint up \<le> 0 \<and> sint down \<le> 0" "ix = Map.empty"
      using ap that by (auto simp: appendUserTraffic_def split: if_splits)
    ultimately show ?thesis using none by simp
  qed
  with Cons.IH [of "\<lparr>ta_traffic = tr, ta_index = ix, ta_deltas = ta_deltas acc @ ds\<rparr>" m1] Cons.prems eu dr ap
  show ?case by (simp add: collectUser_def)
qed simp

section \<open>Finalisation of the retiring users\<close>

definition gone :: "string \<Rightarrow> string \<Rightarrow> ('p, 'c, 'ih, 'oh) node \<Rightarrow> bool" where
  "gone t e w \<longleftrightarrow> runtime_of (node_flows w) t e = None \<and> load (c_retiringUsers (nd_ctl w)) (t, e) = None
     \<and> GetCounter (userUplinkCounterName e) (node_stats w) = None \<and> GetCounter (userDownlinkCounterName e) (node_stats w) = None"

text \<open>One pass of the loop.\<close>

lemma finalizeRetiringUsers_Cons:
  fixes w :: "('p, 'c, 'ih, 'oh) node" and r :: retiringUser
  defines "key \<equiv> (rt_tag r, user_key (rt_tag r) (rt_user r))"
  obtains (kept) w1 where "\<not> can_finalize (fst key) (snd key) (node_flows w, node_stats w)"
      "node_flows w1 = node_flows w" "node_stats w1 = node_stats w" "nd_ctl w1 = nd_ctl w" "nd_core w1 = nd_core w"
      "finalizeRetiringUsers (r # rs) w = finalizeRetiringUsers rs w1"
  | (finalised) w1 fl m where "can_finalize (fst key) (snd key) (node_flows w, node_stats w)"
      "FinalizeRetiredUser (fst key) (snd key) (node_flows w, node_stats w) = (True, fl, m)"
      "node_flows w1 = fl" "node_stats w1 = m" "nd_core w1 = nd_core w"
      "nd_ctl w1 = (nd_ctl w)\<lparr>c_retiringUsers := (case load (c_retiringUsers (nd_ctl w)) key of
          Some current \<Rightarrow> if rt_user current = rt_user r then del key (c_retiringUsers (nd_ctl w)) else c_retiringUsers (nd_ctl w)
        | None \<Rightarrow> c_retiringUsers (nd_ctl w))\<rparr>"
      "finalizeRetiringUsers (r # rs) w = finalizeRetiringUsers rs w1"
proof -
  obtain ok fl m where f: "FinalizeRetiredUser (rt_tag r) (user_key (rt_tag r) (rt_user r)) (node_flows w, node_stats w) = (ok, fl, m)"
    by (metis surj_pair)
  note cs = FinalizeRetiredUser_cases(1,2) [OF f]
  show ?thesis
  proof (cases ok)
    case False
    with f cs have "finalizeRetiringUsers (r # rs) w = finalizeRetiringUsers rs (set_stats m (set_flows fl w))"
      by (simp add: buildUserTagWithTag_key Let_def)
    with False cs show ?thesis by (intro kept) (simp_all add: key_def)
  next
    case True
    let ?w1 = "set_ctl (\<lambda>c. case load (c_retiringUsers c) key of
          Some current \<Rightarrow> if rt_user current = rt_user r then c\<lparr>c_retiringUsers := del key (c_retiringUsers c)\<rparr> else c
        | None \<Rightarrow> c) (set_stats m (set_flows fl w))"
    have "finalizeRetiringUsers (r # rs) w = finalizeRetiringUsers rs ?w1"
      using True f unfolding key_def by (simp add: buildUserTagWithTag_key Let_def)
    with True f cs show ?thesis by (intro finalised [of fl m ?w1]) (simp_all add: key_def split: option.split)
  qed
qed

lemma finalizeRetiringUsers_value: "ctr_value (node_stats (finalizeRetiringUsers rs w)) = ctr_value (node_stats w)"
proof (induction rs arbitrary: w)
  case (Cons r rs)
  show ?case
  proof (rule finalizeRetiringUsers_Cons [of r w rs], goal_cases)
    case (1 w1)
    then show ?case using Cons by simp
  next
    case (2 w1 fl m)
    then show ?case using Cons finalize_views(7) [OF 2(2)] by simp
  qed
qed simp

lemma finalizeRetiringUsers_gone:
  assumes "gone t e w"
  shows "gone t e (finalizeRetiringUsers rs w)"
  using assms
proof (induction rs arbitrary: w)
  case (Cons r rs)
  show ?case
  proof (rule finalizeRetiringUsers_Cons [of r w rs], goal_cases)
    case (1 w1)
    then show ?case using Cons by (simp add: gone_def)
  next
    case (2 w1 fl m)
    have "gone t e w1" using Cons.prems 2(3-6) finalize_views(1,6) [OF 2(2)] by (auto simp: gone_def split: option.split)
    then show ?case using Cons.IH 2(7) by simp
  qed
qed simp


text \<open>Finalising one user does not keep another from being finalised.\<close>

lemma can_finalize_other:
  assumes f: "FinalizeRetiredUser t' e' (r, m) = (True, r', m')" and "(t, e) \<noteq> (t', e')" and "can_finalize t e (r, m)"
  shows "can_finalize t e (r', m')"
proof -
  have "counter_empty n m'" if "counter_empty n m" for n
    using that unfolding counter_empty_def finalize_views(6,7) [OF f] by (cases "GetCounter n m") simp_all
  moreover have "runtime_of r' t e = runtime_of r t e" using assms(2) finalize_views(1) [OF f] by auto
  ultimately show ?thesis
    using assms(3) by (auto simp: can_finalize_def finalize_views(2,4) [OF f])
qed

lemma finalizeRetiringUsers_finalises:
  assumes "r \<in> set rs" and "\<And>r'. r' \<in> set rs \<Longrightarrow> (rt_tag r', user_key (rt_tag r') (rt_user r')) = (t, e) \<Longrightarrow> r' = r"
    and "(rt_tag r, user_key (rt_tag r) (rt_user r)) = (t, e)" and "can_finalize t e (node_flows w, node_stats w)"
    and "load (c_retiringUsers (nd_ctl w)) (t, e) = Some r"
  shows "gone t e (finalizeRetiringUsers rs w)"
  using assms
proof (induction rs arbitrary: w)
  case (Cons x rs)
  show ?case
  proof (rule finalizeRetiringUsers_Cons [of x w rs], goal_cases)
    case (1 w1)
    then have "x \<noteq> r" using Cons.prems(3,4) by auto
    then have "gone t e (finalizeRetiringUsers rs w1)" using Cons.prems 1 by (intro Cons.IH) auto
    then show ?case using 1 by simp
  next
    case (2 w1 fl m)
    show ?case
    proof (cases "(rt_tag x, user_key (rt_tag x) (rt_user x)) = (t, e)")
      case True
      from Cons.prems(2) [OF list.set_intros(1) this] have "x = r" .
      then have "gone t e w1"
        using Cons.prems(3,5) 2(3-6) finalize_views(1,6) [OF 2(2)] by (auto simp: gone_def)
      then show ?thesis using finalizeRetiringUsers_gone 2(7) by simp
    next
      case False
      have "can_finalize t e (fl, m)"
        by (rule can_finalize_other [OF 2(2) _ Cons.prems(4)]) (unfold fst_conv snd_conv, rule False [symmetric])
      then have cf: "can_finalize t e (node_flows w1, node_stats w1)" using 2(3,4) by simp
      have ld: "load (c_retiringUsers (nd_ctl w1)) (t, e) = Some r" using False Cons.prems(5) 2(6) by (auto split: option.split)
      have "x \<noteq> r" using False Cons.prems(3) by blast
      then have "r \<in> set rs" using Cons.prems(1) by simp
      from Cons.IH [OF this _ Cons.prems(3) cf ld] Cons.prems(2) have "gone t e (finalizeRetiringUsers rs w1)"
        by (meson list.set_intros(2))
      then show ?thesis using 2(7) by simp
    qed
  qed
qed simp

end
