(* ===== verification/Node_Lifecycle.thy ===== *)
theory Node_Lifecycle
  imports Node_Rounds
begin

text \<open>
  The life of a user on a node, over everything that touches it: the controller publishes and
  retires users, connections open and close, the report rounds finalise. No retired user is
  lost, a refused report loses no traffic, an accepted one carries exactly what is due and
  finalises the idle users; and two ways in which a node does not recover.
\<close>

section \<open>The node as a whole\<close>

lemma userInfoMonitor_inv [wf_intros]:
  assumes inv: "node_inv_upto F w"
  shows "node_inv_upto F (userInfoMonitor api elapsed now w)"
proof (cases "elapsed < cfg_UpdatePeriodic (c_config (nd_ctl w))")
  case True
  with inv show ?thesis by (simp add: userInfoMonitor_def)
next
  case False
  obtain acc m where coll: "collectUsers (round_users (nd_ctl w)) (no_traffic, node_stats w) = (acc, m)" by fastforce
  have m: "stats_inv m"
    using collectUsers_conserves [OF coll] node_invD(2) [OF inv] stats_inv_counters by blast
  show ?thesis
  proof (rule userInfoMonitor_round [OF False coll, where api = api and now = now], goal_cases)
    case (1 w5)
    have "stats_inv (node_stats w5)" using 1(6) m stats_inv_restore by simp
    with inv 1(1,2) have "node_inv_upto F w5" by (simp add: node_inv_upto_def)
    then have "node_inv_upto F (if P then w5 else finalizeRetiringUsers (retiringUserSnapshot (nd_ctl w)) w5)" for P
      by (simp add: finalizeRetiringUsers_inv)
    then show ?case unfolding 1(8) by (subst node_inv_cong) (simp_all only: reports_views)
  qed
qed

lemma ctl_Start_inv [wf_intros]:
  assumes "node_inv_upto F w"
  shows "node_inv_upto F (snd (ctl_Start iface ce api w))"
proof -
  have ad: "node_inv_upto F w4 \<Longrightarrow> node_inv_upto F w5" if "addNewUser ce us ni tag w4 = (x, w5)" for us ni tag w4 x w5
    using addNewUser_inv [of F w4 ce us ni tag] that by simp
  show ?thesis using assms
    by (auto simp: ctl_Start_def Let_def node_inv_ctl checkRules_inv split: sum.split prod.split dest!: ad)
qed

lemma tracked_cong:
  "(\<And>t e. runtime_of r' t e = runtime_of r t e) \<Longrightarrow> (\<And>t e. is_current r' t e = is_current r t e) \<Longrightarrow> tracked F r' m = tracked F r m"
  unfolding tracked_def by presburger

lemma getUserIO_inv:
  assumes inv: "node_inv_upto F w" and g: "getUserIO iface ForLevel sess (dd_flow (nd_disp w)) = (res, fs)"
  shows "node_inv_upto F (w\<lparr>nd_disp := (nd_disp w)\<lparr>dd_flow := fs\<rparr>\<rparr>)"
proof -
  let ?r = "fs_flows (dd_flow (nd_disp w))" and ?m = "fs_stats (dd_flow (nd_disp w))"
  have fi: "flow_inv ?r" and si: "stats_inv ?m"
    using node_invD(1,2) [OF inv] by (simp_all add: node_flows_def node_stats_def)
  have "flow_inv (fs_flows fs) \<and> stats_inv (fs_stats fs) \<and> same_admissions ?r (fs_flows fs)"
  proof (rule getUserIO_cases [OF fi si g], goal_cases)
    case 1
    then show ?case using fi si by (simp add: same_admissions_def)
  next
    case (2 err)
    then show ?case using si by simp
  next
    case (3 u si' user a)
    then show ?case using flow_acquire_spec(1) [OF fi] flow_acquire_same [OF fi] by blast
  qed
  then show ?thesis
    using inv tracked_cong [of "fs_flows fs" ?r] by (simp add: node_inv_upto_def node_flows_def node_stats_def same_admissions_def)
qed

text \<open>
  Everything that happens to a running node: the rounds of the two monitors at any time and
  with any answers of the panel, connections that are admitted or refused, that end, and that
  count traffic. Here a round is one step; the theories on threads interleave the monitors action
  by action.
\<close>

inductive node_step ::
    "'c cache_iface \<Rightarrow> ('ic, 'oc, 'ih, 'oh) core_env \<Rightarrow> (uint32 \<Rightarrow> policy_stats) \<Rightarrow>
     ('p, 'c, 'ih, 'oh) node \<Rightarrow> ('p, 'c, 'ih, 'oh) node \<Rightarrow> bool"
  for iface :: "'c cache_iface" and ce :: "('ic, 'oc, 'ih, 'oh) core_env" and ForLevel :: "uint32 \<Rightarrow> policy_stats" where
  step_node_monitor: "node_step iface ce ForLevel w (nodeInfoMonitor iface ce api elapsed w)"
| step_user_monitor: "node_step iface ce ForLevel w (userInfoMonitor api elapsed now w)"
| step_connect: "getUserIO iface ForLevel sess (dd_flow (nd_disp w)) = (res, fs) \<Longrightarrow>
    node_step iface ce ForLevel w (w\<lparr>nd_disp := (nd_disp w)\<lparr>dd_flow := fs\<rparr>\<rparr>)"
| step_disconnect: "node_step iface ce ForLevel w (set_flows (runtime_release a (node_flows w)) w)"
| step_count: "node_step iface ce ForLevel w (set_stats (snd (counter_Add c v (node_stats w))) w)"

inductive_cases node_stepE: "node_step iface ce ForLevel w w'"

lemma node_inv_step: "node_step iface ce ForLevel w w' \<Longrightarrow> node_inv_upto F w \<Longrightarrow> node_inv_upto F w'"
proof (erule node_stepE, goal_cases)
  case (4 a)
  then show ?case using tracked_cong [of "runtime_release a (node_flows w)" "node_flows w"]
    by (simp add: node_inv_upto_def flow_inv_runtime_release)
next
  case (5 c v)
  then show ?case by (simp add: node_inv_upto_def stats_inv_Add)
qed (simp_all add: nodeInfoMonitor_inv userInfoMonitor_inv getUserIO_inv)

definition fresh_node :: "('p, 'c, 'ih, 'oh) node \<Rightarrow> bool" where
  "fresh_node w \<longleftrightarrow> node_flows w = empty_registry \<and> node_stats w = NewManager \<and> c_retiringUsers (nd_ctl w) = []"

lemma node_inv_fresh: "fresh_node w \<Longrightarrow> node_inv_upto F w"
  by (simp add: fresh_node_def node_inv_upto_def tracked_def flow_inv_empty stats_inv_New)
    (simp add: runtime_of_def empty_registry_def)

lemma node_inv_reach: "(node_step iface ce ForLevel)\<^sup>*\<^sup>* w w' \<Longrightarrow> node_inv_upto F w \<Longrightarrow> node_inv_upto F w'"
  by (induction rule: rtranclp_induct) (auto intro: node_inv_step)

text \<open>
  No retired user is ever lost: from the start of a controller on, over any sequence of
  monitor rounds, panel answers, connections and traffic, every user that is no longer
  admitted but still has a runtime object is on the controller's list of retiring users under
  its own key, so its last traffic will be reported and its counters cleaned up.
\<close>

theorem retired_users_tracked:
  assumes "fresh_node w0" and "ctl_Start iface ce api w0 = (out, w1)" and "(node_step iface ce ForLevel)\<^sup>*\<^sup>* w1 w"
    and "runtime_of (node_flows w) t e \<noteq> None" and "\<not> is_current (node_flows w) t e"
  shows "\<exists>r. load (c_retiringUsers (nd_ctl w)) (t, e) = Some r \<and> rt_tag r = t \<and> user_key t (rt_user r) = e"
proof -
  have "node_inv w1" using ctl_Start_inv [OF node_inv_fresh [OF assms(1)], of "{}" iface ce api] assms(2) by simp
  then have inv: "node_inv w" by (rule node_inv_reach [OF assms(3)])
  obtain r where r: "load (c_retiringUsers (nd_ctl w)) (t, e) = Some r" using node_invD(3) [OF inv assms(4,5)] by blast
  with node_invD(4) [OF inv r] show ?thesis by auto
qed

section \<open>Properties of the report round\<close>

text \<open>
  C16. A report round that the panel refuses loses nothing: every counter has the value it had
  before the round, whatever the round drained, and when there was traffic to report no
  retiring user is forgotten and the flow registry is untouched.
\<close>

theorem refused_report_keeps_traffic:
  fixes w :: "('p, 'c, 'ih, 'oh) node"
  assumes "\<not> elapsed < cfg_UpdatePeriodic (c_config (nd_ctl w))" and "\<not> cfg_DisableUploadTraffic (c_config (nd_ctl w))"
    and refuses: "\<And>traffic p. fst (api_ReportUserTraffic api traffic p) \<noteq> None"
  shows "ctr_value (node_stats (userInfoMonitor api elapsed now w)) = ctr_value (node_stats w)
    \<and> (ta_traffic (fst (collectUsers (round_users (nd_ctl w)) (no_traffic, node_stats w))) \<noteq> [] \<longrightarrow>
         node_flows (userInfoMonitor api elapsed now w) = node_flows w
         \<and> c_retiringUsers (nd_ctl (userInfoMonitor api elapsed now w)) = c_retiringUsers (nd_ctl w))"
proof -
  obtain acc m where coll: "collectUsers (round_users (nd_ctl w)) (no_traffic, node_stats w) = (acc, m)" by fastforce
  note cons = collectUsers_conserves [OF coll]
  show ?thesis
  proof (rule userInfoMonitor_round [OF assms(1) coll, where api = api and now = now], goal_cases)
    case (1 w5)
    have "ctr_value (node_stats w5) a = ctr_value (node_stats w) a" for a
    proof (cases "ta_traffic acc = []")
      case True
      then have "ta_deltas acc = []" using collectUsers_no_deltas [OF coll] by (simp add: no_traffic_def)
      with True 1(6) cons [of a] show ?thesis by (simp add: no_traffic_def)
    next
      case False
      with 1(6) assms(2) refuses cons [of a] show ?thesis by (simp add: ctr_value_restore no_traffic_def)
    qed
    then have "ctr_value (node_stats w5) = ctr_value (node_stats w)" by blast
    then show ?case using 1(1-5,8) coll assms(2) refuses
      by (cases "ta_traffic acc = []") (simp_all add: reports_views finalizeRetiringUsers_value)
  qed
qed


text \<open>
  C17. A retired user is eventually forgotten. When a report round is not refused, every
  retiring user that has no open connection left and whose counters are not negative is
  finalised in that round: its runtime object, its counters and its entry in the list of
  retiring users are gone, so nothing is leaked and nothing is reported twice.
\<close>

theorem retired_user_finalised:
  fixes w :: "('p, 'c, 'ih, 'oh) node"
  assumes inv: "node_inv w" and due: "\<not> elapsed < cfg_UpdatePeriodic (c_config (nd_ctl w))"
    and taken: "\<And>traffic p. fst (api_ReportUserTraffic api traffic p) = None"
    and ru: "load (c_retiringUsers (nd_ctl w)) (t, e) \<noteq> None" and cur: "\<not> is_current (node_flows w) t e"
    and rt: "runtime_of (node_flows w) t e = Some a" and idle: "fr_active (node_flows w) a = 0"
    and nonneg: "\<And>c. 0 \<le> sint (ctr_value (node_stats w) c)"
  shows "runtime_of (node_flows (userInfoMonitor api elapsed now w)) t e = None
    \<and> load (c_retiringUsers (nd_ctl (userInfoMonitor api elapsed now w))) (t, e) = None
    \<and> GetCounter (userUplinkCounterName e) (node_stats (userInfoMonitor api elapsed now w)) = None
    \<and> GetCounter (userDownlinkCounterName e) (node_stats (userInfoMonitor api elapsed now w)) = None"
proof -
  let ?rs = "retiringUserSnapshot (nd_ctl w)" and ?m = "c_retiringUsers (nd_ctl w)"
  obtain acc m where coll: "collectUsers (round_users (nd_ctl w)) (no_traffic, node_stats w) = (acc, m)" by fastforce
  obtain r where r: "load ?m (t, e) = Some r" using ru by blast
  have key: "(rt_tag r, user_key (rt_tag r) (rt_user r)) = (t, e)" using node_invD(4) [OF inv r] by simp
  have snap: "x \<in> set ?rs \<longleftrightarrow> (\<exists>k. load ?m k = Some x)" for x
    using wf_map_load_iff [OF node_invD(5) [OF inv]] by (force simp: retiringUserSnapshot_def)
  have mem: "r \<in> set ?rs" using r snap by blast
  have uniq: "x = r" if "x \<in> set ?rs" "(rt_tag x, user_key (rt_tag x) (rt_user x)) = (t, e)" for x
    using that snap node_invD(4) [OF inv] r by (metis option.inject)
  have ec: "(e, rt_user r) \<in> set (round_users (nd_ctl w))"
    using mem key by (force simp: round_users_def retired_keys_def buildUserTagWithTag_key)
  have empt: "counter_empty n m" if "n = upCounterName e \<or> n = downCounterName e" for n
  proof (cases "GetCounter n m")
    case (Some c)
    have "counters m = counters (node_stats w)" using collectUsers_conserves [OF coll] by blast
    then have "GetCounter n (node_stats w) = Some c" using Some by (simp add: GetCounter_def)
    then have "ctr_value m c = 0" using that ec by (intro collectUsers_empties [OF coll nonneg]) auto
    with Some show ?thesis by (simp add: counter_empty_def)
  qed (simp add: counter_empty_def)
  show ?thesis
  proof (rule userInfoMonitor_round [OF due coll, where api = api and now = now], goal_cases)
    case (1 w5)
    have st: "node_stats w5 = m" using 1(6) taken by simp
    have "can_finalize t e (node_flows w5, node_stats w5)"
      using cur rt idle empt by (simp add: can_finalize_def 1(1) st counter_names)
    from finalizeRetiringUsers_finalises [OF mem _ key this] uniq 1(2) r
    have "gone t e (finalizeRetiringUsers ?rs w5)" by metis
    then show ?case using 1(8) taken by (simp add: gone_def reports_views)
  qed
qed


section \<open>What the panel gets\<close>

lemma finalizeRetiringUsers_panel: "nd_panel (finalizeRetiringUsers rs w) = nd_panel w"
  by (induction rs arbitrary: w) (auto simp: Let_def split: prod.split)


section \<open>A node without its inbound\<close>

lemma addUsers_missing:
  "load (xs_inbounds x) tag = None \<Longrightarrow>
   addUsers ce us tag x = (Some (Error (''no such inbound tag: '' @ ''handler not found: '' @ tag)), x)"
  by (simp add: addUsers_def ibm_GetHandler_def)

lemma removeUsers_missing:
  "load (xs_inbounds x) tag = None \<Longrightarrow>
   removeUsers ce us tag x = (Some (Error (''no such inbound tag: '' @ ''handler not found: '' @ tag)), x)"
  by (simp add: removeUsers_def ibm_GetHandler_def)

definition same_place :: "('p, 'c, 'ih, 'oh) node \<Rightarrow> ('p, 'c, 'ih, 'oh) node \<Rightarrow> bool" where
  "same_place w w' \<longleftrightarrow> nd_core w' = nd_core w \<and> c_Tag (nd_ctl w') = c_Tag (nd_ctl w) \<and> c_nodeInfo (nd_ctl w') = c_nodeInfo (nd_ctl w)"

lemma same_place_refl [simp]: "same_place w w"
  by (simp add: same_place_def)

lemma same_place_trans: "same_place w w1 \<Longrightarrow> same_place w1 w2 \<Longrightarrow> same_place w w2"
  by (simp add: same_place_def)

lemma same_place_users [simp]:
  "same_place w0 (registerManagedUsers tag us w) = same_place w0 w"
  "same_place w0 (retireManagedUsers tag us w) = same_place w0 w"
  "same_place w0 (restoreManagedUsers tag us w) = same_place w0 w"
  by (simp_all add: same_place_def registerManagedUsers_def retireManagedUsers_def restoreManagedUsers_def Let_def)

lemma same_place_frame [simp]:
  "same_place w0 (set_limiter l w) = same_place w0 w" "same_place w0 (set_rules rm w) = same_place w0 w"
  "same_place w0 (set_flows fl w) = same_place w0 w" "same_place w0 (set_stats m w) = same_place w0 w"
  "same_place w0 (w\<lparr>nd_panel := p\<rparr>) = same_place w0 w" "same_place w0 (w\<lparr>nd_disp := d\<rparr>) = same_place w0 w"
  by (simp_all add: same_place_def)

lemma same_place_checkRules [simp]: "same_place w0 (checkRules api tag w) = same_place w0 w"
  by (simp add: checkRules_def Let_def split: prod.split sum.split)

lemma nd_core_users [simp]:
  "nd_core (registerManagedUsers tag us w) = nd_core w" "nd_core (retireManagedUsers tag us w) = nd_core w"
  by (simp_all add: registerManagedUsers_def retireManagedUsers_def Let_def)

lemma same_place_core: "nd_core w = x \<Longrightarrow> same_place w0 (w\<lparr>nd_core := x\<rparr>) = same_place w0 w"
  by (simp add: same_place_def)

lemma addNewUser_missing:
  assumes "load (xs_inbounds (nd_core w)) tag = None" and "same_place w0 w"
  shows "same_place w0 (snd (addNewUser ce us ni tag w))"
proof -
  have "same_place w0 (retireManagedUsers tag us (registerManagedUsers tag us w\<lparr>nd_core := nd_core w\<rparr>))"
    using assms(2) by (simp add: same_place_core)
  then show ?thesis
    using assms(2) by (simp add: addNewUser_def Let_def addUsers_missing [OF assms(1)] split: sum.split)
qed

lemma nodeInfoMonitor_missing:
  assumes "load (xs_inbounds (nd_core w)) (c_Tag (nd_ctl w)) = None"
  shows "same_place w (nodeInfoMonitor iface ce api elapsed w)"
proof -
  let ?tag = "c_Tag (nd_ctl w)"
  have miss: "load (xs_inbounds (nd_core v)) ?tag = None" if "same_place w v" for v
    using assms that by (simp add: same_place_def)
  have sw: "fst (switchTag ce old ?tag us new v) = None \<and> same_place w (snd (switchTag ce old ?tag us new v))"
    if "same_place w v" for old us new v
    using that removeOldTag_absent [OF miss [OF that], of ce] by (simp add: switchTag_def Let_def same_place_core)
  have df: "same_place w (snd (applyUserDiff ce ni ?tag d v))" if v: "same_place w v" for ni d v
  proof (cases "ud_deleted d = []")
    case True
    then show ?thesis using v addNewUser_missing [OF miss [OF v] v, where ce = ce] by (simp add: applyUserDiff_def Let_def)
  next
    case False
    with v show ?thesis by (simp add: applyUserDiff_def Let_def same_place_core removeUsers_missing [OF miss [OF v]])
  qed
  have sw': "x = None \<and> same_place w v'" if "switchTag ce old ?tag us new v = (x, v')" "same_place w v" for old us new v x v'
    using sw [OF that(2), of old us new] that(1) by simp
  have df': "same_place w v'" if "applyUserDiff ce ni ?tag d v = (x, v')" "same_place w v" for ni d v x v'
    using df [OF that(2), of ni d] that(1) by simp
  have ctl: "same_place w (set_ctl (\<lambda>c. c\<lparr>c_userList := us\<rparr>) v) = same_place w v" for us v by (simp add: same_place_def)
  show ?thesis
    by (auto simp: nodeInfoMonitor_def Let_def ctl split: option.split sum.split go_error.split prod.split
        dest!: sw' df')
qed

lemma finalizeRetiringUsers_place: "same_place w0 (finalizeRetiringUsers rs w) = same_place w0 w"
proof (induction rs arbitrary: w)
  case (Cons r rs)
  show ?case
  proof (rule finalizeRetiringUsers_Cons [of r w rs], goal_cases)
    case (1 w1)
    then show ?case using Cons by (simp add: same_place_def)
  next
    case (2 w1 fl m)
    then show ?case using Cons by (simp add: same_place_def)
  qed
qed simp

lemma userInfoMonitor_place: "same_place w (userInfoMonitor api elapsed now w)"
proof (cases "elapsed < cfg_UpdatePeriodic (c_config (nd_ctl w))")
  case True
  then show ?thesis by (simp add: userInfoMonitor_def)
next
  case False
  obtain acc m where coll: "collectUsers (round_users (nd_ctl w)) (no_traffic, node_stats w) = (acc, m)" by fastforce
  show ?thesis
  proof (rule userInfoMonitor_round [OF False coll, where api = api and now = now], goal_cases)
    case (1 w5)
    have "same_place w w5" using 1(3-5) by (simp add: same_place_def)
    then have "same_place w (if P then w5 else finalizeRetiringUsers (retiringUserSnapshot (nd_ctl w)) w5)" for P
      by (simp add: finalizeRetiringUsers_place)
    then show ?case unfolding 1(8) by (simp add: same_place_def reports_views)
  qed
qed

lemma missing_inbound_steps:
  assumes "(node_step iface ce ForLevel)\<^sup>*\<^sup>* w w'" and "load (xs_inbounds (nd_core w)) (c_Tag (nd_ctl w)) = None"
  shows "same_place w w'"
  using assms(1)
proof (induction rule: rtranclp_induct)
  case (step v v')
  have miss: "load (xs_inbounds (nd_core v)) (c_Tag (nd_ctl v)) = None" using assms(2) step.IH by (simp add: same_place_def)
  from step.hyps(2) have "same_place v v'"
    by (cases rule: node_step.cases) (simp_all add: nodeInfoMonitor_missing [OF miss] userInfoMonitor_place)
  with step.IH show ?case by (rule same_place_trans)
qed simp

text \<open>A round that cannot build the new inbound has already removed the old one.\<close>

lemma failed_rebuild_round:
  fixes w :: "('p, 'c, 'ih, 'oh) node" and iface :: "'c cache_iface"
  assumes "\<not> elapsed < cfg_UpdatePeriodic (c_config (nd_ctl w))" and "c_nodeInfo (nd_ctl w) = Some old"
    and "api_GetNodeInfo api (nd_panel w) = (Inr new, p1)" and "api_GetUserList api p1 = (Inr us, p2)" and "old \<noteq> new"
    and "ni_NodeType old \<noteq> ''Shadowsocks-Plugin''" and "ni_NodeType new \<noteq> ''Shadowsocks-Plugin''" and "c_Tag (nd_ctl w) \<noteq> ''''"
    and "InboundBuilder (ce_builder ce) (c_config (nd_ctl w)) new (buildNodeTag (c_config (nd_ctl w)) new) = Inl err"
  defines "w1 \<equiv> nodeInfoMonitor iface ce api elapsed w"
  shows "load (xs_inbounds (nd_core w1)) (c_Tag (nd_ctl w)) = None" and "c_Tag (nd_ctl w1) = c_Tag (nd_ctl w)"
    and "c_nodeInfo (nd_ctl w1) = Some old"
proof -
  let ?tag = "c_Tag (nd_ctl w)" and ?w2 = "w\<lparr>nd_panel := p1\<rparr>\<lparr>nd_panel := p2\<rparr>"
  obtain e x where rm: "removeOldTag ce ?tag (nd_core w) = (e, x)" by fastforce
  have miss: "load (xs_inbounds x) ?tag = None"
    using removeOldTag_spec(1,3) [OF rm] assms(8) by (cases e) auto
  have ctl: "c_config (nd_ctl (retireManagedUsers t v u)) = c_config (nd_ctl u)" "c_Tag (nd_ctl (retireManagedUsers t v u)) = c_Tag (nd_ctl u)"
      "c_nodeInfo (nd_ctl (retireManagedUsers t v u)) = c_nodeInfo (nd_ctl u)" "c_Tag (nd_ctl (restoreManagedUsers t v u)) = c_Tag (nd_ctl u)"
      "c_nodeInfo (nd_ctl (restoreManagedUsers t v u)) = c_nodeInfo (nd_ctl u)" "nd_core (restoreManagedUsers t v u) = nd_core u"
    for t v and u :: "('p, 'c, 'ih, 'oh) node"
    by (simp_all add: retireManagedUsers_def restoreManagedUsers_def registerManagedUsers_def Let_def)
  have add: "addNewTag ce (c_config (nd_ctl w)) new (buildNodeTag (c_config (nd_ctl w)) new) x = (Some err, x)"
    using assms(7,9) by (simp add: addNewTag_def addPair_def)
  let ?s = "switchTag ce old ?tag (users_of (nd_ctl w)) new ?w2"
  have "fst ?s = None \<and> nd_core (snd ?s) = x \<and> c_Tag (nd_ctl (snd ?s)) = ?tag \<and> c_nodeInfo (nd_ctl (snd ?s)) = c_nodeInfo (nd_ctl w)"
    by (cases e) (simp_all add: switchTag_def Let_def rm add assms(6) ctl)
  then obtain v where sw: "?s = (None, v)" "nd_core v = x" "c_Tag (nd_ctl v) = ?tag" "c_nodeInfo (nd_ctl v) = c_nodeInfo (nd_ctl w)"
    by (cases ?s) auto
  have "w1 = v" using sw(1) assms(1-5) by (simp add: w1_def nodeInfoMonitor_def Let_def)
  with sw miss assms(2) show "load (xs_inbounds (nd_core w1)) ?tag = None" and "c_Tag (nd_ctl w1) = ?tag"
    and "c_nodeInfo (nd_ctl w1) = Some old" by simp_all
qed

text \<open>
  C31. A node that lost its inbound does not get it back. When a round finds a changed node
  description and its inbound cannot be built (for instance because a certificate is not
  issued at that moment), the old inbound is already removed; from then on every later
  round, whatever the panel answers, fails at removing the old inbound again: the node stays
  without an inbound under its tag and keeps the outdated description.
\<close>

theorem failed_rebuild_is_permanent:
  assumes "\<not> elapsed < cfg_UpdatePeriodic (c_config (nd_ctl w))" and "c_nodeInfo (nd_ctl w) = Some old"
    and "api_GetNodeInfo api (nd_panel w) = (Inr new, p1)" and "api_GetUserList api p1 = (Inr us, p2)" and "old \<noteq> new"
    and "ni_NodeType old \<noteq> ''Shadowsocks-Plugin''" and "ni_NodeType new \<noteq> ''Shadowsocks-Plugin''" and "c_Tag (nd_ctl w) \<noteq> ''''"
    and "InboundBuilder (ce_builder ce) (c_config (nd_ctl w)) new (buildNodeTag (c_config (nd_ctl w)) new) = Inl err"
    and "(node_step iface ce ForLevel)\<^sup>*\<^sup>* (nodeInfoMonitor iface ce api elapsed w) w'"
  shows "load (xs_inbounds (nd_core w')) (c_Tag (nd_ctl w)) = None \<and> c_Tag (nd_ctl w') = c_Tag (nd_ctl w)
    \<and> c_nodeInfo (nd_ctl w') = Some old"
proof -
  note rb = failed_rebuild_round [OF assms(1-9), of iface]
  have "same_place (nodeInfoMonitor iface ce api elapsed w) w'"
    using rb(1,2) by (intro missing_inbound_steps [OF assms(10)]) simp
  with rb show ?thesis by (simp add: same_place_def)
qed


section \<open>One bad user\<close>

lemma flow_retire_present:
  assumes "flow_inv r" and "e \<in> set emails"
  shows "runtime_of (flow_retire tag emails r) tag e \<noteq> None"
proof -
  obtain n r1 where n: "registry_node tag r = (n, r1)" by fastforce
  obtain n' r2 where l: "retire_loop emails n r1 = (n', r2)" by fastforce
  have "node_ok n r1" using node_at_ok [OF assms(1)] registry_node_eq [OF n] by (simp add: node_ok_def)
  from retire_loop_ext [OF this l] assms(2) have "load (mn_runtime n') e \<noteq> None" by blast
  then show ?thesis by (simp add: flow_retire_def n l runtime_of_def)
qed

lemma retire_views:
  assumes "node_inv v" and "u \<in> set us"
  shows "runtime_of (node_flows (retireManagedUsers tag us v)) tag (user_key tag u) \<noteq> None"
    and "\<not> is_current (node_flows (retireManagedUsers tag us v)) tag (user_key tag u)"
    and "fr_active (node_flows (retireManagedUsers tag us v)) = fr_active (node_flows v)"
    and "node_stats (retireManagedUsers tag us v) = node_stats v"
proof -
  show "\<not> is_current (node_flows (retireManagedUsers tag us v)) tag (user_key tag u)"
    and "fr_active (node_flows (retireManagedUsers tag us v)) = fr_active (node_flows v)"
    and "node_stats (retireManagedUsers tag us v) = node_stats v"
    using assms flow_retire_spec(2,5) [OF node_invD(1) [OF assms(1)]] by (auto simp: retireManagedUsers_def Let_def runtimeUserEmails_key)
  show "runtime_of (node_flows (retireManagedUsers tag us v)) tag (user_key tag u) \<noteq> None"
    using assms flow_retire_present [OF node_invD(1) [OF assms(1)], of "user_key tag u" "map (user_key tag) us" tag]
    by (auto simp: retireManagedUsers_def Let_def runtimeUserEmails_key)
qed

lemma addUsers_nil:
  assumes "None \<in> set users"
  shows "fst (addUsers ce users tag x) \<noteq> None"
proof -
  have "e \<noteq> None" if "addUsers_loop ce users h = (e, h')" for h e h' using addUsers_loop_nil [OF assms, of ce h] that by simp
  then show ?thesis by (auto simp: addUsers_def Let_def split: sum.split go_error.split prod.split)
qed

text \<open>
  One user with an unusable key takes all others down. On a panel of the V2board family and
  a Shadowsocks 2022 cipher, a single user whose password is too short leaves a nil slot in
  the list of users; adding the list fails there, and every user of the list is retired,
  those included that were admitted to the proxy just before.
\<close>

theorem short_key_retires_all_users:
  fixes w :: "('p, 'c, 'ih, 'oh) node"
  assumes inv: "node_inv w" and "ni_NodeType ni = ''Shadowsocks''" and "ToLower (ni_CypherMethod ni) \<in> set (be_ss2022 (ce_builder ce))"
    and "ContainsStr (c_panelType (nd_ctl w)) ''V2board''" and "bad \<in> set us" and "length (u_Passwd bad) < 16"
  shows "fst (addNewUser ce us ni tag w) \<noteq> None
    \<and> (\<forall>u \<in> set us. \<not> is_current (node_flows (snd (addNewUser ce us ni tag w))) tag (user_key tag u))"
proof -
  let ?ps = "buildSSUser (be_ss2022 (ce_builder ce)) (c_panelType (nd_ctl w)) us (ni_CypherMethod ni) tag"
  have "buildSS2022User (c_panelType (nd_ctl w)) bad (ni_CypherMethod ni) tag = None"
    using assms(4,6) by (simp add: buildSS2022User_None)
  then have "None \<in> set ?ps" using assms(3,5) by (force simp: buildSSUser_def)
  from addUsers_nil [OF this] obtain err x where add: "addUsers ce ?ps tag (nd_core w) = (Some err, x)"
    by (metis option.exhaust prod.collapse)
  have eq: "addNewUser ce us ni tag w = (Some err, retireManagedUsers tag us (registerManagedUsers tag us w\<lparr>nd_core := x\<rparr>))"
    using assms(2) add by (simp add: addNewUser_def buildUsers_def Let_def)
  have "node_inv (registerManagedUsers tag us w\<lparr>nd_core := x\<rparr>)" using registerManagedUsers_inv [OF inv] by simp
  from retire_views(2) [OF this] show ?thesis by (simp add: eq)
qed

section \<open>Examples\<close>

definition example_core :: "(string, string, string \<times> string list, string) core_env" where
  "example_core = \<lparr>ce_builder = \<lparr>be_ss2022 = [], be_random = [], be_lego_dns = (\<lambda>_. Inl (Error ''no certificate'')),
       be_lego_http = (\<lambda>_. Inl (Error ''no certificate'')), be_build_inbound = (\<lambda>c. Inr (id_Tag c))\<rparr>,
     ce_build_outbound = (\<lambda>c. Inr (od_Tag c)), ce_create_inbound = (\<lambda>t. Inr (t, [])), ce_create_outbound = Inr,
     ce_inbound_tag = fst, ce_outbound_tag = (\<lambda>t. t), ce_start_inbound = (\<lambda>_. None), ce_start_outbound = (\<lambda>_. None),
     ce_GetInbound = (\<lambda>_. True), ce_userManager = (\<lambda>_. True), ce_ToMemoryUser = (\<lambda>_. None),
     ce_AddUser = (\<lambda>u h. if pu_Email u \<in> set (snd h) then (Some (Error ''user exists''), h) else (None, (fst h, pu_Email u # snd h))),
     ce_RemoveUser = (\<lambda>e h. (None, (fst h, removeAll e (snd h))))\<rparr>"

definition example_info :: "string \<Rightarrow> NodeInfo" where
  "example_info nodeType = zero_NodeInfo\<lparr>ni_NodeType := nodeType, ni_Port := 443, ni_TransportProtocol := ''tcp''\<rparr>"

text \<open>A panel that gives out one node and two users with the same key, and remembers the traffic reports.\<close>

definition example_api :: "string \<Rightarrow> UserTraffic list list API" where
  "example_api nodeType = \<lparr>api_GetNodeInfo = (\<lambda>p. (Inr (example_info nodeType), p)),
     api_GetUserList = (\<lambda>p. (Inr [zero_UserInfo, zero_UserInfo], p)), api_ReportNodeStatus = (\<lambda>p. (None, p)),
     api_ReportNodeOnlineUsers = (\<lambda>d p. (None, p)), api_ReportUserTraffic = (\<lambda>t p. (None, p @ [t])),
     api_GetNodeRule = (\<lambda>p. (Inr [], p)), api_ReportIllegal = (\<lambda>d p. (None, p))\<rparr>"

definition example_node :: "(UserTraffic list list, unit, string \<times> string list, string) node" where
  "example_node = \<lparr>nd_panel = [], nd_disp = example_dispatcher\<lparr>dd_flow := \<lparr>fs_Limiter = limiter_New, fs_stats = NewManager, fs_flows = empty_registry\<rparr>\<rparr>,
     nd_core = \<lparr>xs_inbounds = [], xs_outbounds = [], xs_defaultOutbound = None\<rparr>, nd_ctl = example_controller\<rparr>"

lemma example_fresh: "fresh_node example_node"
  by (simp add: fresh_node_def example_node_def node_flows_def node_stats_def example_controller_def)

lemma example_transport: "TransportProtocol_Build ''tcp'' = Inr ''tcp''"
  by code_simp

lemma example_inbound:
  "InboundBuilder (ce_builder example_core) example_config (example_info ''Trojan'') tag = Inr tag"
  by (simp add: InboundBuilder_def inboundDetour_def inboundProtocol_def example_core_def example_config_def example_info_def
     example_transport tlsSettings_def zero_NodeInfo_def Let_def)

lemma example_addNewTag:
  "\<exists>x. addNewTag example_core example_config (example_info ''Trojan'') (CHR ''T'' # tag) \<lparr>xs_inbounds = [], xs_outbounds = [], xs_defaultOutbound = None\<rparr> = (None, x)
    \<and> xs_inbounds x = [(CHR ''T'' # tag, (CHR ''T'' # tag, []))]"
  using example_inbound [of "CHR ''T'' # tag"]
  by (simp add: addNewTag_def addPair_def addInbound_def addOutbound_def ibm_AddHandler_def obm_AddHandler_def OutboundBuilder_def outboundDetour_def
     example_core_def Let_def) (simp add: example_info_def)

definition example_tag :: string where
  "example_tag = buildNodeTag example_config (example_info ''Trojan'')"

lemma example_tag_eq: "example_tag = CHR ''T'' # tl example_tag"
  by (simp add: example_tag_def buildNodeTag_def example_info_def)

text \<open>Two users with one key: the proxy refuses the second, and the controller retires both.\<close>

lemma example_start:
  "\<exists>out v. ctl_Start no_cache example_core (example_api ''Trojan'') example_node = (out, retireManagedUsers example_tag [zero_UserInfo, zero_UserInfo] v) \<and> node_inv v"
proof -
  let ?us = "[zero_UserInfo, zero_UserInfo]" and ?x0 = "\<lparr>xs_inbounds = [], xs_outbounds = [], xs_defaultOutbound = None\<rparr>"
  obtain x where x: "addNewTag example_core example_config (example_info ''Trojan'') example_tag ?x0 = (None, x)"
    "xs_inbounds x = [(example_tag, (example_tag, []))]"
    using example_addNewTag [of "tl example_tag"] example_tag_eq by auto
  define w where "w = example_node\<lparr>nd_core := x, nd_ctl := example_controller\<lparr>c_nodeInfo := Some (example_info ''Trojan''), c_Tag := example_tag, c_userList := Some ?us\<rparr>\<rparr>"
  have inv: "node_inv w" using example_fresh by (intro node_inv_fresh) (simp add: w_def fresh_node_def example_node_def example_controller_def node_flows_def node_stats_def)
  have add: "\<exists>err y. addUsers example_core (buildTrojanUser ?us example_tag) example_tag x = (Some err, y)"
    using x(2) by (simp add: addUsers_def ibm_GetHandler_def buildTrojanUser_def example_core_def)
  then obtain err y where add: "addUsers example_core (buildTrojanUser ?us example_tag) example_tag x = (Some err, y)" by blast
  let ?v = "registerManagedUsers example_tag ?us w\<lparr>nd_core := y\<rparr>"
  have "addNewUser example_core ?us (example_info ''Trojan'') example_tag w = (Some err, retireManagedUsers example_tag ?us ?v)"
    using add by (simp add: addNewUser_def buildUsers_def Let_def w_def example_info_def registerManagedUsers_def)
  then have "ctl_Start no_cache example_core (example_api ''Trojan'') example_node = (Returned (Some err), retireManagedUsers example_tag ?us ?v)"
    using x(1) by (simp add: ctl_Start_def Let_def example_api_def example_node_def example_controller_def w_def set_ctl_def example_tag_def)
  then show ?thesis using registerManagedUsers_inv [OF inv] by auto
qed

theorem retired_users_tracked_witness:
  "\<exists>r. load (c_retiringUsers (nd_ctl (snd (ctl_Start no_cache example_core (example_api ''Trojan'') example_node))))
        (example_tag, user_key example_tag zero_UserInfo) = Some r \<and> rt_tag r = example_tag"
proof -
  obtain out v where s: "ctl_Start no_cache example_core (example_api ''Trojan'') example_node =
      (out, retireManagedUsers example_tag [zero_UserInfo, zero_UserInfo] v)" and v: "node_inv v"
    using example_start by blast
  have u: "zero_UserInfo \<in> set [zero_UserInfo, zero_UserInfo]" by simp
  from retired_users_tracked [OF example_fresh s rtranclp.rtrancl_refl retire_views(1,2) [OF v u]] s
  show ?thesis by auto
qed

text \<open>A node with one retired user without connections.\<close>

definition example_retired :: "(UserTraffic list list, unit, string \<times> string list, string) node" where
  "example_retired = retireManagedUsers ''in'' [zero_UserInfo] (registerManagedUsers ''in'' [zero_UserInfo] example_node)"

lemma example_retired_inv: "node_inv example_retired"
  unfolding example_retired_def by (intro retireManagedUsers_inv registerManagedUsers_inv node_inv_fresh example_fresh)

theorem retired_user_finalised_witness:
  "runtime_of (node_flows (userInfoMonitor (example_api ''Trojan'') 60 0 example_retired)) ''in'' (user_key ''in'' zero_UserInfo) = None"
proof -
  let ?v = "registerManagedUsers ''in'' [zero_UserInfo] example_node" and ?e = "user_key ''in'' zero_UserInfo"
  have v: "node_inv ?v" by (intro registerManagedUsers_inv node_inv_fresh example_fresh)
  have u: "zero_UserInfo \<in> set [zero_UserInfo]" by simp
  note rv = retire_views [OF v u, of "''in''", folded example_retired_def]
  obtain a where a: "runtime_of (node_flows example_retired) ''in'' ?e = Some a" using rv(1) by blast
  have act: "fr_active (node_flows example_retired) = (\<lambda>_. 0)"
    using rv(3) flow_register_spec(2) [OF flow_inv_empty] by (simp add: registerManagedUsers_def Let_def example_node_def node_flows_def empty_registry_def set_ctl_def set_flows_def)
  have st: "node_stats example_retired = NewManager"
    using rv(4) by (simp add: registerManagedUsers_def Let_def example_node_def node_stats_def set_ctl_def set_flows_def)
  have ctl: "c_config (nd_ctl example_retired) = example_config"
    by (simp add: example_retired_def retireManagedUsers_def registerManagedUsers_def Let_def example_node_def example_controller_def)
  have ld: "load (c_retiringUsers (nd_ctl example_retired)) (''in'', ?e) \<noteq> None"
    using node_invD(3) [OF example_retired_inv rv(1,2)] by simp
  have "runtime_of (node_flows (userInfoMonitor (example_api ''Trojan'') 60 0 example_retired)) ''in'' ?e = None
     \<and> load (c_retiringUsers (nd_ctl (userInfoMonitor (example_api ''Trojan'') 60 0 example_retired))) (''in'', ?e) = None
    \<and> GetCounter (userUplinkCounterName ?e) (node_stats (userInfoMonitor (example_api ''Trojan'') 60 0 example_retired)) = None
    \<and> GetCounter (userDownlinkCounterName ?e) (node_stats (userInfoMonitor (example_api ''Trojan'') 60 0 example_retired)) = None"
  proof (rule retired_user_finalised [OF example_retired_inv _ _ ld rv(2) a])
    show "\<not> 60 < cfg_UpdatePeriodic (c_config (nd_ctl example_retired))" by (simp add: ctl example_config_def)
    show "fst (api_ReportUserTraffic (example_api ''Trojan'') t p) = None" for t p by (simp add: example_api_def)
    show "fr_active (node_flows example_retired) a = 0" by (simp add: act)
    show "0 \<le> sint (ctr_value (node_stats example_retired) c)" for c by (simp add: st NewManager_def)
  qed
  then show ?thesis by blast
qed

text \<open>The same node with seven bytes on the uplink counter of the retired user.\<close>

definition example_counted :: "(UserTraffic list list, unit, string \<times> string list, string) node" where
  "example_counted = set_stats (snd (counter_Add 0 7 (snd (RegisterCounter (upCounterName (user_key ''in'' zero_UserInfo)) NewManager)))) example_retired"

lemma example_counted_views:
  "nd_panel example_counted = []" "c_config (nd_ctl example_counted) = example_config"
  "round_users (nd_ctl example_counted) = [(user_key ''in'' zero_UserInfo, zero_UserInfo)]"
  "GetCounter n (node_stats example_counted) = (if n = upCounterName (user_key ''in'' zero_UserInfo) then Some 0 else None)"
  "ctr_value (node_stats example_counted) 0 = 7"
proof -
  have "nd_ctl example_counted = example_controller\<lparr>c_retiringUsers := [((''in'', user_key ''in'' zero_UserInfo), \<lparr>rt_tag = ''in'', rt_user = zero_UserInfo\<rparr>)]\<rparr>"
    by (simp add: example_counted_def example_retired_def retireManagedUsers_def registerManagedUsers_def Let_def example_node_def
        runtimeUserEmails_key example_controller_def)
  then show "c_config (nd_ctl example_counted) = example_config"
    "round_users (nd_ctl example_counted) = [(user_key ''in'' zero_UserInfo, zero_UserInfo)]"
    by (simp_all add: example_controller_def round_users_def users_of_def retired_keys_def retiringUserSnapshot_def buildUserTagWithTag_key)
  show "nd_panel example_counted = []"
    by (simp add: example_counted_def example_retired_def retireManagedUsers_def registerManagedUsers_def Let_def example_node_def)
  show "GetCounter n (node_stats example_counted) = (if n = upCounterName (user_key ''in'' zero_UserInfo) then Some 0 else None)"
    "ctr_value (node_stats example_counted) 0 = 7"
    by (simp_all add: example_counted_def RegisterCounter_def NewManager_def GetCounter_def counter_Add_def Let_def)
qed

lemma example_counted_inv: "node_inv example_counted"
  using example_retired_inv
  by (simp add: example_counted_def node_inv_upto_def stats_inv_Add stats_inv_Register stats_inv_New)

theorem refused_report_keeps_traffic_witness:
  "ctr_value (node_stats (userInfoMonitor (example_api ''Trojan''\<lparr>api_ReportUserTraffic := \<lambda>t p. (Some (Error ''502''), p)\<rparr>) 60 0 example_counted)) 0 = 7"
proof -
  have "\<not> 60 < cfg_UpdatePeriodic (c_config (nd_ctl example_counted))" "\<not> cfg_DisableUploadTraffic (c_config (nd_ctl example_counted))"
    by (simp_all add: example_counted_views example_config_def)
  from refused_report_keeps_traffic [OF this, of "example_api ''Trojan''\<lparr>api_ReportUserTraffic := \<lambda>t p. (Some (Error ''502''), p)\<rparr>" 0]
  show ?thesis by (simp add: example_counted_views)
qed


definition example_running :: "(UserTraffic list list, unit, string \<times> string list, string) node" where
  "example_running = example_node\<lparr>nd_core := \<lparr>xs_inbounds = [(''in'', (''in'', []))], xs_outbounds = [(''in'', ''in'')], xs_defaultOutbound = Some ''in''\<rparr>,
     nd_ctl := example_controller\<lparr>c_nodeInfo := Some (example_info ''Trojan''), c_Tag := ''in'', c_userList := Some [zero_UserInfo]\<rparr>\<rparr>"

theorem failed_rebuild_is_permanent_witness:
  "load (xs_inbounds (nd_core (nodeInfoMonitor no_cache example_core (example_api ''Naive'') 60 example_running))) ''in'' = None"
proof -
  let ?w = "nodeInfoMonitor no_cache example_core (example_api ''Naive'') 60 example_running"
  have ctl: "c_config (nd_ctl example_running) = example_config" "c_Tag (nd_ctl example_running) = ''in''"
      "c_nodeInfo (nd_ctl example_running) = Some (example_info ''Trojan'')"
    by (simp_all add: example_running_def example_controller_def)
  have b: "InboundBuilder (ce_builder example_core) example_config (example_info ''Naive'') tag =
     Inl (Error (''unsupported node type: '' @ ''Naive'' @ '', Only support: V2ray, Trojan, Shadowsocks, and Shadowsocks-Plugin''))" for tag
    by (simp add: InboundBuilder_def inboundDetour_def inboundProtocol_def example_info_def)
  have "(node_step no_cache example_core (\<lambda>_. \<lparr>ps_UserUplink = True, ps_UserDownlink = True\<rparr>))\<^sup>*\<^sup>* ?w ?w" by simp
  note run = this
  have time: "\<not> 60 < cfg_UpdatePeriodic (c_config (nd_ctl example_running))" and tag: "c_Tag (nd_ctl example_running) \<noteq> ''''"
    by (simp_all add: ctl example_config_def)
  have ni: "api_GetNodeInfo (example_api ''Naive'') (nd_panel example_running) = (Inr (example_info ''Naive''), [])"
    and ul: "api_GetUserList (example_api ''Naive'') [] = (Inr [zero_UserInfo, zero_UserInfo], [])"
    by (simp_all add: example_api_def example_running_def example_node_def)
  have ty: "ni_NodeType (example_info t) = t" for t by (simp add: example_info_def)
  have "example_info ''Trojan'' \<noteq> example_info ''Naive''" using ty [of "''Trojan''"] ty [of "''Naive''"] by auto
  from failed_rebuild_is_permanent [OF time ctl(3) ni ul this _ _ tag _ run, unfolded ctl(1), OF _ _ b]
  show ?thesis by (simp add: ty ctl(2))
qed


theorem short_key_retires_all_users_witness:
  "fst (addNewUser (example_core\<lparr>ce_builder := (ce_builder example_core)\<lparr>be_ss2022 := [''2022-blake3-aes-128-gcm'']\<rparr>\<rparr>)
      [zero_UserInfo\<lparr>u_UID := 1, u_Passwd := ''0123456789abcdef''\<rparr>, zero_UserInfo]
      (zero_NodeInfo\<lparr>ni_NodeType := ''Shadowsocks'', ni_CypherMethod := ''2022-blake3-aes-128-gcm''\<rparr>) ''in'' example_node) \<noteq> None"
proof -
  have m: "ToLower ''2022-blake3-aes-128-gcm'' = ''2022-blake3-aes-128-gcm''" by code_simp
  have pt: "c_panelType (nd_ctl example_node) = ''V2board''" by (simp add: example_node_def example_controller_def)
  have p: "ContainsStr (c_panelType (nd_ctl example_node)) ''V2board''" unfolding pt by code_simp
  show ?thesis
    by (rule conjunct1, rule short_key_retires_all_users [OF node_inv_fresh [OF example_fresh] _ _ p, of _ _ zero_UserInfo])
      (simp_all add: m, simp add: zero_UserInfo_def)
qed

end
