(* ===== verification/Go_Float.thy ===== *)
theory Go_Float
  imports Go_Strings "HOL-Library.Log_Nat"
begin

text \<open>
  The \<open>float64\<close> arithmetic of the speed limits. A finite \<open>float64\<close> is the rational number it
  stands for; every product and quotient is rounded to the nearest number with 53 significant
  bits, ties to even. The exponent range is not cut off: where IEEE 754 would overflow, the
  conversion to \<open>uint64\<close> is out of range anyway, and where it would be subnormal the limit is
  zero either way. Go leaves the conversion of an out-of-range value to the implementation,
  so it is a parameter \<open>wild\<close>.
\<close>

type_synonym float64 = rat

definition round_even :: "rat \<Rightarrow> int" where
  "round_even x =
     (let f = \<lfloor>x\<rfloor>; r = x - of_int f in if r < 1 / 2 \<or> (r = 1 / 2 \<and> even f) then f else f + 1)"

definition f64_round :: "rat \<Rightarrow> float64" where
  "f64_round q =
     (if q = 0 then 0
      else
        let (n, d) = quotient_of q;
            e0 = bitlen \<bar>n\<bar> - bitlen d - 53;
            e = (if 2 ^ 53 \<le> \<bar>q\<bar> / 2 powi e0 then e0 + 1 else e0)
        in of_int (round_even (q / 2 powi e)) * 2 powi e)"

text \<open>\<open>uint64(x * 1000000 / 8)\<close>: megabits per second to bytes per second.\<close>

definition uint64_of_float64 :: "(float64 \<Rightarrow> uint64) \<Rightarrow> float64 \<Rightarrow> uint64" where
  "uint64_of_float64 wild x = (if 0 \<le> x \<and> x < 2 ^ 64 then word_of_int \<lfloor>x\<rfloor> else wild x)"

definition mbps_to_bytes :: "(float64 \<Rightarrow> uint64) \<Rightarrow> float64 \<Rightarrow> uint64" where
  "mbps_to_bytes wild x = uint64_of_float64 wild (f64_round (f64_round (x * 1000000) / 8))"

lemma round_even_of_int [simp]: "round_even (of_int i) = i"
  by (simp add: round_even_def)

lemma f64_round_0 [simp]: "f64_round 0 = 0"
  by (simp add: f64_round_def)

lemma f64_round_int:
  assumes "\<bar>i\<bar> < 2 ^ 53"
  shows "f64_round (of_int i) = of_int i"
proof (cases "i = 0")
  case False
  let ?k = "bitlen \<bar>i\<bar>"
  have "0 < \<bar>i\<bar>" using False by simp
  note b = bitlen_bounds [OF this]
  have pos: "0 < ?k" using False bitlen_eq_zero_iff [of "\<bar>i\<bar>"] bitlen_nonneg [of "\<bar>i\<bar>"] by linarith
  have "(2::int) ^ nat (?k - 1) < 2 ^ 53" using b assms by linarith
  then have le: "?k \<le> 53" using power_less_imp_less_exp [of "2::int" "nat (?k - 1)" 53] pos by linarith
  have q: "quotient_of (of_int i) = (i, 1)" using quotient_of_int [of i] by (simp add: Rat.of_int_def)
  have one: "bitlen 1 = 1" by (simp add: bitlen_def floorlog_def)
  have pw: "(2::rat) powi - int m = 1 / 2 ^ m" for m by (simp add: power_int_minus field_simps)
  define m where "m = nat (54 - ?k)"
  have m: "?k - 1 - 53 = - int m" "1 \<le> m" using le by (simp_all add: m_def)
  have "(2::int) ^ 53 = 2 ^ nat (?k - 1) * 2 ^ m"
    unfolding power_add [symmetric] m_def using le pos by (simp add: nat_add_distrib [symmetric])
  also have "\<dots> \<le> \<bar>i\<bar> * 2 ^ m" using b by simp
  finally have "of_int (2 ^ 53) \<le> (of_int (\<bar>i\<bar> * 2 ^ m) :: rat)" by (rule of_int_le_iff [THEN iffD2])
  then have big: "2 ^ 53 \<le> \<bar>of_int i\<bar> / (2::rat) powi (?k - 1 - 53)" unfolding m(1) pw by simp
  have e: "?k - 1 - 53 + 1 = - int (m - 1)" using m by simp
  have "of_int i / (2::rat) powi (- int (m - 1)) = of_int (i * 2 ^ (m - 1))" unfolding pw by simp
  then have eq: "round_even (of_int i / (2::rat) powi (?k - 1 - 53 + 1)) = i * 2 ^ (m - 1)" unfolding e by (simp only: round_even_of_int)
  have "f64_round (of_int i) = of_int (i * 2 ^ (m - 1)) * 2 powi (?k - 1 - 53 + 1)"
    unfolding f64_round_def q one Let_def prod.case eq [symmetric] using False big by simp
  also have "\<dots> = of_int i" unfolding e pw by simp
  finally show ?thesis .
qed simp

text \<open>Whole megabits are converted exactly.\<close>

lemma mbps_to_bytes_int:
  assumes "0 \<le> i" and "i \<le> 9007199254"
  shows "mbps_to_bytes wild (of_int i) = word_of_int (i * 125000)"
proof -
  have "f64_round (of_int i * 1000000) = of_int (i * 1000000)"
    using f64_round_int [of "i * 1000000"] assms by simp
  then have "f64_round (f64_round (of_int i * 1000000) / 8) = f64_round (of_int (i * 125000))" by (simp add: field_simps)
  also have "\<dots> = of_int (i * 125000)" using assms by (intro f64_round_int) simp
  finally have eq: "f64_round (f64_round (of_int i * 1000000) / 8) = of_int (i * 125000)" .
  have "(of_int (i * 125000) :: rat) < of_int (2 ^ 64)" using assms by (simp only: of_int_less_iff) simp
  then have lt: "(of_int (i * 125000) :: rat) < 2 ^ 64" by simp
  have ge: "(0::rat) \<le> of_int (i * 125000)" using assms(1) by simp
  show ?thesis unfolding mbps_to_bytes_def eq uint64_of_float64_def using lt ge by (simp only: floor_of_int if_True simp_thms) 
qed

end
