(* ===== verification/Panel_Json.thy ===== *)
theory Panel_Json
  imports Go_Float Api_Model "HOL-Library.List_Lexorder" "HOL-Library.Char_ord"
begin

text \<open>
  JSON as the panel clients see it. A value is the tree that \<open>encoding/json\<close> decodes into
  \<open>interface{}\<close>, numbers kept as their literals; \<open>json_encode\<close> is \<open>json.Marshal\<close> of such a tree
  (keys of a map sorted, the HTML-sensitive characters escaped). \<open>json.Unmarshal\<close> into a struct
  visits the members of the object in order, matches a member with a field up to the case of
  its name, leaves a field alone on null, and on a mismatch of types records an error and goes
  on; its decoders carry the value and whether an error was recorded.
\<close>

datatype json =
    JNull
  | JBool bool
  | JNumber string
  | JString string
  | JArray "json list"
  | JObject "(string \<times> json) list"

section \<open>Encoding\<close>

definition hex_digit :: "nat \<Rightarrow> char" where
  "hex_digit d = char_of (if d < 10 then 48 + d else 87 + d)"

definition unicode_escape :: "char \<Rightarrow> string" where
  "unicode_escape c = (let n = of_char c :: nat in [CHR 0x5C, CHR ''u'', CHR ''0'', CHR ''0'', hex_digit (n div 16), hex_digit (n mod 16)])"

text \<open>The line and paragraph separators U+2028 and U+2029 are escaped, other bytes above ASCII are kept.\<close>

fun escape_string :: "string \<Rightarrow> string" where
  "escape_string [] = []"
| "escape_string (c # cs) =
     (if c = CHR 0x22 \<or> c = CHR 0x5C then CHR 0x5C # c # escape_string cs
      else if c = CHR 0x0A then CHR 0x5C # CHR ''n'' # escape_string cs
      else if c = CHR 0x0D then CHR 0x5C # CHR ''r'' # escape_string cs
      else if c = CHR 0x09 then CHR 0x5C # CHR ''t'' # escape_string cs
      else if (of_char c :: nat) < 32 \<or> c \<in> {CHR ''<'', CHR ''>'', CHR ''&''} then unicode_escape c @ escape_string cs
      else if c = CHR 0xE2 \<and> take 1 cs = [CHR 0x80] \<and> take 1 (drop 1 cs) \<in> {[CHR 0xA8], [CHR 0xA9]} then
        [CHR 0x5C, CHR ''u'', CHR ''2'', CHR ''0'', CHR ''2'', if take 1 (drop 1 cs) = [CHR 0xA8] then CHR ''8'' else CHR ''9'']
        @ escape_string (drop 2 cs)
      else c # escape_string cs)"

definition quote :: "string \<Rightarrow> string" where
  "quote s = CHR 0x22 # escape_string s @ [CHR 0x22]"

fun json_encode :: "json \<Rightarrow> string" and encode_list :: "json list \<Rightarrow> string list"
  and encode_members :: "(string \<times> json) list \<Rightarrow> (string \<times> string) list" where
  "json_encode JNull = ''null''"
| "json_encode (JBool b) = (if b then ''true'' else ''false'')"
| "json_encode (JNumber n) = n"
| "json_encode (JString s) = quote s"
| "json_encode (JArray xs) = ''['' @ JoinStr (encode_list xs) '','' @ '']''"
| "json_encode (JObject m) =
     ''{'' @ JoinStr (map (\<lambda>(k, v). quote k @ '':'' @ v) (sort_key fst (encode_members m))) '','' @ ''}''"
| "encode_list [] = []"
| "encode_list (x # xs) = json_encode x # encode_list xs"
| "encode_members [] = []"
| "encode_members ((k, v) # m) = (k, json_encode v) # encode_members m"

section \<open>Decoding into structs\<close>

text \<open>A decoded value, and whether a type mismatch was met.\<close>

type_synonym 'a decoded = "'a \<times> bool"

definition EqualFold :: "string \<Rightarrow> string \<Rightarrow> bool" where
  "EqualFold a b \<longleftrightarrow> ToLower a = ToLower b"

text \<open>Decoding one value over the current content of its target, by the type of the target.\<close>

type_synonym 'a decoder = "json \<Rightarrow> 'a \<Rightarrow> 'a decoded"

definition dec_string :: "string decoder" where
  "dec_string j v = (case j of JString s \<Rightarrow> (s, False) | JNull \<Rightarrow> (v, False) | _ \<Rightarrow> (v, True))"

definition dec_bool :: "bool decoder" where
  "dec_bool j v = (case j of JBool b \<Rightarrow> (b, False) | JNull \<Rightarrow> (v, False) | _ \<Rightarrow> (v, True))"

definition dec_int :: "int decoder" where
  "dec_int j v =
     (case j of
        JNumber s \<Rightarrow> (case ParseInt s 64 of Inr i \<Rightarrow> (i, False) | Inl _ \<Rightarrow> (v, True))
      | JNull \<Rightarrow> (v, False)
      | _ \<Rightarrow> (v, True))"

definition dec_uint :: "nat \<Rightarrow> nat decoder" where
  "dec_uint bits j v =
     (case j of
        JNumber s \<Rightarrow> (if s = [] then (v, True) else case parse_digits 0 s of
            Some n \<Rightarrow> if n < 2 ^ bits then (n, False) else (v, True)
          | None \<Rightarrow> (v, True))
      | JNull \<Rightarrow> (v, False)
      | _ \<Rightarrow> (v, True))"

text \<open>\<open>strconv.ParseFloat\<close> of a JSON number literal is a parameter; \<open>None\<close> when it is out of range.\<close>

definition dec_float :: "(string \<Rightarrow> float64 option) \<Rightarrow> float64 decoder" where
  "dec_float ParseFloat j v =
     (case j of
        JNumber s \<Rightarrow> (case ParseFloat s of Some x \<Rightarrow> (x, False) | None \<Rightarrow> (v, True))
      | JNull \<Rightarrow> (v, False)
      | _ \<Rightarrow> (v, True))"

text \<open>A \<open>json.RawMessage\<close> takes every value, null included; a pointer to one is nil for null.\<close>

definition dec_raw :: "json option decoder" where
  "dec_raw j v = (Some j, False)"

definition dec_raw_ptr :: "json option decoder" where
  "dec_raw_ptr j v = ((case j of JNull \<Rightarrow> None | _ \<Rightarrow> Some j), False)"

text \<open>A slice: every element is decoded into a zero value of its own; the slice is replaced.\<close>

definition dec_slice :: "'a \<Rightarrow> 'a decoder \<Rightarrow> 'a list decoder" where
  "dec_slice z d j v =
     (case j of
        JArray xs \<Rightarrow> (map (\<lambda>x. fst (d x z)) xs, \<exists>x \<in> set xs. snd (d x z))
      | JNull \<Rightarrow> ([], False)
      | _ \<Rightarrow> (v, True))"

text \<open>A pointer: nil for null, and a fresh zero value otherwise, also when its content does not match.\<close>

definition dec_ptr :: "'a \<Rightarrow> 'a decoder \<Rightarrow> 'a option decoder" where
  "dec_ptr z d j v =
     (case j of
        JNull \<Rightarrow> (None, False)
      | _ \<Rightarrow> let (x, bad) = d j (case v of None \<Rightarrow> z | Some y \<Rightarrow> y) in (Some x, bad))"

text \<open>
  A struct: a list of its fields, each with its name and the decoder of its part of the record;
  a member of the object goes to the field whose name it matches.
\<close>

type_synonym 'a field = "string \<times> (json \<Rightarrow> 'a \<Rightarrow> 'a decoded)"

definition fld :: "string \<Rightarrow> 'b decoder \<Rightarrow> ('a \<Rightarrow> 'b) \<Rightarrow> (('b \<Rightarrow> 'b) \<Rightarrow> 'a \<Rightarrow> 'a) \<Rightarrow> 'a field" where
  "fld name d get upd = (name, \<lambda>j r. let (v, bad) = d j (get r) in (upd (\<lambda>_. v) r, bad))"

fun dec_members :: "'a field list \<Rightarrow> (string \<times> json) list \<Rightarrow> 'a \<Rightarrow> 'a decoded" where
  "dec_members fs [] r = (r, False)"
| "dec_members fs ((k, j) # m) r =
     (case find (\<lambda>f. EqualFold (fst f) k) fs of
        None \<Rightarrow> dec_members fs m r
      | Some f \<Rightarrow> let (r', bad) = snd f j r; (r'', bad') = dec_members fs m r' in (r'', bad \<or> bad'))"

definition dec_struct :: "'a field list \<Rightarrow> 'a decoder" where
  "dec_struct fs j r =
     (case j of
        JObject m \<Rightarrow> dec_members fs m r
      | JNull \<Rightarrow> (r, False)
      | _ \<Rightarrow> (r, True))"

end
