(* ===== verification/Panel_Http.thy ===== *)
theory Panel_Http
  imports Panel_Json
begin

text \<open>
  What the panel clients share: HTTP through the resty library and go-simplejson, both
  parameters, the construction of a client from its configuration, and the local rule list.
\<close>

section \<open>Libraries\<close>

record http_request =
  rq_Method :: string
  rq_Path :: string
  rq_Query :: "(string, string) gomap"
  rq_Header :: "(string, string) gomap"
  rq_Body :: "json option"

record http_response =
  hr_StatusCode :: int
  hr_Header :: "string \<Rightarrow> string"
  hr_Body :: string

text \<open>\<open>http.Header.Get\<close> looks a name up in its canonical form; \<open>hr_Header\<close> is indexed by canonical names.\<close>

definition upper_char :: "char \<Rightarrow> char" where
  "upper_char c = (let n = of_char c :: nat in if 97 \<le> n \<and> n \<le> 122 then char_of (n - 32) else c)"

fun canonical_from :: "bool \<Rightarrow> string \<Rightarrow> string" where
  "canonical_from start [] = []"
| "canonical_from start (c # cs) = (if start then upper_char c else lower_char c) # canonical_from (c = CHR ''-'') cs"

definition header_Get :: "http_response \<Rightarrow> string \<Rightarrow> string" where
  "header_Get res name = hr_Header res (canonical_from True name)"

text \<open>The accessors of go-simplejson on a decoded tree; \<open>NewJson\<close> decodes a text.\<close>

record simplejson =
  sj_NewJson :: "string \<Rightarrow> json option"
  sj_Get :: "json \<Rightarrow> string \<Rightarrow> json"
  sj_CheckGet :: "json \<Rightarrow> string \<Rightarrow> json option"
  sj_GetIndex :: "json \<Rightarrow> nat \<Rightarrow> json"
  sj_MustArray :: "json \<Rightarrow> json list"
  sj_MustStringArray :: "json \<Rightarrow> string list"
  sj_MustInt :: "json \<Rightarrow> int"
  sj_MustUint64 :: "json \<Rightarrow> uint64"
  sj_MustString :: "json \<Rightarrow> string"

text \<open>
  The outside of a client: sending a request changes the world and gives a response together
  with an error, as resty does after its retries; compiling a regular expression, the
  conversion of an out-of-range float, and reading an address of a name server.
\<close>

record 'w panel_env =
  pe_send :: "http_request \<Rightarrow> 'w \<Rightarrow> (http_response \<times> go_error option) \<times> 'w"
  pe_sj :: simplejson
  pe_compiles :: "string \<Rightarrow> go_error option"
  pe_wild :: "float64 \<Rightarrow> uint64"
  pe_ParseAddress :: "string \<Rightarrow> string"

text \<open>A call that returns, or that panics.\<close>

datatype 'a go_call = GoRet 'a | GoPanic

text \<open>Going on after a call that returned no error, and indexing a slice.\<close>

definition go_seq :: "'a result go_call \<Rightarrow> ('a \<Rightarrow> 'b result go_call) \<Rightarrow> 'b result go_call" where
  "go_seq m k = (case m of GoPanic \<Rightarrow> GoPanic | GoRet (Inl e) \<Rightarrow> GoRet (Inl e) | GoRet (Inr x) \<Rightarrow> k x)"

definition go_index :: "'a list \<Rightarrow> nat \<Rightarrow> 'a result go_call" where
  "go_index xs i = (if i < length xs then GoRet (Inr (xs ! i)) else GoPanic)"

lemma go_seq_simps [simp]:
  "go_seq GoPanic k = GoPanic" "go_seq (GoRet (Inl e)) k = GoRet (Inl e)" "go_seq (GoRet (Inr x)) k = k x"
  by (simp_all add: go_seq_def)

definition err_text :: "go_error \<Rightarrow> string" where
  "err_text e = (case e of Error s \<Rightarrow> s)"

section \<open>Configuration\<close>

record api_Config =
  ac_APIHost :: string
  ac_NodeID :: int
  ac_Key :: string
  ac_NodeType :: string
  ac_EnableVless :: bool
  ac_EnableXTLS :: bool
  ac_Timeout :: int
  ac_SpeedLimit :: float64
  ac_DeviceLimit :: int
  ac_RuleListPath :: string
  ac_DisableCustomConfig :: bool

record NodeStatus =
  ns_CPU :: float64
  ns_Mem :: float64
  ns_Disk :: float64
  ns_Uptime :: uint64

text \<open>
  \<open>bufio.Scanner\<close> by lines: the newline and one carriage return before it are dropped, a last
  line without newline counts when it is not empty, and scanning stops with an error at a line
  that does not fit the buffer of 64 kilobytes.
\<close>

definition drop_cr :: "string \<Rightarrow> string" where
  "drop_cr s = (if s \<noteq> [] \<and> last s = CHR 0x0D then butlast s else s)"

fun scan_lines :: "string list \<Rightarrow> string list \<times> bool" where
  "scan_lines [] = ([], False)"
| "scan_lines [s] = (if s = [] then ([], False) else if 65536 \<le> length s then ([], True) else ([drop_cr s], False))"
| "scan_lines (s # rest) =
     (if 65536 \<le> length s then ([], True) else let (ls, bad) = scan_lines rest in (drop_cr s # ls, bad))"

text \<open>
  \<open>readLocalRuleList\<close>, the same in every client. \<open>None\<close> is \<open>log.Fatalf\<close> at a scanner error, which
  ends the process; rules that do not compile are skipped.
\<close>

definition readLocalRuleList ::
    "(string \<Rightarrow> go_error option) \<Rightarrow> (string \<Rightarrow> string option) \<Rightarrow> string \<Rightarrow> DetectRule list option" where
  "readLocalRuleList compiles Open path =
     (if path = [] then Some []
      else case Open path of
        None \<Rightarrow> Some []
      | Some content \<Rightarrow>
          let (lines, bad) = scan_lines (SplitChar content (CHR 0x0A)) in
          if bad then None
          else Some (concat (map (\<lambda>l. case CompileDetectRule compiles (- 1) l of Inl _ \<Rightarrow> [] | Inr rule \<Rightarrow> [rule]) lines)))"

text \<open>Compiling a list of numbered rule texts stops at the first that is not a regular expression.\<close>

fun compile_rules :: "(string \<Rightarrow> go_error option) \<Rightarrow> string \<Rightarrow> (int \<times> string) list \<Rightarrow> DetectRule list result" where
  "compile_rules compiles what [] = Inr []"
| "compile_rules compiles what ((i, pattern) # rest) =
     (case CompileDetectRule compiles i pattern of
        Inl err \<Rightarrow> Inl (Error (''invalid '' @ what @ '' '' @ Itoa i @ '': '' @ err_text err))
      | Inr rule \<Rightarrow> (case compile_rules compiles what rest of Inl err \<Rightarrow> Inl err | Inr rules \<Rightarrow> Inr (rule # rules)))"

text \<open>\<open>json.Unmarshal(response.Data, target)\<close>; absent data is an error.\<close>

definition unmarshal_data :: "string \<Rightarrow> 'a decoder \<Rightarrow> 'a \<Rightarrow> json option \<Rightarrow> 'a result" where
  "unmarshal_data what d z data =
     (case data of
        None \<Rightarrow> Inl (Error (''unmarshal '' @ what @ '' failed''))
      | Some j \<Rightarrow> (case d j z of (v, bad) \<Rightarrow> if bad then Inl (Error (''unmarshal '' @ what @ '' failed'')) else Inr v))"

section \<open>Inbounds in V2ray format\<close>

text \<open>
  The first element of an array of inbounds is taken without looking whether there is one and
  whether it is an object, so the call can panic.
\<close>

definition first_inbound :: "'w panel_env \<Rightarrow> json \<Rightarrow> json result go_call" where
  "first_inbound env inbounds =
     (case sj_MustArray (pe_sj env) inbounds of
        JObject m # _ \<Rightarrow>
          (case sj_NewJson (pe_sj env) (json_encode (JObject m)) of
             Some inbound \<Rightarrow> GoRet (Inr inbound)
           | None \<Rightarrow> GoPanic)
      | _ \<Rightarrow> GoPanic)"

text \<open>The port and the stream settings of an inbound, entered into a node description.\<close>

definition stream_node :: "'w panel_env \<Rightarrow> json \<Rightarrow> NodeInfo \<Rightarrow> NodeInfo" where
  "stream_node env inboundInfo ni =
     (let sj = pe_sj env; stream = sj_Get sj inboundInfo ''streamSettings'';
          transportProtocol = sj_MustString sj (sj_Get sj stream ''network'');
          ws = sj_Get sj stream ''wsSettings'';
          path = (if transportProtocol = ''ws'' then sj_MustString sj (sj_Get sj ws ''path'') else []);
          host = (if transportProtocol = ''ws''
                  then sj_MustString sj (sj_Get sj (sj_Get sj ws ''headers'') ''Host'') else []);
          serviceName = (if transportProtocol = ''grpc''
                  then (case sj_CheckGet sj (sj_Get sj stream ''grpcSettings'') ''serviceName'' of
                          Some data \<Rightarrow> sj_MustString sj data | None \<Rightarrow> []) else []);
          header = (if transportProtocol = ''tcp''
                  then map_option json_encode (sj_CheckGet sj (sj_Get sj stream ''tcpSettings'') ''header'') else None)
      in ni\<lparr>ni_Port := ucast (sj_MustUint64 sj (sj_Get sj inboundInfo ''port'')), ni_AlterID := 0,
           ni_TransportProtocol := transportProtocol,
           ni_EnableTLS := (sj_MustString sj (sj_Get sj stream ''security'') = ''tls''),
           ni_Path := path, ni_Host := host, ni_ServiceName := serviceName, ni_Header := header\<rparr>)"

end
