(* ===== verification/V2board_Api.thy ===== *)
theory V2board_Api
  imports Panel_Http
begin

text \<open>
  The client of the V2board panel, \<open>api/v2board/v2board.go\<close>. It polls the user list with the
  entity tag of the last list it published, and for Shadowsocks, where the panel describes the
  node only in the records of its users, hands the list of a node request to the user request
  that follows. The mutexes of the client make every operation one step.
\<close>

section \<open>State\<close>

record userListFetch =
  uf_users :: "UserInfo list"
  uf_unchanged :: bool

record v2_APIClient =
  v2_query :: "(string, string) gomap"
  v2_APIHost :: string
  v2_NodeID :: int
  v2_Key :: string
  v2_NodeType :: string
  v2_EnableVless :: bool
  v2_EnableXTLS :: bool
  v2_SpeedLimit :: float64
  v2_DeviceLimit :: int
  v2_LocalRuleList :: "DetectRule list"
  v2_ConfigResp :: "json option"
  v2_userETag :: string
  v2_lastUserList :: "UserInfo list option"
  v2_ssPending :: "userListFetch option"
  v2_lastSSNodeInfo :: "NodeInfo option"

definition v2_New :: "api_Config \<Rightarrow> DetectRule list \<Rightarrow> v2_APIClient" where
  "v2_New apiConfig localRuleList =
     \<lparr>v2_query = [(''node_id'', Itoa (ac_NodeID apiConfig)), (''token'', ac_Key apiConfig)],
      v2_APIHost = ac_APIHost apiConfig, v2_NodeID = ac_NodeID apiConfig, v2_Key = ac_Key apiConfig,
      v2_NodeType = ac_NodeType apiConfig, v2_EnableVless = ac_EnableVless apiConfig,
      v2_EnableXTLS = ac_EnableXTLS apiConfig, v2_SpeedLimit = ac_SpeedLimit apiConfig,
      v2_DeviceLimit = ac_DeviceLimit apiConfig, v2_LocalRuleList = localRuleList, v2_ConfigResp = None,
      v2_userETag = [], v2_lastUserList = None, v2_ssPending = None, v2_lastSSNodeInfo = None\<rparr>"

definition v2_Describe :: "v2_APIClient \<Rightarrow> ClientInfo" where
  "v2_Describe c = \<lparr>ci_APIHost = v2_APIHost c, ci_NodeID = v2_NodeID c, ci_Key = v2_Key c, ci_NodeType = v2_NodeType c\<rparr>"

definition v2_assembleURL :: "v2_APIClient \<Rightarrow> string \<Rightarrow> string" where
  "v2_assembleURL c path = v2_APIHost c @ path"

definition v2_parseResponse ::
    "'w panel_env \<Rightarrow> v2_APIClient \<Rightarrow> http_response \<Rightarrow> string \<Rightarrow> go_error option \<Rightarrow> json result" where
  "v2_parseResponse env c res path err =
     (case err of
        Some e \<Rightarrow> Inl (Error (''request '' @ v2_assembleURL c path @ '' failed: '' @ err_text e))
      | None \<Rightarrow>
          if 400 \<le> hr_StatusCode res then
            Inl (Error (''request '' @ v2_assembleURL c path @ '' failed: '' @ hr_Body res @ '', %!s(<nil>)''))
          else case sj_NewJson (pe_sj env) (hr_Body res) of
            None \<Rightarrow> Inl (Error (''ret '' @ hr_Body res @ '' invalid''))
          | Some rtn \<Rightarrow> Inr rtn)"

section \<open>The user list\<close>

definition v2_userPath :: "string \<Rightarrow> string option" where
  "v2_userPath nodeType =
     (if nodeType = ''V2ray'' then Some ''/api/v1/server/Deepbwork/user''
      else if nodeType = ''Trojan'' then Some ''/api/v1/server/TrojanTidalab/user''
      else if nodeType = ''Shadowsocks'' then Some ''/api/v1/server/ShadowsocksTidalab/user''
      else None)"

definition v2_unsupported :: "v2_APIClient \<Rightarrow> go_error" where
  "v2_unsupported c = Error (''unsupported Node type: '' @ v2_NodeType c)"

definition v2_userRequest :: "v2_APIClient \<Rightarrow> string \<Rightarrow> http_request" where
  "v2_userRequest c path =
     \<lparr>rq_Method = ''GET'', rq_Path = path, rq_Query = v2_query c,
      rq_Header = (if v2_userETag c \<noteq> [] then [(''If-None-Match'', v2_userETag c)] else []), rq_Body = None\<rparr>"

text \<open>The record of one user, by its index in the array \<open>data\<close> of the response.\<close>

definition v2_user :: "'w panel_env \<Rightarrow> v2_APIClient \<Rightarrow> json \<Rightarrow> nat \<Rightarrow> UserInfo" where
  "v2_user env c response i =
     (let sj = pe_sj env; item = sj_GetIndex sj (sj_Get sj response ''data'') i;
          str = (\<lambda>j key. sj_MustString sj (sj_Get sj j key));
          user = zero_UserInfo\<lparr>u_UID := sj_MustInt sj (sj_Get sj item ''id''),
                   u_SpeedLimit := mbps_to_bytes (pe_wild env) (v2_SpeedLimit c),
                   u_DeviceLimit := v2_DeviceLimit c\<rparr>
      in if v2_NodeType c = ''Shadowsocks'' then
           user\<lparr>u_Email := str item ''secret'', u_Passwd := str item ''secret'', u_Method := str item ''cipher'',
                u_Port := ucast (sj_MustUint64 sj (sj_Get sj item ''port''))\<rparr>
         else if v2_NodeType c = ''Trojan'' then
           (let t = sj_Get sj item ''trojan_user'' in
            user\<lparr>u_UUID := str t ''password'', u_Email := str t ''password''\<rparr>)
         else if v2_NodeType c = ''V2ray'' then
           (let v = sj_Get sj item ''v2ray_user'' in
            user\<lparr>u_UUID := str v ''uuid'', u_Email := str v ''email'',
                 u_AlterID := ucast (sj_MustUint64 sj (sj_Get sj v ''alter_id''))\<rparr>)
         else user)"

definition v2_users :: "'w panel_env \<Rightarrow> v2_APIClient \<Rightarrow> json \<Rightarrow> UserInfo list" where
  "v2_users env c response =
     map (v2_user env c response) [0..<length (sj_MustArray (pe_sj env) (sj_Get (pe_sj env) response ''data''))]"

definition v2_fetchUserListLocked ::
    "'w panel_env \<Rightarrow> v2_APIClient \<times> 'w \<Rightarrow> (UserInfo list \<times> bool) result \<times> v2_APIClient \<times> 'w" where
  "v2_fetchUserListLocked env s =
     (let (c, w) = s in
      case v2_userPath (v2_NodeType c) of
        None \<Rightarrow> (Inl (v2_unsupported c), c, w)
      | Some path \<Rightarrow>
          let ((res, err), w') = pe_send env (v2_userRequest c path) w in
          if err \<noteq> None then
            ((case v2_parseResponse env c res path err of Inl e \<Rightarrow> Inl e | Inr _ \<Rightarrow> Inr ([], False)), c, w')
          else if hr_StatusCode res = 304 then
            (case v2_lastUserList c of
               None \<Rightarrow> (Inl (Error (''request '' @ v2_assembleURL c path @ '' returned 304 without a cached user list'')), c, w')
             | Some users \<Rightarrow> (Inr (users, True), c, w'))
          else
            (case v2_parseResponse env c res path None of
               Inl e \<Rightarrow> (Inl e, c, w')
             | Inr response \<Rightarrow>
                 let userList = v2_users env c response in
                 (Inr (userList, False), c\<lparr>v2_userETag := header_Get res ''ETag'', v2_lastUserList := Some userList\<rparr>, w')))"

abbreviation users_no_change :: go_error where
  "users_no_change \<equiv> Error ''users no change''"

definition v2_GetUserList ::
    "'w panel_env \<Rightarrow> v2_APIClient \<times> 'w \<Rightarrow> UserInfo list result \<times> v2_APIClient \<times> 'w" where
  "v2_GetUserList env s =
     (let (c, w) = s in
      case (if v2_NodeType c = ''Shadowsocks'' then v2_ssPending c else None) of
        Some pending \<Rightarrow>
          ((if uf_unchanged pending then Inl users_no_change else Inr (uf_users pending)), c\<lparr>v2_ssPending := None\<rparr>, w)
      | None \<Rightarrow>
          (case v2_fetchUserListLocked env s of
             (Inl err, s') \<Rightarrow> (Inl err, s')
           | (Inr (userList, unchanged), s') \<Rightarrow> ((if unchanged then Inl users_no_change else Inr userList), s')))"

section \<open>The node\<close>

definition v2_tlsType :: "v2_APIClient \<Rightarrow> string" where
  "v2_tlsType c = (if v2_EnableXTLS c then ''xtls'' else ''tls'')"

definition v2_ParseTrojanNodeResponse :: "'w panel_env \<Rightarrow> v2_APIClient \<Rightarrow> json \<Rightarrow> NodeInfo" where
  "v2_ParseTrojanNodeResponse env c response =
     (let sj = pe_sj env in
      zero_NodeInfo\<lparr>ni_NodeType := v2_NodeType c, ni_NodeID := v2_NodeID c,
        ni_Port := ucast (sj_MustUint64 sj (sj_Get sj response ''local_port'')), ni_TransportProtocol := ''tcp'',
        ni_EnableTLS := True, ni_TLSType := v2_tlsType c,
        ni_Host := sj_MustString sj (sj_Get sj (sj_Get sj response ''ssl'') ''sni'')\<rparr>)"

definition v2_buildSSNodeResponse :: "v2_APIClient \<Rightarrow> UserInfo list \<Rightarrow> NodeInfo result" where
  "v2_buildSSNodeResponse c userInfo =
     (case userInfo of
        [] \<Rightarrow> Inl (Error ''the number of node users is 0'')
      | u # _ \<Rightarrow> Inr (zero_NodeInfo\<lparr>ni_NodeType := v2_NodeType c, ni_NodeID := v2_NodeID c, ni_Port := u_Port u,
                          ni_TransportProtocol := ''tcp'', ni_CypherMethod := u_Method u\<rparr>))"

definition v2_buildOrReuseSSNodeResponseLocked :: "UserInfo list \<Rightarrow> v2_APIClient \<Rightarrow> NodeInfo result \<times> v2_APIClient" where
  "v2_buildOrReuseSSNodeResponseLocked userInfo c =
     (case v2_buildSSNodeResponse c userInfo of
        Inr nodeInfo \<Rightarrow> (Inr nodeInfo, c\<lparr>v2_lastSSNodeInfo := Some nodeInfo\<rparr>)
      | Inl err \<Rightarrow>
          (case v2_lastSSNodeInfo c of
             None \<Rightarrow> (Inl err, c)
           | Some cached \<Rightarrow> if userInfo \<noteq> [] then (Inl err, c) else (Inr cached, c)))"

definition v2_ParseSSNodeResponse ::
    "'w panel_env \<Rightarrow> v2_APIClient \<times> 'w \<Rightarrow> NodeInfo result \<times> v2_APIClient \<times> 'w" where
  "v2_ParseSSNodeResponse env s =
     (case v2_fetchUserListLocked env s of
        (Inl err, s') \<Rightarrow> (Inl err, s')
      | (Inr (userInfo, _), (c, w)) \<Rightarrow>
          let (ni, c') = v2_buildOrReuseSSNodeResponseLocked userInfo c in (ni, c', w))"

definition v2_fetchSSNodeResponse ::
    "'w panel_env \<Rightarrow> v2_APIClient \<times> 'w \<Rightarrow> NodeInfo result \<times> v2_APIClient \<times> 'w" where
  "v2_fetchSSNodeResponse env s =
     (case v2_fetchUserListLocked env s of
        (Inl err, s') \<Rightarrow> (Inl err, s')
      | (Inr (userInfo, unchanged), (c, w)) \<Rightarrow>
          (case v2_buildOrReuseSSNodeResponseLocked userInfo c of
             (Inl err, c') \<Rightarrow> (Inl err, c', w)
           | (Inr nodeInfo, c') \<Rightarrow>
               (Inr nodeInfo, c'\<lparr>v2_ssPending := Some \<lparr>uf_users = userInfo, uf_unchanged = unchanged\<rparr>\<rparr>, w)))"

definition v2_inboundInfo :: "'w panel_env \<Rightarrow> json \<Rightarrow> json result go_call" where
  "v2_inboundInfo env response =
     (let sj = pe_sj env in
      case sj_CheckGet sj response ''inbound'' of
        Some inbound \<Rightarrow> GoRet (Inr inbound)
      | None \<Rightarrow>
          (case sj_CheckGet sj response ''inbounds'' of
             None \<Rightarrow> GoRet (Inl (Error ''unable to find inbound(s) in the nodeInfo''))
           | Some inbounds \<Rightarrow> first_inbound env inbounds))"

definition v2_ParseV2rayNodeResponse :: "'w panel_env \<Rightarrow> v2_APIClient \<Rightarrow> json \<Rightarrow> NodeInfo result go_call" where
  "v2_ParseV2rayNodeResponse env c response =
     go_seq (v2_inboundInfo env response) (\<lambda>inboundInfo.
       GoRet (Inr (stream_node env inboundInfo
         (zero_NodeInfo\<lparr>ni_NodeType := v2_NodeType c, ni_NodeID := v2_NodeID c, ni_TLSType := v2_tlsType c,
            ni_EnableVless := v2_EnableVless c\<rparr>))))"

definition v2_GetNodeInfo ::
    "'w panel_env \<Rightarrow> v2_APIClient \<times> 'w \<Rightarrow> NodeInfo result go_call \<times> v2_APIClient \<times> 'w" where
  "v2_GetNodeInfo env s =
     (let (c, w) = s in
      if v2_NodeType c = ''Shadowsocks'' then
        (let (ni, s') = v2_fetchSSNodeResponse env s in (GoRet ni, s'))
      else if v2_NodeType c \<noteq> ''V2ray'' \<and> v2_NodeType c \<noteq> ''Trojan'' then (GoRet (Inl (v2_unsupported c)), s)
      else
        let path = (if v2_NodeType c = ''V2ray'' then ''/api/v1/server/Deepbwork/config'' else ''/api/v1/server/TrojanTidalab/config'');
            ((res, err), w') = pe_send env \<lparr>rq_Method = ''GET'', rq_Path = path, rq_Query = store ''local_port'' ''1'' (v2_query c),
                                   rq_Header = [], rq_Body = None\<rparr> w
        in case v2_parseResponse env c res path err of
             Inl e \<Rightarrow> (GoRet (Inl e), c\<lparr>v2_ConfigResp := None\<rparr>, w')
           | Inr response \<Rightarrow>
               let c' = c\<lparr>v2_ConfigResp := Some response\<rparr> in
               ((case (if v2_NodeType c = ''V2ray'' then v2_ParseV2rayNodeResponse env c response
                       else GoRet (Inr (v2_ParseTrojanNodeResponse env c response))) of
                   GoRet (Inl e) \<Rightarrow> GoRet (Inl (Error (''Parse node info failed: '' @ json_encode response @ '', ''
                                       @ [CHR 0x0A] @ ''Error: '' @ err_text e)))
                 | r \<Rightarrow> r), c', w'))"

section \<open>Reports and rules\<close>

definition v2_ReportUserTraffic ::
    "'w panel_env \<Rightarrow> UserTraffic list \<Rightarrow> v2_APIClient \<times> 'w \<Rightarrow> go_error option \<times> v2_APIClient \<times> 'w" where
  "v2_ReportUserTraffic env userTraffic s =
     (let (c, w) = s;
          path = (if v2_NodeType c = ''V2ray'' then ''/api/v1/server/Deepbwork/submit''
                  else if v2_NodeType c = ''Trojan'' then ''/api/v1/server/TrojanTidalab/submit''
                  else if v2_NodeType c = ''Shadowsocks'' then ''/api/v1/server/ShadowsocksTidalab/submit''
                  else []);
          data = map (\<lambda>t. JObject [(''user_id'', JNumber (Itoa (ut_UID t))), (''u'', JNumber (Itoa (sint (ut_Upload t)))),
                                   (''d'', JNumber (Itoa (sint (ut_Download t))))]) userTraffic;
          ((res, err), w') = pe_send env \<lparr>rq_Method = ''POST'', rq_Path = path,
                                rq_Query = store ''node_id'' (Itoa (v2_NodeID c)) (v2_query c), rq_Header = [],
                                rq_Body = Some (JArray data)\<rparr> w
      in ((case v2_parseResponse env c res path err of Inl e \<Rightarrow> Some e | Inr _ \<Rightarrow> None), c, w'))"

text \<open>Only V2ray nodes have rules of the panel: those of the last node description.\<close>

definition v2_GetNodeRule :: "'w panel_env \<Rightarrow> v2_APIClient \<Rightarrow> DetectRule list result go_call" where
  "v2_GetNodeRule env c =
     (if v2_NodeType c \<noteq> ''V2ray'' then GoRet (Inr (v2_LocalRuleList c))
      else case v2_ConfigResp c of
        None \<Rightarrow> GoPanic
      | Some response \<Rightarrow>
          let sj = pe_sj env;
              texts = sj_MustStringArray sj (sj_Get sj (sj_GetIndex sj (sj_Get sj (sj_Get sj response ''routing'') ''rules'') 1) ''domain'')
          in GoRet (case compile_rules (pe_compiles env) ''V2Board rule'' (zip (map int [0..<length texts]) (map (\<lambda>r. TrimPrefix r ''regexp:'') texts)) of
               Inl e \<Rightarrow> Inl e
             | Inr rules \<Rightarrow> Inr (v2_LocalRuleList c @ rules)))"

end
