(* ===== verification/V2board_Properties.thy ===== *)
theory V2board_Properties
  imports V2board_Api
begin

text \<open>
  The entity tag of the user list, and the hand-over of the list between the two requests of a
  Shadowsocks node: against a panel that honours entity tags, what the controller believes
  after a poll is what the panel had.
\<close>

section \<open>A panel that honours entity tags\<close>

text \<open>
  What HTTP promises of the two user requests: serving a request does not change the list, a
  304 answers only a request whose \<open>If-None-Match\<close> is a tag of the current list, any other
  successful answer that can be decoded is the current list, with a tag of it or without one.
  \<open>current\<close> is the list the panel has in a state, \<open>rep\<close> the list a tag stands for.
\<close>

definition honours_etags :: "'w panel_env \<Rightarrow> ('w \<Rightarrow> json) \<Rightarrow> (string \<Rightarrow> json) \<Rightarrow> bool" where
  "honours_etags env current rep \<longleftrightarrow>
     (\<forall>rq w res err w'. pe_send env rq w = ((res, err), w') \<longrightarrow>
        current w' = current w
        \<and> (err = None \<and> (\<exists>t. v2_userPath t = Some (rq_Path rq)) \<longrightarrow>
             (if hr_StatusCode res = 304 then \<exists>t. load (rq_Header rq) ''If-None-Match'' = Some t \<and> rep t = current w
              else hr_StatusCode res < 400 \<longrightarrow>
                (\<forall>j. sj_NewJson (pe_sj env) (hr_Body res) = Some j \<longrightarrow>
                   j = current w \<and> (header_Get res ''ETag'' \<noteq> [] \<longrightarrow> rep (header_Get res ''ETag'') = current w)))))"

text \<open>
  One poll of the controller: the node, then the users; the list it keeps changes only when a
  list is delivered. The poll succeeds when it delivers a list or says that nothing changed.
\<close>

definition v2_poll ::
    "'w panel_env \<Rightarrow> UserInfo list option \<times> v2_APIClient \<times> 'w \<Rightarrow> bool \<times> UserInfo list option \<times> v2_APIClient \<times> 'w" where
  "v2_poll env v =
     (let (view, s) = v in
      case v2_GetNodeInfo env s of
        (GoRet (Inr _), s1) \<Rightarrow>
          (case v2_GetUserList env s1 of
             (Inr us, s2) \<Rightarrow> (True, Some us, s2)
           | (Inl e, s2) \<Rightarrow> (e = users_no_change, view, s2))
      | (_, s1) \<Rightarrow> (False, view, s1))"

inductive v2_polls ::
    "'w panel_env \<Rightarrow> api_Config \<Rightarrow> DetectRule list \<Rightarrow> UserInfo list option \<times> v2_APIClient \<times> 'w \<Rightarrow> bool"
  for env :: "'w panel_env" and cfg :: api_Config and rules :: "DetectRule list" where
  polls_new: "v2_polls env cfg rules (None, v2_New cfg rules, w)"
| polls_poll: "v2_polls env cfg rules v \<Longrightarrow> v2_polls env cfg rules (snd (v2_poll env v))"
| polls_change: "v2_polls env cfg rules (view, c, w) \<Longrightarrow> v2_polls env cfg rules (view, c, w')"

section \<open>The fetch\<close>

definition same_setup :: "v2_APIClient \<Rightarrow> v2_APIClient \<Rightarrow> bool" where
  "same_setup c0 c \<longleftrightarrow> v2_NodeType c = v2_NodeType c0 \<and> v2_SpeedLimit c = v2_SpeedLimit c0 \<and> v2_DeviceLimit c = v2_DeviceLimit c0"

lemma v2_users_setup: "same_setup c0 c \<Longrightarrow> v2_users env c = v2_users env c0"
proof -
  assume "same_setup c0 c"
  then have "v2_user env c = v2_user env c0" by (intro ext) (simp add: v2_user_def same_setup_def Let_def)
  then show ?thesis by (intro ext) (simp add: v2_users_def)
qed

definition etag_ok :: "'w panel_env \<Rightarrow> (string \<Rightarrow> json) \<Rightarrow> v2_APIClient \<Rightarrow> bool" where
  "etag_ok env rep c \<longleftrightarrow> (v2_userETag c \<noteq> [] \<longrightarrow> v2_lastUserList c = Some (v2_users env c (rep (v2_userETag c))))"

lemma parse_error_text: "v2_parseResponse env c res path err = Inl e \<Longrightarrow> e \<noteq> users_no_change"
  by (auto simp: v2_parseResponse_def split: option.splits if_splits)

lemma fetch_cases:
  assumes hon: "honours_etags env current rep" and ok: "etag_ok env rep c"
    and f: "v2_fetchUserListLocked env (c, w) = (r, c', w')"
  obtains (failed) e where "r = Inl e" "e \<noteq> users_no_change" "c' = c" "current w' = current w"
  | (unchanged) "r = Inr (v2_users env c (current w), True)" "c' = c"
      "v2_lastUserList c = Some (v2_users env c (current w))" "current w' = current w"
  | (changed) tag where "r = Inr (v2_users env c (current w), False)" "current w' = current w"
      "c' = c\<lparr>v2_userETag := tag, v2_lastUserList := Some (v2_users env c (current w))\<rparr>" "etag_ok env rep c'"
proof (cases "v2_userPath (v2_NodeType c)")
  case None
  with f show ?thesis by (intro failed) (auto simp: v2_fetchUserListLocked_def v2_unsupported_def)
next
  case (Some path)
  obtain res err w1 where send: "pe_send env (v2_userRequest c path) w = ((res, err), w1)" by (metis prod.exhaust)
  have cur: "current w1 = current w" using hon send unfolding honours_etags_def by blast
  have up: "\<exists>t. v2_userPath t = Some (rq_Path (v2_userRequest c path))" using Some by (auto simp: v2_userRequest_def)
  note f' = f [unfolded v2_fetchUserListLocked_def Let_def prod.case Some option.case send]
  show ?thesis
  proof (cases "err = None")
    case False
    then have "r = Inl (case v2_parseResponse env c res path err of Inl e \<Rightarrow> e) \<and> c' = c \<and> w' = w1"
      using f' by (auto simp: v2_parseResponse_def)
    with False cur show ?thesis by (intro failed) (auto simp: v2_parseResponse_def)
  next
    case no_err: True
    show ?thesis
    proof (cases "hr_StatusCode res = 304")
      case True
      obtain t where t: "load (rq_Header (v2_userRequest c path)) ''If-None-Match'' = Some t" "rep t = current w"
        using hon send no_err up True unfolding honours_etags_def by metis
      then have "v2_userETag c \<noteq> []" "t = v2_userETag c" by (auto simp: v2_userRequest_def split: if_splits)
      with ok t(2) have "v2_lastUserList c = Some (v2_users env c (current w))" by (simp add: etag_ok_def)
      with f' no_err True cur show ?thesis by (intro unchanged) auto
    next
      case False
      show ?thesis
      proof (cases "v2_parseResponse env c res path None")
        case (Inl e)
        with f' no_err False cur parse_error_text [OF Inl] show ?thesis by (intro failed) auto
      next
        case (Inr j)
        have nj: "hr_StatusCode res < 400" "sj_NewJson (pe_sj env) (hr_Body res) = Some j"
          using Inr by (auto simp: v2_parseResponse_def split: if_splits option.splits)
        have hj: "j = current w" "header_Get res ''ETag'' \<noteq> [] \<longrightarrow> rep (header_Get res ''ETag'') = current w"
          using hon send no_err up False nj unfolding honours_etags_def by metis+
        have "v2_users env (c\<lparr>v2_userETag := x, v2_lastUserList := y\<rparr>) = v2_users env c" for x y
          by (rule v2_users_setup) (simp add: same_setup_def)
        with f' no_err False Inr hj cur show ?thesis
          by (intro changed [of "header_Get res ''ETag''"]) (auto simp: etag_ok_def)
      qed
    qed
  qed
qed

section \<open>The poll\<close>

definition view_ok :: "UserInfo list option \<Rightarrow> v2_APIClient \<Rightarrow> bool" where
  "view_ok view c \<longleftrightarrow>
     (\<forall>l. v2_lastUserList c = Some l \<longrightarrow>
        view = Some l \<or> (v2_NodeType c = ''Shadowsocks'' \<and> l = [] \<and> v2_lastSSNodeInfo c = None))"

definition poll_inv :: "'w panel_env \<Rightarrow> (string \<Rightarrow> json) \<Rightarrow> v2_APIClient \<Rightarrow> UserInfo list option \<Rightarrow> v2_APIClient \<Rightarrow> bool" where
  "poll_inv env rep c0 view c \<longleftrightarrow> same_setup c0 c \<and> etag_ok env rep c \<and> v2_ssPending c = None \<and> view_ok view c"

definition poll_good ::
    "'w panel_env \<Rightarrow> ('w \<Rightarrow> json) \<Rightarrow> (string \<Rightarrow> json) \<Rightarrow> v2_APIClient \<Rightarrow> 'w \<Rightarrow> bool \<times> UserInfo list option \<times> v2_APIClient \<times> 'w \<Rightarrow> bool" where
  "poll_good env current rep c0 w out \<longleftrightarrow>
     (case out of (success, view, c, w') \<Rightarrow>
        poll_inv env rep c0 view c \<and> (success \<longrightarrow> view = Some (v2_users env c0 (current w))))"

lemma etag_ok_frame [simp]:
  "etag_ok env rep (c\<lparr>v2_ssPending := p\<rparr>) = etag_ok env rep c"
  "etag_ok env rep (c\<lparr>v2_lastSSNodeInfo := n\<rparr>) = etag_ok env rep c"
  "etag_ok env rep (c\<lparr>v2_ConfigResp := j\<rparr>) = etag_ok env rep c"
proof -
  have "v2_users env (c\<lparr>v2_ssPending := p\<rparr>) = v2_users env c" "v2_users env (c\<lparr>v2_lastSSNodeInfo := n\<rparr>) = v2_users env c"
    "v2_users env (c\<lparr>v2_ConfigResp := j\<rparr>) = v2_users env c"
    by (rule v2_users_setup, simp add: same_setup_def)+
  then show "etag_ok env rep (c\<lparr>v2_ssPending := p\<rparr>) = etag_ok env rep c"
    "etag_ok env rep (c\<lparr>v2_lastSSNodeInfo := n\<rparr>) = etag_ok env rep c"
    "etag_ok env rep (c\<lparr>v2_ConfigResp := j\<rparr>) = etag_ok env rep c"
    by (simp_all add: etag_ok_def)
qed


lemma v2_users_frame [simp]:
  "v2_users env (c\<lparr>v2_ssPending := p\<rparr>) = v2_users env c" "v2_users env (c\<lparr>v2_lastSSNodeInfo := n\<rparr>) = v2_users env c"
  "v2_users env (c\<lparr>v2_ConfigResp := j\<rparr>) = v2_users env c"
  "v2_users env (c\<lparr>v2_userETag := t, v2_lastUserList := l\<rparr>) = v2_users env c"
  by (rule v2_users_setup, simp add: same_setup_def)+

lemma GetUserList_poll:
  assumes hon: "honours_etags env current rep" and inv: "poll_inv env rep c0 view c" and "v2_NodeType c \<noteq> ''Shadowsocks''"
    and g: "v2_GetUserList env (c, w) = (r, c', w')"
  shows "poll_inv env rep c0 (case r of Inr us \<Rightarrow> Some us | Inl _ \<Rightarrow> view) c'
    \<and> (r = Inl users_no_change \<longrightarrow> view = Some (v2_users env c0 (current w)))
    \<and> (\<forall>us. r = Inr us \<longrightarrow> us = v2_users env c0 (current w))"
proof -
  have ok: "etag_ok env rep c" "same_setup c0 c" "v2_ssPending c = None" "view_ok view c" using inv by (simp_all add: poll_inv_def)
  note us = v2_users_setup [OF ok(2), of env]
  obtain fr fc fw where f: "v2_fetchUserListLocked env (c, w) = (fr, fc, fw)" by (metis prod.exhaust)
  show ?thesis
  proof (rule fetch_cases [OF hon ok(1) f], goal_cases)
    case (1 e)
    then show ?case using g f inv assms(3) by (auto simp: v2_GetUserList_def)
  next
    case 2
    then show ?case using g f inv assms(3) ok(4) us by (auto simp: v2_GetUserList_def view_ok_def)
  next
    case (3 tag)
    then have "r = Inr (v2_users env c (current w))" "c' = fc" using g f assms(3) by (auto simp: v2_GetUserList_def)
    with 3 ok us show ?case by (auto simp: poll_inv_def view_ok_def same_setup_def)
  qed
qed

lemma honours_send: "honours_etags env current rep \<Longrightarrow> pe_send env rq w = (x, w') \<Longrightarrow> current w' = current w"
  unfolding honours_etags_def by (cases x) blast

lemma GetNodeInfo_other:
  assumes hon: "honours_etags env current rep" and ty: "v2_NodeType c \<noteq> ''Shadowsocks''" and n: "v2_GetNodeInfo env (c, w) = (r, c1, w1)"
  shows "\<exists>j. c1 = c\<lparr>v2_ConfigResp := j\<rparr>" "current w1 = current w"
proof -
  have same: "\<exists>j. c = c\<lparr>v2_ConfigResp := j\<rparr>" by (rule exI [of _ "v2_ConfigResp c"]) simp
  then show "\<exists>j. c1 = c\<lparr>v2_ConfigResp := j\<rparr>"
    using n ty by (auto simp only: v2_GetNodeInfo_def Let_def prod.inject split: if_splits prod.splits sum.splits)
  show "current w1 = current w"
    using n ty honours_send [OF hon] by (auto simp: v2_GetNodeInfo_def Let_def split: if_splits prod.splits sum.splits)
qed

lemma v2_poll_other:
  assumes hon: "honours_etags env current rep" and inv: "poll_inv env rep c0 view c" and ty: "v2_NodeType c \<noteq> ''Shadowsocks''"
  shows "poll_good env current rep c0 w (v2_poll env (view, c, w))"
proof -
  obtain r c1 w1 where n: "v2_GetNodeInfo env (c, w) = (r, c1, w1)" by (metis prod.exhaust)
  note c1 = GetNodeInfo_other [OF hon ty n]
  then have inv1: "poll_inv env rep c0 view c1" using inv by (auto simp: poll_inv_def same_setup_def view_ok_def)
  have ty1: "v2_NodeType c1 \<noteq> ''Shadowsocks''" using c1(1) ty by auto
  obtain g c2 w2 where gl: "v2_GetUserList env (c1, w1) = (g, c2, w2)" by (metis prod.exhaust)
  note G = GetUserList_poll [OF hon inv1 ty1 gl, unfolded c1(2)]
  show ?thesis
  proof (cases r)
    case (GoRet x)
    show ?thesis
    proof (cases x)
      case (Inr ni)
      with GoRet n gl G show ?thesis by (cases g) (auto simp: v2_poll_def poll_good_def)
    qed (use GoRet n inv1 in \<open>auto simp: v2_poll_def poll_good_def\<close>)
  qed (use n inv1 in \<open>auto simp: v2_poll_def poll_good_def\<close>)
qed

lemma buildSSNode_cases:
  obtains "us = []" "v2_buildSSNodeResponse c us = Inl (Error ''the number of node users is 0'')"
  | ni where "us \<noteq> []" "v2_buildSSNodeResponse c us = Inr ni"
  by (cases us) (auto simp: v2_buildSSNodeResponse_def)

lemma v2_poll_ss:
  assumes hon: "honours_etags env current rep" and inv: "poll_inv env rep c0 view c" and ty: "v2_NodeType c = ''Shadowsocks''"
  shows "poll_good env current rep c0 w (v2_poll env (view, c, w))"
proof -
  have ok: "etag_ok env rep c" "same_setup c0 c" "v2_ssPending c = None" "view_ok view c" using inv by (simp_all add: poll_inv_def)
  note us = v2_users_setup [OF ok(2), of env]
  obtain fr fc fw where f: "v2_fetchUserListLocked env (c, w) = (fr, fc, fw)" by (metis prod.exhaust)
  note defs = v2_poll_def v2_GetNodeInfo_def v2_fetchSSNodeResponse_def v2_GetUserList_def v2_buildOrReuseSSNodeResponseLocked_def poll_good_def
  show ?thesis
  proof (rule fetch_cases [OF hon ok(1) f], goal_cases)
    case (1 e)
    then show ?case using f inv ty by (simp add: defs)
  next
    case 2
    then show ?case
      by (rule_tac buildSSNode_cases [of "v2_users env c (current w)" c])
        (use f inv ty us ok in \<open>auto simp: defs poll_inv_def view_ok_def same_setup_def split: option.splits\<close>)
  next
    case (3 tag)
    then show ?case
      by (rule_tac buildSSNode_cases [of "v2_users env c (current w)" fc])
        (use f inv ty us ok in \<open>auto simp: defs poll_inv_def view_ok_def same_setup_def split: option.splits\<close>)
  qed
qed

lemma v2_poll_good:
  assumes "honours_etags env current rep" and "poll_inv env rep c0 view c"
  shows "poll_good env current rep c0 w (v2_poll env (view, c, w))"
  using v2_poll_ss [OF assms] v2_poll_other [OF assms] by blast

lemma v2_polls_inv:
  assumes "v2_polls env cfg rules v" and "honours_etags env current rep"
  shows "poll_inv env rep (v2_New cfg rules) (fst v) (fst (snd v))"
  using assms
proof (induction rule: v2_polls.induct)
  case (polls_poll v)
  then have "poll_good env current rep (v2_New cfg rules) (snd (snd v)) (v2_poll env v)"
    using v2_poll_good [of env current rep _ "fst v" "fst (snd v)" "snd (snd v)"] by simp
  then show ?case by (auto simp: poll_good_def split: prod.splits)
qed (auto simp: poll_inv_def same_setup_def etag_ok_def view_ok_def v2_New_def)


section \<open>Shadowsocks nodes\<close>

lemma fetch_keeps_node:
  "v2_fetchUserListLocked env (c, w) = (r, c', w') \<Longrightarrow>
   v2_lastSSNodeInfo c' = v2_lastSSNodeInfo c \<and> v2_NodeType c' = v2_NodeType c \<and> v2_ssPending c' = v2_ssPending c \<and> v2_NodeID c' = v2_NodeID c"
  by (auto simp: v2_fetchUserListLocked_def Let_def split: option.splits if_splits prod.splits sum.splits)

text \<open>
  The node and its users come from one answer. For a Shadowsocks node a poll sends a single
  request: the node description is that of the first user of the list it fetched, or the last
  valid one when the list is empty, and the user request that follows hands over the same list,
  so the controller can also remove every user of the node.
\<close>

theorem v2board_ss_handover:
  assumes "v2_NodeType c = ''Shadowsocks''" and "v2_fetchUserListLocked env (c, w) = (Inr (us, unchanged), c', w')"
    and "us \<noteq> [] \<or> v2_lastSSNodeInfo c \<noteq> None"
  shows "\<exists>ni c1 c2. v2_GetNodeInfo env (c, w) = (GoRet (Inr ni), c1, w')
    \<and> v2_GetUserList env (c1, w') = ((if unchanged then Inl users_no_change else Inr us), c2, w')
    \<and> v2_ssPending c2 = None \<and> v2_lastSSNodeInfo c2 = Some ni
    \<and> (if us = [] then v2_lastSSNodeInfo c = Some ni else ni_Port ni = u_Port (hd us) \<and> ni_CypherMethod ni = u_Method (hd us))"
proof -
  note keep = fetch_keeps_node [OF assms(2)]
  obtain ni cb where b: "v2_buildOrReuseSSNodeResponseLocked us c' = (Inr ni, cb)" "v2_NodeType cb = ''Shadowsocks''"
      "v2_lastSSNodeInfo cb = Some ni"
      "if us = [] then v2_lastSSNodeInfo c = Some ni else ni_Port ni = u_Port (hd us) \<and> ni_CypherMethod ni = u_Method (hd us)"
    using keep assms(1,3)
    by (cases us) (auto simp: v2_buildOrReuseSSNodeResponseLocked_def v2_buildSSNodeResponse_def)
  let ?c1 = "cb\<lparr>v2_ssPending := Some \<lparr>uf_users = us, uf_unchanged = unchanged\<rparr>\<rparr>"
  have "v2_GetNodeInfo env (c, w) = (GoRet (Inr ni), ?c1, w')"
    using assms(1,2) b(1) by (simp add: v2_GetNodeInfo_def v2_fetchSSNodeResponse_def)
  moreover have "v2_GetUserList env (?c1, w') = ((if unchanged then Inl users_no_change else Inr us), ?c1\<lparr>v2_ssPending := None\<rparr>, w')"
    using b(2) by (simp add: v2_GetUserList_def)
  ultimately show ?thesis using b(3,4)
    by (intro exI [of _ ni] exI [of _ ?c1] exI [of _ "?c1\<lparr>v2_ssPending := None\<rparr>"]) simp
qed

section \<open>Examples\<close>

text \<open>Accessors that work on the tree, and a panel whose state is the number of its only user.\<close>

definition plain_json :: "(string \<Rightarrow> json option) \<Rightarrow> simplejson" where
  "plain_json NewJson =
     (let get = (\<lambda>j k. case j of JObject m \<Rightarrow> (case load m k of Some v \<Rightarrow> v | None \<Rightarrow> JNull) | _ \<Rightarrow> JNull) in
     \<lparr>sj_NewJson = NewJson, sj_Get = get,
      sj_CheckGet = (\<lambda>j k. case j of JObject m \<Rightarrow> load m k | _ \<Rightarrow> None),
      sj_GetIndex = (\<lambda>j i. case j of JArray xs \<Rightarrow> if i < length xs then xs ! i else JNull | _ \<Rightarrow> JNull),
      sj_MustArray = (\<lambda>j. case j of JArray xs \<Rightarrow> xs | _ \<Rightarrow> []),
      sj_MustStringArray = (\<lambda>j. case j of JArray xs \<Rightarrow> map (\<lambda>x. case x of JString s \<Rightarrow> s | _ \<Rightarrow> []) xs | _ \<Rightarrow> []),
      sj_MustInt = (\<lambda>j. case j of JNumber s \<Rightarrow> (case Atoi s of Inr i \<Rightarrow> i | Inl _ \<Rightarrow> 0) | _ \<Rightarrow> 0),
      sj_MustUint64 = (\<lambda>j. case j of JNumber s \<Rightarrow> (case Atoi s of Inr i \<Rightarrow> word_of_int i | Inl _ \<Rightarrow> 0) | _ \<Rightarrow> 0),
      sj_MustString = (\<lambda>j. case j of JString s \<Rightarrow> s | _ \<Rightarrow> [])\<rparr>)"

definition example_list :: "string \<Rightarrow> json" where
  "example_list s = JObject [(''data'', JArray [JObject [(''id'', JNumber s), (''port'', JNumber ''443''),
     (''cipher'', JString ''aes-128-gcm''), (''secret'', JString s)]])]"

definition example_send :: "http_request \<Rightarrow> string \<Rightarrow> (http_response \<times> go_error option) \<times> string" where
  "example_send rq w =
     ((if load (rq_Header rq) ''If-None-Match'' = Some w
       then \<lparr>hr_StatusCode = 304, hr_Header = (\<lambda>_. []), hr_Body = []\<rparr>
       else \<lparr>hr_StatusCode = 200, hr_Header = (\<lambda>k. if k = ''Etag'' then w else []), hr_Body = w\<rparr>, None), w)"

definition example_env :: "string panel_env" where
  "example_env = \<lparr>pe_send = example_send, pe_sj = plain_json (\<lambda>s. Some (example_list s)), pe_compiles = (\<lambda>_. None),
     pe_wild = (\<lambda>_. 0), pe_ParseAddress = (\<lambda>s. s)\<rparr>"

definition example_ss_config :: api_Config where
  "example_ss_config = \<lparr>ac_APIHost = ''http://panel'', ac_NodeID = 7, ac_Key = ''token'', ac_NodeType = ''Shadowsocks'',
     ac_EnableVless = False, ac_EnableXTLS = False, ac_Timeout = 5, ac_SpeedLimit = 8, ac_DeviceLimit = 3,
     ac_RuleListPath = [], ac_DisableCustomConfig = False\<rparr>"

lemma header_Get_ETag: "header_Get res ''ETag'' = hr_Header res ''Etag''"
  by (simp add: header_Get_def, rule arg_cong [of _ _ "hr_Header res"], code_simp)

lemma example_honours: "honours_etags example_env example_list example_list"
  by (auto simp: honours_etags_def header_Get_ETag example_env_def example_send_def plain_json_def Let_def split: if_splits)

abbreviation example_v2 :: v2_APIClient where
  "example_v2 \<equiv> v2_New example_ss_config []"

lemma example_env_simps [simp]:
  "pe_send example_env = example_send" "sj_NewJson (pe_sj example_env) s = Some (example_list s)"
  by (simp_all add: example_env_def plain_json_def Let_def)

lemma example_fetch:
  "v2_fetchUserListLocked example_env (example_v2, ''1'') =
     (Inr (v2_users example_env example_v2 (example_list ''1''), False),
      example_v2\<lparr>v2_userETag := ''1'', v2_lastUserList := Some (v2_users example_env example_v2 (example_list ''1''))\<rparr>, ''1'')"
  by (simp add: v2_fetchUserListLocked_def v2_New_def example_ss_config_def v2_userPath_def v2_userRequest_def
      example_send_def v2_parseResponse_def Let_def header_Get_ETag)

lemma example_user: "map u_Port (v2_users example_env example_v2 (example_list ''1'')) = [443]"
proof -
  have "Atoi ''443'' = Inr 443" by code_simp
  then show ?thesis
    by (simp add: v2_users_def v2_user_def v2_New_def example_ss_config_def example_env_def plain_json_def example_list_def Let_def)
qed

lemma example_nonempty: "v2_users example_env example_v2 (example_list ''1'') \<noteq> []"
  using example_user by auto


theorem v2board_ss_handover_witness:
  "\<exists>ni c1. v2_GetNodeInfo example_env (example_v2, ''1'') = (GoRet (Inr ni), c1, ''1'') \<and> ni_Port ni = 443"
proof -
  have ty: "v2_NodeType example_v2 = ''Shadowsocks''" by (simp add: v2_New_def example_ss_config_def)
  have "u_Port (hd (v2_users example_env example_v2 (example_list ''1''))) = 443"
    using example_user example_nonempty by (cases "v2_users example_env example_v2 (example_list ''1'')") auto
  with v2board_ss_handover [OF ty example_fetch] example_nonempty show ?thesis by auto
qed

end
