(* ===== verification/New_V2board_Api.thy ===== *)
theory New_V2board_Api
  imports V2board_Properties
begin

text \<open>
  The client of newer V2board panels, \<open>api/newV2board\<close>: one set of paths for every kind of node,
  the answers decoded into structs. The tag of the user list is remembered before the answer is
  looked at, which loses an update when that answer turns out to be unusable.
\<close>

section \<open>Answers of the panel\<close>

record nv_route =
  nr_Id :: int
  nr_Match :: "string list"
  nr_Action :: string
  nr_ActionValue :: string

record serverConfig =
  sc_Cipher :: string
  sc_Obfs :: string
  sc_ObfsPath :: string
  sc_ObfsHost :: string
  sc_ServerKey :: string
  sc_Network :: string
  sc_Path :: string
  sc_Headers :: "json option"
  sc_ServiceName :: string
  sc_Header :: "json option"
  sc_Tls :: int
  sc_Host :: string
  sc_ServerName :: string
  sc_ServerPort :: int
  sc_PushInterval :: int
  sc_PullInterval :: int
  sc_Routes :: "nv_route list"

record nv_user =
  nu_Id :: int
  nu_Uuid :: string
  nu_SpeedLimit :: int

definition nv_route_fields :: "nv_route field list" where
  "nv_route_fields =
     [fld ''id'' dec_int nr_Id nr_Id_update, fld ''match'' (dec_slice [] dec_string) nr_Match nr_Match_update,
      fld ''action'' dec_string nr_Action nr_Action_update, fld ''action_value'' dec_string nr_ActionValue nr_ActionValue_update]"

definition zero_route :: nv_route where
  "zero_route = \<lparr>nr_Id = 0, nr_Match = [], nr_Action = [], nr_ActionValue = []\<rparr>"

text \<open>The nested structs of the source are flattened; decoding one of them updates the whole record.\<close>

definition serverConfig_fields :: "serverConfig field list" where
  "serverConfig_fields =
     [fld ''cipher'' dec_string sc_Cipher sc_Cipher_update,
      fld ''obfs'' dec_string sc_Obfs sc_Obfs_update,
      (''obfs_settings'', dec_struct [fld ''path'' dec_string sc_ObfsPath sc_ObfsPath_update,
                                      fld ''host'' dec_string sc_ObfsHost sc_ObfsHost_update]),
      fld ''server_key'' dec_string sc_ServerKey sc_ServerKey_update,
      fld ''network'' dec_string sc_Network sc_Network_update,
      (''networkSettings'', dec_struct [fld ''path'' dec_string sc_Path sc_Path_update,
                                        fld ''headers'' dec_raw_ptr sc_Headers sc_Headers_update,
                                        fld ''serviceName'' dec_string sc_ServiceName sc_ServiceName_update,
                                        fld ''header'' dec_raw_ptr sc_Header sc_Header_update]),
      fld ''tls'' dec_int sc_Tls sc_Tls_update,
      fld ''host'' dec_string sc_Host sc_Host_update,
      fld ''server_name'' dec_string sc_ServerName sc_ServerName_update,
      fld ''server_port'' dec_int sc_ServerPort sc_ServerPort_update,
      (''base_config'', dec_struct [fld ''push_interval'' dec_int sc_PushInterval sc_PushInterval_update,
                                    fld ''pull_interval'' dec_int sc_PullInterval sc_PullInterval_update]),
      fld ''routes'' (dec_slice zero_route (dec_struct nv_route_fields)) sc_Routes sc_Routes_update]"

definition zero_serverConfig :: serverConfig where
  "zero_serverConfig = \<lparr>sc_Cipher = [], sc_Obfs = [], sc_ObfsPath = [], sc_ObfsHost = [], sc_ServerKey = [], sc_Network = [],
     sc_Path = [], sc_Headers = None, sc_ServiceName = [], sc_Header = None, sc_Tls = 0, sc_Host = [], sc_ServerName = [],
     sc_ServerPort = 0, sc_PushInterval = 0, sc_PullInterval = 0, sc_Routes = []\<rparr>"

definition nv_user_fields :: "nv_user field list" where
  "nv_user_fields =
     [fld ''id'' dec_int nu_Id nu_Id_update, fld ''uuid'' dec_string nu_Uuid nu_Uuid_update,
      fld ''speed_limit'' dec_int nu_SpeedLimit nu_SpeedLimit_update]"

definition zero_nv_user :: nv_user where
  "zero_nv_user = \<lparr>nu_Id = 0, nu_Uuid = [], nu_SpeedLimit = 0\<rparr>"

section \<open>The client\<close>

record nv_APIClient =
  nv_query :: "(string, string) gomap"
  nv_APIHost :: string
  nv_NodeID :: int
  nv_Key :: string
  nv_NodeType :: string
  nv_EnableVless :: bool
  nv_EnableXTLS :: bool
  nv_SpeedLimit :: float64
  nv_DeviceLimit :: int
  nv_LocalRuleList :: "DetectRule list"
  nv_resp :: "serverConfig option"
  nv_eTag :: string

definition nv_New :: "api_Config \<Rightarrow> DetectRule list \<Rightarrow> nv_APIClient" where
  "nv_New apiConfig localRuleList =
     \<lparr>nv_query = [(''node_id'', Itoa (ac_NodeID apiConfig)), (''node_type'', ToLower (ac_NodeType apiConfig)),
                  (''token'', ac_Key apiConfig)],
      nv_APIHost = ac_APIHost apiConfig, nv_NodeID = ac_NodeID apiConfig, nv_Key = ac_Key apiConfig,
      nv_NodeType = ac_NodeType apiConfig, nv_EnableVless = ac_EnableVless apiConfig,
      nv_EnableXTLS = ac_EnableXTLS apiConfig, nv_SpeedLimit = ac_SpeedLimit apiConfig,
      nv_DeviceLimit = ac_DeviceLimit apiConfig, nv_LocalRuleList = localRuleList, nv_resp = None, nv_eTag = []\<rparr>"

definition nv_Describe :: "nv_APIClient \<Rightarrow> ClientInfo" where
  "nv_Describe c = \<lparr>ci_APIHost = nv_APIHost c, ci_NodeID = nv_NodeID c, ci_Key = nv_Key c, ci_NodeType = nv_NodeType c\<rparr>"

definition nv_assembleURL :: "nv_APIClient \<Rightarrow> string \<Rightarrow> string" where
  "nv_assembleURL c path = nv_APIHost c @ path"

definition nv_parseResponse ::
    "'w panel_env \<Rightarrow> nv_APIClient \<Rightarrow> http_response \<Rightarrow> string \<Rightarrow> go_error option \<Rightarrow> json result" where
  "nv_parseResponse env c res path err =
     (case err of
        Some e \<Rightarrow> Inl (Error (''request '' @ nv_assembleURL c path @ '' failed: '' @ err_text e))
      | None \<Rightarrow>
          if 399 < hr_StatusCode res then
            Inl (Error (''request '' @ nv_assembleURL c path @ '' failed: '' @ hr_Body res @ '', <nil>''))
          else case sj_NewJson (pe_sj env) (hr_Body res) of
            None \<Rightarrow> Inl (Error (''ret '' @ hr_Body res @ '' invalid''))
          | Some rtn \<Rightarrow> Inr rtn)"

section \<open>The user list\<close>

text \<open>\<open>nil\<close> elements of the decoded list are dereferenced, so a null in the answer panics.\<close>

definition nv_userInfo :: "'w panel_env \<Rightarrow> nv_APIClient \<Rightarrow> nv_user \<Rightarrow> UserInfo" where
  "nv_userInfo env c user =
     zero_UserInfo\<lparr>u_UID := nu_Id user, u_UUID := nu_Uuid user,
       u_SpeedLimit := (if 0 < nv_SpeedLimit c then mbps_to_bytes (pe_wild env) (nv_SpeedLimit c)
                        else word_of_int (go_div (sint (word_of_int (nu_SpeedLimit user * 1000000) :: int64)) 8)),
       u_DeviceLimit := nv_DeviceLimit c, u_Email := nu_Uuid user @ ''@v2board.user'',
       u_Passwd := (if nv_NodeType c = ''Shadowsocks'' then nu_Uuid user else [])\<rparr>"

fun nv_userList :: "'w panel_env \<Rightarrow> nv_APIClient \<Rightarrow> nv_user option list \<Rightarrow> UserInfo list go_call" where
  "nv_userList env c [] = GoRet []"
| "nv_userList env c (None # users) = GoPanic"
| "nv_userList env c (Some user # users) =
     (case nv_userList env c users of GoPanic \<Rightarrow> GoPanic | GoRet us \<Rightarrow> GoRet (nv_userInfo env c user # us))"

definition nv_decode_users :: "json \<Rightarrow> nv_user option list" where
  "nv_decode_users j = fst (dec_slice None (dec_ptr zero_nv_user (dec_struct nv_user_fields)) j [])"

definition nv_GetUserList ::
    "'w panel_env \<Rightarrow> nv_APIClient \<times> 'w \<Rightarrow> UserInfo list result go_call \<times> nv_APIClient \<times> 'w" where
  "nv_GetUserList env s =
     (let (c, w) = s; path = ''/api/v1/server/UniProxy/user'' in
      if nv_NodeType c \<notin> {''V2ray'', ''Trojan'', ''Shadowsocks''} then
        (GoRet (Inl (Error (''unsupported node type: '' @ nv_NodeType c))), c, w)
      else
        let ((res, err), w') = pe_send env \<lparr>rq_Method = ''GET'', rq_Path = path, rq_Query = nv_query c,
                                  rq_Header = [(''If-None-Match'', nv_eTag c)], rq_Body = None\<rparr> w in
        if hr_StatusCode res = 304 then (GoRet (Inl users_no_change), c, w')
        else
          let tag = header_Get res ''Etag'';
              c' = (if tag \<noteq> [] \<and> tag \<noteq> nv_eTag c then c\<lparr>nv_eTag := tag\<rparr> else c) in
          case nv_parseResponse env c' res path err of
            Inl e \<Rightarrow> (GoRet (Inl e), c', w')
          | Inr usersResp \<Rightarrow>
              ((case nv_userList env c' (nv_decode_users (sj_Get (pe_sj env) usersResp ''users'')) of
                  GoPanic \<Rightarrow> GoPanic
                | GoRet us \<Rightarrow> GoRet (Inr us)), c', w'))"

section \<open>The node\<close>

definition parseDNSConfig :: "'w panel_env \<Rightarrow> serverConfig \<Rightarrow> (string \<times> string list) list" where
  "parseDNSConfig env s =
     map (\<lambda>r. (pe_ParseAddress env (nr_ActionValue r), nr_Match r)) (filter (\<lambda>r. nr_Action r = ''dns'') (sc_Routes s))"

definition nv_tlsType :: "nv_APIClient \<Rightarrow> string" where
  "nv_tlsType c = (if nv_EnableXTLS c then ''xtls'' else ''tls'')"

definition nv_parseTrojanNodeResponse :: "'w panel_env \<Rightarrow> nv_APIClient \<Rightarrow> serverConfig \<Rightarrow> NodeInfo" where
  "nv_parseTrojanNodeResponse env c s =
     zero_NodeInfo\<lparr>ni_NodeType := nv_NodeType c, ni_NodeID := nv_NodeID c, ni_Port := word_of_int (sc_ServerPort s),
       ni_TransportProtocol := ''tcp'', ni_EnableTLS := True, ni_TLSType := nv_tlsType c, ni_Host := sc_Host s,
       ni_ServiceName := sc_ServerName s, ni_NameServerConfig := parseDNSConfig env s\<rparr>"

definition nv_parseSSNodeResponse :: "'w panel_env \<Rightarrow> nv_APIClient \<Rightarrow> serverConfig \<Rightarrow> NodeInfo" where
  "nv_parseSSNodeResponse env c s =
     (let p = sc_ObfsPath s;
          path = (if p = [] then ''/'' else if HasPrefix p ''/'' then p else ''/'' @ p);
          header = (if sc_Obfs s = ''http''
                    then Some (json_encode (JObject [(''type'', JString ''http''),
                                 (''request'', JObject [(''path'', JString path)])]))
                    else None)
      in zero_NodeInfo\<lparr>ni_NodeType := nv_NodeType c, ni_NodeID := nv_NodeID c, ni_Port := word_of_int (sc_ServerPort s),
           ni_TransportProtocol := ''tcp'', ni_CypherMethod := sc_Cipher s, ni_ServerKey := sc_ServerKey s,
           ni_NameServerConfig := parseDNSConfig env s, ni_Header := header\<rparr>)"

definition nv_parseV2rayNodeResponse :: "'w panel_env \<Rightarrow> nv_APIClient \<Rightarrow> serverConfig \<Rightarrow> NodeInfo go_call" where
  "nv_parseV2rayNodeResponse env c s =
     (let sj = pe_sj env;
          host = (if sc_Network s = ''ws'' then
                    (case sc_Headers s of
                       None \<Rightarrow> Some []
                     | Some h \<Rightarrow> map_option (\<lambda>b. sj_MustString sj (sj_Get sj b ''Host'')) (sj_NewJson sj (json_encode h)))
                  else Some []);
          header = (if sc_Network s = ''tcp'' then map_option json_encode (sc_Header s) else None)
      in case host of
           None \<Rightarrow> GoPanic
         | Some h \<Rightarrow>
             GoRet (zero_NodeInfo\<lparr>ni_NodeType := nv_NodeType c, ni_NodeID := nv_NodeID c, ni_Port := word_of_int (sc_ServerPort s),
               ni_AlterID := 0, ni_TransportProtocol := sc_Network s, ni_EnableTLS := (sc_Tls s = 1), ni_TLSType := nv_tlsType c,
               ni_Path := sc_Path s, ni_Host := h, ni_EnableVless := nv_EnableVless c, ni_ServiceName := sc_ServiceName s,
               ni_Header := header, ni_NameServerConfig := parseDNSConfig env s\<rparr>))"

definition nv_GetNodeInfo ::
    "'w panel_env \<Rightarrow> nv_APIClient \<times> 'w \<Rightarrow> NodeInfo result go_call \<times> nv_APIClient \<times> 'w" where
  "nv_GetNodeInfo env s =
     (let (c, w) = s; path = ''/api/v1/server/UniProxy/config'';
          ((res, err), w') = pe_send env \<lparr>rq_Method = ''GET'', rq_Path = path, rq_Query = nv_query c, rq_Header = [], rq_Body = None\<rparr> w in
      case nv_parseResponse env c res path err of
        Inl e \<Rightarrow> (GoRet (Inl e), c, w')
      | Inr resp \<Rightarrow>
          let server = fst (dec_struct serverConfig_fields resp zero_serverConfig) in
          if sc_ServerPort server = 0 then (GoRet (Inl (Error ''server port must > 0'')), c, w')
          else
            let c' = c\<lparr>nv_resp := Some server\<rparr> in
            ((if nv_NodeType c = ''V2ray'' then
                (case nv_parseV2rayNodeResponse env c server of GoPanic \<Rightarrow> GoPanic | GoRet ni \<Rightarrow> GoRet (Inr ni))
              else if nv_NodeType c = ''Trojan'' then GoRet (Inr (nv_parseTrojanNodeResponse env c server))
              else if nv_NodeType c = ''Shadowsocks'' then GoRet (Inr (nv_parseSSNodeResponse env c server))
              else GoRet (Inl (Error (''unsupported node type: '' @ nv_NodeType c)))), c', w'))"

section \<open>Reports and rules\<close>

text \<open>The report is an object from user ids to pairs; a later entry for an id replaces an earlier one.\<close>

definition nv_ReportUserTraffic ::
    "'w panel_env \<Rightarrow> UserTraffic list \<Rightarrow> nv_APIClient \<times> 'w \<Rightarrow> go_error option \<times> nv_APIClient \<times> 'w" where
  "nv_ReportUserTraffic env userTraffic s =
     (let (c, w) = s; path = ''/api/v1/server/UniProxy/push'';
          data = foldl (\<lambda>m t. store (ut_UID t) (sint (ut_Upload t), sint (ut_Download t)) m) [] userTraffic;
          body = JObject (map (\<lambda>(uid, u, d). (Itoa uid, JArray [JNumber (Itoa u), JNumber (Itoa d)])) data);
          ((res, err), w') = pe_send env \<lparr>rq_Method = ''POST'', rq_Path = path, rq_Query = nv_query c, rq_Header = [],
                                rq_Body = Some body\<rparr> w
      in ((case nv_parseResponse env c res path err of Inl e \<Rightarrow> Some e | Inr _ \<Rightarrow> None), c, w'))"

text \<open>Before the first node description was stored the type assertion on \<open>resp\<close> panics.\<close>

definition nv_GetNodeRule :: "'w panel_env \<Rightarrow> nv_APIClient \<Rightarrow> DetectRule list result go_call" where
  "nv_GetNodeRule env c =
     (case nv_resp c of
        None \<Rightarrow> GoPanic
      | Some server \<Rightarrow>
          let blocks = filter (\<lambda>(i, r). nr_Action r = ''block'') (zip (map int [0..<length (sc_Routes server)]) (sc_Routes server)) in
          GoRet (case compile_rules (pe_compiles env) ''V2Board route'' (map (\<lambda>(i, r). (i, JoinStr (nr_Match r) ''|'')) blocks) of
                   Inl e \<Rightarrow> Inl e
                 | Inr rules \<Rightarrow> Inr (nv_LocalRuleList c @ rules)))"

section \<open>The tag is taken before the answer is read\<close>

abbreviation nv_userRequest :: "nv_APIClient \<Rightarrow> string \<Rightarrow> http_request" where
  "nv_userRequest c tag \<equiv> \<lparr>rq_Method = ''GET'', rq_Path = ''/api/v1/server/UniProxy/user'', rq_Query = nv_query c,
     rq_Header = [(''If-None-Match'', tag)], rq_Body = None\<rparr>"

text \<open>
  C30. An update behind an unusable answer is lost. When the panel answers with a new tag but the
  answer cannot be used (a server error, or a body that was cut off), the call fails and yet
  remembers the tag; from then on, as long as that list is the current one, every call says
  "users no change" although no call ever delivered the list.
\<close>

theorem new_v2board_loses_update:
  assumes "nv_NodeType c \<in> {''V2ray'', ''Trojan'', ''Shadowsocks''}"
    and "pe_send env (nv_userRequest c (nv_eTag c)) w = ((res, err), w1)" and "hr_StatusCode res \<noteq> 304"
    and "header_Get res ''Etag'' = tag" and "tag \<noteq> []"
    and "err \<noteq> None \<or> 399 < hr_StatusCode res \<or> sj_NewJson (pe_sj env) (hr_Body res) = None"
    and "\<And>v. hr_StatusCode (fst (fst (pe_send env (nv_userRequest c tag) v))) = 304"
  shows "\<exists>e c1. nv_GetUserList env (c, w) = (GoRet (Inl e), c1, w1) \<and> e \<noteq> users_no_change
    \<and> (\<forall>v. nv_GetUserList env (c1, v) = (GoRet (Inl users_no_change), c1, snd (pe_send env (nv_userRequest c tag) v)))"
proof -
  let ?c1 = "if tag \<noteq> nv_eTag c then c\<lparr>nv_eTag := tag\<rparr> else c"
  have q: "nv_query ?c1 = nv_query c" "nv_NodeType ?c1 = nv_NodeType c" "nv_eTag ?c1 = tag" by simp_all
  obtain e where e: "nv_parseResponse env ?c1 res ''/api/v1/server/UniProxy/user'' err = Inl e" "e \<noteq> users_no_change"
    using assms(6) by (cases err; cases "399 < hr_StatusCode res") (auto simp: nv_parseResponse_def)
  have "nv_GetUserList env (c, w) = (GoRet (Inl e), ?c1, w1)"
    using assms(1-5) e(1) by (simp only: nv_GetUserList_def Let_def prod.case) (simp add: q)
  moreover have "nv_GetUserList env (?c1, v) = (GoRet (Inl users_no_change), ?c1, snd (pe_send env (nv_userRequest c tag) v))" for v
    using assms(1) assms(7) [of v]
    by (simp only: nv_GetUserList_def Let_def prod.case q) (auto split: prod.split)
  ultimately show ?thesis using e(2) by blast
qed

text \<open>A panel whose first answer is cut off.\<close>

definition cut_off_send :: "http_request \<Rightarrow> nat \<Rightarrow> (http_response \<times> go_error option) \<times> nat" where
  "cut_off_send rq n =
     ((if load (rq_Header rq) ''If-None-Match'' = Some ''v1'' then \<lparr>hr_StatusCode = 304, hr_Header = (\<lambda>_. []), hr_Body = []\<rparr>
       else \<lparr>hr_StatusCode = 200, hr_Header = (\<lambda>k. if k = ''Etag'' then ''v1'' else []), hr_Body = ''[''\<rparr>, None), Suc n)"

definition cut_off_env :: "nat panel_env" where
  "cut_off_env = \<lparr>pe_send = cut_off_send, pe_sj = plain_json (\<lambda>_. None), pe_compiles = (\<lambda>_. None), pe_wild = (\<lambda>_. 0),
     pe_ParseAddress = (\<lambda>s. s)\<rparr>"

theorem new_v2board_loses_update_witness:
  "fst (nv_GetUserList cut_off_env (fst (snd (nv_GetUserList cut_off_env (nv_New example_ss_config [], 0))), 1)) = GoRet (Inl users_no_change)"
proof -
  let ?c = "nv_New example_ss_config []"
  have ty: "nv_NodeType ?c \<in> {''V2ray'', ''Trojan'', ''Shadowsocks''}" and tag0: "nv_eTag ?c = []"
    by (simp_all add: nv_New_def example_ss_config_def)
  have s: "pe_send cut_off_env (nv_userRequest ?c (nv_eTag ?c)) 0 =
      ((\<lparr>hr_StatusCode = 200, hr_Header = (\<lambda>k. if k = ''Etag'' then ''v1'' else []), hr_Body = ''[''\<rparr>, None), 1)"
    by (simp add: tag0 cut_off_env_def cut_off_send_def)
  have k: "canonical_from True ''Etag'' = ''Etag''" by code_simp
  have h: "header_Get \<lparr>hr_StatusCode = 200, hr_Header = (\<lambda>k. if k = ''Etag'' then ''v1'' else []), hr_Body = ''[''\<rparr> ''Etag'' = ''v1''"
    unfolding header_Get_def k by simp
  have "hr_StatusCode (fst (fst (pe_send cut_off_env (nv_userRequest ?c ''v1'') v))) = 304" for v
    by (simp add: cut_off_env_def cut_off_send_def)
  moreover have "sj_NewJson (pe_sj cut_off_env) x = None" for x by (simp add: cut_off_env_def plain_json_def Let_def)
  ultimately obtain e c1 where "nv_GetUserList cut_off_env (?c, 0) = (GoRet (Inl e), c1, 1)"
      "\<And>v. fst (nv_GetUserList cut_off_env (c1, v)) = GoRet (Inl users_no_change)"
    using new_v2board_loses_update [OF ty s _ h] by auto
  then show ?thesis by simp
qed

end
