(* ===== verification/SSPanel_Api.thy ===== *)
theory SSPanel_Api
  imports Panel_Http
begin

text \<open>
  The client of SSPanel, \<open>api/sspanel\<close>: nodes described by a semicolon-separated server string
  or by a custom configuration, device limits shared between the nodes of a user, reports of
  traffic, online addresses, audit hits and the load of the machine. Texts of decoding errors
  are cut after \<open>failed\<close>, since the decoders only say that one occurred.
\<close>

section \<open>Answers of the panel\<close>

record NodeInfoResponse =
  nir_Group :: int
  nir_Class :: int
  nir_SpeedLimit :: float64
  nir_TrafficRate :: float64
  nir_MuOnly :: int
  nir_Sort :: int
  nir_RawServerString :: string
  nir_Type :: string
  nir_CustomConfig :: "json option"
  nir_Version :: string

record CustomConfig =
  cc_OffsetPortUser :: string
  cc_OffsetPortNode :: string
  cc_ServerSub :: string
  cc_Host :: string
  cc_MuPort :: string
  cc_MuEncryption :: string
  cc_MuProtocol :: string
  cc_MuObfs :: string
  cc_MuSuffix :: string
  cc_V2Port :: string
  cc_TLS :: string
  cc_EnableVless :: string
  cc_AlterID :: string
  cc_Network :: string
  cc_Security :: string
  cc_Path :: string
  cc_VerifyCert :: bool
  cc_Obfs :: string
  cc_Header :: "json option"
  cc_TrojanPort :: string
  cc_AllowInsecure :: string
  cc_Grpc :: string
  cc_Servicename :: string
  cc_EnableXtls :: string
  cc_Flow :: string

record UserResponse =
  ur_ID :: int
  ur_Email :: string
  ur_Passwd :: string
  ur_Port :: nat
  ur_Method :: string
  ur_SpeedLimit :: float64
  ur_DeviceLimit :: int
  ur_Protocol :: string
  ur_ProtocolParam :: string
  ur_Obfs :: string
  ur_ObfsParam :: string
  ur_ForbiddenIP :: string
  ur_ForbiddenPort :: string
  ur_UUID :: string
  ur_MultiUser :: int
  ur_AliveIP :: int

record ss_Response =
  sr_Ret :: nat
  sr_Data :: "json option"

record RuleItem =
  ri_ID :: int
  ri_Content :: string

text \<open>
  The environment adds what resty decoded into the \<open>Response\<close> of a request, the number parser,
  the bytes of a raw message and their compact form, and the text of a node description in error
  messages.
\<close>

record 'w ss_env = "'w panel_env" +
  se_Result :: "http_response \<Rightarrow> ss_Response"
  se_ParseFloat :: "string \<Rightarrow> float64 option"
  se_raw :: "json \<Rightarrow> string"
  se_compact :: "json \<Rightarrow> string"
  se_show :: "NodeInfoResponse \<Rightarrow> string"

definition zero_NodeInfoResponse :: NodeInfoResponse where
  "zero_NodeInfoResponse = \<lparr>nir_Group = 0, nir_Class = 0, nir_SpeedLimit = 0, nir_TrafficRate = 0, nir_MuOnly = 0, nir_Sort = 0,
     nir_RawServerString = [], nir_Type = [], nir_CustomConfig = None, nir_Version = []\<rparr>"

definition NodeInfoResponse_fields :: "'w ss_env \<Rightarrow> NodeInfoResponse field list" where
  "NodeInfoResponse_fields env =
     [fld ''node_group'' dec_int nir_Group nir_Group_update, fld ''node_class'' dec_int nir_Class nir_Class_update,
      fld ''node_speedlimit'' (dec_float (se_ParseFloat env)) nir_SpeedLimit nir_SpeedLimit_update,
      fld ''traffic_rate'' (dec_float (se_ParseFloat env)) nir_TrafficRate nir_TrafficRate_update,
      fld ''mu_only'' dec_int nir_MuOnly nir_MuOnly_update, fld ''sort'' dec_int nir_Sort nir_Sort_update,
      fld ''server'' dec_string nir_RawServerString nir_RawServerString_update, fld ''type'' dec_string nir_Type nir_Type_update,
      fld ''custom_config'' dec_raw nir_CustomConfig nir_CustomConfig_update, fld ''version'' dec_string nir_Version nir_Version_update]"

definition zero_CustomConfig :: CustomConfig where
  "zero_CustomConfig = \<lparr>cc_OffsetPortUser = [], cc_OffsetPortNode = [], cc_ServerSub = [], cc_Host = [], cc_MuPort = [],
     cc_MuEncryption = [], cc_MuProtocol = [], cc_MuObfs = [], cc_MuSuffix = [], cc_V2Port = [], cc_TLS = [], cc_EnableVless = [],
     cc_AlterID = [], cc_Network = [], cc_Security = [], cc_Path = [], cc_VerifyCert = False, cc_Obfs = [], cc_Header = None,
     cc_TrojanPort = [], cc_AllowInsecure = [], cc_Grpc = [], cc_Servicename = [], cc_EnableXtls = [], cc_Flow = []\<rparr>"

definition CustomConfig_fields :: "CustomConfig field list" where
  "CustomConfig_fields =
     [fld ''offset_port_user'' dec_string cc_OffsetPortUser cc_OffsetPortUser_update,
      fld ''offset_port_node'' dec_string cc_OffsetPortNode cc_OffsetPortNode_update,
      fld ''server_sub'' dec_string cc_ServerSub cc_ServerSub_update, fld ''host'' dec_string cc_Host cc_Host_update,
      fld ''mu_port'' dec_string cc_MuPort cc_MuPort_update, fld ''mu_encryption'' dec_string cc_MuEncryption cc_MuEncryption_update,
      fld ''mu_protocol'' dec_string cc_MuProtocol cc_MuProtocol_update, fld ''mu_obfs'' dec_string cc_MuObfs cc_MuObfs_update,
      fld ''mu_suffix'' dec_string cc_MuSuffix cc_MuSuffix_update, fld ''v2_port'' dec_string cc_V2Port cc_V2Port_update,
      fld ''tls'' dec_string cc_TLS cc_TLS_update, fld ''enable_vless'' dec_string cc_EnableVless cc_EnableVless_update,
      fld ''alter_id'' dec_string cc_AlterID cc_AlterID_update, fld ''network'' dec_string cc_Network cc_Network_update,
      fld ''security'' dec_string cc_Security cc_Security_update, fld ''path'' dec_string cc_Path cc_Path_update,
      fld ''verify_cert'' dec_bool cc_VerifyCert cc_VerifyCert_update, fld ''obfs'' dec_string cc_Obfs cc_Obfs_update,
      fld ''header'' dec_raw cc_Header cc_Header_update, fld ''trojan_port'' dec_string cc_TrojanPort cc_TrojanPort_update,
      fld ''allow_insecure'' dec_string cc_AllowInsecure cc_AllowInsecure_update, fld ''grpc'' dec_string cc_Grpc cc_Grpc_update,
      fld ''servicename'' dec_string cc_Servicename cc_Servicename_update, fld ''enable_xtls'' dec_string cc_EnableXtls cc_EnableXtls_update,
      fld ''flow'' dec_string cc_Flow cc_Flow_update]"

definition zero_UserResponse :: UserResponse where
  "zero_UserResponse = \<lparr>ur_ID = 0, ur_Email = [], ur_Passwd = [], ur_Port = 0, ur_Method = [], ur_SpeedLimit = 0, ur_DeviceLimit = 0,
     ur_Protocol = [], ur_ProtocolParam = [], ur_Obfs = [], ur_ObfsParam = [], ur_ForbiddenIP = [], ur_ForbiddenPort = [],
     ur_UUID = [], ur_MultiUser = 0, ur_AliveIP = 0\<rparr>"

definition UserResponse_fields :: "'w ss_env \<Rightarrow> UserResponse field list" where
  "UserResponse_fields env =
     [fld ''id'' dec_int ur_ID ur_ID_update, fld ''email'' dec_string ur_Email ur_Email_update,
      fld ''passwd'' dec_string ur_Passwd ur_Passwd_update, fld ''port'' (dec_uint 32) ur_Port ur_Port_update,
      fld ''method'' dec_string ur_Method ur_Method_update,
      fld ''node_speedlimit'' (dec_float (se_ParseFloat env)) ur_SpeedLimit ur_SpeedLimit_update,
      fld ''node_connector'' dec_int ur_DeviceLimit ur_DeviceLimit_update, fld ''protocol'' dec_string ur_Protocol ur_Protocol_update,
      fld ''protocol_param'' dec_string ur_ProtocolParam ur_ProtocolParam_update, fld ''obfs'' dec_string ur_Obfs ur_Obfs_update,
      fld ''obfs_param'' dec_string ur_ObfsParam ur_ObfsParam_update, fld ''forbidden_ip'' dec_string ur_ForbiddenIP ur_ForbiddenIP_update,
      fld ''forbidden_port'' dec_string ur_ForbiddenPort ur_ForbiddenPort_update, fld ''uuid'' dec_string ur_UUID ur_UUID_update,
      fld ''is_multi_user'' dec_int ur_MultiUser ur_MultiUser_update, fld ''alive_ip'' dec_int ur_AliveIP ur_AliveIP_update]"

definition RuleItem_fields :: "RuleItem field list" where
  "RuleItem_fields = [fld ''id'' dec_int ri_ID ri_ID_update, fld ''regex'' dec_string ri_Content ri_Content_update]"

section \<open>The client\<close>

record ss_APIClient =
  ss_query :: "(string, string) gomap"
  ss_APIHost :: string
  ss_NodeID :: int
  ss_Key :: string
  ss_NodeType :: string
  ss_EnableVless :: bool
  ss_EnableXTLS :: bool
  ss_SpeedLimit :: float64
  ss_DeviceLimit :: int
  ss_DisableCustomConfig :: bool
  ss_LocalRuleList :: "DetectRule list"
  ss_LastReportOnline :: "(int, int) gomap"

definition ss_New :: "api_Config \<Rightarrow> DetectRule list \<Rightarrow> ss_APIClient" where
  "ss_New apiConfig localRuleList =
     \<lparr>ss_query = [(''key'', ac_Key apiConfig), (''muKey'', ac_Key apiConfig)],
      ss_APIHost = ac_APIHost apiConfig, ss_NodeID = ac_NodeID apiConfig, ss_Key = ac_Key apiConfig,
      ss_NodeType = ac_NodeType apiConfig, ss_EnableVless = ac_EnableVless apiConfig, ss_EnableXTLS = ac_EnableXTLS apiConfig,
      ss_SpeedLimit = ac_SpeedLimit apiConfig, ss_DeviceLimit = ac_DeviceLimit apiConfig,
      ss_DisableCustomConfig = ac_DisableCustomConfig apiConfig, ss_LocalRuleList = localRuleList, ss_LastReportOnline = []\<rparr>"

definition ss_Describe :: "ss_APIClient \<Rightarrow> ClientInfo" where
  "ss_Describe c = \<lparr>ci_APIHost = ss_APIHost c, ci_NodeID = ss_NodeID c, ci_Key = ss_Key c, ci_NodeType = ss_NodeType c\<rparr>"

definition ss_assembleURL :: "ss_APIClient \<Rightarrow> string \<Rightarrow> string" where
  "ss_assembleURL c path = ss_APIHost c @ path"

definition ss_parseResponse ::
    "'w ss_env \<Rightarrow> ss_APIClient \<Rightarrow> http_response \<Rightarrow> string \<Rightarrow> go_error option \<Rightarrow> ss_Response result" where
  "ss_parseResponse env c res path err =
     (case err of
        Some e \<Rightarrow> Inl (Error (''request '' @ ss_assembleURL c path @ '' failed: '' @ err_text e))
      | None \<Rightarrow>
          if 400 \<le> hr_StatusCode res then
            Inl (Error (''request '' @ ss_assembleURL c path @ '' failed: '' @ hr_Body res @ '', %!s(<nil>)''))
          else
            let response = se_Result env res in
            if sr_Ret response \<noteq> 1 then
              Inl (Error (''ret {'' @ quote ''ret'' @ '':'' @ Itoa (int (sr_Ret response)) @ '','' @ quote ''data'' @ '':''
                     @ (case sr_Data response of None \<Rightarrow> ''null'' | Some j \<Rightarrow> se_compact env j) @ ''} invalid''))
            else Inr response)"

text \<open>A request of the client, answered and checked.\<close>

definition ss_call ::
    "'w ss_env \<Rightarrow> ss_APIClient \<Rightarrow> string \<Rightarrow> string \<Rightarrow> (string, string) gomap \<Rightarrow> json option \<Rightarrow> 'w \<Rightarrow> ss_Response result \<times> 'w" where
  "ss_call env c method path query body w =
     (let ((res, err), w') = pe_send env \<lparr>rq_Method = method, rq_Path = path, rq_Query = query, rq_Header = [], rq_Body = body\<rparr> w
      in (ss_parseResponse env c res path err, w'))"

definition ss_node_query :: "ss_APIClient \<Rightarrow> (string, string) gomap" where
  "ss_node_query c = store ''node_id'' (Itoa (ss_NodeID c)) (ss_query c)"

text \<open>The speed limit of the configuration wins over that of the panel.\<close>

definition ss_speed :: "'w ss_env \<Rightarrow> ss_APIClient \<Rightarrow> float64 \<Rightarrow> uint64" where
  "ss_speed env c x = mbps_to_bytes (pe_wild env) (if 0 < ss_SpeedLimit c then ss_SpeedLimit c else x)"

section \<open>Server strings\<close>

text \<open>
  The two fields 3 and 4 of a server string name the transport and the security, in any order;
  the last occurrence wins.
\<close>

record ss_transport =
  st_TLStype :: string
  st_enableTLS :: bool
  st_transport :: string

definition ss_xtls :: "ss_APIClient \<Rightarrow> string" where
  "ss_xtls c = (if ss_EnableXTLS c then ''xtls'' else ''tls'')"

definition v2ray_transport :: "ss_APIClient \<Rightarrow> ss_transport \<Rightarrow> string \<Rightarrow> ss_transport" where
  "v2ray_transport c t v =
     (if v = ''tls'' \<or> v = ''xtls'' then t\<lparr>st_TLStype := ss_xtls c, st_enableTLS := True\<rparr>
      else if v \<noteq> [] then t\<lparr>st_transport := v\<rparr> else t)"

definition plugin_transport :: "ss_APIClient \<Rightarrow> ss_transport \<Rightarrow> string \<Rightarrow> ss_transport" where
  "plugin_transport c t v =
     (if v = ''tls'' \<or> v = ''xtls'' then t\<lparr>st_TLStype := ss_xtls c, st_enableTLS := True\<rparr>
      else if v = ''ws'' then t\<lparr>st_transport := ''ws''\<rparr>
      else if v = ''obfs'' then t\<lparr>st_transport := ''tcp''\<rparr>
      else t)"

text \<open>\<open>serverConf[3:5]\<close>, which needs five fields.\<close>

definition ss_transport_of ::
    "(ss_transport \<Rightarrow> string \<Rightarrow> ss_transport) \<Rightarrow> string list \<Rightarrow> ss_transport result go_call" where
  "ss_transport_of f serverConf =
     (if length serverConf < 5 then GoPanic
      else GoRet (Inr (foldl f \<lparr>st_TLStype = [], st_enableTLS = False, st_transport = []\<rparr> (take 2 (drop 3 serverConf)))))"

text \<open>
  The items \<open>key=value\<close>: an item with a key and without an equals sign panics, since \<open>conf[1]\<close> is
  read before the key is looked at; an item with an empty key is skipped.
\<close>

fun ss_items :: "(string \<times> string list \<Rightarrow> 'a \<Rightarrow> 'a) \<Rightarrow> string list \<Rightarrow> 'a \<Rightarrow> 'a result go_call" where
  "ss_items f [] r = GoRet (Inr r)"
| "ss_items f (item # rest) r =
     (case SplitChar item (CHR ''='') of
        [] \<Rightarrow> GoPanic
      | key # values \<Rightarrow>
          if key = [] then ss_items f rest r
          else if values = [] then GoPanic
          else ss_items f rest (f (key, values) r))"

record ss_extra =
  sx_path :: string
  sx_host :: string
  sx_serviceName :: string
  sx_HeaderType :: string

definition no_extra :: ss_extra where
  "no_extra = \<lparr>sx_path = [], sx_host = [], sx_serviceName = [], sx_HeaderType = []\<rparr>"

definition v2ray_item :: "string \<times> string list \<Rightarrow> ss_extra \<Rightarrow> ss_extra" where
  "v2ray_item kv r =
     (let (key, values) = kv in
      if key = ''path'' then r\<lparr>sx_path := JoinStr values ''=''\<rparr>
      else if key = ''host'' then r\<lparr>sx_host := hd values\<rparr>
      else if key = ''servicename'' then r\<lparr>sx_serviceName := hd values\<rparr>
      else if key = ''headertype'' then r\<lparr>sx_HeaderType := hd values\<rparr>
      else r)"

definition plugin_item :: "string \<times> string list \<Rightarrow> ss_extra \<Rightarrow> ss_extra" where
  "plugin_item kv r =
     (let (key, values) = kv in
      if key = ''path'' then r\<lparr>sx_path := JoinStr values ''=''\<rparr>
      else if key = ''host'' then r\<lparr>sx_host := hd values\<rparr>
      else r)"

definition ss_ParseV2rayNodeResponse :: "'w ss_env \<Rightarrow> ss_APIClient \<Rightarrow> NodeInfoResponse \<Rightarrow> NodeInfo result go_call" where
  "ss_ParseV2rayNodeResponse env c resp =
     (if nir_RawServerString resp = [] then GoRet (Inl (Error ''no server info in response''))
      else
        let serverConf = SplitChar (nir_RawServerString resp) (CHR '';'') in
        go_seq (go_index serverConf 1) (\<lambda>f1.
        go_seq (GoRet (ParseInt f1 32)) (\<lambda>parsedPort.
        go_seq (go_index serverConf 2) (\<lambda>f2.
        go_seq (GoRet (ParseInt f2 16)) (\<lambda>parsedAlterID.
        go_seq (ss_transport_of (v2ray_transport c) serverConf) (\<lambda>t.
        go_seq (go_index serverConf 5) (\<lambda>f5.
        go_seq (ss_items v2ray_item (SplitChar f5 (CHR ''|'')) no_extra) (\<lambda>x.
        GoRet (Inr (zero_NodeInfo\<lparr>ni_NodeType := ss_NodeType c, ni_NodeID := ss_NodeID c, ni_Port := word_of_int parsedPort,
          ni_SpeedLimit := ss_speed env c (nir_SpeedLimit resp), ni_AlterID := word_of_int parsedAlterID,
          ni_TransportProtocol := st_transport t, ni_EnableTLS := st_enableTLS t, ni_TLSType := st_TLStype t,
          ni_Path := sx_path x, ni_Host := sx_host x, ni_EnableVless := ss_EnableVless c, ni_ServiceName := sx_serviceName x,
          ni_Header := (if sx_HeaderType x \<noteq> [] then Some (json_encode (JObject [(''type'', JString (sx_HeaderType x))])) else None)\<rparr>))))))))))"

text \<open>The port of a Shadowsocks plugin is one below the given one; the test for zero is on an unsigned number.\<close>

definition ss_ParseSSPluginNodeResponse :: "'w ss_env \<Rightarrow> ss_APIClient \<Rightarrow> NodeInfoResponse \<Rightarrow> NodeInfo result go_call" where
  "ss_ParseSSPluginNodeResponse env c resp =
     (let serverConf = SplitChar (nir_RawServerString resp) (CHR '';'') in
      go_seq (go_index serverConf 1) (\<lambda>f1.
      go_seq (GoRet (ParseInt f1 32)) (\<lambda>parsedPort.
      let port = word_of_int parsedPort - 1 :: uint32 in
      if port \<le> 0 then GoRet (Inl (Error ''Shadowsocks-Plugin listen port must bigger than 1''))
      else
        go_seq (ss_transport_of (plugin_transport c) serverConf) (\<lambda>t.
        go_seq (go_index serverConf 5) (\<lambda>f5.
        go_seq (ss_items plugin_item (SplitChar f5 (CHR ''|'')) no_extra) (\<lambda>x.
        GoRet (Inr (zero_NodeInfo\<lparr>ni_NodeType := ss_NodeType c, ni_NodeID := ss_NodeID c, ni_Port := port,
          ni_SpeedLimit := ss_speed env c (nir_SpeedLimit resp), ni_TransportProtocol := st_transport t,
          ni_EnableTLS := st_enableTLS t, ni_TLSType := st_TLStype t, ni_Path := sx_path x, ni_Host := sx_host x\<rparr>))))))))"

text \<open>
  The three regular expressions of Trojan nodes, by their leftmost matches: \<open>port=\<close> and digits,
  \<open>port=\<close>, digits, a hash and digits, and \<open>host=\<close> with word characters and dots.
\<close>

definition is_digit :: "char \<Rightarrow> bool" where
  "is_digit ch \<longleftrightarrow> digit_val ch \<noteq> None"

definition is_host_char :: "char \<Rightarrow> bool" where
  "is_host_char ch \<longleftrightarrow> (let n = of_char ch :: nat in is_digit ch \<or> (65 \<le> n \<and> n \<le> 90) \<or> (97 \<le> n \<and> n \<le> 122)
     \<or> ch = CHR ''_'' \<or> ch = CHR ''.'')"

fun firstPortRe :: "string \<Rightarrow> string" where
  "firstPortRe [] = []"
| "firstPortRe (ch # cs) =
     (let ds = takeWhile is_digit (drop 4 cs) in
      if HasPrefix (ch # cs) ''port='' \<and> ds \<noteq> [] then ds else firstPortRe cs)"

fun secondPortRe :: "string \<Rightarrow> string" where
  "secondPortRe [] = []"
| "secondPortRe (ch # cs) =
     (let ds = takeWhile is_digit (drop 4 cs); rest = dropWhile is_digit (drop 4 cs); second = takeWhile is_digit (drop 1 rest) in
      if HasPrefix (ch # cs) ''port='' \<and> ds \<noteq> [] \<and> HasPrefix rest ''#'' \<and> second \<noteq> [] then second else secondPortRe cs)"

fun hostRe :: "string \<Rightarrow> string" where
  "hostRe [] = []"
| "hostRe (ch # cs) =
     (let h = takeWhile is_host_char (drop 4 cs) in
      if HasPrefix (ch # cs) ''host='' \<and> h \<noteq> [] then h else hostRe cs)"

definition trojan_item :: "string \<times> string list \<Rightarrow> string \<times> string \<Rightarrow> string \<times> string" where
  "trojan_item kv r =
     (let (key, values) = kv; (transportProtocol, serviceName) = r in
      if key = ''grpc'' then (''grpc'', serviceName)
      else if key = ''servicename'' then (transportProtocol, hd values)
      else r)"

definition ss_ParseTrojanNodeResponse :: "'w ss_env \<Rightarrow> ss_APIClient \<Rightarrow> NodeInfoResponse \<Rightarrow> NodeInfo result go_call" where
  "ss_ParseTrojanNodeResponse env c resp =
     (let raw = nir_RawServerString resp; insidePort = secondPortRe raw;
          p = (if insidePort \<noteq> [] then insidePort else firstPortRe raw);
          serverConf = SplitChar raw (CHR '';'') in
      if raw = [] then GoRet (Inl (Error ''no server info in response''))
      else
        go_seq (GoRet (ParseInt p 32)) (\<lambda>parsedPort.
        go_seq (go_index serverConf 1) (\<lambda>f1.
        go_seq (ss_items trojan_item (SplitChar f1 (CHR ''|'')) (''tcp'', [])) (\<lambda>(transportProtocol, serviceName).
        GoRet (Inr (zero_NodeInfo\<lparr>ni_NodeType := ss_NodeType c, ni_NodeID := ss_NodeID c, ni_Port := word_of_int parsedPort,
          ni_SpeedLimit := ss_speed env c (nir_SpeedLimit resp), ni_TransportProtocol := transportProtocol, ni_EnableTLS := True,
          ni_TLSType := ss_xtls c, ni_Host := hostRe raw, ni_ServiceName := serviceName\<rparr>))))))"

section \<open>The user list\<close>

definition decode_user_list :: "'w ss_env \<Rightarrow> ss_Response \<Rightarrow> UserResponse list result" where
  "decode_user_list env response =
     unmarshal_data ''*[]sspanel.UserResponse'' (dec_slice zero_UserResponse (dec_struct (UserResponse_fields env))) [] (sr_Data response)"

text \<open>
  What is left of a user's device limit for this node: the addresses online elsewhere count, those
  this node reported last do not. \<open>None\<close> drops the user. Go's \<open>int\<close> arithmetic wraps.
\<close>

definition ss_deviceLimit :: "ss_APIClient \<Rightarrow> UserResponse \<Rightarrow> int option" where
  "ss_deviceLimit c user =
     (let deviceLimit = (if 0 < ss_DeviceLimit c then ss_DeviceLimit c else ur_DeviceLimit user) in
      if 0 < deviceLimit \<and> 0 < ur_AliveIP user then
        let lastOnline = (case load (ss_LastReportOnline c) (ur_ID user) of Some v \<Rightarrow> v | None \<Rightarrow> 0);
            localDeviceLimit = sint (word_of_int (deviceLimit - ur_AliveIP user + lastOnline) :: int64) in
        if 0 < localDeviceLimit then Some localDeviceLimit
        else if 0 < lastOnline then Some lastOnline
        else None
      else Some deviceLimit)"

definition ss_userInfo :: "'w ss_env \<Rightarrow> ss_APIClient \<Rightarrow> UserResponse \<Rightarrow> int \<Rightarrow> UserInfo" where
  "ss_userInfo env c user deviceLimit =
     zero_UserInfo\<lparr>u_UID := ur_ID user, u_Email := ur_Email user, u_UUID := ur_UUID user, u_Passwd := ur_Passwd user,
       u_SpeedLimit := ss_speed env c (ur_SpeedLimit user), u_DeviceLimit := deviceLimit, u_Port := word_of_nat (ur_Port user),
       u_Method := ur_Method user, u_Protocol := ur_Protocol user, u_ProtocolParam := ur_ProtocolParam user,
       u_Obfs := ur_Obfs user, u_ObfsParam := ur_ObfsParam user\<rparr>"

fun ss_userList :: "'w ss_env \<Rightarrow> ss_APIClient \<Rightarrow> UserResponse list \<Rightarrow> UserInfo list" where
  "ss_userList env c [] = []"
| "ss_userList env c (user # users) =
     (case ss_deviceLimit c user of
        None \<Rightarrow> ss_userList env c users
      | Some deviceLimit \<Rightarrow> ss_userInfo env c user deviceLimit # ss_userList env c users)"

text \<open>The record of the last report is used once.\<close>

definition ss_ParseUserListResponse :: "'w ss_env \<Rightarrow> UserResponse list \<Rightarrow> ss_APIClient \<Rightarrow> UserInfo list \<times> ss_APIClient" where
  "ss_ParseUserListResponse env users c = (ss_userList env c users, c\<lparr>ss_LastReportOnline := []\<rparr>)"

definition ss_GetUserList ::
    "'w ss_env \<Rightarrow> ss_APIClient \<times> 'w \<Rightarrow> UserInfo list result \<times> ss_APIClient \<times> 'w" where
  "ss_GetUserList env s =
     (let (c, w) = s; (r, w') = ss_call env c ''GET'' ''/mod_mu/users'' (ss_node_query c) None w in
      case r of
        Inl e \<Rightarrow> (Inl e, c, w')
      | Inr response \<Rightarrow>
          (case decode_user_list env response of
             Inl e \<Rightarrow> (Inl e, c, w')
           | Inr users \<Rightarrow> (let (us, c') = ss_ParseUserListResponse env users c in (Inr us, c', w'))))"

section \<open>The node\<close>

text \<open>A Shadowsocks node is described by its first user that is marked as multi-user.\<close>

definition ss_ParseSSNodeResponse ::
    "'w ss_env \<Rightarrow> ss_APIClient \<Rightarrow> NodeInfoResponse \<Rightarrow> 'w \<Rightarrow> NodeInfo result \<times> 'w" where
  "ss_ParseSSNodeResponse env c resp w =
     (let (r, w') = ss_call env c ''GET'' ''/mod_mu/users'' (ss_node_query c) None w in
      ((case r of
          Inl e \<Rightarrow> Inl e
        | Inr response \<Rightarrow>
            (case decode_user_list env response of
               Inl e \<Rightarrow> Inl e
             | Inr users \<Rightarrow>
                 let (port, method) = (case find (\<lambda>u. 0 < ur_MultiUser u) users of None \<Rightarrow> (0, []) | Some u \<Rightarrow> (ur_Port u, ur_Method u)) in
                 if port = 0 \<or> method = [] then Inl (Error ''cant find the single port multi user'')
                 else Inr (zero_NodeInfo\<lparr>ni_NodeType := ss_NodeType c, ni_NodeID := ss_NodeID c, ni_Port := word_of_nat port,
                        ni_SpeedLimit := ss_speed env c (nir_SpeedLimit resp), ni_TransportProtocol := ''tcp'', ni_CypherMethod := method\<rparr>))),
       w'))"

text \<open>The custom configuration of newer panels; errors of its decoding are ignored.\<close>

definition ss_ParseSSPanelNodeInfo :: "'w ss_env \<Rightarrow> ss_APIClient \<Rightarrow> NodeInfoResponse \<Rightarrow> NodeInfo result" where
  "ss_ParseSSPanelNodeInfo env c resp =
     (let nodeConfig = (case nir_CustomConfig resp of
             None \<Rightarrow> zero_CustomConfig | Some j \<Rightarrow> fst (dec_struct CustomConfig_fields j zero_CustomConfig)) in
      case ParseInt (cc_OffsetPortNode nodeConfig) 32 of
        Inl e \<Rightarrow> Inl e
      | Inr parsedPort \<Rightarrow>
          (case (if ss_NodeType c = ''V2ray'' then ParseInt (cc_AlterID nodeConfig) 16 else Inr 0) of
             Inl e \<Rightarrow> Inl e
           | Inr alterID \<Rightarrow>
               let v2ray = (ss_NodeType c = ''V2ray''); trojan = (ss_NodeType c = ''Trojan'');
                   TLSType = (if v2ray then cc_Security nodeConfig
                              else if trojan then
                                (if cc_EnableXtls nodeConfig = ''1'' then ''xtls''
                                 else if cc_Security nodeConfig \<noteq> [] then cc_Security nodeConfig else ''tls'')
                              else []);
                   transportProtocol = (if ss_NodeType c = ''Shadowsocks'' then ''tcp''
                              else if v2ray then cc_Network nodeConfig
                              else if trojan then
                                (if cc_Grpc nodeConfig = ''1'' then ''grpc''
                                 else if cc_Network nodeConfig \<noteq> [] then cc_Network nodeConfig else ''tcp'')
                              else [])
               in Inr (zero_NodeInfo\<lparr>ni_NodeType := ss_NodeType c, ni_NodeID := ss_NodeID c, ni_Port := word_of_int parsedPort,
                    ni_SpeedLimit := ss_speed env c (nir_SpeedLimit resp), ni_AlterID := word_of_int alterID,
                    ni_TransportProtocol := transportProtocol, ni_Host := cc_Host nodeConfig, ni_Path := cc_Path nodeConfig,
                    ni_EnableTLS := (trojan \<or> (v2ray \<and> (TLSType = ''tls'' \<or> TLSType = ''xtls''))), ni_TLSType := TLSType,
                    ni_EnableVless := (v2ray \<and> cc_EnableVless nodeConfig = ''1''), ni_CypherMethod := cc_MuEncryption nodeConfig,
                    ni_ServiceName := cc_Servicename nodeConfig, ni_Header := map_option (se_raw env) (cc_Header nodeConfig)\<rparr>)))"

definition ss_parse_error :: "'w ss_env \<Rightarrow> NodeInfoResponse \<Rightarrow> go_error \<Rightarrow> string \<Rightarrow> go_error" where
  "ss_parse_error env resp e help =
     Error (''Parse node info failed: '' @ se_show env resp @ '', '' @ [CHR 0x0A] @ ''Error: '' @ err_text e @ help)"

definition ss_GetNodeInfo ::
    "'w ss_env \<Rightarrow> ss_APIClient \<times> 'w \<Rightarrow> NodeInfo result go_call \<times> ss_APIClient \<times> 'w" where
  "ss_GetNodeInfo env s =
     (let (c, w) = s; (r, w') = ss_call env c ''GET'' (''/mod_mu/nodes/'' @ Itoa (ss_NodeID c) @ ''/info'') (ss_query c) None w in
      case r of
        Inl e \<Rightarrow> (GoRet (Inl e), c, w')
      | Inr response \<Rightarrow>
          (case unmarshal_data ''*sspanel.NodeInfoResponse'' (dec_struct (NodeInfoResponse_fields env)) zero_NodeInfoResponse (sr_Data response) of
             Inl e \<Rightarrow> (GoRet (Inl e), c, w')
           | Inr resp \<Rightarrow>
               if nir_Version resp \<noteq> [] \<and> \<not> ss_DisableCustomConfig c \<and> nir_CustomConfig resp \<noteq> Some (JArray []) then
                 (GoRet (case ss_ParseSSPanelNodeInfo env c resp of
                    Inr ni \<Rightarrow> Inr ni
                  | Inl e \<Rightarrow> Inl (ss_parse_error env resp e ('', '' @ [CHR 0x0A]
                      @ ''Please check the doc of custom_config for help: https://xrayr-project.github.io/XrayR-doc/dui-jie-sspanel/sspanel/sspanel_custom_config''))), c, w')
               else
                 let wrap = (\<lambda>x. case x of GoRet (Inl e) \<Rightarrow> GoRet (Inl (ss_parse_error env resp e [])) | _ \<Rightarrow> x) in
                 if ss_NodeType c = ''V2ray'' then (wrap (ss_ParseV2rayNodeResponse env c resp), c, w')
                 else if ss_NodeType c = ''Trojan'' then (wrap (ss_ParseTrojanNodeResponse env c resp), c, w')
                 else if ss_NodeType c = ''Shadowsocks'' then
                   (let (ni, w2) = ss_ParseSSNodeResponse env c resp w' in (wrap (GoRet ni), c, w2))
                 else if ss_NodeType c = ''Shadowsocks-Plugin'' then (wrap (ss_ParseSSPluginNodeResponse env c resp), c, w')
                 else (GoRet (Inl (Error (''unsupported Node type: '' @ ss_NodeType c))), c, w')))"

section \<open>Reports and rules\<close>

definition post_data :: "json list \<Rightarrow> json" where
  "post_data xs = JObject [(''data'', JArray xs)]"

definition ss_report :: "'w ss_env \<Rightarrow> string \<Rightarrow> (string, string) gomap \<Rightarrow> json \<Rightarrow> ss_APIClient \<times> 'w \<Rightarrow> go_error option \<times> ss_APIClient \<times> 'w" where
  "ss_report env path query body s =
     (let (c, w) = s; (r, w') = ss_call env c ''POST'' path query (Some body) w in
      ((case r of Inl e \<Rightarrow> Some e | Inr _ \<Rightarrow> None), c, w'))"

text \<open>\<open>Sprintf("%.2f", x)\<close> of a number that is not negative.\<close>

definition format_2f :: "float64 \<Rightarrow> string" where
  "format_2f x = (let n = nat (round_even (x * 100)) in
     nat_digits (n div 100) @ ''.'' @ nat_digits (n mod 100 div 10) @ nat_digits (n mod 10))"

definition ss_ReportNodeStatus ::
    "'w ss_env \<Rightarrow> NodeStatus \<Rightarrow> ss_APIClient \<times> 'w \<Rightarrow> go_error option \<times> ss_APIClient \<times> 'w" where
  "ss_ReportNodeStatus env nodeStatus s =
     (let c = fst s; percent = (\<lambda>x. format_2f (f64_round (x / 100))) in
      ss_report env (''/mod_mu/nodes/'' @ Itoa (ss_NodeID c) @ ''/info'') (ss_query c)
        (JObject [(''uptime'', JString (nat_digits (unat (ns_Uptime nodeStatus)))),
                  (''load'', JString (percent (ns_CPU nodeStatus) @ '' '' @ percent (ns_Mem nodeStatus) @ '' '' @ percent (ns_Disk nodeStatus)))]) s)"

text \<open>The counts of a report are kept for the next user list even when the panel refuses the report.\<close>

definition count_online :: "OnlineUser list \<Rightarrow> (int, int) gomap" where
  "count_online online = foldl (\<lambda>m u. store (ou_UID u) (case load m (ou_UID u) of Some n \<Rightarrow> n + 1 | None \<Rightarrow> 1) m) [] online"

definition ss_ReportNodeOnlineUsers ::
    "'w ss_env \<Rightarrow> OnlineUser list \<Rightarrow> ss_APIClient \<times> 'w \<Rightarrow> go_error option \<times> ss_APIClient \<times> 'w" where
  "ss_ReportNodeOnlineUsers env online s =
     (let (c, w) = s in
      ss_report env ''/mod_mu/users/aliveip'' (ss_node_query c)
        (post_data (map (\<lambda>u. JObject [(''user_id'', JNumber (Itoa (ou_UID u))), (''ip'', JString (ou_IP u))]) online))
        (c\<lparr>ss_LastReportOnline := count_online online\<rparr>, w))"

definition ss_ReportUserTraffic ::
    "'w ss_env \<Rightarrow> UserTraffic list \<Rightarrow> ss_APIClient \<times> 'w \<Rightarrow> go_error option \<times> ss_APIClient \<times> 'w" where
  "ss_ReportUserTraffic env userTraffic s =
     ss_report env ''/mod_mu/users/traffic'' (ss_node_query (fst s))
       (post_data (map (\<lambda>t. JObject [(''user_id'', JNumber (Itoa (ut_UID t))), (''u'', JNumber (Itoa (sint (ut_Upload t)))),
                                     (''d'', JNumber (Itoa (sint (ut_Download t))))]) userTraffic)) s"

definition ss_ReportIllegal ::
    "'w ss_env \<Rightarrow> DetectResult list \<Rightarrow> ss_APIClient \<times> 'w \<Rightarrow> go_error option \<times> ss_APIClient \<times> 'w" where
  "ss_ReportIllegal env results s =
     ss_report env ''/mod_mu/users/detectlog'' (ss_node_query (fst s))
       (post_data (map (\<lambda>r. JObject [(''list_id'', JNumber (Itoa (res_RuleID r))), (''user_id'', JNumber (Itoa (res_UID r)))]) results)) s"

definition ss_GetNodeRule ::
    "'w ss_env \<Rightarrow> ss_APIClient \<times> 'w \<Rightarrow> DetectRule list result \<times> ss_APIClient \<times> 'w" where
  "ss_GetNodeRule env s =
     (let (c, w) = s; (r, w') = ss_call env c ''GET'' ''/mod_mu/func/detect_rules'' (ss_query c) None w in
      ((case r of
          Inl e \<Rightarrow> Inl e
        | Inr response \<Rightarrow>
            (case unmarshal_data ''*[]sspanel.RuleItem'' (dec_slice \<lparr>ri_ID = 0, ri_Content = []\<rparr> (dec_struct RuleItem_fields)) []
                    (sr_Data response) of
               Inl e \<Rightarrow> Inl e
             | Inr items \<Rightarrow>
                 (case compile_rules (pe_compiles env) ''SSPanel rule'' (map (\<lambda>r. (ri_ID r, ri_Content r)) items) of
                    Inl e \<Rightarrow> Inl e
                  | Inr rules \<Rightarrow> Inr (ss_LocalRuleList c @ rules)))), c, w'))"

end
