(* ===== verification/V2RaySocks_Api.thy ===== *)
theory V2RaySocks_Api
  imports Panel_Http
begin

text \<open>
  The client of the V2RaySocks panel, \<open>api/v2raysocks\<close>: one address for all requests, told apart
  by query parameters, and inbounds in the format of V2ray. For a Shadowsocks node with an old
  cipher the node request also fetches the users, since the cipher is that of the first user.
  \<open>methods_2022\<close> is the list of the Shadowsocks 2022 ciphers of the sing library.
\<close>

record vs_APIClient =
  vs_query :: "(string, string) gomap"
  vs_APIHost :: string
  vs_NodeID :: int
  vs_Key :: string
  vs_NodeType :: string
  vs_EnableVless :: bool
  vs_EnableXTLS :: bool
  vs_SpeedLimit :: float64
  vs_DeviceLimit :: int
  vs_LocalRuleList :: "DetectRule list"
  vs_ConfigResp :: "json option"

definition vs_New :: "api_Config \<Rightarrow> DetectRule list \<Rightarrow> vs_APIClient" where
  "vs_New apiConfig localRuleList =
     \<lparr>vs_query = [(''node_id'', Itoa (ac_NodeID apiConfig)), (''token'', ac_Key apiConfig)],
      vs_APIHost = ac_APIHost apiConfig, vs_NodeID = ac_NodeID apiConfig, vs_Key = ac_Key apiConfig,
      vs_NodeType = ac_NodeType apiConfig, vs_EnableVless = ac_EnableVless apiConfig, vs_EnableXTLS = ac_EnableXTLS apiConfig,
      vs_SpeedLimit = ac_SpeedLimit apiConfig, vs_DeviceLimit = ac_DeviceLimit apiConfig, vs_LocalRuleList = localRuleList,
      vs_ConfigResp = None\<rparr>"

definition vs_Describe :: "vs_APIClient \<Rightarrow> ClientInfo" where
  "vs_Describe c = \<lparr>ci_APIHost = vs_APIHost c, ci_NodeID = vs_NodeID c, ci_Key = vs_Key c, ci_NodeType = vs_NodeType c\<rparr>"

definition vs_assembleURL :: "vs_APIClient \<Rightarrow> string \<Rightarrow> string" where
  "vs_assembleURL c path = vs_APIHost c @ path"

definition vs_parseResponse ::
    "'w panel_env \<Rightarrow> vs_APIClient \<Rightarrow> http_response \<Rightarrow> string \<Rightarrow> go_error option \<Rightarrow> json result" where
  "vs_parseResponse env c res path err =
     (case err of
        Some e \<Rightarrow> Inl (Error (''request '' @ vs_assembleURL c path @ '' failed: '' @ err_text e))
      | None \<Rightarrow>
          if 400 \<le> hr_StatusCode res then
            Inl (Error (''request '' @ vs_assembleURL c path @ '' failed: '' @ hr_Body res @ '', %!s(<nil>)''))
          else case sj_NewJson (pe_sj env) (hr_Body res) of
            None \<Rightarrow> Inl (Error (''ret '' @ hr_Body res @ '' invalid''))
          | Some rtn \<Rightarrow> Inr rtn)"

definition vs_supported :: "vs_APIClient \<Rightarrow> bool" where
  "vs_supported c \<longleftrightarrow> vs_NodeType c \<in> {''V2ray'', ''Trojan'', ''Shadowsocks''}"

definition vs_act :: "vs_APIClient \<Rightarrow> string \<Rightarrow> (string, string) gomap" where
  "vs_act c act = store ''nodetype'' (ToLower (vs_NodeType c)) (store ''act'' act (vs_query c))"

text \<open>A request to the panel, answered and decoded.\<close>

definition vs_call :: "'w panel_env \<Rightarrow> vs_APIClient \<Rightarrow> string \<Rightarrow> (string, string) gomap \<Rightarrow> json option \<Rightarrow> 'w \<Rightarrow> json result \<times> 'w" where
  "vs_call env c method query body w =
     (let ((res, err), w') = pe_send env \<lparr>rq_Method = method, rq_Path = vs_APIHost c, rq_Query = query, rq_Header = [], rq_Body = body\<rparr> w
      in (vs_parseResponse env c res [] err, w'))"

section \<open>The user list\<close>

definition vs_user :: "'w panel_env \<Rightarrow> vs_APIClient \<Rightarrow> json \<Rightarrow> nat \<Rightarrow> UserInfo" where
  "vs_user env c response i =
     (let sj = pe_sj env; item = sj_GetIndex sj (sj_Get sj response ''data'') i;
          str = (\<lambda>j key. sj_MustString sj (sj_Get sj j key));
          speed = (\<lambda>j. sj_MustUint64 sj (sj_Get sj j ''speed_limit'') * 1000000 div 8);
          user = zero_UserInfo\<lparr>u_UID := sj_MustInt sj (sj_Get sj item ''id'')\<rparr>;
          user1 =
            (if vs_NodeType c = ''Shadowsocks'' then
               (let t = sj_Get sj item ''shadowsocks_user'' in
                user\<lparr>u_Email := str t ''secret'', u_Passwd := str t ''secret'', u_Method := str t ''cipher'', u_SpeedLimit := speed t\<rparr>)
             else if vs_NodeType c = ''Trojan'' then
               (let t = sj_Get sj item ''trojan_user'' in
                user\<lparr>u_UUID := str t ''password'', u_Email := str t ''password'', u_SpeedLimit := speed t\<rparr>)
             else if vs_NodeType c = ''V2ray'' then
               (let t = sj_Get sj item ''v2ray_user'' in
                user\<lparr>u_UUID := str t ''uuid'', u_Email := str t ''email'',
                     u_AlterID := ucast (sj_MustUint64 sj (sj_Get sj t ''alter_id'')), u_SpeedLimit := speed t\<rparr>)
             else user);
          user2 = (if 0 < vs_SpeedLimit c then user1\<lparr>u_SpeedLimit := mbps_to_bytes (pe_wild env) (vs_SpeedLimit c)\<rparr> else user1)
      in user2\<lparr>u_DeviceLimit := vs_DeviceLimit c\<rparr>)"

definition vs_GetUserList ::
    "'w panel_env \<Rightarrow> vs_APIClient \<times> 'w \<Rightarrow> UserInfo list result \<times> vs_APIClient \<times> 'w" where
  "vs_GetUserList env s =
     (let (c, w) = s in
      if \<not> vs_supported c then (Inl (Error (''unsupported Node type: '' @ vs_NodeType c)), c, w)
      else
        let (r, w') = vs_call env c ''GET'' (vs_act c ''user'') None w in
        ((case r of
            Inl e \<Rightarrow> Inl e
          | Inr response \<Rightarrow>
              Inr (map (vs_user env c response) [0..<length (sj_MustArray (pe_sj env) (sj_Get (pe_sj env) response ''data''))])), c, w'))"

section \<open>The node\<close>

definition vs_tlsType :: "vs_APIClient \<Rightarrow> string" where
  "vs_tlsType c = (if vs_EnableXTLS c then ''xtls'' else ''tls'')"

definition vs_inboundInfo :: "'w panel_env \<Rightarrow> json \<Rightarrow> json result go_call" where
  "vs_inboundInfo env response = first_inbound env (sj_Get (pe_sj env) response ''inbounds'')"

definition vs_ParseTrojanNodeResponse :: "'w panel_env \<Rightarrow> vs_APIClient \<Rightarrow> json \<Rightarrow> NodeInfo result go_call" where
  "vs_ParseTrojanNodeResponse env c response =
     go_seq (vs_inboundInfo env response) (\<lambda>inboundInfo.
       let sj = pe_sj env in
       GoRet (Inr (zero_NodeInfo\<lparr>ni_NodeType := vs_NodeType c, ni_NodeID := vs_NodeID c,
         ni_Port := ucast (sj_MustUint64 sj (sj_Get sj inboundInfo ''port'')), ni_TransportProtocol := ''tcp'',
         ni_EnableTLS := True, ni_TLSType := vs_tlsType c,
         ni_Host := sj_MustString sj (sj_Get sj (sj_Get sj (sj_Get sj inboundInfo ''streamSettings'') ''tlsSettings'') ''serverName'')\<rparr>)))"

definition vs_ParseV2rayNodeResponse :: "'w panel_env \<Rightarrow> vs_APIClient \<Rightarrow> json \<Rightarrow> NodeInfo result go_call" where
  "vs_ParseV2rayNodeResponse env c response =
     go_seq (vs_inboundInfo env response) (\<lambda>inboundInfo.
       GoRet (Inr (stream_node env inboundInfo
         (zero_NodeInfo\<lparr>ni_NodeType := vs_NodeType c, ni_NodeID := vs_NodeID c, ni_TLSType := vs_tlsType c,
            ni_EnableVless := vs_EnableVless c\<rparr>))))"

definition vs_ParseSSNodeResponse ::
    "'w panel_env \<Rightarrow> string list \<Rightarrow> json \<Rightarrow> vs_APIClient \<times> 'w \<Rightarrow> NodeInfo result go_call \<times> vs_APIClient \<times> 'w" where
  "vs_ParseSSNodeResponse env methods_2022 response s =
     (case vs_inboundInfo env response of
        GoRet (Inr inboundInfo) \<Rightarrow>
          (let sj = pe_sj env; c = fst s; settings = sj_Get sj inboundInfo ''settings'';
               method = sj_MustString sj (sj_Get sj settings ''method'');
               node = (\<lambda>m psk. zero_NodeInfo\<lparr>ni_NodeType := vs_NodeType c, ni_NodeID := vs_NodeID c,
                  ni_Port := ucast (sj_MustUint64 sj (sj_Get sj inboundInfo ''port'')), ni_TransportProtocol := ''tcp'',
                  ni_CypherMethod := m, ni_ServerKey := psk\<rparr>)
           in if method \<in> set methods_2022 then
                (GoRet (Inr (node method (sj_MustString sj (sj_Get sj settings ''password'')))), s)
              else
                (case vs_GetUserList env s of
                   (Inl e, s') \<Rightarrow> (GoRet (Inl e), s')
                 | (Inr userInfo, s') \<Rightarrow>
                     (GoRet (Inr (node (case userInfo of [] \<Rightarrow> method | u # _ \<Rightarrow> u_Method u) [])), s')))
      | GoRet (Inl e) \<Rightarrow> (GoRet (Inl e), s)
      | GoPanic \<Rightarrow> (GoPanic, s))"

definition vs_GetNodeInfo ::
    "'w panel_env \<Rightarrow> string list \<Rightarrow> vs_APIClient \<times> 'w \<Rightarrow> NodeInfo result go_call \<times> vs_APIClient \<times> 'w" where
  "vs_GetNodeInfo env methods_2022 s =
     (let (c, w) = s in
      if \<not> vs_supported c then (GoRet (Inl (Error (''unsupported Node type: '' @ vs_NodeType c))), c, w)
      else
        let (r, w') = vs_call env c ''GET'' (vs_act c ''config'') None w in
        case r of
          Inl e \<Rightarrow> (GoRet (Inl e), c\<lparr>vs_ConfigResp := None\<rparr>, w')
        | Inr response \<Rightarrow>
            let s' = (c\<lparr>vs_ConfigResp := Some response\<rparr>, w');
                (ni, s2) = (if vs_NodeType c = ''V2ray'' then (vs_ParseV2rayNodeResponse env c response, s')
                            else if vs_NodeType c = ''Trojan'' then (vs_ParseTrojanNodeResponse env c response, s')
                            else vs_ParseSSNodeResponse env methods_2022 response s')
            in ((case ni of
                   GoRet (Inl e) \<Rightarrow> GoRet (Inl (Error (''Parse node info failed: '' @ json_encode response @ '', ''
                                       @ [CHR 0x0A] @ ''Error: '' @ err_text e)))
                 | x \<Rightarrow> x), s2))"

section \<open>Reports and rules\<close>

definition vs_ReportUserTraffic ::
    "'w panel_env \<Rightarrow> UserTraffic list \<Rightarrow> vs_APIClient \<times> 'w \<Rightarrow> go_error option \<times> vs_APIClient \<times> 'w" where
  "vs_ReportUserTraffic env userTraffic s =
     (let (c, w) = s;
          data = map (\<lambda>t. JObject [(''user_id'', JNumber (Itoa (ut_UID t))), (''u'', JNumber (Itoa (sint (ut_Upload t)))),
                                   (''d'', JNumber (Itoa (sint (ut_Download t))))]) userTraffic;
          (r, w') = vs_call env c ''POST''
                      (store ''node_id'' (Itoa (vs_NodeID c)) (vs_act c ''submit'')) (Some (JArray data)) w
      in ((case r of Inl e \<Rightarrow> Some e | Inr _ \<Rightarrow> None), c, w'))"

definition vs_GetNodeRule :: "'w panel_env \<Rightarrow> vs_APIClient \<Rightarrow> DetectRule list result go_call" where
  "vs_GetNodeRule env c =
     (if vs_NodeType c \<noteq> ''V2ray'' then GoRet (Inr (vs_LocalRuleList c))
      else case vs_ConfigResp c of
        None \<Rightarrow> GoPanic
      | Some response \<Rightarrow>
          let sj = pe_sj env;
              texts = sj_MustStringArray sj (sj_Get sj (sj_GetIndex sj (sj_Get sj (sj_Get sj response ''routing'') ''rules'') 1) ''domain'')
          in GoRet (case compile_rules (pe_compiles env) ''V2RaySocks rule''
                      (zip (map int [0..<length texts]) (map (\<lambda>r. TrimPrefix r ''regexp:'') texts)) of
               Inl e \<Rightarrow> Inl e
             | Inr rules \<Rightarrow> Inr (vs_LocalRuleList c @ rules)))"

end
