(* ===== verification/PMPanel_Api.thy ===== *)
theory PMPanel_Api
  imports Panel_Http
begin

text \<open>
  The client of PMPanel, \<open>api/pmpanel\<close>. Its requests name the kind of node by a short word, and
  its users have no e-mail address. Texts of decoding errors are cut after \<open>failed\<close>.
\<close>

section \<open>Answers of the panel\<close>

record pm_NodeInfoResponse =
  pn_Class :: int
  pn_SpeedLimit :: float64
  pn_Method :: string
  pn_TrafficRate :: float64
  pn_RawServerString :: string
  pn_Port :: nat
  pn_AlterId :: nat
  pn_Network :: string
  pn_Security :: string
  pn_Host :: string
  pn_Path :: string
  pn_Grpc :: bool
  pn_Sni :: string

record pm_UserResponse =
  pu_ID :: int
  pu_Passwd :: string
  pu_SpeedLimit :: float64
  pu_DeviceLimit :: int

record pm_Response =
  pr_Ret :: nat
  pr_Data :: "json option"

record pm_RuleItem =
  pi_ID :: int
  pi_Content :: string

text \<open>The environment adds what resty decoded into the \<open>Response\<close>, the number parser and the compact form of a raw message.\<close>

record 'w pm_env = "'w panel_env" +
  pme_Result :: "http_response \<Rightarrow> pm_Response"
  pme_ParseFloat :: "string \<Rightarrow> float64 option"
  pme_compact :: "json \<Rightarrow> string"

definition zero_pm_NodeInfoResponse :: pm_NodeInfoResponse where
  "zero_pm_NodeInfoResponse = \<lparr>pn_Class = 0, pn_SpeedLimit = 0, pn_Method = [], pn_TrafficRate = 0, pn_RawServerString = [], pn_Port = 0,
     pn_AlterId = 0, pn_Network = [], pn_Security = [], pn_Host = [], pn_Path = [], pn_Grpc = False, pn_Sni = []\<rparr>"

definition pm_NodeInfoResponse_fields :: "'w pm_env \<Rightarrow> pm_NodeInfoResponse field list" where
  "pm_NodeInfoResponse_fields env =
     [fld ''clazz'' dec_int pn_Class pn_Class_update,
      fld ''speedlimit'' (dec_float (pme_ParseFloat env)) pn_SpeedLimit pn_SpeedLimit_update,
      fld ''method'' dec_string pn_Method pn_Method_update,
      fld ''trafficRate'' (dec_float (pme_ParseFloat env)) pn_TrafficRate pn_TrafficRate_update,
      fld ''outServer'' dec_string pn_RawServerString pn_RawServerString_update, fld ''outPort'' (dec_uint 32) pn_Port pn_Port_update,
      fld ''alterId'' (dec_uint 16) pn_AlterId pn_AlterId_update, fld ''network'' dec_string pn_Network pn_Network_update,
      fld ''security'' dec_string pn_Security pn_Security_update, fld ''host'' dec_string pn_Host pn_Host_update,
      fld ''path'' dec_string pn_Path pn_Path_update, fld ''grpc'' dec_bool pn_Grpc pn_Grpc_update,
      fld ''sni'' dec_string pn_Sni pn_Sni_update]"

definition pm_UserResponse_fields :: "'w pm_env \<Rightarrow> pm_UserResponse field list" where
  "pm_UserResponse_fields env =
     [fld ''id'' dec_int pu_ID pu_ID_update, fld ''passwd'' dec_string pu_Passwd pu_Passwd_update,
      fld ''nodeSpeedlimit'' (dec_float (pme_ParseFloat env)) pu_SpeedLimit pu_SpeedLimit_update,
      fld ''nodeConnector'' dec_int pu_DeviceLimit pu_DeviceLimit_update]"

definition pm_RuleItem_fields :: "pm_RuleItem field list" where
  "pm_RuleItem_fields = [fld ''id'' dec_int pi_ID pi_ID_update, fld ''regex'' dec_string pi_Content pi_Content_update]"

section \<open>The client\<close>

record pm_APIClient =
  pm_APIHost :: string
  pm_NodeID :: int
  pm_Key :: string
  pm_NodeType :: string
  pm_EnableVless :: bool
  pm_EnableXTLS :: bool
  pm_SpeedLimit :: float64
  pm_DeviceLimit :: int
  pm_LocalRuleList :: "DetectRule list"

definition pm_New :: "api_Config \<Rightarrow> DetectRule list \<Rightarrow> pm_APIClient" where
  "pm_New apiConfig localRuleList =
     \<lparr>pm_APIHost = ac_APIHost apiConfig, pm_NodeID = ac_NodeID apiConfig, pm_Key = ac_Key apiConfig,
      pm_NodeType = ac_NodeType apiConfig, pm_EnableVless = ac_EnableVless apiConfig, pm_EnableXTLS = ac_EnableXTLS apiConfig,
      pm_SpeedLimit = ac_SpeedLimit apiConfig, pm_DeviceLimit = ac_DeviceLimit apiConfig, pm_LocalRuleList = localRuleList\<rparr>"

definition pm_Describe :: "pm_APIClient \<Rightarrow> ClientInfo" where
  "pm_Describe c = \<lparr>ci_APIHost = pm_APIHost c, ci_NodeID = pm_NodeID c, ci_Key = pm_Key c, ci_NodeType = pm_NodeType c\<rparr>"

definition pm_assembleURL :: "pm_APIClient \<Rightarrow> string \<Rightarrow> string" where
  "pm_assembleURL c path = pm_APIHost c @ path"

definition pm_parseResponse ::
    "'w pm_env \<Rightarrow> pm_APIClient \<Rightarrow> http_response \<Rightarrow> string \<Rightarrow> go_error option \<Rightarrow> pm_Response result" where
  "pm_parseResponse env c res path err =
     (case err of
        Some e \<Rightarrow> Inl (Error (''request '' @ pm_assembleURL c path @ '' failed: '' @ err_text e))
      | None \<Rightarrow>
          if 400 \<le> hr_StatusCode res then
            Inl (Error (''request '' @ pm_assembleURL c path @ '' failed: '' @ hr_Body res @ '', %!s(<nil>)''))
          else
            let response = pme_Result env res in
            if pr_Ret response \<noteq> 200 then
              Inl (Error (''ret {'' @ quote ''ret'' @ '':'' @ Itoa (int (pr_Ret response)) @ '','' @ quote ''data'' @ '':''
                     @ (case pr_Data response of None \<Rightarrow> ''null'' | Some j \<Rightarrow> pme_compact env j) @ ''} invalid''))
            else Inr response)"

definition pm_call ::
    "'w pm_env \<Rightarrow> pm_APIClient \<Rightarrow> string \<Rightarrow> string \<Rightarrow> (string, string) gomap \<Rightarrow> json option \<Rightarrow> 'w \<Rightarrow> pm_Response result \<times> 'w" where
  "pm_call env c method path query body w =
     (let ((res, err), w') = pe_send env \<lparr>rq_Method = method, rq_Path = path, rq_Query = query,
             rq_Header = (''key'', pm_Key c) # (if body = None then [] else [(''Content-Type'', ''application/json'')]), rq_Body = body\<rparr> w
      in (pm_parseResponse env c res path err, w'))"

definition pm_nodeType :: "pm_APIClient \<Rightarrow> string result" where
  "pm_nodeType c =
     (if pm_NodeType c = ''Shadowsocks'' then Inr ''ss''
      else if pm_NodeType c = ''V2ray'' then Inr ''v2ray''
      else if pm_NodeType c = ''Trojan'' then Inr ''trojan''
      else Inl (Error (''NodeType Error: '' @ pm_NodeType c)))"

definition pm_speed :: "'w pm_env \<Rightarrow> pm_APIClient \<Rightarrow> float64 \<Rightarrow> uint64" where
  "pm_speed env c x = mbps_to_bytes (pe_wild env) (if 0 < pm_SpeedLimit c then pm_SpeedLimit c else x)"

section \<open>The node\<close>

definition pm_xtls :: "pm_APIClient \<Rightarrow> string" where
  "pm_xtls c = (if pm_EnableXTLS c then ''xtls'' else ''tls'')"

definition pm_ParseV2rayNodeResponse :: "'w pm_env \<Rightarrow> pm_APIClient \<Rightarrow> pm_NodeInfoResponse \<Rightarrow> NodeInfo" where
  "pm_ParseV2rayNodeResponse env c resp =
     (let net = pn_Network resp; tls = (pn_Security resp = ''tls'' \<or> pn_Security resp = ''xtls'') in
      zero_NodeInfo\<lparr>ni_NodeType := pm_NodeType c, ni_NodeID := pm_NodeID c, ni_Port := word_of_nat (pn_Port resp),
        ni_SpeedLimit := pm_speed env c (pn_SpeedLimit resp), ni_AlterID := word_of_nat (pn_AlterId resp),
        ni_TransportProtocol := net, ni_EnableTLS := tls, ni_TLSType := (if tls then pm_xtls c else []),
        ni_Path := (if net = ''ws'' then pn_Path resp else []), ni_Host := (if net = ''ws'' then pn_Host resp else []),
        ni_EnableVless := pm_EnableVless c, ni_ServiceName := (if net = ''grpc'' then pn_Sni resp else [])\<rparr>)"

definition pm_ParseSSNodeResponse :: "'w pm_env \<Rightarrow> pm_APIClient \<Rightarrow> pm_NodeInfoResponse \<Rightarrow> NodeInfo" where
  "pm_ParseSSNodeResponse env c resp =
     zero_NodeInfo\<lparr>ni_NodeType := pm_NodeType c, ni_NodeID := pm_NodeID c, ni_Port := word_of_nat (pn_Port resp),
       ni_SpeedLimit := pm_speed env c (pn_SpeedLimit resp), ni_TransportProtocol := ''tcp'', ni_CypherMethod := pn_Method resp\<rparr>"

definition pm_ParseTrojanNodeResponse :: "'w pm_env \<Rightarrow> pm_APIClient \<Rightarrow> pm_NodeInfoResponse \<Rightarrow> NodeInfo" where
  "pm_ParseTrojanNodeResponse env c resp =
     zero_NodeInfo\<lparr>ni_NodeType := pm_NodeType c, ni_NodeID := pm_NodeID c, ni_Port := word_of_nat (pn_Port resp),
       ni_SpeedLimit := pm_speed env c (pn_SpeedLimit resp), ni_TransportProtocol := (if pn_Grpc resp then ''grpc'' else ''tcp''),
       ni_EnableTLS := True, ni_TLSType := pm_xtls c, ni_Host := pn_Host resp, ni_ServiceName := pn_Sni resp\<rparr>"

definition pm_GetNodeInfo ::
    "'w pm_env \<Rightarrow> pm_APIClient \<times> 'w \<Rightarrow> NodeInfo result \<times> pm_APIClient \<times> 'w" where
  "pm_GetNodeInfo env s =
     (let (c, w) = s in
      case pm_nodeType c of
        Inl e \<Rightarrow> (Inl e, c, w)
      | Inr nodeType \<Rightarrow>
          let (r, w') = pm_call env c ''GET'' ''/api/node'' [(''type'', nodeType), (''nodeId'', Itoa (pm_NodeID c))] None w in
          ((case r of
              Inl e \<Rightarrow> Inl e
            | Inr response \<Rightarrow>
                (case unmarshal_data ''*pmpanel.NodeInfoResponse'' (dec_struct (pm_NodeInfoResponse_fields env)) zero_pm_NodeInfoResponse
                        (pr_Data response) of
                   Inl e \<Rightarrow> Inl e
                 | Inr resp \<Rightarrow>
                     Inr (if pm_NodeType c = ''V2ray'' then pm_ParseV2rayNodeResponse env c resp
                          else if pm_NodeType c = ''Trojan'' then pm_ParseTrojanNodeResponse env c resp
                          else pm_ParseSSNodeResponse env c resp))), c, w'))"

section \<open>The user list\<close>

definition pm_userInfo :: "'w pm_env \<Rightarrow> pm_APIClient \<Rightarrow> pm_UserResponse \<Rightarrow> UserInfo" where
  "pm_userInfo env c user =
     zero_UserInfo\<lparr>u_UID := pu_ID user, u_Passwd := pu_Passwd user, u_UUID := pu_Passwd user,
       u_SpeedLimit := pm_speed env c (pu_SpeedLimit user),
       u_DeviceLimit := (if 0 < pm_DeviceLimit c then pm_DeviceLimit c else pu_DeviceLimit user)\<rparr>"

text \<open>A null instead of a list leaves the pointer nil, and \<open>ParseUserListResponse\<close> dereferences it.\<close>

definition pm_ParseUserListResponse :: "'w pm_env \<Rightarrow> pm_APIClient \<Rightarrow> pm_UserResponse list option \<Rightarrow> UserInfo list result go_call" where
  "pm_ParseUserListResponse env c users =
     (case users of None \<Rightarrow> GoPanic | Some us \<Rightarrow> GoRet (Inr (map (pm_userInfo env c) us)))"

definition pm_GetUserList ::
    "'w pm_env \<Rightarrow> pm_APIClient \<times> 'w \<Rightarrow> UserInfo list result go_call \<times> pm_APIClient \<times> 'w" where
  "pm_GetUserList env s =
     (let (c, w) = s in
      case pm_nodeType c of
        Inl e \<Rightarrow> (GoRet (Inl e), c, w)
      | Inr nodeType \<Rightarrow>
          let (r, w') = pm_call env c ''GET'' ''/api/users'' [(''type'', nodeType), (''nodeId'', Itoa (pm_NodeID c)), (''all'', ''true'')] None w in
          (go_seq (GoRet r) (\<lambda>response.
             go_seq (GoRet (unmarshal_data ''*[]pmpanel.UserResponse''
                 (dec_ptr [] (dec_slice \<lparr>pu_ID = 0, pu_Passwd = [], pu_SpeedLimit = 0, pu_DeviceLimit = 0\<rparr> (dec_struct (pm_UserResponse_fields env))))
                 None (pr_Data response)))
             (pm_ParseUserListResponse env c)), c, w'))"

section \<open>Reports and rules\<close>

definition pm_post :: "'w pm_env \<Rightarrow> string \<Rightarrow> json \<Rightarrow> json \<Rightarrow> pm_APIClient \<times> 'w \<Rightarrow> go_error option \<times> pm_APIClient \<times> 'w" where
  "pm_post env path users onlines s =
     (let (c, w) = s in
      case pm_nodeType c of
        Inl e \<Rightarrow> (Some e, c, w)
      | Inr nodeType \<Rightarrow>
          let (r, w') = pm_call env c ''POST'' path []
                (Some (JObject [(''type'', JString nodeType), (''nodeId'', JNumber (Itoa (pm_NodeID c))), (''users'', users), (''onlines'', onlines)])) w
          in ((case r of Inl e \<Rightarrow> Some e | Inr _ \<Rightarrow> None), c, w'))"

definition pm_ReportNodeOnlineUsers ::
    "'w pm_env \<Rightarrow> OnlineUser list \<Rightarrow> pm_APIClient \<times> 'w \<Rightarrow> go_error option \<times> pm_APIClient \<times> 'w" where
  "pm_ReportNodeOnlineUsers env online s =
     pm_post env ''/api/online'' JNull
       (JArray (map (\<lambda>u. JObject [(''user_id'', JNumber (Itoa (ou_UID u))), (''ip'', JString (ou_IP u))]) online)) s"

definition pm_ReportUserTraffic ::
    "'w pm_env \<Rightarrow> UserTraffic list \<Rightarrow> pm_APIClient \<times> 'w \<Rightarrow> go_error option \<times> pm_APIClient \<times> 'w" where
  "pm_ReportUserTraffic env userTraffic s =
     pm_post env ''/api/traffic''
       (JArray (map (\<lambda>t. JObject [(''id'', JNumber (Itoa (ut_UID t))), (''up'', JNumber (Itoa (sint (ut_Upload t)))),
                                  (''down'', JNumber (Itoa (sint (ut_Download t)))), (''ip'', JString [])]) userTraffic)) JNull s"

definition pm_GetNodeRule ::
    "'w pm_env \<Rightarrow> pm_APIClient \<times> 'w \<Rightarrow> DetectRule list result \<times> pm_APIClient \<times> 'w" where
  "pm_GetNodeRule env s =
     (let (c, w) = s in
      case pm_nodeType c of
        Inl e \<Rightarrow> (Inl e, c, w)
      | Inr nodeType \<Rightarrow>
          let (r, w') = pm_call env c ''GET'' ''/api/rules'' [(''type'', nodeType), (''nodeId'', Itoa (pm_NodeID c))] None w in
          ((case r of
              Inl e \<Rightarrow> Inl e
            | Inr response \<Rightarrow>
                (case unmarshal_data ''*[]pmpanel.RuleItem'' (dec_slice \<lparr>pi_ID = 0, pi_Content = []\<rparr> (dec_struct pm_RuleItem_fields)) []
                        (pr_Data response) of
                   Inl e \<Rightarrow> Inl e
                 | Inr items \<Rightarrow>
                     (case compile_rules (pe_compiles env) ''PMpanel rule'' (map (\<lambda>r. (pi_ID r, pi_Content r)) items) of
                        Inl e \<Rightarrow> Inl e
                      | Inr rules \<Rightarrow> Inr (pm_LocalRuleList c @ rules)))), c, w'))"

section \<open>An answer without a list\<close>

lemma pm_null_users_panic:
  assumes "pm_nodeType c = Inr t" and "pe_send env rq w = ((res, None), w')"
    and "rq = \<lparr>rq_Method = ''GET'', rq_Path = ''/api/users'', rq_Query = [(''type'', t), (''nodeId'', Itoa (pm_NodeID c)), (''all'', ''true'')],
           rq_Header = [(''key'', pm_Key c)], rq_Body = None\<rparr>"
    and "hr_StatusCode res < 400" and "pme_Result env res = \<lparr>pr_Ret = 200, pr_Data = Some JNull\<rparr>"
  shows "pm_GetUserList env (c, w) = (GoPanic, c, w')"
  using assms by (simp add: pm_GetUserList_def pm_call_def pm_parseResponse_def unmarshal_data_def dec_ptr_def pm_ParseUserListResponse_def Let_def)

end
