(* ===== verification/ProxyPanel_Api.thy ===== *)
theory ProxyPanel_Api
  imports Panel_Http
begin

text \<open>
  The client of ProxyPanel, \<open>api/proxypanel\<close>: every request carries the key and the time in its
  header, the answers say \<open>success\<close>, and the device limit of the node comes with its description.
  Texts of decoding errors are cut after \<open>failed\<close>.
\<close>

section \<open>Answers of the panel\<close>

record pp_Response =
  ppr_Status :: string
  ppr_Code :: int
  ppr_Data :: "json option"
  ppr_Message :: string

record V2rayNodeInfo =
  vn_ID :: int
  vn_IsUDP :: bool
  vn_SpeedLimit :: nat
  vn_ClientLimit :: int
  vn_PushPort :: int
  vn_Secret :: string
  vn_Key :: string
  vn_Cert :: string
  vn_V2License :: string
  vn_V2AlterID :: nat
  vn_V2Port :: nat
  vn_V2Method :: string
  vn_V2Net :: string
  vn_V2Type :: string
  vn_V2Host :: string
  vn_V2Path :: string
  vn_V2TLS :: bool
  vn_V2Cdn :: bool
  vn_V2TLSProvider :: string
  vn_RedirectUrl :: string

record ShadowsocksNodeInfo =
  sn_ID :: int
  sn_SpeedLimit :: nat
  sn_ClientLimit :: int
  sn_Method :: string
  sn_Port :: nat

record TrojanNodeInfo =
  tn_ID :: int
  tn_IsUDP :: bool
  tn_SpeedLimit :: nat
  tn_ClientLimit :: int
  tn_PushPort :: int
  tn_TrojanPort :: nat

text \<open>The users of the three kinds differ only in the name of their credential.\<close>

record pp_User =
  ppu_UID :: int
  ppu_Credential :: string
  ppu_SpeedLimit :: nat

record NodeRuleItem =
  nri_ID :: int
  nri_Type :: string
  nri_Pattern :: string

record NodeRule =
  nrl_Mode :: string
  nrl_Rules :: "NodeRuleItem list"

text \<open>The environment adds what resty decoded into the \<open>Response\<close>, the clock and the text of an answer in error messages.\<close>

record 'w pp_env = "'w panel_env" +
  ppe_Result :: "http_response \<Rightarrow> pp_Response"
  ppe_Now :: "'w \<Rightarrow> int"
  ppe_compact :: "json \<Rightarrow> string"
  ppe_show :: "pp_Response \<Rightarrow> string"

definition V2rayNodeInfo_fields :: "V2rayNodeInfo field list" where
  "V2rayNodeInfo_fields =
     [fld ''id'' dec_int vn_ID vn_ID_update, fld ''is_udp'' dec_bool vn_IsUDP vn_IsUDP_update,
      fld ''speed_limit'' (dec_uint 64) vn_SpeedLimit vn_SpeedLimit_update, fld ''client_limit'' dec_int vn_ClientLimit vn_ClientLimit_update,
      fld ''push_port'' dec_int vn_PushPort vn_PushPort_update, fld ''secret'' dec_string vn_Secret vn_Secret_update,
      fld ''key'' dec_string vn_Key vn_Key_update, fld ''pem'' dec_string vn_Cert vn_Cert_update,
      fld ''v2_license'' dec_string vn_V2License vn_V2License_update, fld ''v2_alter_id'' (dec_uint 16) vn_V2AlterID vn_V2AlterID_update,
      fld ''v2_port'' (dec_uint 32) vn_V2Port vn_V2Port_update, fld ''v2_method'' dec_string vn_V2Method vn_V2Method_update,
      fld ''v2_net'' dec_string vn_V2Net vn_V2Net_update, fld ''v2_type'' dec_string vn_V2Type vn_V2Type_update,
      fld ''v2_host'' dec_string vn_V2Host vn_V2Host_update, fld ''v2_path'' dec_string vn_V2Path vn_V2Path_update,
      fld ''v2_tls'' dec_bool vn_V2TLS vn_V2TLS_update, fld ''v2_cdn'' dec_bool vn_V2Cdn vn_V2Cdn_update,
      fld ''v2_tls_provider'' dec_string vn_V2TLSProvider vn_V2TLSProvider_update,
      fld ''redirect_url'' dec_string vn_RedirectUrl vn_RedirectUrl_update]"

definition zero_V2rayNodeInfo :: V2rayNodeInfo where
  "zero_V2rayNodeInfo = \<lparr>vn_ID = 0, vn_IsUDP = False, vn_SpeedLimit = 0, vn_ClientLimit = 0, vn_PushPort = 0, vn_Secret = [], vn_Key = [],
     vn_Cert = [], vn_V2License = [], vn_V2AlterID = 0, vn_V2Port = 0, vn_V2Method = [], vn_V2Net = [], vn_V2Type = [], vn_V2Host = [],
     vn_V2Path = [], vn_V2TLS = False, vn_V2Cdn = False, vn_V2TLSProvider = [], vn_RedirectUrl = []\<rparr>"

definition ShadowsocksNodeInfo_fields :: "ShadowsocksNodeInfo field list" where
  "ShadowsocksNodeInfo_fields =
     [fld ''id'' dec_int sn_ID sn_ID_update, fld ''speed_limit'' (dec_uint 64) sn_SpeedLimit sn_SpeedLimit_update,
      fld ''client_limit'' dec_int sn_ClientLimit sn_ClientLimit_update, fld ''method'' dec_string sn_Method sn_Method_update,
      fld ''port'' (dec_uint 32) sn_Port sn_Port_update]"

definition TrojanNodeInfo_fields :: "TrojanNodeInfo field list" where
  "TrojanNodeInfo_fields =
     [fld ''id'' dec_int tn_ID tn_ID_update, fld ''is_udp'' dec_bool tn_IsUDP tn_IsUDP_update,
      fld ''speed_limit'' (dec_uint 64) tn_SpeedLimit tn_SpeedLimit_update, fld ''client_limit'' dec_int tn_ClientLimit tn_ClientLimit_update,
      fld ''push_port'' dec_int tn_PushPort tn_PushPort_update, fld ''trojan_port'' (dec_uint 32) tn_TrojanPort tn_TrojanPort_update]"

definition pp_User_fields :: "string \<Rightarrow> pp_User field list" where
  "pp_User_fields credential =
     [fld ''uid'' dec_int ppu_UID ppu_UID_update, fld credential dec_string ppu_Credential ppu_Credential_update,
      fld ''speed_limit'' (dec_uint 64) ppu_SpeedLimit ppu_SpeedLimit_update]"

definition NodeRule_fields :: "NodeRule field list" where
  "NodeRule_fields =
     [fld ''mode'' dec_string nrl_Mode nrl_Mode_update,
      fld ''rules'' (dec_slice \<lparr>nri_ID = 0, nri_Type = [], nri_Pattern = []\<rparr>
         (dec_struct [fld ''id'' dec_int nri_ID nri_ID_update, fld ''type'' dec_string nri_Type nri_Type_update,
                      fld ''pattern'' dec_string nri_Pattern nri_Pattern_update])) nrl_Rules nrl_Rules_update]"

section \<open>The client\<close>

record pp_APIClient =
  pp_APIHost :: string
  pp_NodeID :: int
  pp_Key :: string
  pp_NodeType :: string
  pp_EnableVless :: bool
  pp_EnableXTLS :: bool
  pp_SpeedLimit :: float64
  pp_DeviceLimit :: int
  pp_LocalRuleList :: "DetectRule list"

definition pp_New :: "api_Config \<Rightarrow> DetectRule list \<Rightarrow> pp_APIClient" where
  "pp_New apiConfig localRuleList =
     \<lparr>pp_APIHost = ac_APIHost apiConfig, pp_NodeID = ac_NodeID apiConfig, pp_Key = ac_Key apiConfig,
      pp_NodeType = ac_NodeType apiConfig, pp_EnableVless = ac_EnableVless apiConfig, pp_EnableXTLS = ac_EnableXTLS apiConfig,
      pp_SpeedLimit = ac_SpeedLimit apiConfig, pp_DeviceLimit = ac_DeviceLimit apiConfig, pp_LocalRuleList = localRuleList\<rparr>"

definition pp_Describe :: "pp_APIClient \<Rightarrow> ClientInfo" where
  "pp_Describe c = \<lparr>ci_APIHost = pp_APIHost c, ci_NodeID = pp_NodeID c, ci_Key = pp_Key c, ci_NodeType = pp_NodeType c\<rparr>"

definition pp_assembleURL :: "pp_APIClient \<Rightarrow> string \<Rightarrow> string" where
  "pp_assembleURL c path = pp_APIHost c @ path"

definition createCommonRequest :: "'w pp_env \<Rightarrow> pp_APIClient \<Rightarrow> 'w \<Rightarrow> (string, string) gomap" where
  "createCommonRequest env c w = [(''key'', pp_Key c), (''timestamp'', Itoa (ppe_Now env w))]"

definition pp_parseResponse ::
    "'w pp_env \<Rightarrow> pp_APIClient \<Rightarrow> http_response \<Rightarrow> string \<Rightarrow> go_error option \<Rightarrow> pp_Response result" where
  "pp_parseResponse env c res path err =
     (case err of
        Some e \<Rightarrow> Inl (Error (''request '' @ pp_assembleURL c path @ '' failed: '' @ err_text e))
      | None \<Rightarrow>
          if 400 \<le> hr_StatusCode res then
            Inl (Error (''request '' @ pp_assembleURL c path @ '' failed: '' @ hr_Body res @ '', %!s(<nil>)''))
          else
            let response = ppe_Result env res in
            if ppr_Status response \<noteq> ''success'' then Inl (Error (''ret '' @ ppe_show env response @ '' invalid''))
            else Inr response)"

text \<open>The paths have one prefix per kind of node.\<close>

definition pp_path :: "pp_APIClient \<Rightarrow> string \<Rightarrow> string result" where
  "pp_path c what =
     (let url = (\<lambda>kind. Inr (''/api/'' @ kind @ ''/v1/'' @ what @ ''/'' @ Itoa (pp_NodeID c))) in
      if pp_NodeType c = ''V2ray'' then url ''v2ray''
      else if pp_NodeType c = ''Trojan'' then url ''trojan''
      else if pp_NodeType c = ''Shadowsocks'' then url ''ss''
      else Inl (Error (''unsupported Node type: '' @ pp_NodeType c)))"

definition pp_call :: "'w pp_env \<Rightarrow> pp_APIClient \<Rightarrow> string \<Rightarrow> string \<Rightarrow> json option \<Rightarrow> 'w \<Rightarrow> pp_Response result \<times> 'w" where
  "pp_call env c method path body w =
     (let ((res, err), w') = pe_send env \<lparr>rq_Method = method, rq_Path = path, rq_Query = [], rq_Header = createCommonRequest env c w,
             rq_Body = body\<rparr> w
      in (pp_parseResponse env c res path err, w'))"

definition pp_speed :: "'w pp_env \<Rightarrow> pp_APIClient \<Rightarrow> nat \<Rightarrow> uint64" where
  "pp_speed env c x =
     (if 0 < pp_SpeedLimit c then mbps_to_bytes (pe_wild env) (pp_SpeedLimit c) else word_of_nat x * 1000000 div 8)"

text \<open>The device limit of the panel is taken when the client has none yet.\<close>

definition pp_adopt_limit :: "int \<Rightarrow> pp_APIClient \<Rightarrow> pp_APIClient" where
  "pp_adopt_limit ClientLimit c =
     (if pp_DeviceLimit c = 0 \<and> 0 < ClientLimit then c\<lparr>pp_DeviceLimit := ClientLimit\<rparr> else c)"

section \<open>The node\<close>

definition pp_xtls :: "pp_APIClient \<Rightarrow> string" where
  "pp_xtls c = (if pp_EnableXTLS c then ''xtls'' else ''tls'')"

definition pp_ParseV2rayNodeResponse :: "'w pp_env \<Rightarrow> json option \<Rightarrow> pp_APIClient \<Rightarrow> NodeInfo result \<times> pp_APIClient" where
  "pp_ParseV2rayNodeResponse env data c =
     (case unmarshal_data ''json.RawMessage'' (dec_struct V2rayNodeInfo_fields) zero_V2rayNodeInfo data of
        Inl e \<Rightarrow> (Inl e, c)
      | Inr v \<Rightarrow>
          (Inr (zero_NodeInfo\<lparr>ni_NodeType := pp_NodeType c, ni_NodeID := pp_NodeID c, ni_Port := word_of_nat (vn_V2Port v),
             ni_SpeedLimit := pp_speed env c (vn_SpeedLimit v), ni_AlterID := word_of_nat (vn_V2AlterID v),
             ni_TransportProtocol := vn_V2Net v, ni_FakeType := vn_V2Type v, ni_EnableTLS := vn_V2TLS v, ni_TLSType := pp_xtls c,
             ni_Path := vn_V2Path v, ni_Host := vn_V2Host v, ni_EnableVless := pp_EnableVless c\<rparr>),
           pp_adopt_limit (vn_ClientLimit v) c))"

definition pp_ParseSSNodeResponse :: "'w pp_env \<Rightarrow> json option \<Rightarrow> pp_APIClient \<Rightarrow> NodeInfo result \<times> pp_APIClient" where
  "pp_ParseSSNodeResponse env data c =
     (case unmarshal_data ''json.RawMessage'' (dec_struct ShadowsocksNodeInfo_fields)
             \<lparr>sn_ID = 0, sn_SpeedLimit = 0, sn_ClientLimit = 0, sn_Method = [], sn_Port = 0\<rparr> data of
        Inl e \<Rightarrow> (Inl e, c)
      | Inr v \<Rightarrow>
          (Inr (zero_NodeInfo\<lparr>ni_NodeType := pp_NodeType c, ni_NodeID := pp_NodeID c, ni_Port := word_of_nat (sn_Port v),
             ni_SpeedLimit := pp_speed env c (sn_SpeedLimit v), ni_TransportProtocol := ''tcp'', ni_CypherMethod := sn_Method v\<rparr>),
           pp_adopt_limit (sn_ClientLimit v) c))"

definition pp_ParseTrojanNodeResponse :: "'w pp_env \<Rightarrow> json option \<Rightarrow> pp_APIClient \<Rightarrow> NodeInfo result \<times> pp_APIClient" where
  "pp_ParseTrojanNodeResponse env data c =
     (case unmarshal_data ''json.RawMessage'' (dec_struct TrojanNodeInfo_fields)
             \<lparr>tn_ID = 0, tn_IsUDP = False, tn_SpeedLimit = 0, tn_ClientLimit = 0, tn_PushPort = 0, tn_TrojanPort = 0\<rparr> data of
        Inl e \<Rightarrow> (Inl e, c)
      | Inr v \<Rightarrow>
          (Inr (zero_NodeInfo\<lparr>ni_NodeType := pp_NodeType c, ni_NodeID := pp_NodeID c, ni_Port := word_of_nat (tn_TrojanPort v),
             ni_SpeedLimit := pp_speed env c (tn_SpeedLimit v), ni_TransportProtocol := ''tcp'', ni_EnableTLS := True,
             ni_TLSType := pp_xtls c\<rparr>),
           pp_adopt_limit (tn_ClientLimit v) c))"

definition pp_data_text :: "'w pp_env \<Rightarrow> json option \<Rightarrow> string" where
  "pp_data_text env data = (case data of None \<Rightarrow> ''null'' | Some j \<Rightarrow> ppe_compact env j)"

definition pp_GetNodeInfo ::
    "'w pp_env \<Rightarrow> pp_APIClient \<times> 'w \<Rightarrow> NodeInfo result \<times> pp_APIClient \<times> 'w" where
  "pp_GetNodeInfo env s =
     (let (c, w) = s in
      case pp_path c ''node'' of
        Inl e \<Rightarrow> (Inl e, c, w)
      | Inr path \<Rightarrow>
          let (r, w') = pp_call env c ''GET'' path None w in
          (case r of
             Inl e \<Rightarrow> (Inl e, c, w')
           | Inr response \<Rightarrow>
               let (ni, c') = (if pp_NodeType c = ''V2ray'' then pp_ParseV2rayNodeResponse env (ppr_Data response) c
                               else if pp_NodeType c = ''Trojan'' then pp_ParseTrojanNodeResponse env (ppr_Data response) c
                               else pp_ParseSSNodeResponse env (ppr_Data response) c)
               in ((case ni of
                      Inl e \<Rightarrow> Inl (Error (''Parse node info failed: '' @ pp_data_text env (ppr_Data response) @ '', '' @ [CHR 0x0A]
                                        @ ''Error: '' @ err_text e))
                    | Inr x \<Rightarrow> Inr x), c', w')))"

section \<open>The user list\<close>

text \<open>The lists hold pointers, and a null among them is dereferenced.\<close>

definition pp_decode_users :: "string \<Rightarrow> json option \<Rightarrow> pp_User option list result" where
  "pp_decode_users credential data =
     unmarshal_data ''json.RawMessage'' (dec_slice None (dec_ptr \<lparr>ppu_UID = 0, ppu_Credential = [], ppu_SpeedLimit = 0\<rparr>
        (dec_struct (pp_User_fields credential)))) [] data"

fun pp_userList :: "(pp_User \<Rightarrow> UserInfo) \<Rightarrow> pp_User option list \<Rightarrow> UserInfo list result go_call" where
  "pp_userList f [] = GoRet (Inr [])"
| "pp_userList f (None # users) = GoPanic"
| "pp_userList f (Some user # users) = go_seq (pp_userList f users) (\<lambda>us. GoRet (Inr (f user # us)))"

definition pp_user_base :: "'w pp_env \<Rightarrow> pp_APIClient \<Rightarrow> pp_User \<Rightarrow> UserInfo" where
  "pp_user_base env c user =
     zero_UserInfo\<lparr>u_UID := ppu_UID user, u_DeviceLimit := pp_DeviceLimit c, u_SpeedLimit := pp_speed env c (ppu_SpeedLimit user)\<rparr>"

definition pp_ParseV2rayUserListResponse :: "'w pp_env \<Rightarrow> pp_APIClient \<Rightarrow> json option \<Rightarrow> UserInfo list result go_call" where
  "pp_ParseV2rayUserListResponse env c data =
     go_seq (GoRet (pp_decode_users ''vmess_uid'' data)) (pp_userList (\<lambda>u. (pp_user_base env c u)\<lparr>u_UUID := ppu_Credential u\<rparr>))"

definition pp_ParseTrojanUserListResponse :: "'w pp_env \<Rightarrow> pp_APIClient \<Rightarrow> json option \<Rightarrow> UserInfo list result go_call" where
  "pp_ParseTrojanUserListResponse env c data =
     go_seq (GoRet (pp_decode_users ''password'' data)) (pp_userList (\<lambda>u. (pp_user_base env c u)\<lparr>u_UUID := ppu_Credential u\<rparr>))"

definition pp_ParseSSUserListResponse :: "'w pp_env \<Rightarrow> pp_APIClient \<Rightarrow> json option \<Rightarrow> UserInfo list result go_call" where
  "pp_ParseSSUserListResponse env c data =
     go_seq (GoRet (pp_decode_users ''passwd'' data)) (pp_userList (\<lambda>u. (pp_user_base env c u)\<lparr>u_Passwd := ppu_Credential u\<rparr>))"

definition pp_GetUserList ::
    "'w pp_env \<Rightarrow> pp_APIClient \<times> 'w \<Rightarrow> UserInfo list result go_call \<times> pp_APIClient \<times> 'w" where
  "pp_GetUserList env s =
     (let (c, w) = s in
      case pp_path c ''userList'' of
        Inl e \<Rightarrow> (GoRet (Inl e), c, w)
      | Inr path \<Rightarrow>
          let (r, w') = pp_call env c ''GET'' path None w in
          ((case r of
              Inl e \<Rightarrow> GoRet (Inl e)
            | Inr response \<Rightarrow>
                (case (if pp_NodeType c = ''V2ray'' then pp_ParseV2rayUserListResponse env c (ppr_Data response)
                       else if pp_NodeType c = ''Trojan'' then pp_ParseTrojanUserListResponse env c (ppr_Data response)
                       else pp_ParseSSUserListResponse env c (ppr_Data response)) of
                   GoRet (Inl _) \<Rightarrow> GoRet (Inl (Error (''parse user list failed: '' @ pp_data_text env (ppr_Data response))))
                 | x \<Rightarrow> x)), c, w'))"

section \<open>Reports and rules\<close>

definition pp_post :: "'w pp_env \<Rightarrow> string \<Rightarrow> json \<Rightarrow> pp_APIClient \<times> 'w \<Rightarrow> go_error option \<times> pp_APIClient \<times> 'w" where
  "pp_post env what body s =
     (let (c, w) = s in
      case pp_path c what of
        Inl e \<Rightarrow> (Some e, c, w)
      | Inr path \<Rightarrow>
          let (r, w') = pp_call env c ''POST'' path (Some body) w in ((case r of Inl e \<Rightarrow> Some e | Inr _ \<Rightarrow> None), c, w'))"

text \<open>\<open>Sprintf("%d%%", int(x))\<close>, which cuts the fraction off.\<close>

definition percent_text :: "float64 \<Rightarrow> string" where
  "percent_text x = Itoa (if 0 \<le> x then \<lfloor>x\<rfloor> else \<lceil>x\<rceil>) @ ''%''"

definition pp_ReportNodeStatus ::
    "'w pp_env \<Rightarrow> NodeStatus \<Rightarrow> pp_APIClient \<times> 'w \<Rightarrow> go_error option \<times> pp_APIClient \<times> 'w" where
  "pp_ReportNodeStatus env st s =
     pp_post env ''nodeStatus'' (JObject [(''cpu'', JString (percent_text (ns_CPU st))), (''mem'', JString (percent_text (ns_Mem st))),
        (''net'', JString []), (''disk'', JString (percent_text (ns_Disk st))),
        (''uptime'', JNumber (Itoa (sint (ns_Uptime st))))]) s"

definition pp_ReportNodeOnlineUsers ::
    "'w pp_env \<Rightarrow> OnlineUser list \<Rightarrow> pp_APIClient \<times> 'w \<Rightarrow> go_error option \<times> pp_APIClient \<times> 'w" where
  "pp_ReportNodeOnlineUsers env online s =
     pp_post env ''nodeOnline''
       (JArray (map (\<lambda>u. JObject [(''uid'', JNumber (Itoa (ou_UID u))), (''ip'', JString (ou_IP u))]) online)) s"

definition pp_ReportUserTraffic ::
    "'w pp_env \<Rightarrow> UserTraffic list \<Rightarrow> pp_APIClient \<times> 'w \<Rightarrow> go_error option \<times> pp_APIClient \<times> 'w" where
  "pp_ReportUserTraffic env userTraffic s =
     pp_post env ''userTraffic''
       (JArray (map (\<lambda>t. JObject [(''uid'', JNumber (Itoa (ut_UID t))), (''upload'', JNumber (Itoa (sint (ut_Upload t)))),
                                  (''download'', JNumber (Itoa (sint (ut_Download t))))]) userTraffic)) s"

text \<open>The hits go out one by one, and the first that the panel refuses ends the report.\<close>

fun pp_illegal_loop :: "'w pp_env \<Rightarrow> DetectResult list \<Rightarrow> pp_APIClient \<times> 'w \<Rightarrow> go_error option \<times> pp_APIClient \<times> 'w" where
  "pp_illegal_loop env [] s = (None, s)"
| "pp_illegal_loop env (r # rs) s =
     (case pp_post env ''trigger'' (JObject [(''uid'', JNumber (Itoa (res_UID r))), (''rule_id'', JNumber (Itoa (res_RuleID r))),
                                       (''reason'', JString ''XrayR cannot save reason'')]) s of
        (Some e, s') \<Rightarrow> (Some e, s')
      | (None, s') \<Rightarrow> pp_illegal_loop env rs s')"

definition pp_ReportIllegal ::
    "'w pp_env \<Rightarrow> DetectResult list \<Rightarrow> pp_APIClient \<times> 'w \<Rightarrow> go_error option \<times> pp_APIClient \<times> 'w" where
  "pp_ReportIllegal env results s =
     (case pp_path (fst s) ''trigger'' of Inl e \<Rightarrow> (Some e, s) | Inr _ \<Rightarrow> pp_illegal_loop env results s)"

definition pp_GetNodeRule ::
    "'w pp_env \<Rightarrow> pp_APIClient \<times> 'w \<Rightarrow> DetectRule list result \<times> pp_APIClient \<times> 'w" where
  "pp_GetNodeRule env s =
     (let (c, w) = s in
      case pp_path c ''nodeRule'' of
        Inl e \<Rightarrow> (Inl e, c, w)
      | Inr path \<Rightarrow>
          let (r, w') = pp_call env c ''GET'' path None w in
          ((case r of
              Inl e \<Rightarrow> Inl e
            | Inr response \<Rightarrow>
                (case unmarshal_data ''*proxypanel.NodeRule'' (dec_struct NodeRule_fields) \<lparr>nrl_Mode = [], nrl_Rules = []\<rparr> (ppr_Data response) of
                   Inl e \<Rightarrow> Inl e
                 | Inr rl \<Rightarrow>
                     if nrl_Mode rl \<noteq> ''reject'' then Inr (pp_LocalRuleList c)
                     else
                       (case compile_rules (pe_compiles env) ''ProxyPanel rule''
                               (map (\<lambda>r. (nri_ID r, nri_Pattern r)) (filter (\<lambda>r. nri_Type r = ''reg'') (nrl_Rules rl))) of
                          Inl e \<Rightarrow> Inl e
                        | Inr rules \<Rightarrow> Inr (pp_LocalRuleList c @ rules)))), c, w'))"

section \<open>The device limit\<close>

lemma pp_adopt_limit_sticky: "pp_DeviceLimit c \<noteq> 0 \<Longrightarrow> pp_adopt_limit l c = c"
  by (simp add: pp_adopt_limit_def)

text \<open>
  The device limit of the node is read once: after the first description with a limit, what the
  panel says later is ignored, and no user gets another limit until the process restarts.
\<close>

theorem proxypanel_limit_sticky:
  assumes "pp_DeviceLimit c \<noteq> 0" and "pp_GetNodeInfo env (c, w) = (r, c', w')"
  shows "c' = c"
  using assms
  by (auto simp: pp_GetNodeInfo_def pp_ParseV2rayNodeResponse_def pp_ParseSSNodeResponse_def pp_ParseTrojanNodeResponse_def
      pp_adopt_limit_sticky Let_def split: sum.splits prod.splits if_splits)

end
