(* ===== verification/Panel.thy ===== *)
theory Panel
  imports Cert_Files Node_Lifecycle New_V2board_Api SSPanel_Api V2RaySocks_Api PMPanel_Api ProxyPanel_Api
begin

text \<open>
  The panel service (\<open>panel/panel.go\<close>, \<open>panel/config.go\<close>, \<open>panel/defaultConfig.go\<close>) and the main program
  (\<open>main/main.go\<close>): the core is built from the configuration files, one controller per node is created
  with the client of its panel type, and all are started; a change of the configuration file closes
  everything and starts again. A panic ends the process. Parameters are the configuration types of
  xray-core (\<open>'m\<close>), the merging of structs by third-party libraries, and how the controller calls a
  client. The services of one panel share the core and its dispatcher.
\<close>

section \<open>Configuration\<close>

record LogConfig =
  lg_Level :: string
  lg_AccessPath :: string
  lg_ErrorPath :: string

record ConnectionConfig =
  cn_Handshake :: uint32
  cn_ConnIdle :: uint32
  cn_UplinkOnly :: uint32
  cn_DownlinkOnly :: uint32
  cn_BufferSize :: "32 word"

record NodesConfig =
  nc_PanelType :: string
  nc_ApiConfig :: "api_Config option"
  nc_ControllerConfig :: "Config option"

record panel_Config =
  pc_LogConfig :: "LogConfig option"
  pc_DnsConfigPath :: string
  pc_InboundConfigPath :: string
  pc_OutboundConfigPath :: string
  pc_RouteConfigPath :: string
  pc_ConnectionConfig :: "ConnectionConfig option"
  pc_NodesConfig :: "NodesConfig list"

definition getDefaultLogConfig :: LogConfig where
  "getDefaultLogConfig = \<lparr>lg_Level = ''none'', lg_AccessPath = '''', lg_ErrorPath = ''''\<rparr>"

definition getDefaultConnectionConfig :: ConnectionConfig where
  "getDefaultConnectionConfig =
     \<lparr>cn_Handshake = 8, cn_ConnIdle = 21600, cn_UplinkOnly = 300, cn_DownlinkOnly = 300, cn_BufferSize = 256\<rparr>"

definition getDefaultControllerConfig :: Config where
  "getDefaultControllerConfig =
     \<lparr>cfg_ListenIP = ''0.0.0.0'', cfg_SendIP = ''0.0.0.0'', cfg_UpdatePeriodic = 60, cfg_CertConfig = None,
      cfg_EnableDNS = False, cfg_DNSType = ''AsIs'', cfg_DisableUploadTraffic = False, cfg_DisableGetRule = False,
      cfg_EnableProxyProtocol = False, cfg_EnableFallback = False, cfg_DisableIVCheck = False,
      cfg_DisableSniffing = False, cfg_AutoSpeedLimitConfig = None, cfg_GlobalDeviceLimitConfig = None,
      cfg_FallBackConfigs = None\<rparr>"

section \<open>The core\<close>

record Policy =
  po_StatsUserUplink :: bool
  po_StatsUserDownlink :: bool
  po_Handshake :: uint32
  po_ConnectionIdle :: uint32
  po_UplinkOnly :: uint32
  po_DownlinkOnly :: uint32
  po_BufferSize :: "32 word"

datatype 'm app_config =
  AppLog LogConfig
| AppDispatcher
| AppStats
| AppInbound
| AppOutbound
| AppPolicy "(uint32 \<times> Policy) list"
| AppDns 'm
| AppRouter 'm

record 'm core_config =
  kc_App :: "'m app_config list"
  kc_Inbound :: "'m list"
  kc_Outbound :: "'m list"

record ('c, 'ih, 'oh) core_instance =
  ki_disp :: "'c dispatcher"
  ki_core :: "('ih, 'oh) core_state"
  ki_running :: bool

datatype api_client =
  SSPanelClient ss_APIClient
| V2boardClient v2_APIClient
| NewV2boardClient nv_APIClient
| PMPanelClient pm_APIClient
| ProxyPanelClient pp_APIClient
| V2RaySocksClient vs_APIClient

record ('m, 'p, 'c, 'ic, 'oc, 'ih, 'oh) service_env =
  se_ReadFile :: "string \<Rightarrow> string option"
  se_merge_log :: "LogConfig \<Rightarrow> LogConfig \<Rightarrow> LogConfig result"
  se_merge_connection :: "ConnectionConfig \<Rightarrow> ConnectionConfig \<Rightarrow> ConnectionConfig result"
  se_merge_controller :: "Config \<Rightarrow> Config \<Rightarrow> Config result"
  se_dns :: "string \<Rightarrow> 'm option"
  se_empty_dns :: 'm
  se_build_dns :: "'m \<Rightarrow> 'm result"
  se_router :: "string \<Rightarrow> 'm option"
  se_empty_router :: 'm
  se_build_router :: "'m \<Rightarrow> 'm result"
  se_inbounds :: "string \<Rightarrow> 'm list option"
  se_build_inbound :: "'m \<Rightarrow> 'm result"
  se_outbounds :: "string \<Rightarrow> 'm list option"
  se_build_outbound :: "'m \<Rightarrow> 'm result"
  se_core_New :: "'m core_config \<Rightarrow> ('c, 'ih, 'oh) core_instance result"
  se_core_Start :: "('c, 'ih, 'oh) core_instance \<Rightarrow> go_error option \<times> ('c, 'ih, 'oh) core_instance"
  se_core_Close :: "('c, 'ih, 'oh) core_instance \<Rightarrow> ('c, 'ih, 'oh) core_instance"
  se_compiles :: "string \<Rightarrow> go_error option"
  se_client :: "api_client \<Rightarrow> 'p API \<times> 'p"
  se_iface :: "'c cache_iface"
  se_ce :: "('ic, 'oc, 'ih, 'oh) core_env"

definition parseConnectionConfig ::
    "('m, 'p, 'c, 'ic, 'oc, 'ih, 'oh) service_env \<Rightarrow> ConnectionConfig option \<Rightarrow> Policy outcome" where
  "parseConnectionConfig env c =
     (let policy = (\<lambda>cc. \<lparr>po_StatsUserUplink = True, po_StatsUserDownlink = True, po_Handshake = cn_Handshake cc,
                         po_ConnectionIdle = cn_ConnIdle cc, po_UplinkOnly = cn_UplinkOnly cc,
                         po_DownlinkOnly = cn_DownlinkOnly cc, po_BufferSize = cn_BufferSize cc\<rparr>) in
      case c of
        None \<Rightarrow> Ret (policy getDefaultConnectionConfig)
      | Some c' \<Rightarrow>
          (case se_merge_connection env getDefaultConnectionConfig c' of
             Inl e \<Rightarrow> Panic (''Read ConnectionConfig failed: '' @ go_error_text e)
           | Inr cc \<Rightarrow> Ret (policy cc)))"

text \<open>An optional configuration file: \<open>what\<close> and \<open>shown\<close> go into the texts of the panics.\<close>

definition load_file ::
    "('m, 'p, 'c, 'ic, 'oc, 'ih, 'oh) service_env \<Rightarrow> string \<Rightarrow> string \<Rightarrow> string \<Rightarrow> 'a \<Rightarrow> (string \<Rightarrow> 'a option) \<Rightarrow> 'a outcome" where
  "load_file env what shown path absent unmarshal =
     (if path = '''' then Ret absent
      else case se_ReadFile env path of
        None \<Rightarrow> Panic (''Failed to read '' @ what @ '' config file at: '' @ shown)
      | Some data \<Rightarrow>
          (case unmarshal data of
             None \<Rightarrow> Panic (''Failed to unmarshal '' @ what @ '' config: '' @ shown)
           | Some c \<Rightarrow> Ret c))"

definition build_config :: "string \<Rightarrow> ('m \<Rightarrow> 'm result) \<Rightarrow> 'm \<Rightarrow> 'm outcome" where
  "build_config msg build c = (case build c of Inl e \<Rightarrow> Panic (msg @ go_error_text e) | Inr b \<Rightarrow> Ret b)"

fun build_configs :: "string \<Rightarrow> ('m \<Rightarrow> 'm result) \<Rightarrow> 'm list \<Rightarrow> 'm list outcome" where
  "build_configs msg build [] = Ret []"
| "build_configs msg build (c # cs) =
     (case build_config msg build c of
        Panic m \<Rightarrow> Panic m
      | Ret b \<Rightarrow> (case build_configs msg build cs of Panic m \<Rightarrow> Panic m | Ret bs \<Rightarrow> Ret (b # bs)))"

definition then_do :: "'a outcome \<Rightarrow> ('a \<Rightarrow> 'b outcome) \<Rightarrow> 'b outcome" where
  "then_do m k = (case m of Panic msg \<Rightarrow> Panic msg | Ret x \<Rightarrow> k x)"

text \<open>
  \<open>loadCore\<close>. The texts for the file of the custom inbounds name the path of the outbounds, as in
  the source.
\<close>

definition loadCore ::
    "('m, 'p, 'c, 'ic, 'oc, 'ih, 'oh) service_env \<Rightarrow> panel_Config \<Rightarrow> ('c, 'ih, 'oh) core_instance outcome" where
  "loadCore env pc =
     then_do (case pc_LogConfig pc of
                None \<Rightarrow> Ret getDefaultLogConfig
              | Some lc \<Rightarrow>
                  (case se_merge_log env getDefaultLogConfig lc of
                     Inl e \<Rightarrow> Panic (''Read Log config failed: '' @ go_error_text e)
                   | Inr l \<Rightarrow> Ret l)) (\<lambda>logConfig.
     then_do (load_file env ''DNS'' (pc_DnsConfigPath pc) (pc_DnsConfigPath pc) (se_empty_dns env) (se_dns env)) (\<lambda>coreDnsConfig.
     then_do (build_config ''Failed to understand DNS config, Please check: https://xtls.github.io/config/dns.html for help: ''
                (se_build_dns env) coreDnsConfig) (\<lambda>dnsConfig.
     then_do (load_file env ''Routing'' (pc_RouteConfigPath pc) (pc_RouteConfigPath pc) (se_empty_router env) (se_router env)) (\<lambda>coreRouterConfig.
     then_do (build_config ''Failed to understand Routing config  Please check: https://xtls.github.io/config/routing.html for help: ''
                (se_build_router env) coreRouterConfig) (\<lambda>routeConfig.
     then_do (load_file env ''Custom Inbound'' (pc_OutboundConfigPath pc) (pc_InboundConfigPath pc) [] (se_inbounds env)) (\<lambda>coreCustomInboundConfig.
     then_do (build_configs ''Failed to understand Inbound config, Please check: https://xtls.github.io/config/inbound.html for help: ''
                (se_build_inbound env) coreCustomInboundConfig) (\<lambda>inBoundConfig.
     then_do (load_file env ''Custom Outbound'' (pc_OutboundConfigPath pc) (pc_OutboundConfigPath pc) [] (se_outbounds env)) (\<lambda>coreCustomOutboundConfig.
     then_do (build_configs ''Failed to understand Outbound config, Please check: https://xtls.github.io/config/outbound.html for help: ''
                (se_build_outbound env) coreCustomOutboundConfig) (\<lambda>outBoundConfig.
     then_do (parseConnectionConfig env (pc_ConnectionConfig pc)) (\<lambda>levelPolicyConfig.
       case se_core_New env
              \<lparr>kc_App = [AppLog logConfig, AppDispatcher, AppStats, AppInbound, AppOutbound,
                        AppPolicy [(0, levelPolicyConfig)], AppDns dnsConfig, AppRouter routeConfig],
               kc_Inbound = inBoundConfig, kc_Outbound = outBoundConfig\<rparr> of
         Inl e \<Rightarrow> Panic (''failed to create instance: '' @ go_error_text e)
       | Inr server \<Rightarrow> Ret server))))))))))"

text \<open>
  The dispatcher of a new core (\<open>Init\<close>) has its own limiter, rules and flow registry; its metrics
  are variables of the process. The environment decides about the direct data path.
\<close>

definition dispatcher_Init :: "direct_metrics \<Rightarrow> StatsManager \<Rightarrow> 'c dispatcher" where
  "dispatcher_Init metrics sm =
     \<lparr>dd_flow = \<lparr>fs_Limiter = limiter_New, fs_stats = sm, fs_flows = empty_registry\<rparr>, dd_RuleManager = rule_New,
      dd_metrics = metrics, dd_linksClosed = 0\<rparr>"

definition directDataPathEnabled :: "(string \<Rightarrow> string) \<Rightarrow> bool" where
  "directDataPathEnabled getenv =
     (let v = ToLower (TrimSpace (getenv ''XRAYR_DIRECT_DATAPATH'')) in \<not> (v = ''0'' \<or> v = ''false'' \<or> v = ''off''))"

section \<open>The panel\<close>

record 'p service =
  sv_api :: "'p API"
  sv_panel :: 'p
  sv_ctl :: Controller

record ('p, 'c, 'ih, 'oh) Panel =
  p_panelConfig :: panel_Config
  p_Server :: "('c, 'ih, 'oh) core_instance option"
  p_Service :: "'p service list"
  p_Running :: bool

definition panel_New :: "panel_Config \<Rightarrow> ('p, 'c, 'ih, 'oh) Panel" where
  "panel_New pc = \<lparr>p_panelConfig = pc, p_Server = None, p_Service = [], p_Running = False\<rparr>"

text \<open>A fatal error while the local rules are read ends the process like a panic.\<close>

definition new_client :: "('m, 'p, 'c, 'ic, 'oc, 'ih, 'oh) service_env \<Rightarrow> NodesConfig \<Rightarrow> api_client outcome" where
  "new_client env nc =
     (let construct = (\<lambda>make.
            case nc_ApiConfig nc of
              None \<Rightarrow> Panic (go_error_text nil_deref)
            | Some apiConfig \<Rightarrow>
                (case readLocalRuleList (se_compiles env) (se_ReadFile env) (ac_RuleListPath apiConfig) of
                   None \<Rightarrow> Panic ''Error while reading file''
                 | Some rules \<Rightarrow> Ret (make apiConfig rules))) in
      if nc_PanelType nc = ''SSpanel'' then construct (\<lambda>c r. SSPanelClient (ss_New c r))
      else if nc_PanelType nc = ''V2board'' then construct (\<lambda>c r. V2boardClient (v2_New c r))
      else if nc_PanelType nc = ''NewV2board'' then construct (\<lambda>c r. NewV2boardClient (nv_New c r))
      else if nc_PanelType nc = ''PMpanel'' then construct (\<lambda>c r. PMPanelClient (pm_New c r))
      else if nc_PanelType nc = ''Proxypanel'' then construct (\<lambda>c r. ProxyPanelClient (pp_New c r))
      else if nc_PanelType nc = ''V2RaySocks'' then construct (\<lambda>c r. V2RaySocksClient (vs_New c r))
      else Panic (''Unsupport panel type: '' @ nc_PanelType nc))"

definition controller_New :: "('p API \<times> 'p) \<Rightarrow> Config \<Rightarrow> string \<Rightarrow> 'p service" where
  "controller_New api config panelType =
     \<lparr>sv_api = fst api, sv_panel = snd api,
      sv_ctl = \<lparr>c_config = config, c_panelType = panelType, c_nodeInfo = None, c_Tag = '''', c_userList = None, c_tasks = [],
                c_limitedUsers = [], c_warnedUsers = [], c_retiringUsers = [], c_monitorClosed = False\<rparr>\<rparr>"

definition node_service :: "('m, 'p, 'c, 'ic, 'oc, 'ih, 'oh) service_env \<Rightarrow> NodesConfig \<Rightarrow> 'p service outcome" where
  "node_service env nc =
     then_do (new_client env nc) (\<lambda>apiClient.
     then_do (case nc_ControllerConfig nc of
                None \<Rightarrow> Ret getDefaultControllerConfig
              | Some c \<Rightarrow>
                  (case se_merge_controller env getDefaultControllerConfig c of
                     Inl _ \<Rightarrow> Panic ''Read Controller Config Failed''
                   | Inr config \<Rightarrow> Ret config)) (\<lambda>controllerConfig.
       Ret (controller_New (se_client env apiClient) controllerConfig (nc_PanelType nc))))"

fun create_services ::
    "('m, 'p, 'c, 'ic, 'oc, 'ih, 'oh) service_env \<Rightarrow> NodesConfig list \<Rightarrow> 'p service list \<Rightarrow> unit outcome \<times> 'p service list" where
  "create_services env [] ss = (Ret (), ss)"
| "create_services env (nc # ncs) ss =
     (case node_service env nc of
        Panic m \<Rightarrow> (Panic m, ss)
      | Ret s \<Rightarrow> create_services env ncs (ss @ [s]))"

text \<open>A controller works on its own state and on the shared core.\<close>

definition service_Start ::
    "('m, 'p, 'c, 'ic, 'oc, 'ih, 'oh) service_env \<Rightarrow> 'p service \<Rightarrow> ('c, 'ih, 'oh) core_instance \<Rightarrow>
     report_outcome \<times> 'p service \<times> ('c, 'ih, 'oh) core_instance" where
  "service_Start env s k =
     (let (out, w) = ctl_Start (se_iface env) (se_ce env) (sv_api s)
                       \<lparr>nd_panel = sv_panel s, nd_disp = ki_disp k, nd_core = ki_core k, nd_ctl = sv_ctl s\<rparr>
      in (out, s\<lparr>sv_panel := nd_panel w, sv_ctl := nd_ctl w\<rparr>, k\<lparr>ki_disp := nd_disp w, ki_core := nd_core w\<rparr>))"

definition service_Close :: "'p service \<Rightarrow> 'p service" where
  "service_Close s = s\<lparr>sv_ctl := (sv_ctl s)\<lparr>c_monitorClosed := True\<rparr>\<rparr>"

text \<open>The loop of \<open>Start\<close> over the services, for any \<open>Start\<close> of the interface.\<close>

fun start_services :: "('s \<Rightarrow> 'k \<Rightarrow> report_outcome \<times> 's \<times> 'k) \<Rightarrow> 's list \<Rightarrow> 'k \<Rightarrow> unit outcome \<times> 's list \<times> 'k" where
  "start_services start [] k = (Ret (), [], k)"
| "start_services start (s # ss) k =
     (case start s k of
        (Returned None, s', k') \<Rightarrow> (let (r, ss', k'') = start_services start ss k' in (r, s' # ss', k''))
      | (Returned (Some e), s', k') \<Rightarrow> (Panic (''Panel Start fialed: '' @ go_error_text e), s' # ss, k')
      | (Panicked, s', k') \<Rightarrow> (Panic ''panic'', s' # ss, k'))"

definition panel_Start ::
    "('m, 'p, 'c, 'ic, 'oc, 'ih, 'oh) service_env \<Rightarrow> ('p, 'c, 'ih, 'oh) Panel \<Rightarrow> unit outcome \<times> ('p, 'c, 'ih, 'oh) Panel" where
  "panel_Start env p =
     (case loadCore env (p_panelConfig p) of
        Panic m \<Rightarrow> (Panic m, p)
      | Ret server \<Rightarrow>
          (case se_core_Start env server of
             (Some e, _) \<Rightarrow> (Panic (''Failed to start instance: '' @ go_error_text e), p)
           | (None, server1) \<Rightarrow>
               let p1 = p\<lparr>p_Server := Some server1\<rparr>;
                   (created, ss) = create_services env (pc_NodesConfig (p_panelConfig p1)) (p_Service p1);
                   p2 = p1\<lparr>p_Service := ss\<rparr>
               in case created of
                    Panic m \<Rightarrow> (Panic m, p2)
                  | Ret _ \<Rightarrow>
                      let (started, ss', server2) = start_services (service_Start env) ss server1;
                          p3 = p2\<lparr>p_Service := ss', p_Server := Some server2\<rparr>
                      in case started of
                           Panic m \<Rightarrow> (Panic m, p3)
                         | Ret _ \<Rightarrow> (Ret (), p3\<lparr>p_Running := True\<rparr>)))"

text \<open>\<open>Close\<close> panics on a panel that never had a core. The closed services are the second result.\<close>

definition panel_Close ::
    "('m, 'p, 'c, 'ic, 'oc, 'ih, 'oh) service_env \<Rightarrow> ('p, 'c, 'ih, 'oh) Panel \<Rightarrow>
     unit outcome \<times> 'p service list \<times> ('p, 'c, 'ih, 'oh) Panel" where
  "panel_Close env p =
     (let closed = map service_Close (p_Service p); p1 = p\<lparr>p_Service := []\<rparr> in
      case p_Server p1 of
        None \<Rightarrow> (Panic (go_error_text nil_deref), closed, p1)
      | Some server \<Rightarrow> (Ret (), closed, p1\<lparr>p_Server := Some (se_core_Close env server), p_Running := False\<rparr>))"

section \<open>The main program\<close>

text \<open>
  The handler of a change of the configuration file. \<open>now\<close> is the time of the event and \<open>later\<close> the time
  after the restart, in nanoseconds; \<open>unmarshal\<close> decodes the file into the old configuration.
\<close>

record ('p, 'c, 'ih, 'oh) program =
  pr_panel :: "('p, 'c, 'ih, 'oh) Panel"
  pr_lastTime :: int

definition on_config_change ::
    "('m, 'p, 'c, 'ic, 'oc, 'ih, 'oh) service_env \<Rightarrow> (panel_Config \<Rightarrow> panel_Config result) \<Rightarrow> int \<Rightarrow> int \<Rightarrow>
     ('p, 'c, 'ih, 'oh) program \<Rightarrow> unit outcome \<times> ('p, 'c, 'ih, 'oh) program" where
  "on_config_change env unmarshal now later st =
     (if pr_lastTime st + 3 * 10 ^ 9 < now then
        (case panel_Close env (pr_panel st) of
           (Panic m, _, p) \<Rightarrow> (Panic m, st\<lparr>pr_panel := p\<rparr>)
         | (Ret _, _, p) \<Rightarrow>
             (case unmarshal (p_panelConfig p) of
                Inl e \<Rightarrow> (Panic (''Parse config file failed: '' @ go_error_text e), st\<lparr>pr_panel := p\<rparr>)
              | Inr pc \<Rightarrow>
                  (case panel_Start env (p\<lparr>p_panelConfig := pc\<rparr>) of
                     (Panic m, p') \<Rightarrow> (Panic m, st\<lparr>pr_panel := p'\<rparr>)
                   | (Ret _, p') \<Rightarrow> (Ret (), \<lparr>pr_panel = p', pr_lastTime = later\<rparr>))))
      else (Ret (), st))"

text \<open>\<open>getConfig\<close>: the name, the type and the directory that viper gets for the flag \<open>-config\<close>.\<close>

definition config_location :: "string \<Rightarrow> string \<times> string \<times> string" where
  "config_location configFile =
     (if configFile \<noteq> '''' then
        (let configName = path_Base configFile; configFileExt = path_Ext configFile in
         (TrimSuffix configName configFileExt, TrimPrefix configFileExt ''.'', path_Dir configFile))
      else (''config'', ''yml'', ''.''))"

definition main_start ::
    "('m, 'p, 'c, 'ic, 'oc, 'ih, 'oh) service_env \<Rightarrow> panel_Config \<Rightarrow> int \<Rightarrow> unit outcome \<times> ('p, 'c, 'ih, 'oh) program" where
  "main_start env pc now =
     (let (out, p) = panel_Start env (panel_New pc) in (out, \<lparr>pr_panel = p, pr_lastTime = now\<rparr>))"

end
