(* ===== verification/Lost_Updates.thy ===== *)
theory Lost_Updates
  imports Node_Lifecycle V2board_Properties
begin

text \<open>
  Where the controller and the clients of the panel disagree on what has been applied. The
  client's "users no change" means that the list was delivered before; the controller takes it
  as applied. A round that could not apply a list is therefore never made up for.
\<close>

section \<open>Rounds without news\<close>

text \<open>A round in which the panel has the same node and no other user list than the controller.\<close>

inductive quiet_round ::
    "'c cache_iface \<Rightarrow> ('ic, 'oc, 'ih, 'oh) core_env \<Rightarrow> NodeInfo \<Rightarrow> ('p, 'c, 'ih, 'oh) node \<Rightarrow> ('p, 'c, 'ih, 'oh) node \<Rightarrow> bool"
  for iface :: "'c cache_iface" and ce :: "('ic, 'oc, 'ih, 'oh) core_env" and ni :: NodeInfo where
  quiet_unchanged: "api_GetNodeInfo api (nd_panel w) = (Inr ni, p1) \<Longrightarrow> api_GetUserList api p1 = (Inl users_no_change, p2) \<Longrightarrow>
    quiet_round iface ce ni w (nodeInfoMonitor iface ce api elapsed w)"
| quiet_same_list: "api_GetNodeInfo api (nd_panel w) = (Inr ni, p1) \<Longrightarrow> api_GetUserList api p1 = (Inr (users_of (nd_ctl w)), p2) \<Longrightarrow>
    distinct (map u_UID (users_of (nd_ctl w))) \<Longrightarrow>
    quiet_round iface ce ni w (nodeInfoMonitor iface ce api elapsed w)"

definition same_view :: "('p, 'c, 'ih, 'oh) node \<Rightarrow> ('p, 'c, 'ih, 'oh) node \<Rightarrow> bool" where
  "same_view w w' \<longleftrightarrow> node_flows w' = node_flows w \<and> c_nodeInfo (nd_ctl w') = c_nodeInfo (nd_ctl w)
     \<and> c_Tag (nd_ctl w') = c_Tag (nd_ctl w) \<and> users_of (nd_ctl w') = users_of (nd_ctl w)"

lemma checkRules_view [simp]:
  "node_flows (checkRules api tag w) = node_flows w" "nd_ctl (checkRules api tag w) = nd_ctl w" "nd_core (checkRules api tag w) = nd_core w"
  by (simp_all add: checkRules_def Let_def set_rules_def node_flows_def split: prod.split sum.split)

lemma compareUserList_same:
  assumes "distinct (map u_UID us)"
  shows "compareUserList us us = \<lparr>ud_deleted = [], ud_added = [], ud_limitUpdated = []\<rparr>"
proof -
  let ?d = "foldl (diff_step us) \<lparr>ud_deleted = [], ud_added = [], ud_limitUpdated = []\<rparr> us"
  have refl: "sameRuntimeUser x x" for x by (simp add: sameRuntimeUser_def)
  have uniq: "x = y" if "x \<in> set us" "y \<in> set us" "u_UID x = u_UID y" for x y
    using old_user_unique [OF assms] that by blast
  have same: "x = y" if "x \<in> set us" "y \<in> set us" "sameRuntimeUser x y" for x y
    using uniq [OF that(1,2)] sameRuntimeUser_uid [OF that(3)] by simp
  have no: "x \<notin> set (ud_added ?d)" "x \<notin> set (ud_limitUpdated ?d)" "x \<notin> set (ud_deleted ?d)" for x
    unfolding diff_loop [OF assms] using refl same uniq by (auto, metis)
  have "ud_added ?d = []" by (rule ccontr) (use no(1) list.set_sel(1) in blast)
  moreover have "ud_limitUpdated ?d = []" by (rule ccontr) (use no(2) list.set_sel(1) in blast)
  moreover have "ud_deleted ?d = []" by (rule ccontr) (use no(3) list.set_sel(1) in blast)
  ultimately have "?d = \<lparr>ud_deleted = [], ud_added = [], ud_limitUpdated = []\<rparr>" by (cases ?d) simp
  then show ?thesis by (simp add: compareUserList_def)
qed

lemma applyUserDiff_empty: "applyUserDiff ce ni tag \<lparr>ud_deleted = [], ud_added = [], ud_limitUpdated = []\<rparr> w = (True, w)"
  by (simp add: applyUserDiff_def)

lemma quiet_round_view:
  assumes "quiet_round iface ce ni w w'" and "c_nodeInfo (nd_ctl w) = Some ni"
  shows "same_view w w'"
  using assms
proof cases
  case (quiet_unchanged api p1 p2 elapsed)
  then show ?thesis using assms(2) by (simp add: same_view_def nodeInfoMonitor_def Let_def users_of_def)
next
  case (quiet_same_list api p1 p2 elapsed)
  then show ?thesis using assms(2) compareUserList_same [OF quiet_same_list(4)]
    by (simp add: same_view_def nodeInfoMonitor_def Let_def applyUserDiff_empty) (simp add: users_of_def)
qed

lemma quiet_rounds_view:
  assumes "(quiet_round iface ce ni)\<^sup>*\<^sup>* w w'" and "c_nodeInfo (nd_ctl w) = Some ni"
  shows "same_view w w'"
  using assms
proof (induction rule: rtranclp_induct)
  case (step v v')
  then have "same_view w v" by simp
  with step quiet_round_view [OF step(2)] show ?case by (simp add: same_view_def)
qed (simp add: same_view_def)

section \<open>A removal that failed\<close>

lemma register_current:
  assumes "node_inv w" and "u \<in> set us"
  shows "is_current (node_flows (registerManagedUsers tag us w)) tag (user_key tag u)"
  using assms(2) by (simp add: registerManagedUsers_def Let_def runtimeUserEmails_key flow_register_spec(5) [OF node_invD(1) [OF assms(1)]])

lemma managed_ctl [simp]:
  "c_nodeInfo (nd_ctl (retireManagedUsers tag us w)) = c_nodeInfo (nd_ctl w)" "c_Tag (nd_ctl (retireManagedUsers tag us w)) = c_Tag (nd_ctl w)"
  "c_userList (nd_ctl (retireManagedUsers tag us w)) = c_userList (nd_ctl w)" "nd_core (retireManagedUsers tag us w) = nd_core w"
  "c_nodeInfo (nd_ctl (registerManagedUsers tag us w)) = c_nodeInfo (nd_ctl w)" "c_Tag (nd_ctl (registerManagedUsers tag us w)) = c_Tag (nd_ctl w)"
  "c_userList (nd_ctl (registerManagedUsers tag us w)) = c_userList (nd_ctl w)"
  by (simp_all add: retireManagedUsers_def registerManagedUsers_def Let_def)

text \<open>
  C28. A user that could not be removed stays. When a round delivers a list without some user and
  the proxy refuses the removal, the round gives up and the controller keeps the old list; as
  long as the client then answers "users no change", which it does because the list has been
  delivered, the removal is never tried again: the deleted user stays admitted.
\<close>

theorem failed_removal_is_permanent:
  assumes "node_inv w" and "\<not> elapsed < cfg_UpdatePeriodic (c_config (nd_ctl w))" and "c_nodeInfo (nd_ctl w) = Some ni"
    and "api_GetNodeInfo api (nd_panel w) = (Inr ni, p1)" and "api_GetUserList api p1 = (Inr new, p2)"
    and "u \<in> set (ud_deleted (compareUserList (users_of (nd_ctl w)) new))"
    and "fst (removeUsers ce (map (buildUserTagWithTag (c_Tag (nd_ctl w))) (ud_deleted (compareUserList (users_of (nd_ctl w)) new)))
            (c_Tag (nd_ctl w)) (nd_core w)) \<noteq> None"
    and "(quiet_round iface ce ni)\<^sup>*\<^sup>* (nodeInfoMonitor iface ce api elapsed w) w'"
  shows "is_current (node_flows w') (c_Tag (nd_ctl w)) (user_key (c_Tag (nd_ctl w)) u) \<and> users_of (nd_ctl w') = users_of (nd_ctl w)"
proof -
  let ?tag = "c_Tag (nd_ctl w)" and ?del = "ud_deleted (compareUserList (users_of (nd_ctl w)) new)"
  let ?w3 = "checkRules api ?tag (w\<lparr>nd_panel := p1\<rparr>\<lparr>nd_panel := p2\<rparr>)"
  obtain err x where rm: "removeUsers ce (map (buildUserTagWithTag ?tag) ?del) ?tag (nd_core w) = (Some err, x)"
    using assms(7) by (metis option.exhaust prod.collapse)
  let ?w4 = "registerManagedUsers ?tag ?del (retireManagedUsers ?tag ?del ?w3\<lparr>nd_core := x\<rparr>)"
  have "?del \<noteq> []" using assms(6) by auto
  then have ap: "applyUserDiff ce ni ?tag (compareUserList (users_of (nd_ctl w)) new) ?w3 = (False, ?w4)"
    using rm by (simp add: applyUserDiff_def Let_def restoreManagedUsers_def)
  have w1: "nodeInfoMonitor iface ce api elapsed w = ?w4"
    using assms(2-5) ap by (simp add: nodeInfoMonitor_def Let_def)
  have ni: "c_nodeInfo (nd_ctl ?w4) = Some ni" using assms(3) by simp
  have "node_inv (retireManagedUsers ?tag ?del ?w3\<lparr>nd_core := x\<rparr>)"
    using assms(1) by (simp add: retireManagedUsers_inv checkRules_inv)
  from register_current [OF this assms(6)] have "is_current (node_flows ?w4) ?tag (user_key ?tag u)" .
  moreover have "users_of (nd_ctl ?w4) = users_of (nd_ctl w)" by (simp add: users_of_def)
  ultimately show ?thesis using quiet_rounds_view [OF assms(8) [unfolded w1] ni] by (simp add: same_view_def)
qed

section \<open>Users that could not be added\<close>

lemma addNewUser_failed:
  assumes "node_inv w" and "fst (addNewUser ce us ni tag w) \<noteq> None" and "u \<in> set us" and "\<not> is_current (node_flows w) tag (user_key tag u)"
  shows "\<not> is_current (node_flows (snd (addNewUser ce us ni tag w))) tag (user_key tag u)"
proof (cases "buildUsers (be_ss2022 (ce_builder ce)) (c_panelType (nd_ctl w)) us ni tag")
  case (Inl e)
  then show ?thesis using assms(4) by (simp add: addNewUser_def)
next
  case (Inr ps)
  obtain err x where add: "addUsers ce ps tag (nd_core w) = (err, x)" by fastforce
  have "err \<noteq> None" using assms(2) Inr add by (auto simp: addNewUser_def Let_def split: option.splits)
  then have "snd (addNewUser ce us ni tag w) = retireManagedUsers tag us (registerManagedUsers tag us w\<lparr>nd_core := x\<rparr>)"
    using Inr add by (auto simp: addNewUser_def Let_def split: option.splits)
  moreover have "node_inv (registerManagedUsers tag us w\<lparr>nd_core := x\<rparr>)" using registerManagedUsers_inv [OF assms(1)] by simp
  from retire_views(2) [OF this assms(3)] have
    "\<not> is_current (node_flows (retireManagedUsers tag us (registerManagedUsers tag us w\<lparr>nd_core := x\<rparr>))) tag (user_key tag u)" .
  ultimately show ?thesis by metis
qed

text \<open>
  C29. Users that could not be added are taken for admitted. When a round finds new users and the
  proxy refuses one of them, all of them are retired, and yet the controller records the new
  list as its own; later rounds see no difference to the panel any more, so none of these users
  is ever admitted, until the panel changes them.
\<close>

theorem failed_addition_is_permanent:
  fixes w :: "('p, 'c, 'ih, 'oh) node" and new :: "UserInfo list" and p2 :: 'p and api :: "'p API"
  assumes added: "added = ud_added (compareUserList (users_of (nd_ctl w)) new)" and tag: "tag = c_Tag (nd_ctl w)"
    and "node_inv w" and "\<not> elapsed < cfg_UpdatePeriodic (c_config (nd_ctl w))" and "c_nodeInfo (nd_ctl w) = Some ni"
    and "api_GetNodeInfo api (nd_panel w) = (Inr ni, p1)" and "api_GetUserList api p1 = (Inr new, p2)"
    and "ud_deleted (compareUserList (users_of (nd_ctl w)) new) = []"
    and "u \<in> set added" and "\<not> is_current (node_flows w) tag (user_key tag u)"
    and "fst (addNewUser ce added ni tag (checkRules api tag (w\<lparr>nd_panel := p2\<rparr>))) \<noteq> None"
    and "(quiet_round iface ce ni)\<^sup>*\<^sup>* (nodeInfoMonitor iface ce api elapsed w) w'"
  shows "\<not> is_current (node_flows w') tag (user_key tag u) \<and> users_of (nd_ctl w') = new"
proof -
  let ?w3 = "checkRules api tag (w\<lparr>nd_panel := p2\<rparr>)" and ?w4 = "snd (addNewUser ce added ni tag (checkRules api tag (w\<lparr>nd_panel := p2\<rparr>)))"
  have ne: "added \<noteq> []" using assms(9) by auto
  obtain l where ap: "applyUserDiff ce ni tag (compareUserList (users_of (nd_ctl w)) new) ?w3 = (True, set_limiter l ?w4)"
    using assms(8) ne by (auto simp: applyUserDiff_def Let_def added [symmetric])
  have w1: "nodeInfoMonitor iface ce api elapsed w = set_ctl (\<lambda>c. c\<lparr>c_userList := Some new\<rparr>) (set_limiter l ?w4)"
    using assms(4-7) ap by (simp add: nodeInfoMonitor_def Let_def tag [symmetric])
  have "c_nodeInfo (nd_ctl ?w4) = Some ni"
    using assms(5) by (auto simp: addNewUser_def Let_def split: sum.split prod.split option.split)
  then have ni: "c_nodeInfo (nd_ctl (nodeInfoMonitor iface ce api elapsed w)) = Some ni" unfolding w1 by simp
  have "node_inv ?w3" using assms(3) by (simp add: checkRules_inv)
  from addNewUser_failed [OF this assms(11,9)] assms(10)
  have "\<not> is_current (node_flows (nodeInfoMonitor iface ce api elapsed w)) tag (user_key tag u)" unfolding w1 by simp
  with quiet_rounds_view [OF assms(12) ni] show ?thesis unfolding w1 by (simp add: same_view_def users_of_def)
qed

section \<open>Examples\<close>

text \<open>A node with one user whose inbound is missing, so the proxy refuses every change.\<close>

definition example_broken :: "(UserTraffic list list, unit, string \<times> string list, string) node" where
  "example_broken = example_node\<lparr>nd_ctl := example_controller\<lparr>c_nodeInfo := Some (example_info ''Trojan''), c_Tag := ''in'',
     c_userList := Some [zero_UserInfo]\<rparr>\<rparr>"

definition list_api :: "UserInfo list \<Rightarrow> UserTraffic list list API" where
  "list_api us = (example_api ''Trojan'')\<lparr>api_GetUserList := (\<lambda>p. (Inr us, p))\<rparr>"

lemma example_broken_inv: "node_inv example_broken"
  by (intro node_inv_fresh) (use example_fresh in \<open>simp add: example_broken_def fresh_node_def example_node_def example_controller_def node_flows_def node_stats_def\<close>)

lemma example_broken_simps:
  "c_config (nd_ctl example_broken) = example_config" "c_Tag (nd_ctl example_broken) = ''in''"
  "c_nodeInfo (nd_ctl example_broken) = Some (example_info ''Trojan'')" "users_of (nd_ctl example_broken) = [zero_UserInfo]"
  "nd_core example_broken = \<lparr>xs_inbounds = [], xs_outbounds = [], xs_defaultOutbound = None\<rparr>" "nd_panel example_broken = []"
  by (simp_all add: example_broken_def example_controller_def users_of_def example_node_def)

lemma list_api_simps:
  "api_GetNodeInfo (list_api us) p = (Inr (example_info ''Trojan''), p)" "api_GetUserList (list_api us) p = (Inr us, p)"
  by (simp_all add: list_api_def example_api_def)

lemma example_due: "\<not> 60 < cfg_UpdatePeriodic (c_config (nd_ctl example_broken))"
  by (simp add: example_broken_simps example_config_def)

theorem failed_removal_is_permanent_witness:
  "is_current (node_flows (nodeInfoMonitor no_cache example_core (list_api []) 60 example_broken)) ''in'' (user_key ''in'' zero_UserInfo)"
proof -
  have diff: "ud_deleted (compareUserList [zero_UserInfo] []) = [zero_UserInfo]" by (simp add: compareUserList_def)
  have rm: "fst (removeUsers example_core us ''in'' (nd_core example_broken)) \<noteq> None" for us
    by (simp add: removeUsers_missing example_broken_simps)
  show ?thesis
    using failed_removal_is_permanent [OF example_broken_inv example_due example_broken_simps(3) list_api_simps(1)
        list_api_simps(2) [of "[]"] _ _ rtranclp.rtrancl_refl, of zero_UserInfo example_core no_cache] diff rm
    by (simp add: example_broken_simps)
qed

abbreviation example_second :: UserInfo where
  "example_second \<equiv> zero_UserInfo\<lparr>u_UID := 1\<rparr>"

theorem failed_addition_is_permanent_witness:
  "users_of (nd_ctl (nodeInfoMonitor no_cache example_core (list_api [zero_UserInfo, example_second]) 60 example_broken)) =
     [zero_UserInfo, example_second]
   \<and> \<not> is_current (node_flows (nodeInfoMonitor no_cache example_core (list_api [zero_UserInfo, example_second]) 60 example_broken))
        ''in'' (user_key ''in'' example_second)"
proof -
  let ?us = "[zero_UserInfo, example_second]" and ?d = "compareUserList [zero_UserInfo] [zero_UserInfo, example_second]"
  have oi: "oldIndex [zero_UserInfo] i = (if i = 0 then Some 0 else None)" for i
    by (simp add: oldIndex_def zero_UserInfo_def)
  have d: "ud_deleted ?d = []" "ud_added ?d = [example_second]"
    by (simp_all add: compareUserList_def diff_step_def oi Let_def sameRuntimeUser_def) (simp_all add: zero_UserInfo_def)
  have cur: "\<not> is_current (node_flows example_broken) ''in'' e" for e
    by (simp add: example_broken_def example_node_def node_flows_def is_current_def empty_registry_def)
  have add: "fst (addNewUser example_core [example_second] (example_info ''Trojan'') ''in''
      (checkRules (list_api ?us) ''in'' (example_broken\<lparr>nd_panel := p\<rparr>))) \<noteq> None" for p
    by (simp add: addNewUser_def buildUsers_def example_info_def addUsers_missing example_broken_simps registerManagedUsers_def Let_def)
  show ?thesis
    using failed_addition_is_permanent [OF refl refl example_broken_inv example_due example_broken_simps(3) list_api_simps(1)
        list_api_simps(2) [of ?us] _ _ _ _ rtranclp.rtrancl_refl, of example_second example_core no_cache] d cur add
    by (simp add: example_broken_simps)
qed

end
