(* ===== verification/Panel_Properties.thy ===== *)
theory Panel_Properties
  imports Panel Lost_Updates
begin

text \<open>
  The panel service over the life of the process: the loop of \<open>Start\<close> is proved once for any service
  that meets the contract of the interface, and the contract is discharged for the controller. In
  every state of a process that did not panic the services are those of the configuration in force.
\<close>

section \<open>The contract of a service\<close>

locale service_interface =
  fixes start :: "'s \<Rightarrow> 'k \<Rightarrow> report_outcome \<times> 's \<times> 'k"
    and ident :: "'s \<Rightarrow> 'i"
    and started :: "'s \<Rightarrow> bool"
  assumes start_started: "start s k = (Returned None, s', k') \<Longrightarrow> started s'"
    and start_ident: "start s k = (out, s', k') \<Longrightarrow> ident s' = ident s"
begin

lemma all_started:
  "start_services start ss k = (Ret u, ss', k') \<Longrightarrow> (\<forall>s\<in>set ss'. started s) \<and> map ident ss' = map ident ss"
proof (induction ss arbitrary: k ss')
  case (Cons s ss)
  obtain out s1 k1 where s: "start s k = (out, s1, k1)" by (metis surj_pair)
  with Cons.prems have out: "out = Returned None"
    by (auto split: report_outcome.splits option.splits)
  obtain r ss1 k2 where rest: "start_services start ss k1 = (r, ss1, k2)" by (metis surj_pair)
  with Cons.prems s out have "r = Ret u" "ss' = s1 # ss1" by simp_all
  with Cons.IH [of k1 ss1] rest s out Cons.prems start_started start_ident show ?case by fastforce
qed simp

text \<open>A service that does not start keeps all later ones from starting.\<close>

lemma first_failure:
  assumes "start_services start ss k = (Panic m, ss', k')"
  obtains pre s post pre' s' where "ss = pre @ s # post" and "ss' = pre' @ s' # post"
    and "\<forall>s\<in>set pre'. started s" and "length pre' = length pre"
proof -
  have "\<exists>pre s post pre' s'. ss = pre @ s # post \<and> ss' = pre' @ s' # post \<and> (\<forall>s\<in>set pre'. started s) \<and> length pre' = length pre"
    using assms
  proof (induction ss arbitrary: k ss')
    case (Cons s ss)
    obtain out s1 k1 where s: "start s k = (out, s1, k1)" by (metis surj_pair)
    show ?case
    proof (cases "out = Returned None")
      case True
      obtain r ss1 k2 where rest: "start_services start ss k1 = (r, ss1, k2)" by (metis surj_pair)
      with Cons.prems s True have r: "r = Panic m" "ss' = s1 # ss1" "k2 = k'" by simp_all
      with Cons.IH [of k1 ss1] rest obtain pre t post pre' t' where "ss = pre @ t # post" "ss1 = pre' @ t' # post"
        "\<forall>s\<in>set pre'. started s" "length pre' = length pre" by blast
      with r s True start_started have "s # ss = (s # pre) @ t # post" "ss' = (s1 # pre') @ t' # post"
        "\<forall>s\<in>set (s1 # pre'). started s" "length (s1 # pre') = length (s # pre)" by auto
      then show ?thesis by blast
    next
      case False
      with Cons.prems s have "ss' = s1 # ss" by (auto split: report_outcome.splits option.splits)
      then have "s # ss = [] @ s # ss \<and> ss' = [] @ s1 # ss" by simp
      then show ?thesis by (metis empty_iff list.set(1))
    qed
  qed simp
  with that show thesis by blast
qed

end

section \<open>What the operations of a controller leave alone\<close>

definition ctl_ident :: "Controller \<Rightarrow> string \<times> bool \<times> (string \<times> int) list" where
  "ctl_ident c = (c_panelType c, c_monitorClosed c, c_tasks c)"

lemma ctl_ident_managed [simp]:
  "ctl_ident (nd_ctl (retireManagedUsers tag us w)) = ctl_ident (nd_ctl w)"
  "ctl_ident (nd_ctl (registerManagedUsers tag us w)) = ctl_ident (nd_ctl w)"
  "ctl_ident (nd_ctl (restoreManagedUsers tag us w)) = ctl_ident (nd_ctl w)"
  by (simp_all add: retireManagedUsers_def registerManagedUsers_def restoreManagedUsers_def Let_def ctl_ident_def)

lemma nodeInfo_managed [simp]:
  "c_nodeInfo (nd_ctl (restoreManagedUsers tag us w)) = c_nodeInfo (nd_ctl w)"
  by (simp add: restoreManagedUsers_def)

lemma addNewUser_ctl:
  assumes "addNewUser ce us ni tag w = (err, w')"
  shows "ctl_ident (nd_ctl w') = ctl_ident (nd_ctl w) \<and> c_nodeInfo (nd_ctl w') = c_nodeInfo (nd_ctl w)
    \<and> c_userList (nd_ctl w') = c_userList (nd_ctl w)"
  using assms by (auto simp: addNewUser_def Let_def split: sum.splits prod.splits option.splits)

lemma switchTag_ctl:
  assumes "switchTag ce oni otag ous ni w = (t, w')"
  shows "ctl_ident (nd_ctl w') = ctl_ident (nd_ctl w) \<and> c_nodeInfo (nd_ctl w') = c_nodeInfo (nd_ctl w)"
  using assms by (auto simp: switchTag_def Let_def split: prod.splits if_splits)

lemma applyUserDiff_ctl:
  assumes "applyUserDiff ce oni tag d w = (b, w')"
  shows "ctl_ident (nd_ctl w') = ctl_ident (nd_ctl w) \<and> c_nodeInfo (nd_ctl w') = c_nodeInfo (nd_ctl w)"
proof -
  have add: "ctl_ident (nd_ctl (snd (addNewUser ce us ni tag v))) = ctl_ident (nd_ctl v)"
    "c_nodeInfo (nd_ctl (snd (addNewUser ce us ni tag v))) = c_nodeInfo (nd_ctl v)" for us ni tag and v :: "('a, 'b, 'c, 'd) node"
    using addNewUser_ctl [of ce us ni tag v] by (cases "addNewUser ce us ni tag v", simp)+
  show ?thesis
    using assms by (auto simp: applyUserDiff_def Let_def add split: prod.splits if_splits)
qed

lemma ctl_ident_update [simp]:
  "ctl_ident (c\<lparr>c_nodeInfo := i\<rparr>) = ctl_ident c" "ctl_ident (c\<lparr>c_Tag := t\<rparr>) = ctl_ident c"
  "ctl_ident (c\<lparr>c_userList := l\<rparr>) = ctl_ident c" "ctl_ident (c\<lparr>c_retiringUsers := m\<rparr>) = ctl_ident c"
  "ctl_ident (c\<lparr>c_limitedUsers := lu\<rparr>) = ctl_ident c" "ctl_ident (c\<lparr>c_warnedUsers := wu\<rparr>) = ctl_ident c"
  "ctl_ident (c\<lparr>c_config := cf\<rparr>) = ctl_ident c"
  by (simp_all add: ctl_ident_def)

definition ctl_kept :: "Controller \<Rightarrow> Controller \<Rightarrow> bool" where
  "ctl_kept c c' \<longleftrightarrow> ctl_ident c' = ctl_ident c \<and> (c_nodeInfo c \<noteq> None \<longrightarrow> c_nodeInfo c' \<noteq> None)"

lemma nodeInfoMonitor_ctl: "ctl_kept (nd_ctl w) (nd_ctl (nodeInfoMonitor iface ce api elapsed w))"
  unfolding nodeInfoMonitor_def Let_def ctl_kept_def
  by (auto split: option.splits prod.splits sum.splits if_splits go_error.splits
      dest!: switchTag_ctl addNewUser_ctl applyUserDiff_ctl)

lemma trafficUser_ident: "ctl_ident (tr_ctl (trafficUser now tag s u)) = ctl_ident (tr_ctl s)"
  by (auto simp: trafficUser_def watchUser_def limitUser_def Let_def split: prod.splits option.splits)

lemma foldl_trafficUser_ident: "ctl_ident (tr_ctl (foldl (trafficUser now tag) s us)) = ctl_ident (tr_ctl s)"
  by (induction us arbitrary: s) (simp_all add: trafficUser_ident)

lemma finalize_ctl:
  "ctl_ident (nd_ctl (finalizeRetiringUsers us w)) = ctl_ident (nd_ctl w) \<and>
   c_nodeInfo (nd_ctl (finalizeRetiringUsers us w)) = c_nodeInfo (nd_ctl w)"
  by (induction us w rule: finalizeRetiringUsers.induct) (auto simp: Let_def split: prod.splits option.splits if_splits)

lemma releaseLimitedUsers_ctl:
  "ctl_ident (nd_ctl (releaseLimitedUsers now tag w)) = ctl_ident (nd_ctl w)"
  by (auto simp: releaseLimitedUsers_def Let_def split: prod.splits dest!: release_loop_ctl)

lemma settleTraffic_ctl:
  "ctl_ident (nd_ctl (settleTraffic api now tag us rs w)) = ctl_ident (nd_ctl w) \<and>
   c_nodeInfo (nd_ctl (settleTraffic api now tag us rs w)) = c_nodeInfo (nd_ctl w)"
  by (auto simp: settleTraffic_def Let_def finalize_ctl foldl_trafficUser_ident foldl_trafficUser_ctl split: prod.splits if_splits)

lemma userInfoMonitor_ctl: "ctl_kept (nd_ctl w) (nd_ctl (userInfoMonitor api elapsed now w))"
  by (simp add: userInfoMonitor_def Let_def ctl_kept_def reports_views settleTraffic_ctl releaseLimitedUsers_ctl
      releaseLimitedUsers_views split: prod.splits)

lemma node_step_ctl: "node_step iface ce ForLevel w w' \<Longrightarrow> ctl_kept (nd_ctl w) (nd_ctl w')"
  by (erule node_stepE) (simp_all add: nodeInfoMonitor_ctl userInfoMonitor_ctl, simp_all add: ctl_kept_def)

lemma ctl_Start_ctl:
  assumes "ctl_Start iface ce api w = (out, w')"
  shows "c_panelType (nd_ctl w') = c_panelType (nd_ctl w)"
    and "out = Returned None \<Longrightarrow> c_nodeInfo (nd_ctl w') \<noteq> None \<and> \<not> c_monitorClosed (nd_ctl w') \<and> c_tasks (nd_ctl w') \<noteq> []"
proof -
  have ident: "c_panelType c = fst (ctl_ident c)" for c by (simp add: ctl_ident_def)
  show "c_panelType (nd_ctl w') = c_panelType (nd_ctl w)"
    using assms unfolding ident
    by (auto simp: ctl_Start_def Let_def ctl_ident_def split: sum.splits prod.splits if_splits dest!: addNewUser_ctl)
  assume "out = Returned None"
  with assms show "c_nodeInfo (nd_ctl w') \<noteq> None \<and> \<not> c_monitorClosed (nd_ctl w') \<and> c_tasks (nd_ctl w') \<noteq> []"
    by (auto simp: ctl_Start_def Let_def add_tasks_def split: sum.splits prod.splits if_splits dest!: addNewUser_ctl)
qed

section \<open>The controllers meet the contract\<close>

definition service_running :: "'p service \<Rightarrow> bool" where
  "service_running s \<longleftrightarrow> c_nodeInfo (sv_ctl s) \<noteq> None \<and> \<not> c_monitorClosed (sv_ctl s) \<and> c_tasks (sv_ctl s) \<noteq> []"

definition service_type :: "'p service \<Rightarrow> string" where
  "service_type s = c_panelType (sv_ctl s)"

interpretation controllers: service_interface "service_Start env" service_type service_running
  for env :: "('m, 'p, 'c, 'ic, 'oc, 'ih, 'oh) service_env"
  by unfold_locales
    (auto simp: service_Start_def service_running_def service_type_def split: prod.splits dest: ctl_Start_ctl)

lemma node_service_type: "node_service env nc = Ret s \<Longrightarrow> service_type s = nc_PanelType nc"
  by (auto simp: node_service_def then_do_def controller_New_def service_type_def split: outcome.splits)

lemma create_services_Ret:
  "create_services env ncs ss = (Ret u, ss') \<Longrightarrow> map service_type ss' = map service_type ss @ map nc_PanelType ncs"
  by (induction ncs arbitrary: ss) (auto simp: node_service_type split: outcome.splits)

lemma panel_Start_Ret:
  assumes "panel_Start env p = (Ret u, p')" and "p_Service p = []"
  shows "p_Running p' \<and> p_Server p' \<noteq> None \<and> p_panelConfig p' = p_panelConfig p \<and>
    map service_type (p_Service p') = map nc_PanelType (pc_NodesConfig (p_panelConfig p)) \<and>
    (\<forall>s\<in>set (p_Service p'). service_running s)"
proof -
  obtain server server1 ss ss' server2 where c: "create_services env (pc_NodesConfig (p_panelConfig p)) [] = (Ret (), ss)"
    and s: "start_services (service_Start env) ss server1 = (Ret (), ss', server2)"
    and p': "p' = p\<lparr>p_Service := ss', p_Server := Some server2, p_Running := True\<rparr>"
    using assms by (auto simp: panel_Start_def Let_def split: outcome.splits prod.splits option.splits)
  show ?thesis
    using create_services_Ret [OF c] controllers.all_started [OF s] p' by simp
qed

lemma panel_Close_services:
  assumes "p_Server p \<noteq> None"
  obtains closed p' where "panel_Close env p = (Ret (), closed, p')" and "p_Service p' = []" and "p_panelConfig p' = p_panelConfig p"
    and "length closed = length (p_Service p)" and "\<forall>s\<in>set closed. c_monitorClosed (sv_ctl s)"
  using assms by (auto simp: panel_Close_def service_Close_def Let_def)

section \<open>The life of the process\<close>

text \<open>A round, a connection or traffic of one of the nodes.\<close>

definition service_node :: "'p service \<Rightarrow> ('c, 'ih, 'oh) core_instance \<Rightarrow> ('p, 'c, 'ih, 'oh) node" where
  "service_node s k = \<lparr>nd_panel = sv_panel s, nd_disp = ki_disp k, nd_core = ki_core k, nd_ctl = sv_ctl s\<rparr>"

inductive panel_step ::
    "('m, 'p, 'c, 'ic, 'oc, 'ih, 'oh) service_env \<Rightarrow> (uint32 \<Rightarrow> policy_stats) \<Rightarrow>
     ('p, 'c, 'ih, 'oh) Panel \<Rightarrow> ('p, 'c, 'ih, 'oh) Panel \<Rightarrow> bool"
  for env :: "('m, 'p, 'c, 'ic, 'oc, 'ih, 'oh) service_env" and ForLevel :: "uint32 \<Rightarrow> policy_stats" where
  node_runs: "panel_step env ForLevel p
      (p\<lparr>p_Service := (p_Service p)[i := s\<lparr>sv_panel := nd_panel w, sv_ctl := nd_ctl w\<rparr>],
         p_Server := Some (k\<lparr>ki_disp := nd_disp w, ki_core := nd_core w\<rparr>)\<rparr>)"
  if "i < length (p_Service p)" and "s = p_Service p ! i" and "p_Server p = Some k"
    and "node_step (se_iface env) (se_ce env) ForLevel (service_node s k) w"

inductive program_reach ::
    "('m, 'p, 'c, 'ic, 'oc, 'ih, 'oh) service_env \<Rightarrow> (uint32 \<Rightarrow> policy_stats) \<Rightarrow> ('p, 'c, 'ih, 'oh) program \<Rightarrow> bool"
  for env :: "('m, 'p, 'c, 'ic, 'oc, 'ih, 'oh) service_env" and ForLevel :: "uint32 \<Rightarrow> policy_stats" where
  program_started: "main_start env pc now = (Ret (), st) \<Longrightarrow> program_reach env ForLevel st"
| program_runs: "program_reach env ForLevel st \<Longrightarrow> panel_step env ForLevel (pr_panel st) p' \<Longrightarrow>
    program_reach env ForLevel (st\<lparr>pr_panel := p'\<rparr>)"
| program_reloads: "program_reach env ForLevel st \<Longrightarrow> on_config_change env unmarshal now later st = (Ret (), st') \<Longrightarrow>
    program_reach env ForLevel st'"

inductive_cases panel_stepE: "panel_step env ForLevel p p'"

definition panel_inv :: "('p, 'c, 'ih, 'oh) Panel \<Rightarrow> bool" where
  "panel_inv p \<longleftrightarrow> p_Running p \<and> p_Server p \<noteq> None \<and>
     map service_type (p_Service p) = map nc_PanelType (pc_NodesConfig (p_panelConfig p)) \<and>
     (\<forall>s\<in>set (p_Service p). service_running s)"

lemma panel_inv_Start: "panel_Start env p = (Ret u, p') \<Longrightarrow> p_Service p = [] \<Longrightarrow> panel_inv p'"
  using panel_Start_Ret [of env p u p'] by (simp add: panel_inv_def)

lemma panel_inv_step:
  assumes "panel_step env ForLevel p p'" and "panel_inv p"
  shows "panel_inv p'"
proof -
  obtain i k w where 1: "i < length (p_Service p)" "p_Server p = Some k"
    "node_step (se_iface env) (se_ce env) ForLevel (service_node (p_Service p ! i) k) w"
    "p' = p\<lparr>p_Service := (p_Service p)[i := (p_Service p ! i)\<lparr>sv_panel := nd_panel w, sv_ctl := nd_ctl w\<rparr>],
           p_Server := Some (k\<lparr>ki_disp := nd_disp w, ki_core := nd_core w\<rparr>)\<rparr>"
    using assms(1) by (auto elim: panel_stepE)
  let ?s = "p_Service p ! i"
  let ?s' = "?s\<lparr>sv_panel := nd_panel w, sv_ctl := nd_ctl w\<rparr>"
  have kept: "ctl_kept (sv_ctl ?s) (nd_ctl w)"
    using node_step_ctl [OF 1(3)] by (simp add: service_node_def)
  have s: "?s \<in> set (p_Service p)" using 1 by simp
  have run: "service_running ?s'"
    using kept assms(2) s by (auto simp: panel_inv_def service_running_def ctl_kept_def ctl_ident_def)
  have "service_type ?s' = service_type ?s"
    using kept by (simp add: service_type_def ctl_kept_def ctl_ident_def)
  then have "map service_type ((p_Service p)[i := ?s']) = map service_type (p_Service p)"
    using 1 by (simp add: map_update list_update_same_conv)
  with 1 run assms(2) show ?thesis
    by (auto simp: panel_inv_def dest: set_update_subset_insert [THEN subsetD])
qed

lemma panel_inv_reload:
  assumes "on_config_change env unmarshal now later st = (Ret (), st')" and "panel_inv (pr_panel st)"
  shows "panel_inv (pr_panel st')"
proof (cases "pr_lastTime st + 3 * 10 ^ 9 < now")
  case True
  obtain closed p where close: "panel_Close env (pr_panel st) = (Ret (), closed, p)" "p_Service p = []"
    using panel_Close_services assms(2) unfolding panel_inv_def by metis
  with assms(1) True obtain pc p' where "panel_Start env (p\<lparr>p_panelConfig := pc\<rparr>) = (Ret (), p')" "st' = \<lparr>pr_panel = p', pr_lastTime = later\<rparr>"
    by (auto simp: on_config_change_def split: sum.splits prod.splits outcome.splits)
  with close(2) panel_inv_Start [of env "p\<lparr>p_panelConfig := pc\<rparr>" "()" p'] show ?thesis by simp
qed (use assms in \<open>simp add: on_config_change_def\<close>)

lemma program_inv: "program_reach env ForLevel st \<Longrightarrow> panel_inv (pr_panel st)"
proof (induction rule: program_reach.induct)
  case (program_started pc now st)
  obtain out p where p: "panel_Start env (panel_New pc) = (out, p)" by (metis surj_pair)
  with program_started have "out = Ret ()" "pr_panel st = p" by (auto simp: main_start_def)
  with p panel_inv_Start [of env "panel_New pc" "()" p] show ?case by (simp add: panel_New_def)
next
  case (program_runs st p')
  then show ?case by (simp add: panel_inv_step)
next
  case (program_reloads st unmarshal now later st')
  then show ?case using panel_inv_reload by blast
qed


section \<open>Several controllers on one dispatcher\<close>

text \<open>
  Every controller keeps its own list of retiring users, and all of them share the flow registry.
  The keys that the other controllers of the list keep:
\<close>

definition others :: "'p service list \<Rightarrow> nat \<Rightarrow> (string \<times> string) set" where
  "others ss i = {key. \<exists>j<length ss. j \<noteq> i \<and> load (c_retiringUsers (sv_ctl (ss ! j))) key \<noteq> None}"

definition nodes_inv :: "'p service list \<Rightarrow> ('c, 'ih, 'oh) core_instance \<Rightarrow> bool" where
  "nodes_inv ss k \<longleftrightarrow> (\<forall>i<length ss. node_inv_upto (others ss i) (service_node (ss ! i) k))"

lemma service_node_views [simp]:
  "nd_ctl (service_node s k) = sv_ctl s" "nd_disp (service_node s k) = ki_disp k"
  "service_node (s\<lparr>sv_panel := nd_panel w, sv_ctl := nd_ctl w\<rparr>) (k\<lparr>ki_disp := nd_disp w, ki_core := nd_core w\<rparr>) = w"
  by (simp_all add: service_node_def)

lemma others_update: "others (ss[i := s]) i = others ss i"
  by (auto simp: others_def nth_list_update)

lemma nodes_inv_update:
  assumes inv: "nodes_inv ss k" and i: "i < length ss" and w: "node_inv_upto (others ss i) w"
  shows "nodes_inv (ss[i := (ss ! i)\<lparr>sv_panel := nd_panel w, sv_ctl := nd_ctl w\<rparr>]) (k\<lparr>ki_disp := nd_disp w, ki_core := nd_core w\<rparr>)"
    (is "nodes_inv ?ss ?k")
  unfolding nodes_inv_def
proof (intro allI impI)
  fix j assume j: "j < length ?ss"
  show "node_inv_upto (others ?ss j) (service_node (?ss ! j) ?k)"
  proof (cases "j = i")
    case True
    with i w show ?thesis by (simp add: others_update)
  next
    case False
    have nth: "?ss ! j = ss ! j" using False by simp
    have flows: "node_flows (service_node (ss ! j) ?k) = node_flows w" "node_stats (service_node (ss ! j) ?k) = node_stats w"
      by (simp_all add: node_flows_def node_stats_def)
    have old: "node_inv_upto (others ss j) (service_node (ss ! j) k)"
      using inv j unfolding nodes_inv_def by simp
    have kept: "load (c_retiringUsers (sv_ctl (ss ! j))) (t, e) \<noteq> None"
      if "runtime_of (node_flows w) t e \<noteq> None" "\<not> is_current (node_flows w) t e" "(t, e) \<notin> others ?ss j" for t e
    proof -
      have "load (c_retiringUsers (nd_ctl w)) (t, e) = None"
        using that(3) False i unfolding others_def by force
      with node_invD(3) [OF w that(1,2)] have "(t, e) \<in> others ss i" by blast
      then obtain l where l: "l < length ss" "l \<noteq> i" "load (c_retiringUsers (sv_ctl (ss ! l))) (t, e) \<noteq> None"
        unfolding others_def by blast
      with that(3) have "l = j" unfolding others_def by force
      with l show ?thesis by simp
    qed
    show ?thesis
      unfolding nth node_inv_upto_def flows tracked_def service_node_views
      using kept node_invD(1,2) [OF w] node_invD(4,5) [OF old] by simp
  qed
qed

lemma nodes_inv_start:
  assumes "start_services (service_Start env) ss k = (out, ss', k')" and "nodes_inv (pre @ ss) k"
  shows "nodes_inv (pre @ ss') k'"
  using assms
proof (induction ss arbitrary: pre k ss')
  case (Cons s ss)
  obtain r w where start: "ctl_Start (se_iface env) (se_ce env) (sv_api s) (service_node s k) = (r, w)" by (metis surj_pair)
  let ?s = "s\<lparr>sv_panel := nd_panel w, sv_ctl := nd_ctl w\<rparr>" and ?k = "k\<lparr>ki_disp := nd_disp w, ki_core := nd_core w\<rparr>"
  have one: "service_Start env s k = (r, ?s, ?k)"
    using start by (simp add: service_Start_def service_node_def)
  have "node_inv_upto (others (pre @ s # ss) (length pre)) w"
    using Cons.prems(2) ctl_Start_inv [of _ "service_node s k" "se_iface env" "se_ce env" "sv_api s"] start
    unfolding nodes_inv_def by (auto dest!: spec [of _ "length pre"])
  from nodes_inv_update [OF Cons.prems(2) _ this] have step: "nodes_inv (pre @ ?s # ss) ?k"
    by simp
  show ?case
  proof (cases "r = Returned None")
    case True
    obtain o2 ss2 k2 where rest: "start_services (service_Start env) ss ?k = (o2, ss2, k2)" by (metis surj_pair)
    with Cons.prems(1) one True have "ss' = ?s # ss2" "k' = k2" "out = o2" by simp_all
    with Cons.IH [of ?k ss2 "pre @ [?s]"] rest step show ?thesis by simp
  next
    case False
    with Cons.prems(1) one have "ss' = ?s # ss" "k' = ?k" by (auto split: report_outcome.splits option.splits)
    with step show ?thesis by simp
  qed
qed simp

text \<open>The core that \<open>core.New\<close> builds has a dispatcher after \<open>Init\<close>, with a statistics manager of its own.\<close>

definition builds_fresh :: "('m, 'p, 'c, 'ic, 'oc, 'ih, 'oh) service_env \<Rightarrow> bool" where
  "builds_fresh env \<longleftrightarrow> (\<forall>cfg k k'. se_core_New env cfg = Inr k \<and> se_core_Start env k = (None, k') \<longrightarrow>
     (\<exists>metrics. ki_disp k' = dispatcher_Init metrics NewManager))"

lemma nodes_inv_fresh:
  assumes "ki_disp k = dispatcher_Init metrics NewManager" and "\<forall>s\<in>set ss. c_retiringUsers (sv_ctl s) = []"
  shows "nodes_inv ss k"
  unfolding nodes_inv_def
proof (intro allI impI)
  fix i assume "i < length ss"
  with assms have "fresh_node (service_node (ss ! i) k)"
    by (simp add: fresh_node_def node_flows_def node_stats_def dispatcher_Init_def)
  then show "node_inv_upto (others ss i) (service_node (ss ! i) k)" by (rule node_inv_fresh)
qed

lemma create_services_keep:
  assumes "\<And>c cfg t. P (controller_New c cfg t)" and "create_services env ncs ss = (out, ss')" and "\<forall>s\<in>set ss. P s"
  shows "\<forall>s\<in>set ss'. P s"
  using assms(2,3)
proof (induction ncs arbitrary: ss)
  case (Cons nc ncs)
  show ?case
  proof (cases "node_service env nc")
    case (Ret s)
    then have "\<exists>c cfg t. s = controller_New c cfg t"
      by (auto simp: node_service_def then_do_def simp del: split_paired_Ex split: outcome.splits)
    then have "P s" using assms(1) by blast
    with Cons.prems Ret show ?thesis by (intro Cons.IH [of "ss @ [s]"]) simp_all
  next
    case (Panic m)
    with Cons.prems show ?thesis by simp
  qed
qed simp

definition panel_tracked :: "('p, 'c, 'ih, 'oh) Panel \<Rightarrow> bool" where
  "panel_tracked p \<longleftrightarrow> (\<forall>k. p_Server p = Some k \<longrightarrow> nodes_inv (p_Service p) k)"

lemma panel_tracked_Start:
  assumes "panel_Start env p = (Ret u, p')" and "p_Service p = []" and "builds_fresh env"
  shows "panel_tracked p'"
proof -
  obtain server server1 ss ss' server2 where load: "loadCore env (p_panelConfig p) = Ret server"
    and core: "se_core_Start env server = (None, server1)"
    and c: "create_services env (pc_NodesConfig (p_panelConfig p)) [] = (Ret (), ss)"
    and s: "start_services (service_Start env) ss server1 = (Ret (), ss', server2)"
    and p': "p' = p\<lparr>p_Service := ss', p_Server := Some server2, p_Running := True\<rparr>"
    using assms(1,2) by (auto simp: panel_Start_def Let_def split: outcome.splits prod.splits option.splits)
  from load obtain cfg where "se_core_New env cfg = Inr server"
    by (auto simp: loadCore_def then_do_def split: outcome.splits sum.splits)
  with core assms(3) obtain metrics where fresh: "ki_disp server1 = dispatcher_Init metrics NewManager"
    unfolding builds_fresh_def by blast
  have "\<forall>s\<in>set ss. c_retiringUsers (sv_ctl s) = []"
    by (rule create_services_keep [OF _ c]) (simp_all add: controller_New_def)
  from nodes_inv_start [OF s, of "[]"] nodes_inv_fresh [OF fresh this] p' show ?thesis
    by (simp add: panel_tracked_def)
qed

lemma panel_tracked_step:
  assumes "panel_step env ForLevel p p'" and "panel_tracked p"
  shows "panel_tracked p'"
  using assms(1)
proof (rule panel_stepE)
  fix i k w
  assume i: "i < length (p_Service p)" and k: "p_Server p = Some k"
    and step: "node_step (se_iface env) (se_ce env) ForLevel (service_node (p_Service p ! i) k) w"
    and p': "p' = p\<lparr>p_Service := (p_Service p)[i := (p_Service p ! i)\<lparr>sv_panel := nd_panel w, sv_ctl := nd_ctl w\<rparr>],
           p_Server := Some (k\<lparr>ki_disp := nd_disp w, ki_core := nd_core w\<rparr>)\<rparr>"
  have inv: "nodes_inv (p_Service p) k" using assms(2) k by (simp add: panel_tracked_def)
  then have "node_inv_upto (others (p_Service p) i) w"
    using node_inv_step [OF step] i unfolding nodes_inv_def by blast
  from nodes_inv_update [OF inv i this] p' show ?thesis by (simp add: panel_tracked_def)
qed

lemma program_tracked:
  assumes "program_reach env ForLevel st" and "builds_fresh env"
  shows "panel_tracked (pr_panel st)"
  using assms(1)
proof (induction rule: program_reach.induct)
  case (program_started pc now st)
  obtain out p where p: "panel_Start env (panel_New pc) = (out, p)" by (metis surj_pair)
  with program_started have "out = Ret ()" "pr_panel st = p" by (auto simp: main_start_def)
  with p panel_tracked_Start [of env "panel_New pc" "()" p] assms(2) show ?case by (simp add: panel_New_def)
next
  case (program_runs st p')
  then show ?case using panel_tracked_step by simp
next
  case (program_reloads st unmarshal now later st')
  show ?case
  proof (cases "pr_lastTime st + 3 * 10 ^ 9 < now")
    case True
    obtain closed p where close: "panel_Close env (pr_panel st) = (Ret (), closed, p)" "p_Service p = []"
      using panel_Close_services program_inv [OF program_reloads(1)] unfolding panel_inv_def by metis
    with program_reloads(2) True obtain pc p' where "panel_Start env (p\<lparr>p_panelConfig := pc\<rparr>) = (Ret (), p')"
      "st' = \<lparr>pr_panel = p', pr_lastTime = later\<rparr>"
      by (auto simp: on_config_change_def split: sum.splits prod.splits outcome.splits)
    with close(2) panel_tracked_Start [of env "p\<lparr>p_panelConfig := pc\<rparr>" "()" p'] assms(2) show ?thesis by simp
  next
    case False
    with program_reloads show ?thesis by (simp add: on_config_change_def)
  qed
qed


section \<open>Unknown panel types\<close>

lemma unknown_type:
  assumes "nc_PanelType nc \<notin> {''SSpanel'', ''V2board'', ''NewV2board'', ''PMpanel'', ''Proxypanel'', ''V2RaySocks''}"
  shows "node_service env nc = Panic (''Unsupport panel type: '' @ nc_PanelType nc)"
proof -
  note ne = assms [unfolded insert_iff de_Morgan_disj]
  note t1 = ne [THEN conjunct1] and r1 = ne [THEN conjunct2]
  note t2 = r1 [THEN conjunct1] and r2 = r1 [THEN conjunct2]
  note t3 = r2 [THEN conjunct1] and r3 = r2 [THEN conjunct2]
  note t4 = r3 [THEN conjunct1] and r4 = r3 [THEN conjunct2]
  note t5 = r4 [THEN conjunct1] and t6 = r4 [THEN conjunct2, THEN conjunct1]
  have "new_client env nc = Panic (''Unsupport panel type: '' @ nc_PanelType nc)"
    unfolding new_client_def Let_def if_not_P [OF t1] if_not_P [OF t2] if_not_P [OF t3]
      if_not_P [OF t4] if_not_P [OF t5] if_not_P [OF t6] ..
  then show ?thesis by (simp add: node_service_def then_do_def)
qed



lemma create_services_unknown:
  "nc \<in> set ncs \<Longrightarrow> node_service env nc = Panic m \<Longrightarrow> \<exists>m ss'. create_services env ncs ss = (Panic m, ss')"
  by (induction ncs arbitrary: ss) (auto split: outcome.splits)

text \<open>
  C32. A node with an unknown panel type ends the start with a panic before any service is started: the
  core is the one that was loaded, without an inbound of any node, and every service is fresh.
\<close>

theorem unknown_panel_starts_nothing:
  assumes "nc \<in> set (pc_NodesConfig (p_panelConfig p))"
    and "nc_PanelType nc \<notin> {''SSpanel'', ''V2board'', ''NewV2board'', ''PMpanel'', ''Proxypanel'', ''V2RaySocks''}"
    and core: "loadCore env (p_panelConfig p) = Ret server" "se_core_Start env server = (None, server1)"
    and "p_Service p = []" and "panel_Start env p = (out, p')"
  shows "(\<exists>m. out = Panic m) \<and> p_Server p' = Some server1 \<and> p_Running p' = p_Running p \<and>
    (\<forall>s\<in>set (p_Service p'). c_nodeInfo (sv_ctl s) = None)"
proof -
  obtain m ss where c: "create_services env (pc_NodesConfig (p_panelConfig p)) [] = (Panic m, ss)"
    using create_services_unknown [OF assms(1) unknown_type [OF assms(2)]] by blast
  with assms(5,6) core have "out = Panic m" "p' = p\<lparr>p_Server := Some server1, p_Service := ss\<rparr>"
    by (auto simp: panel_Start_def Let_def)
  moreover have "\<forall>s\<in>set ss. c_nodeInfo (sv_ctl s) = None"
    by (rule create_services_keep [OF _ c]) (simp_all add: controller_New_def)
  ultimately show ?thesis by simp
qed

section \<open>An example\<close>

definition example_api_config :: api_Config where
  "example_api_config = \<lparr>ac_APIHost = ''h'', ac_NodeID = 1, ac_Key = ''k'', ac_NodeType = ''Trojan'', ac_EnableVless = False,
     ac_EnableXTLS = False, ac_Timeout = 0, ac_SpeedLimit = 0, ac_DeviceLimit = 0, ac_RuleListPath = '''', ac_DisableCustomConfig = False\<rparr>"

definition example_panel_config :: "string list \<Rightarrow> panel_Config" where
  "example_panel_config types = \<lparr>pc_LogConfig = None, pc_DnsConfigPath = '''', pc_InboundConfigPath = '''', pc_OutboundConfigPath = '''',
     pc_RouteConfigPath = '''', pc_ConnectionConfig = None,
     pc_NodesConfig = map (\<lambda>t. \<lparr>nc_PanelType = t, nc_ApiConfig = Some example_api_config, nc_ControllerConfig = None\<rparr>) types\<rparr>"

definition example_instance :: "(unit, string \<times> string list, string) core_instance" where
  "example_instance = \<lparr>ki_disp = nd_disp example_node, ki_core = nd_core example_node, ki_running = False\<rparr>"

definition example_service_env :: "(unit, UserTraffic list list, unit, string, string, string \<times> string list, string) service_env" where
  "example_service_env = \<lparr>se_ReadFile = \<lambda>_. None, se_merge_log = \<lambda>_. Inr, se_merge_connection = \<lambda>_. Inr, se_merge_controller = \<lambda>_. Inr,
     se_dns = \<lambda>_. None, se_empty_dns = (), se_build_dns = Inr, se_router = \<lambda>_. None, se_empty_router = (), se_build_router = Inr,
     se_inbounds = \<lambda>_. None, se_build_inbound = Inr, se_outbounds = \<lambda>_. None, se_build_outbound = Inr,
     se_core_New = \<lambda>_. Inr example_instance, se_core_Start = \<lambda>k. (None, k\<lparr>ki_running := True\<rparr>),
     se_core_Close = \<lambda>k. k\<lparr>ki_running := False\<rparr>, se_compiles = \<lambda>_. None,
     se_client = \<lambda>_. ((example_api ''Trojan'')\<lparr>api_GetUserList := \<lambda>p. (Inr [zero_UserInfo], p)\<rparr>, []),
     se_iface = no_cache, se_ce = example_core\<rparr>"

definition example_process :: "(UserTraffic list list, unit, string \<times> string list, string) program" where
  "example_process = snd (main_start example_service_env (example_panel_config [''V2board'']) 0)"

lemma example_process_starts: "fst (main_start example_service_env (example_panel_config [''V2board'']) 0) = Ret ()"
  by code_simp

lemma example_process_reloads:
  "fst (on_config_change example_service_env (\<lambda>_. Inr (example_panel_config [''SSpanel''])) (4 * 10 ^ 9) (5 * 10 ^ 9) example_process) = Ret ()"
  by code_simp


text \<open>The panel of the process removes its only user: the user is retired and on the list of the controller.\<close>

definition example_round :: "(UserTraffic list list, unit, string \<times> string list, string) node" where
  "example_round = nodeInfoMonitor no_cache example_core ((example_api ''Trojan'')\<lparr>api_GetUserList := \<lambda>p. (Inr [], p)\<rparr>) 60
     (service_node (hd (p_Service (pr_panel example_process))) (the (p_Server (pr_panel example_process))))"

lemma example_round_runtime: "runtime_of (node_flows example_round) ''Trojan_0.0.0.0_443'' ''Trojan_0.0.0.0_443||0'' \<noteq> None"
  by code_simp

lemma example_round_current: "\<not> is_current (node_flows example_round) ''Trojan_0.0.0.0_443'' ''Trojan_0.0.0.0_443||0''"
  by code_simp


text \<open>A second node of a type that does not exist.\<close>

theorem unknown_panel_starts_nothing_witness:
  "\<exists>m p'. panel_Start example_service_env (panel_New (example_panel_config [''V2board'', ''panel''])) = (Panic m, p') \<and>
     p_Server p' = Some (example_instance\<lparr>ki_running := True\<rparr>) \<and> (\<forall>s\<in>set (p_Service p'). c_nodeInfo (sv_ctl s) = None)"
proof -
  let ?pc = "example_panel_config [''V2board'', ''panel'']"
  let ?p = "panel_New ?pc :: (UserTraffic list list, unit, string \<times> string list, string) Panel"
  let ?nc = "\<lparr>nc_PanelType = ''panel'', nc_ApiConfig = Some example_api_config, nc_ControllerConfig = None\<rparr>"
  obtain out p' where start: "panel_Start example_service_env ?p = (out, p')" by (metis surj_pair)
  have "?nc \<in> set (pc_NodesConfig (p_panelConfig ?p))"
    by (simp add: panel_New_def example_panel_config_def)
  moreover have "nc_PanelType ?nc \<notin> {''SSpanel'', ''V2board'', ''NewV2board'', ''PMpanel'', ''Proxypanel'', ''V2RaySocks''}"
    by simp
  moreover have "loadCore example_service_env (p_panelConfig ?p) = Ret example_instance"
    by (simp add: panel_New_def loadCore_def then_do_def load_file_def build_config_def parseConnectionConfig_def
        example_panel_config_def example_service_env_def)
  moreover have "se_core_Start example_service_env example_instance = (None, example_instance\<lparr>ki_running := True\<rparr>)"
    by (simp add: example_service_env_def)
  moreover have "p_Service ?p = []" by (simp add: panel_New_def)
  ultimately have "(\<exists>m. out = Panic m) \<and> p_Server p' = Some (example_instance\<lparr>ki_running := True\<rparr>) \<and>
      p_Running p' = p_Running ?p \<and> (\<forall>s\<in>set (p_Service p'). c_nodeInfo (sv_ctl s) = None)"
    using start by (rule unknown_panel_starts_nothing)
  with start show ?thesis by blast
qed


end
