(* ===== verification/SSPanel_Properties.thy ===== *)
theory SSPanel_Properties
  imports SSPanel_Api
begin

text \<open>
  The SSPanel client: how the device limit of a user is shared between nodes, that a server
  string is read back as it was written, and which server strings bring the process down.
\<close>

section \<open>Sharing a device limit\<close>

lemma count_online_snoc:
  "count_online (rs @ [r]) = store (ou_UID r) (case load (count_online rs) (ou_UID r) of Some n \<Rightarrow> n + 1 | None \<Rightarrow> 1) (count_online rs)"
  by (simp add: count_online_def)

definition reported :: "OnlineUser list \<Rightarrow> int \<Rightarrow> int" where
  "reported rs uid = int (length (filter (\<lambda>r. ou_UID r = uid) rs))"

lemma load_count_online:
  "load (count_online rs) uid = (if reported rs uid = 0 then None else Some (reported rs uid))"
proof (induction rs rule: rev_induct)
  case Nil
  show ?case by (simp add: count_online_def reported_def)
next
  case (snoc r rs)
  then show ?case by (auto simp: count_online_snoc reported_def split: if_splits)
qed

lemma userList_member:
  "v \<in> set (ss_userList env c users) \<Longrightarrow> \<exists>u \<in> set users. \<exists>d. ss_deviceLimit c u = Some d \<and> v = ss_userInfo env c u d"
  by (induction users) (auto split: option.splits)

text \<open>
  C24. The nodes of a user share the device limit. When the panel says that a user is online from
  some addresses, of which this node itself reported \<open>reported\<close>, the limit the node gets is
  positive, and together with the addresses on other nodes it never exceeds the limit of the
  user, or the number of addresses that are online anyway. Without a limit or without online
  addresses the limit is passed on as it is.
\<close>

theorem sspanel_device_share:
  assumes "v \<in> set (fst (ss_ParseUserListResponse env users c))" and "ss_LastReportOnline c = count_online rs"
    and "int (length rs) < 2 ^ 61" and "ss_DeviceLimit c < 2 ^ 61"
    and "\<forall>u \<in> set users. ur_DeviceLimit u < 2 ^ 61 \<and> ur_AliveIP u < 2 ^ 61"
  shows "\<exists>u \<in> set users. u_UID v = ur_ID u \<and>
    (let L = (if 0 < ss_DeviceLimit c then ss_DeviceLimit c else ur_DeviceLimit u) in
     if 0 < L \<and> 0 < ur_AliveIP u
     then 0 < u_DeviceLimit v \<and> (ur_AliveIP u - reported rs (ur_ID u)) + u_DeviceLimit v \<le> max L (ur_AliveIP u)
     else u_DeviceLimit v = L)"
proof -
  obtain u d where u: "u \<in> set users" "ss_deviceLimit c u = Some d" "v = ss_userInfo env c u d"
    using userList_member [of v env c users] assms(1) by (auto simp: ss_ParseUserListResponse_def)
  let ?L = "if 0 < ss_DeviceLimit c then ss_DeviceLimit c else ur_DeviceLimit u" and ?r = "reported rs (ur_ID u)"
  have "0 \<le> ?r" "?r \<le> int (length rs)" by (simp_all add: reported_def)
  with assms(3) have r: "0 \<le> ?r" "?r < 2 ^ 61" by linarith+
  have v: "u_UID v = ur_ID u" "u_DeviceLimit v = d" using u(3) by (simp_all add: ss_userInfo_def)
  have last: "(case load (ss_LastReportOnline c) (ur_ID u) of Some n \<Rightarrow> n | None \<Rightarrow> 0) = ?r"
    by (simp add: assms(2) load_count_online)
  show ?thesis
  proof (cases "0 < ?L \<and> 0 < ur_AliveIP u")
    case True
    have "?L < 2 ^ 61" "ur_AliveIP u < 2 ^ 61" using assms(4,5) u(1) by auto
    with True r have "in_int (?L - ur_AliveIP u + ?r)" by (auto simp: in_int_def int_min_def int_max_def)
    from sint_of_int_in_int [OF this] u(2) True r
    have "0 < d \<and> ur_AliveIP u - ?r + d \<le> max ?L (ur_AliveIP u)"
      unfolding ss_deviceLimit_def Let_def last by (auto split: if_splits)
    with True v u(1) show ?thesis by (auto simp: Let_def)
  next
    case False
    with u(2) have "d = ?L" unfolding ss_deviceLimit_def Let_def by (auto split: if_splits)
    with False v u(1) show ?thesis by (auto simp: Let_def)
  qed
qed

section \<open>Server strings\<close>

lemma SplitChar_single: "SplitChar s sep = [w] \<longleftrightarrow> w = s \<and> sep \<notin> set s"
proof
  assume "SplitChar s sep = [w]"
  then show "w = s \<and> sep \<notin> set s"
    by (induction s arbitrary: w) (auto split: if_splits list.splits)
qed (simp add: SplitChar_notin)

lemma go_seq_panics: "go_seq m k = GoPanic \<longleftrightarrow> m = GoPanic \<or> (\<exists>x. m = GoRet (Inr x) \<and> k x = GoPanic)"
  by (simp add: go_seq_def split: go_call.split sum.split)

lemma go_index_panics: "go_index xs i = GoPanic \<longleftrightarrow> length xs \<le> i"
  by (auto simp: go_index_def)

lemma go_index_returns: "go_index xs i = GoRet (Inr x) \<longleftrightarrow> i < length xs \<and> x = xs ! i"
  by (auto simp: go_index_def)

definition bad_item :: "string \<Rightarrow> bool" where
  "bad_item item \<longleftrightarrow> item \<noteq> [] \<and> CHR ''='' \<notin> set item"

lemma ss_items_panics: "ss_items f items r = GoPanic \<longleftrightarrow> (\<exists>item \<in> set items. bad_item item)"
proof (induction items arbitrary: r)
  case (Cons item rest)
  obtain key vs where s: "SplitChar item (CHR ''='') = key # vs" by (metis SplitChar_not_Nil neq_Nil_conv)
  have "bad_item item \<longleftrightarrow> key \<noteq> [] \<and> vs = []"
    using SplitChar_single [of item "CHR ''=''"] s by (auto simp: bad_item_def)
  with Cons s show ?case by auto
qed simp

lemma ss_items_returns: "ss_items f items r = GoPanic \<or> (\<exists>x. ss_items f items r = GoRet (Inr x))"
  by (induction items arbitrary: r) (auto split: list.splits)

text \<open>
  C36. Which server strings of a V2ray node bring the process down: exactly those with fewer than
  two fs, with a readable port and fewer than three fs, with a readable port and alter
  id and fewer than six fs, or with an item in the sixth field that is not empty and has
  no equals sign. Every other string gives a node or an error.
\<close>

theorem sspanel_server_panics:
  "ss_ParseV2rayNodeResponse env c resp = GoPanic \<longleftrightarrow>
    (let fs = SplitChar (nir_RawServerString resp) (CHR '';'') in
     nir_RawServerString resp \<noteq> [] \<and>
     (length fs < 2 \<or>
      (\<exists>p. ParseInt (fs ! 1) 32 = Inr p) \<and>
        (length fs < 3 \<or>
         (\<exists>a. ParseInt (fs ! 2) 16 = Inr a) \<and>
           (length fs < 6 \<or> (\<exists>item \<in> set (SplitChar (fs ! 5) (CHR ''|'')). bad_item item)))))"
proof -
  define fs where "fs = SplitChar (nir_RawServerString resp) (CHR '';'')"
  have len: "ss_transport_of g fs = GoPanic \<longleftrightarrow> length fs < 5" "ss_transport_of g fs = GoRet (Inr t) \<Longrightarrow> 5 \<le> length fs" for g t
    by (simp_all add: ss_transport_of_def split: if_splits)
  have tr: "5 \<le> length fs \<Longrightarrow> \<exists>t. ss_transport_of g fs = GoRet (Inr t)" for g by (simp add: ss_transport_of_def)
  show ?thesis
    unfolding ss_ParseV2rayNodeResponse_def fs_def [symmetric] Let_def
    by (auto simp: go_seq_panics go_index_panics go_index_returns ss_items_panics len dest: len(2) intro: tr)
qed

definition print_server :: "string \<Rightarrow> int \<Rightarrow> int \<Rightarrow> string \<Rightarrow> string \<Rightarrow> string \<Rightarrow> string \<Rightarrow> string" where
  "print_server addr port aid net sec path host =
     addr @ '';'' @ Itoa port @ '';'' @ Itoa aid @ '';'' @ net @ '';'' @ sec @ '';path='' @ path @ ''|host='' @ host"

lemma ParseInt_Itoa: "- (2 ^ (bits - 1)) \<le> i \<Longrightarrow> i < 2 ^ (bits - 1) \<Longrightarrow> ParseInt (Itoa i) bits = Inr i"
  by (auto simp: ParseInt_def Itoa_def parse_sign_nat_digits parse_sign_minus parse_nat_digits)

lemma Itoa_no_semicolon: "CHR '';'' \<notin> set (Itoa i)"
proof -
  have "digit_val (CHR '';'') = None" by (simp add: digit_val_def)
  then show ?thesis using nat_digits_chars [of "CHR '';''"] by (auto simp: Itoa_def)
qed

text \<open>
  A server string is read back as it was written: from the address, port, alter id, transport,
  security, path and host, joined the way SSPanel documents, the client gets exactly these, where
  the path may contain equals signs.
\<close>

theorem sspanel_server_roundtrip:
  assumes "CHR '';'' \<notin> set addr" and "CHR '';'' \<notin> set net" and "CHR '';'' \<notin> set path" and "CHR '';'' \<notin> set host"
    and "CHR ''|'' \<notin> set path" and "CHR ''|'' \<notin> set host" and "CHR ''='' \<notin> set host"
    and "0 \<le> port" and "port < 2 ^ 31" and "0 \<le> aid" and "aid < 2 ^ 15"
    and "net \<notin> {'''', ''tls'', ''xtls''}" and "sec \<in> {'''', ''tls'', ''xtls''}"
    and "nir_RawServerString resp = print_server addr port aid net sec path host"
  shows "ss_ParseV2rayNodeResponse env c resp =
    GoRet (Inr (zero_NodeInfo\<lparr>ni_NodeType := ss_NodeType c, ni_NodeID := ss_NodeID c, ni_Port := word_of_int port,
      ni_SpeedLimit := ss_speed env c (nir_SpeedLimit resp), ni_AlterID := word_of_int aid, ni_TransportProtocol := net,
      ni_EnableTLS := (sec \<noteq> ''''), ni_TLSType := (if sec = '''' then '''' else ss_xtls c), ni_Path := path, ni_Host := host,
      ni_EnableVless := ss_EnableVless c\<rparr>))"
proof -
  define f5 where "f5 = ''path='' @ path @ ''|host='' @ host"
  have sec: "CHR '';'' \<notin> set sec" using assms(13) by auto
  have f5: "CHR '';'' \<notin> set f5" using assms(3,4) by (simp add: f5_def)
  have "print_server addr port aid net sec path host =
      addr @ CHR '';'' # Itoa port @ CHR '';'' # Itoa aid @ CHR '';'' # net @ CHR '';'' # sec @ CHR '';'' # f5"
    by (simp add: print_server_def f5_def)
  then have fields: "SplitChar (nir_RawServerString resp) (CHR '';'') = [addr, Itoa port, Itoa aid, net, sec, f5]"
    by (simp only: assms(14) SplitChar_append [OF assms(1)] SplitChar_append [OF Itoa_no_semicolon] SplitChar_append [OF assms(2)]
        SplitChar_append [OF sec] SplitChar_notin [OF f5])
  have "SplitChar f5 (CHR ''|'') = [''path='' @ path, ''host='' @ host]"
    using SplitChar_append [of "CHR ''|''" "''path='' @ path" "''host='' @ host"] SplitChar_notin [of "CHR ''|''" "''host='' @ host"] assms(5,6)
    by (simp add: f5_def)
  moreover have "SplitChar (''path='' @ path) (CHR ''='') = ''path'' # SplitChar path (CHR ''='')"
    using SplitChar_append [of "CHR ''=''" "''path''" path] by simp
  moreover have "SplitChar (''host='' @ host) (CHR ''='') = [''host'', host]"
    using SplitChar_append [of "CHR ''=''" "''host''" host] SplitChar_notin [OF assms(7)] by simp
  ultimately have items: "ss_items v2ray_item (SplitChar f5 (CHR ''|'')) no_extra =
      GoRet (Inr (no_extra\<lparr>sx_path := path, sx_host := host\<rparr>))"
    by (simp add: v2ray_item_def JoinStr_SplitChar)
  have ports: "ParseInt (Itoa port) 32 = Inr port" "ParseInt (Itoa aid) 16 = Inr aid"
    using assms(8-11) by (simp_all add: ParseInt_Itoa)
  have nil: "nir_RawServerString resp \<noteq> []" unfolding assms(14) print_server_def by simp
  have tr: "ss_transport_of (v2ray_transport c) [addr, Itoa port, Itoa aid, net, sec, f5] =
      GoRet (Inr \<lparr>st_TLStype = (if sec = '''' then '''' else ss_xtls c), st_enableTLS = (sec \<noteq> ''''), st_transport = net\<rparr>)"
    using assms(12,13) by (auto simp: ss_transport_of_def v2ray_transport_def)
  have ix: "go_index [addr, Itoa port, Itoa aid, net, sec, f5] 1 = GoRet (Inr (Itoa port))"
      "go_index [addr, Itoa port, Itoa aid, net, sec, f5] 2 = GoRet (Inr (Itoa aid))"
      "go_index [addr, Itoa port, Itoa aid, net, sec, f5] 5 = GoRet (Inr f5)"
    by (simp_all add: go_index_def)
  show ?thesis
    unfolding ss_ParseV2rayNodeResponse_def Let_def fields if_not_P [OF nil] ix go_seq_simps ports tr items
    by (simp add: no_extra_def zero_NodeInfo_def)
qed

text \<open>
  The listen port of a plugin node is checked after the subtraction has wrapped around, so the
  port 0, which has no predecessor, is accepted.
\<close>

lemma plugin_port_wraps:
  assumes "SplitChar (nir_RawServerString resp) (CHR '';'') = [addr, ''0'', aid, net, sec, '''']"
  shows "\<exists>ni. ss_ParseSSPluginNodeResponse env c resp = GoRet (Inr ni) \<and> ni_Port ni = 2 ^ 32 - 1"
proof -
  have "ParseInt ''0'' 32 = Inr 0" by code_simp
  then show ?thesis
    by (simp add: ss_ParseSSPluginNodeResponse_def assms go_index_def ss_transport_of_def Let_def)
qed

section \<open>Examples\<close>

definition example_ss_env :: "unit ss_env" where
  "example_ss_env = \<lparr>pe_send = (\<lambda>_ w. ((\<lparr>hr_StatusCode = 200, hr_Header = (\<lambda>_. []), hr_Body = []\<rparr>, None), w)),
     pe_sj = \<lparr>sj_NewJson = (\<lambda>_. None), sj_Get = (\<lambda>_ _. JNull), sj_CheckGet = (\<lambda>_ _. None), sj_GetIndex = (\<lambda>_ _. JNull),
       sj_MustArray = (\<lambda>_. []), sj_MustStringArray = (\<lambda>_. []), sj_MustInt = (\<lambda>_. 0), sj_MustUint64 = (\<lambda>_. 0), sj_MustString = (\<lambda>_. [])\<rparr>,
     pe_compiles = (\<lambda>_. None), pe_wild = (\<lambda>_. 0), pe_ParseAddress = (\<lambda>s. s),
     se_Result = (\<lambda>_. \<lparr>sr_Ret = 1, sr_Data = None\<rparr>), se_ParseFloat = (\<lambda>_. None), se_raw = json_encode, se_compact = json_encode,
     se_show = (\<lambda>_. [])\<rparr>"

definition example_ss :: ss_APIClient where
  "example_ss = \<lparr>ss_query = [], ss_APIHost = ''http://panel'', ss_NodeID = 7, ss_Key = ''key'', ss_NodeType = ''V2ray'',
     ss_EnableVless = False, ss_EnableXTLS = False, ss_SpeedLimit = 0, ss_DeviceLimit = 0, ss_DisableCustomConfig = False,
     ss_LocalRuleList = [], ss_LastReportOnline = count_online [\<lparr>ou_UID = 1, ou_IP = ''10.0.0.1''\<rparr>]\<rparr>"

text \<open>A user with a limit of three devices, online from four addresses of which one is on this node.\<close>

definition example_response :: UserResponse where
  "example_response = zero_UserResponse\<lparr>ur_ID := 1, ur_DeviceLimit := 3, ur_AliveIP := 4\<rparr>"

lemma example_share: "ss_deviceLimit example_ss example_response = Some 1"
  by (simp add: ss_deviceLimit_def example_ss_def example_response_def zero_UserResponse_def count_online_def)

theorem sspanel_device_share_witness:
  "map u_DeviceLimit (fst (ss_ParseUserListResponse example_ss_env [example_response] example_ss)) = [1]
   \<and> (4 - reported [\<lparr>ou_UID = 1, ou_IP = ''10.0.0.1''\<rparr>] 1) + 1 \<le> max 3 4"
proof -
  let ?v = "ss_userInfo example_ss_env example_ss example_response 1"
  have m: "fst (ss_ParseUserListResponse example_ss_env [example_response] example_ss) = [?v]"
    by (simp add: ss_ParseUserListResponse_def example_share)
  have v: "u_DeviceLimit ?v = 1" by (simp add: ss_userInfo_def)
  have r: "ur_ID example_response = 1" "ur_DeviceLimit example_response = 3" "ur_AliveIP example_response = 4" "ss_DeviceLimit example_ss = 0"
    by (simp_all add: example_response_def example_ss_def)
  have "?v \<in> set (fst (ss_ParseUserListResponse example_ss_env [example_response] example_ss))"
    by (simp add: m)
  moreover have "ss_LastReportOnline example_ss = count_online [\<lparr>ou_UID = 1, ou_IP = ''10.0.0.1''\<rparr>]"
    by (simp add: example_ss_def)
  ultimately show ?thesis using sspanel_device_share [of ?v example_ss_env "[example_response]" example_ss] by (simp add: m v r Let_def)
qed

theorem sspanel_server_roundtrip_witness:
  "\<exists>ni. ss_ParseV2rayNodeResponse example_ss_env example_ss
     (zero_NodeInfoResponse\<lparr>nir_RawServerString := print_server ''hk.example.com'' 443 2 ''ws'' ''tls'' ''/v2?a=b'' ''cdn.example.com''\<rparr>) =
       GoRet (Inr ni) \<and> ni_Port ni = 443 \<and> ni_Path ni = ''/v2?a=b'' \<and> ni_EnableTLS ni"
  by (subst sspanel_server_roundtrip [of "''hk.example.com''" "''ws''" "''/v2?a=b''" "''cdn.example.com''" 443 2 "''tls''"]) simp_all

end
