(* ===== verification/SSPanel_Types.thy ===== *)
theory SSPanel_Types
  imports SSPanel_Properties
begin

text \<open>
  Go's types in the answers of SSPanel: a field decoder keeps a typing of the record when it keeps it
  for its own field, so whatever JSON the panel sends, the decoded users and the users handed to the
  controller have values in the range of Go's \<open>int\<close> and \<open>uint32\<close>.
\<close>

section \<open>Decoders that keep a typing\<close>

definition field_keeps :: "('a \<Rightarrow> bool) \<Rightarrow> 'a field \<Rightarrow> bool" where
  "field_keeps P f \<longleftrightarrow> (\<forall>j r. P r \<longrightarrow> P (fst (snd f j r)))"

lemma dec_members_keeps:
  "\<forall>f\<in>set fs. field_keeps P f \<Longrightarrow> P r \<Longrightarrow> P (fst (dec_members fs m r))"
proof (induction fs m r rule: dec_members.induct)
  case (2 fs k j m r)
  show ?case
  proof (cases "find (\<lambda>f. EqualFold (fst f) k) fs")
    case (Some f)
    then have "f \<in> set fs" by (auto simp: find_Some_iff)
    moreover obtain r' bad where "snd f j r = (r', bad)" by fastforce
    ultimately have "P r'" using 2(3,4) unfolding field_keeps_def by (metis fst_conv)
    moreover have "P (fst (dec_members fs m r'))" if "P r'" using 2(2) [OF Some] 2(3) \<open>snd f j r = (r', bad)\<close> that by simp
    ultimately show ?thesis using Some \<open>snd f j r = (r', bad)\<close> by (auto split: prod.splits)
  qed (use 2 in simp)
qed simp

lemma dec_struct_keeps: "\<forall>f\<in>set fs. field_keeps P f \<Longrightarrow> P r \<Longrightarrow> P (fst (dec_struct fs j r))"
  by (simp add: dec_struct_def dec_members_keeps split: json.split)

lemma dec_slice_keeps:
  assumes "\<forall>f\<in>set fs. field_keeps P f" and "P z" and "list_all P v"
  shows "list_all P (fst (dec_slice z (dec_struct fs) j v))"
  using assms dec_struct_keeps [OF assms(1,2)] by (auto simp: dec_slice_def list_all_iff split: json.split)

lemma field_keeps_fld:
  assumes "\<And>j r. P r \<Longrightarrow> P (upd (\<lambda>_. fst (d j (get r))) r)"
  shows "field_keeps P (fld name d get upd)"
  using assms by (auto simp: field_keeps_def fld_def Let_def split: prod.splits) (metis fst_conv)

lemma dec_int_range: "in_int v \<Longrightarrow> in_int (fst (dec_int j v))"
  by (auto simp: dec_int_def ParseInt_def Let_def in_int_def int_min_def int_max_def split: json.splits sum.splits option.splits if_splits prod.splits)

lemma dec_uint_range: "v < 2 ^ bits \<Longrightarrow> fst (dec_uint bits j v) < 2 ^ bits"
  by (auto simp: dec_uint_def split: json.splits option.splits)

section \<open>Users of SSPanel\<close>

definition user_typed :: "UserResponse \<Rightarrow> bool" where
  "user_typed u \<longleftrightarrow> in_int (ur_ID u) \<and> in_int (ur_DeviceLimit u) \<and> in_int (ur_MultiUser u) \<and> in_int (ur_AliveIP u) \<and> ur_Port u < 2 ^ 32"

lemma user_fields_keep: "\<forall>f\<in>set (UserResponse_fields env). field_keeps user_typed f"
  unfolding UserResponse_fields_def
  by (auto intro!: field_keeps_fld simp: user_typed_def dec_int_range dec_uint_range [of _ 32, simplified])

lemma zero_user_typed: "user_typed zero_UserResponse"
  by (simp add: user_typed_def zero_UserResponse_def in_int_def int_min_def int_max_def)

lemma decode_user_list_typed: "decode_user_list env response = Inr users \<Longrightarrow> list_all user_typed users"
  using dec_slice_keeps [OF user_fields_keep [of env] zero_user_typed, of "[]"]
  by (auto simp: decode_user_list_def unmarshal_data_def split: option.splits prod.splits if_splits) (metis fst_conv)

definition client_typed :: "ss_APIClient \<Rightarrow> bool" where
  "client_typed c \<longleftrightarrow> in_int (ss_DeviceLimit c) \<and> (\<forall>k v. load (ss_LastReportOnline c) k = Some v \<longrightarrow> in_int v)"

lemma deviceLimit_typed:
  assumes "client_typed c" "user_typed u" "ss_deviceLimit c u = Some d"
  shows "in_int d"
  using assms by (auto simp: ss_deviceLimit_def Let_def client_typed_def user_typed_def split: if_splits option.splits)

lemma userList_typed:
  "client_typed c \<Longrightarrow> list_all user_typed us \<Longrightarrow>
     \<forall>u\<in>set (ss_userList env c us). in_int (u_UID u) \<and> in_int (u_DeviceLimit u) \<and> (\<exists>r\<in>set us. u_UID u = ur_ID r \<and> unat (u_Port u) = ur_Port r)"
proof (induction us)
  case (Cons r us)
  have port: "unat (word_of_nat (ur_Port r) :: uint32) = ur_Port r" if "user_typed r" for r
    using that by (simp add: user_typed_def unat_of_nat)
  show ?case
  proof (cases "ss_deviceLimit c r")
    case (Some d)
    with Cons deviceLimit_typed [OF Cons.prems(1) _ Some] show ?thesis
      by (auto simp: ss_userInfo_def port user_typed_def)
  qed (use Cons in auto)
qed simp


definition example_answer :: ss_Response where
  "example_answer = \<lparr>sr_Ret = 1, sr_Data = Some (JArray [JObject [(''id'', JNumber ''9223372036854775807'')]])\<rparr>"

definition example_ss_users :: "unit ss_env" where
  "example_ss_users = example_ss_env\<lparr>se_Result := (\<lambda>_. example_answer)\<rparr>"

lemma example_id: "ParseInt ''9223372036854775807'' 64 = Inr 9223372036854775807"
  by (simp add: ParseInt_def parse_sign_def digit_val_def)

lemma example_decoded: "decode_user_list example_ss_users example_answer = Inr [zero_UserResponse\<lparr>ur_ID := 9223372036854775807\<rparr>]"
proof -
  obtain rest where "UserResponse_fields example_ss_users = fld ''id'' dec_int ur_ID ur_ID_update # rest"
    by (simp only: UserResponse_fields_def list.inject simp_thms)
  then show ?thesis
    by (simp add: decode_user_list_def unmarshal_data_def example_answer_def dec_slice_def dec_struct_def
        fld_def EqualFold_def dec_int_def example_id)
qed

lemma example_ss_users_views:
  "se_Result example_ss_users = (\<lambda>_. example_answer)" "sr_Ret example_answer = 1"
  "pe_send example_ss_users = (\<lambda>_ w. ((\<lparr>hr_StatusCode = 200, hr_Header = (\<lambda>_. []), hr_Body = []\<rparr>, None), w))"
  by (simp_all add: example_ss_users_def example_ss_env_def example_answer_def)


end
