(* ===== verification/Certificates.thy ===== *)
theory Certificates
  imports Cert_Files Go_Float
begin

text \<open>
  Certificates (\<open>common/mylego\<close>): the storage of accounts and certificates, issuing a certificate
  (\<open>DNSCert\<close>, \<open>HTTPCert\<close>) and renewing one (\<open>RenewCert\<close>). The ACME client of lego, the cryptography,
  the JSON of accounts and resources, the international form of domains and the clock are
  parameters of \<open>lego_env\<close>; the calls to the certificate authority change the world \<open>'w\<close>.
\<close>

section \<open>Data\<close>

record ('r, 'k) Account =
  ac_Email :: string
  ac_Registration :: "'r option"
  ac_key :: 'k

record cert_Resource =
  cr_Domain :: string
  cr_PrivateKey :: "string option"
  cr_Certificate :: string
  cr_IssuerCertificate :: "string option"

record x509_Certificate =
  x5_IsCA :: bool
  x5_NotAfter :: int
  x5_Domains :: "string list"

record LegoCMD =
  lc_C :: CertConfig
  lc_path :: string

record AccountsStorage =
  as_userID :: string
  as_rootPath :: string
  as_rootUserPath :: string
  as_keysPath :: string
  as_accountFilePath :: string

record CertificatesStorage =
  cs_rootPath :: string
  cs_pem :: bool

record ('w, 'r, 'k, 'cl) lego_env =
  le_fault :: fs_fault
  le_Getwd :: "string result"
  le_server_host :: "string result"
  le_ToASCII :: "string \<Rightarrow> string result"
  le_marshal_account :: "('r, 'k) Account \<Rightarrow> string result"
  le_unmarshal_account :: "string \<Rightarrow> (string \<times> 'r option) result"
  le_marshal_resource :: "cert_Resource \<Rightarrow> string result"
  le_unmarshal_resource :: "string \<Rightarrow> cert_Resource result"
  le_status :: "'r \<Rightarrow> string"
  le_generate_key :: "'w \<Rightarrow> 'k result \<times> 'w"
  le_pem_encode :: "'k \<Rightarrow> string"
  le_pem_decode :: "string \<Rightarrow> (string \<times> string) option"
  le_parse_pkcs1 :: "string \<Rightarrow> 'k result"
  le_parse_ec :: "string \<Rightarrow> 'k result"
  le_parse_bundle :: "string \<Rightarrow> x509_Certificate list result"
  le_NewClient :: "('r, 'k) Account \<Rightarrow> 'w \<Rightarrow> 'cl result \<times> 'w"
  le_set_http01 :: "'cl \<Rightarrow> 'cl result"
  le_set_tlsalpn01 :: "'cl \<Rightarrow> 'cl result"
  le_set_dns01 :: "string \<Rightarrow> (string, string) gomap \<Rightarrow> 'cl \<Rightarrow> 'cl result"
  le_register :: "'cl \<Rightarrow> 'w \<Rightarrow> 'r result \<times> 'w"
  le_resolve :: "'cl \<Rightarrow> 'w \<Rightarrow> 'r result \<times> 'w"
  le_obtain :: "'cl \<Rightarrow> string list \<Rightarrow> 'w \<Rightarrow> cert_Resource result \<times> 'w"
  le_now :: "'w \<Rightarrow> int"

record 'w lego_state =
  ls_fs :: file_system
  ls_environ :: "(string, string) gomap"
  ls_world :: 'w

text \<open>Calls of the file system and of the outside world as calls on the state.\<close>

definition on_fs :: "(file_system \<Rightarrow> 'a \<times> file_system) \<Rightarrow> ('w lego_state, 'a) call" where
  "on_fs f s = (let (r, fs') = f (ls_fs s) in (Ret r, s\<lparr>ls_fs := fs'\<rparr>))"

definition see_fs :: "(file_system \<Rightarrow> 'a) \<Rightarrow> ('w lego_state, 'a) call" where
  "see_fs f s = (Ret (f (ls_fs s)), s)"

definition on_world :: "('w \<Rightarrow> 'a \<times> 'w) \<Rightarrow> ('w lego_state, 'a) call" where
  "on_world f s = (let (r, w') = f (ls_world s) in (Ret r, s\<lparr>ls_world := w'\<rparr>))"

text \<open>
  Of the texts, \<open>%#v\<close> of an error is its plain text here.
\<close>

abbreviation nl_tab :: string where "nl_tab \<equiv> [CHR 0x0A, CHR 0x09]"

section \<open>Storage\<close>

definition createNonExistingFolder :: "('w, 'r, 'k, 'cl) lego_env \<Rightarrow> string \<Rightarrow> ('w lego_state, unit result) call" where
  "createNonExistingFolder env p =
     bind (see_fs (os_Stat (le_fault env) p)) (\<lambda>st.
       case st of
         StatNotExist \<Rightarrow> on_fs (os_MkdirAll (le_fault env) p)
       | StatError e \<Rightarrow> ret (Inl e)
       | StatOk \<Rightarrow> ret (Inr ()))"

definition NewAccountsStorage :: "('w, 'r, 'k, 'cl) lego_env \<Rightarrow> LegoCMD \<Rightarrow> ('w lego_state, AccountsStorage) call" where
  "NewAccountsStorage env l =
     (case le_server_host env of
        Inl e \<Rightarrow> panic (go_error_text e)
      | Inr host \<Rightarrow>
          let email = cc_Email (lc_C l);
              rootPath = path_Join [lc_path l, ''accounts''];
              serverPath = ReplaceAllChar host (CHR '':'') (CHR ''_'');
              accountsPath = path_Join [rootPath, serverPath];
              rootUserPath = path_Join [accountsPath, email]
          in ret \<lparr>as_userID = email, as_rootPath = rootPath, as_rootUserPath = rootUserPath,
                  as_keysPath = path_Join [rootUserPath, ''keys''],
                  as_accountFilePath = path_Join [rootUserPath, ''account.json'']\<rparr>)"

definition ExistsAccountFilePath :: "('w, 'r, 'k, 'cl) lego_env \<Rightarrow> AccountsStorage \<Rightarrow> ('w lego_state, bool) call" where
  "ExistsAccountFilePath env a =
     bind (see_fs (os_Stat (le_fault env) (path_Join [as_rootUserPath a, ''account.json'']))) (\<lambda>st.
       case st of StatNotExist \<Rightarrow> ret False | StatError e \<Rightarrow> panic (go_error_text e) | StatOk \<Rightarrow> ret True)"

definition as_Save :: "('w, 'r, 'k, 'cl) lego_env \<Rightarrow> AccountsStorage \<Rightarrow> ('r, 'k) Account \<Rightarrow> ('w lego_state, unit result) call" where
  "as_Save env a account =
     (case le_marshal_account env account of
        Inl e \<Rightarrow> ret (Inl e)
      | Inr jsonBytes \<Rightarrow> on_fs (os_WriteFile (le_fault env) (as_accountFilePath a) jsonBytes))"

definition tryRecoverRegistration :: "('w, 'r, 'k, 'cl) lego_env \<Rightarrow> 'k \<Rightarrow> ('w lego_state, 'r result) call" where
  "tryRecoverRegistration env privateKey =
     bind (on_world (le_NewClient env \<lparr>ac_Email = '''', ac_Registration = None, ac_key = privateKey\<rparr>)) (\<lambda>r.
       case r of Inl e \<Rightarrow> ret (Inl e) | Inr client \<Rightarrow> on_world (le_resolve env client))"

definition LoadAccount :: "('w, 'r, 'k, 'cl) lego_env \<Rightarrow> AccountsStorage \<Rightarrow> 'k \<Rightarrow> ('w lego_state, ('r, 'k) Account) call" where
  "LoadAccount env a privateKey =
     bind (must (\<lambda>e. ''Could not load file for account '' @ as_userID a @ '': '' @ go_error_text e)
             (see_fs (os_ReadFile (le_fault env) (as_accountFilePath a)))) (\<lambda>fileBytes.
     bind (must (\<lambda>e. ''Could not parse file for account '' @ as_userID a @ '': '' @ go_error_text e)
             (ret (le_unmarshal_account env fileBytes))) (\<lambda>(email, registration).
       let account = \<lparr>ac_Email = email, ac_Registration = registration, ac_key = privateKey\<rparr> in
       if (case registration of None \<Rightarrow> True | Some r \<Rightarrow> le_status env r = '''') then
         bind (must (\<lambda>e. ''Could not load account for '' @ as_userID a @ ''. Registration is nil: '' @ go_error_text e)
                 (tryRecoverRegistration env privateKey)) (\<lambda>reg.
           let account' = account\<lparr>ac_Registration := Some reg\<rparr> in
           bind (must (\<lambda>e. ''Could not save account for '' @ as_userID a @ ''. Registration is nil: '' @ go_error_text e)
                   (as_Save env a account')) (\<lambda>_. ret account'))
       else ret account))"

definition generatePrivateKey :: "('w, 'r, 'k, 'cl) lego_env \<Rightarrow> string \<Rightarrow> ('w lego_state, 'k result) call" where
  "generatePrivateKey env file =
     bind (on_world (le_generate_key env)) (\<lambda>r.
       case r of
         Inl e \<Rightarrow> ret (Inl e)
       | Inr privateKey \<Rightarrow>
           bind (on_fs (os_Create (le_fault env) file)) (\<lambda>c.
             case c of
               Inl e \<Rightarrow> ret (Inl e)
             | Inr _ \<Rightarrow>
                 bind (on_fs (write_open (le_fault env) file (le_pem_encode env privateKey))) (\<lambda>w.
                   case w of Inl e \<Rightarrow> ret (Inl e) | Inr _ \<Rightarrow> ret (Inr privateKey))))"

text \<open>A file without a PEM block makes \<open>keyBlock\<close> nil, and reading its type panics.\<close>

definition loadPrivateKey :: "('w, 'r, 'k, 'cl) lego_env \<Rightarrow> string \<Rightarrow> ('w lego_state, 'k result) call" where
  "loadPrivateKey env file =
     bind (see_fs (os_ReadFile (le_fault env) file)) (\<lambda>r.
       case r of
         Inl e \<Rightarrow> ret (Inl e)
       | Inr keyBytes \<Rightarrow>
           (case le_pem_decode env keyBytes of
              None \<Rightarrow> panic ''runtime error: invalid memory address or nil pointer dereference''
            | Some (ty, bytes) \<Rightarrow>
                if ty = ''RSA PRIVATE KEY'' then ret (le_parse_pkcs1 env bytes)
                else if ty = ''EC PRIVATE KEY'' then ret (le_parse_ec env bytes)
                else ret (Inl (Error ''unknown private key type''))))"

definition as_GetPrivateKey :: "('w, 'r, 'k, 'cl) lego_env \<Rightarrow> AccountsStorage \<Rightarrow> ('w lego_state, 'k) call" where
  "as_GetPrivateKey env a =
     (let accKeyPath = path_Join [as_keysPath a, as_userID a @ ''.key''] in
      bind (see_fs (os_Stat (le_fault env) accKeyPath)) (\<lambda>st.
        if st = StatNotExist then
          bind (must (\<lambda>e. ''Could not check/create directory for account '' @ as_userID a @ '': '' @ go_error_text e)
                  (createNonExistingFolder env (as_keysPath a))) (\<lambda>_.
          must (\<lambda>e. ''Could not generate RSA private account key for account '' @ as_userID a @ '': '' @ go_error_text e)
            (generatePrivateKey env accKeyPath))
        else
          must (\<lambda>e. ''Could not load RSA private key from file '' @ accKeyPath @ '': '' @ go_error_text e)
            (loadPrivateKey env accKeyPath)))"

definition NewCertificatesStorage :: "string \<Rightarrow> CertificatesStorage" where
  "NewCertificatesStorage p = \<lparr>cs_rootPath = path_Join [p, ''certificates''], cs_pem = False\<rparr>"

definition CreateRootFolder :: "('w, 'r, 'k, 'cl) lego_env \<Rightarrow> CertificatesStorage \<Rightarrow> ('w lego_state, unit) call" where
  "CreateRootFolder env cs =
     must (\<lambda>e. ''Could not check/create path: '' @ go_error_text e) (createNonExistingFolder env (cs_rootPath cs))"

definition sanitizedDomain :: "('w, 'r, 'k, 'cl) lego_env \<Rightarrow> string \<Rightarrow> ('w lego_state, string) call" where
  "sanitizedDomain env domain =
     must go_error_text (ret (le_ToASCII env (ReplaceAllChar domain (CHR ''*'') (CHR ''_''))))"

definition cs_GetFileName :: "('w, 'r, 'k, 'cl) lego_env \<Rightarrow> CertificatesStorage \<Rightarrow> string \<Rightarrow> string \<Rightarrow> ('w lego_state, string) call" where
  "cs_GetFileName env cs domain extension =
     bind (sanitizedDomain env domain) (\<lambda>safe. ret (path_Join [cs_rootPath cs, safe @ extension]))"

definition cs_WriteFile :: "('w, 'r, 'k, 'cl) lego_env \<Rightarrow> CertificatesStorage \<Rightarrow> string \<Rightarrow> string \<Rightarrow> string \<Rightarrow> ('w lego_state, unit result) call" where
  "cs_WriteFile env cs domain extension data =
     bind (sanitizedDomain env domain) (\<lambda>baseFileName.
       on_fs (os_WriteFile (le_fault env) (path_Join [cs_rootPath cs, baseFileName @ extension]) data))"

definition cs_ReadFile :: "('w, 'r, 'k, 'cl) lego_env \<Rightarrow> CertificatesStorage \<Rightarrow> string \<Rightarrow> string \<Rightarrow> ('w lego_state, string result) call" where
  "cs_ReadFile env cs domain extension =
     bind (cs_GetFileName env cs domain extension) (\<lambda>p. see_fs (os_ReadFile (le_fault env) p))"

definition cs_ExistsFile :: "('w, 'r, 'k, 'cl) lego_env \<Rightarrow> CertificatesStorage \<Rightarrow> string \<Rightarrow> string \<Rightarrow> ('w lego_state, bool) call" where
  "cs_ExistsFile env cs domain extension =
     bind (cs_GetFileName env cs domain extension) (\<lambda>p.
     bind (see_fs (os_Stat (le_fault env) p)) (\<lambda>st.
       case st of StatNotExist \<Rightarrow> ret False | StatError e \<Rightarrow> panic (go_error_text e) | StatOk \<Rightarrow> ret True))"

definition cs_ReadResource :: "('w, 'r, 'k, 'cl) lego_env \<Rightarrow> CertificatesStorage \<Rightarrow> string \<Rightarrow> ('w lego_state, cert_Resource) call" where
  "cs_ReadResource env cs domain =
     bind (must (\<lambda>e. ''Error while loading the meta data for domain '' @ domain @ nl_tab @ go_error_text e)
             (cs_ReadFile env cs domain ''.json'')) (\<lambda>raw.
       must (\<lambda>e. ''Error while marshaling the meta data for domain '' @ domain @ nl_tab @ go_error_text e)
         (ret (le_unmarshal_resource env raw)))"

definition cs_ReadCertificate :: "('w, 'r, 'k, 'cl) lego_env \<Rightarrow> CertificatesStorage \<Rightarrow> string \<Rightarrow> string \<Rightarrow> ('w lego_state, x509_Certificate list result) call" where
  "cs_ReadCertificate env cs domain extension =
     bind (cs_ReadFile env cs domain extension) (\<lambda>r.
       case r of Inl e \<Rightarrow> ret (Inl e) | Inr content \<Rightarrow> ret (le_parse_bundle env content))"

text \<open>The writes of \<open>SaveResource\<close> are in the order of the source; a failing one panics.\<close>

definition save_part :: "('w, 'r, 'k, 'cl) lego_env \<Rightarrow> CertificatesStorage \<Rightarrow> string \<Rightarrow> string \<Rightarrow> string \<Rightarrow> string \<Rightarrow> ('w lego_state, unit) call" where
  "save_part env cs what domain extension data =
     must (\<lambda>e. ''Unable to save '' @ what @ '' for domain '' @ domain @ nl_tab @ go_error_text e) (cs_WriteFile env cs domain extension data)"

definition SaveResource :: "('w, 'r, 'k, 'cl) lego_env \<Rightarrow> CertificatesStorage \<Rightarrow> cert_Resource \<Rightarrow> ('w lego_state, unit) call" where
  "SaveResource env cs certRes =
     (let domain = cr_Domain certRes in
      bind (save_part env cs ''Certificate'' domain ''.crt'' (cr_Certificate certRes)) (\<lambda>_.
      bind (case cr_IssuerCertificate certRes of
              None \<Rightarrow> ret ()
            | Some issuer \<Rightarrow> save_part env cs ''IssuerCertificate'' domain ''.issuer.crt'' issuer) (\<lambda>_.
      bind (case cr_PrivateKey certRes of
              Some key \<Rightarrow>
                bind (save_part env cs ''PrivateKey'' domain ''.key'' key) (\<lambda>_.
                  if cs_pem cs then save_part env cs ''Certificate and PrivateKey in .pem'' domain ''.pem'' (cr_Certificate certRes @ key)
                  else ret ())
            | None \<Rightarrow>
                if cs_pem cs then panic (''Unable to save pem without private key for domain '' @ domain) else ret ()) (\<lambda>_.
      bind (must (\<lambda>e. ''Unable to marshal CertResource for domain '' @ domain @ nl_tab @ go_error_text e)
              (ret (le_marshal_resource env certRes))) (\<lambda>jsonBytes.
        save_part env cs ''CertResource'' domain ''.json'' jsonBytes)))))"

section \<open>The client\<close>

definition newClient :: "('w, 'r, 'k, 'cl) lego_env \<Rightarrow> ('r, 'k) Account \<Rightarrow> ('w lego_state, 'cl) call" where
  "newClient env acc = must (\<lambda>e. ''Could not create client: '' @ go_error_text e) (on_world (le_NewClient env acc))"

definition lego_setup :: "('w, 'r, 'k, 'cl) lego_env \<Rightarrow> AccountsStorage \<Rightarrow> ('w lego_state, ('r, 'k) Account \<times> 'cl) call" where
  "lego_setup env a =
     bind (as_GetPrivateKey env a) (\<lambda>privateKey.
     bind (ExistsAccountFilePath env a) (\<lambda>exists.
     bind (if exists then LoadAccount env a privateKey
           else ret \<lparr>ac_Email = as_userID a, ac_Registration = None, ac_key = privateKey\<rparr>) (\<lambda>account.
     bind (newClient env account) (\<lambda>client. ret (account, client)))))"

definition setupChallenges :: "('w, 'r, 'k, 'cl) lego_env \<Rightarrow> LegoCMD \<Rightarrow> 'cl \<Rightarrow> ('w lego_state, 'cl) call" where
  "setupChallenges env l client s =
     must go_error_text
       (if cc_CertMode (lc_C l) = ''http'' then ret (le_set_http01 env client)
        else if cc_CertMode (lc_C l) = ''tls'' then ret (le_set_tlsalpn01 env client)
        else if cc_CertMode (lc_C l) = ''dns'' then ret (le_set_dns01 env (cc_Provider (lc_C l)) (ls_environ s) client)
        else panic ''No challenge selected. You must specify at least one challenge: `http`, `tls`, `dns`.'') s"

definition obtainCertificate :: "('w, 'r, 'k, 'cl) lego_env \<Rightarrow> string list \<Rightarrow> 'cl \<Rightarrow> ('w lego_state, cert_Resource result) call" where
  "obtainCertificate env domains client =
     (if domains \<noteq> [] then on_world (le_obtain env client domains) else ret (Inl (Error ''not a valid domain'')))"

section \<open>Issuing\<close>

definition lego_Run :: "('w, 'r, 'k, 'cl) lego_env \<Rightarrow> LegoCMD \<Rightarrow> ('w lego_state, unit result) call" where
  "lego_Run env l =
     bind (NewAccountsStorage env l) (\<lambda>accountsStorage.
     bind (lego_setup env accountsStorage) (\<lambda>(account, client0).
     bind (setupChallenges env l client0) (\<lambda>client.
     bind (case ac_Registration account of
             Some _ \<Rightarrow> ret ()
           | None \<Rightarrow>
               bind (must (\<lambda>e. ''Could not complete registration'' @ nl_tab @ go_error_text e) (on_world (le_register env client))) (\<lambda>reg.
                 must go_error_text (as_Save env accountsStorage (account\<lparr>ac_Registration := Some reg\<rparr>)))) (\<lambda>_.
       let certsStorage = NewCertificatesStorage (lc_path l) in
       bind (CreateRootFolder env certsStorage) (\<lambda>_.
       bind (must (\<lambda>e. ''Could not obtain certificates:'' @ nl_tab @ go_error_text e)
               (obtainCertificate env [cc_CertDomain (lc_C l)] client)) (\<lambda>cert.
       bind (SaveResource env certsStorage cert) (\<lambda>_. ret (Inr ()))))))))"

definition lego_New :: "('w, 'r, 'k, 'cl) lego_env \<Rightarrow> CertConfig \<Rightarrow> 'w lego_state \<Rightarrow> LegoCMD" where
  "lego_New env certConf s =
     (let configPath = (case load (ls_environ s) ''XRAY_LOCATION_CONFIG'' of None \<Rightarrow> '''' | Some v \<Rightarrow> v);
          p = (if configPath \<noteq> '''' then configPath else case le_Getwd env of Inr cwd \<Rightarrow> cwd | Inl _ \<Rightarrow> ''.'')
      in \<lparr>lc_C = certConf, lc_path = path_Join [p, ''cert'']\<rparr>)"

definition filepath_Abs :: "('w, 'r, 'k, 'cl) lego_env \<Rightarrow> string \<Rightarrow> string result" where
  "filepath_Abs env p =
     (if HasPrefix p ''/'' then Inr (path_Clean p)
      else case le_Getwd env of Inl e \<Rightarrow> Inl e | Inr wd \<Rightarrow> Inr (path_Join [wd, p]))"

definition cert_key_path :: "LegoCMD \<Rightarrow> string \<Rightarrow> string" where
  "cert_key_path l domain = path_Join [lc_path l, ''certificates'', domain @ ''.key'']"

definition cert_crt_path :: "LegoCMD \<Rightarrow> string \<Rightarrow> string" where
  "cert_crt_path l domain = path_Join [lc_path l, ''certificates'', domain @ ''.crt'']"

definition stat_err :: "string \<Rightarrow> stat \<Rightarrow> string option" where
  "stat_err p st =
     (case st of
        StatOk \<Rightarrow> None
      | StatNotExist \<Rightarrow> Some (''stat '' @ p @ '': no such file or directory'')
      | StatError e \<Rightarrow> Some (go_error_text e))"

definition checkCertFile :: "('w, 'r, 'k, 'cl) lego_env \<Rightarrow> LegoCMD \<Rightarrow> string \<Rightarrow> file_system \<Rightarrow> (string \<times> string) result" where
  "checkCertFile env l domain fs =
     (let keyPath = cert_key_path l domain; certPath = cert_crt_path l domain in
      if stat_err keyPath (os_Stat (le_fault env) keyPath fs) \<noteq> None then
        Inl (Error (''cert key failed: '' @ domain @ '': '' @ the (stat_err keyPath (os_Stat (le_fault env) keyPath fs))))
      else if stat_err certPath (os_Stat (le_fault env) certPath fs) \<noteq> None then
        Inl (Error (''cert cert failed: '' @ domain @ '': '' @ the (stat_err certPath (os_Stat (le_fault env) certPath fs))))
      else case filepath_Abs env keyPath of
        Inl e \<Rightarrow> Inl e
      | Inr absKeyPath \<Rightarrow>
          (case filepath_Abs env certPath of Inl e \<Rightarrow> Inl e | Inr absCertPath \<Rightarrow> Inr (absCertPath, absKeyPath)))"

text \<open>\<open>HTTPCert\<close>, and the part of \<open>DNSCert\<close> after its environment is set: look, run, look again.\<close>

definition issue :: "('w, 'r, 'k, 'cl) lego_env \<Rightarrow> LegoCMD \<Rightarrow> ('w lego_state, (string \<times> string) result) call" where
  "issue env l =
     bind (see_fs (checkCertFile env l (cc_CertDomain (lc_C l)))) (\<lambda>found.
       case found of
         Inr paths \<Rightarrow> ret (Inr paths)
       | Inl _ \<Rightarrow>
           bind (lego_Run env l) (\<lambda>r.
             case r of Inl e \<Rightarrow> ret (Inl e) | Inr _ \<Rightarrow> see_fs (checkCertFile env l (cc_CertDomain (lc_C l)))))"

definition HTTPCert :: "('w, 'r, 'k, 'cl) lego_env \<Rightarrow> LegoCMD \<Rightarrow> 'w lego_state \<Rightarrow> (string \<times> string) result \<times> 'w lego_state" where
  "HTTPCert env l s = recovered (issue env l) s"

definition ToUpper :: "string \<Rightarrow> string" where
  "ToUpper s = map (\<lambda>c. let n = of_char c :: nat in if 97 \<le> n \<and> n \<le> 122 then char_of (n - 32) else c) s"

definition DNSCert :: "('w, 'r, 'k, 'cl) lego_env \<Rightarrow> LegoCMD \<Rightarrow> 'w lego_state \<Rightarrow> (string \<times> string) result \<times> 'w lego_state" where
  "DNSCert env l s =
     (let s' = s\<lparr>ls_environ := foldl (\<lambda>m (key, value). store (ToUpper key) value m) (ls_environ s) (cc_DNSEnv (lc_C l))\<rparr>
      in recovered (issue env l) s')"

section \<open>Renewing\<close>

text \<open>
  \<open>time.Until\<close> saturates at the bounds of \<open>int64\<close> nanoseconds; \<open>Hours\<close> adds the whole hours and the
  rest as \<open>float64\<close>.
\<close>

definition time_Until :: "int \<Rightarrow> int \<Rightarrow> int" where
  "time_Until t now = max int_min (min int_max (t - now))"

definition duration_Hours :: "int \<Rightarrow> float64" where
  "duration_Hours d =
     (let hour = 3600 * 10 ^ 9; h = go_div d hour in
      f64_round (f64_round (of_int h) + f64_round (f64_round (of_int (d - h * hour)) / of_int hour)))"

definition int_of_float64 :: "float64 \<Rightarrow> int" where
  "int_of_float64 x = (if 0 \<le> x then \<lfloor>x\<rfloor> else \<lceil>x\<rceil>)"

definition needRenewal :: "int \<Rightarrow> x509_Certificate \<Rightarrow> string \<Rightarrow> int \<Rightarrow> bool outcome" where
  "needRenewal now x509Cert domain days =
     (if x5_IsCA x509Cert then Panic (''['' @ domain @ ''] Certificate bundle starts with a CA certificate'')
      else if days \<ge> 0 \<and> int_of_float64 (f64_round (duration_Hours (time_Until (x5_NotAfter x509Cert) now) / 24)) > days
      then Ret False
      else Ret True)"

definition renewForDomains :: "('w, 'r, 'k, 'cl) lego_env \<Rightarrow> string \<Rightarrow> 'cl \<Rightarrow> CertificatesStorage \<Rightarrow> ('w lego_state, bool result) call" where
  "renewForDomains env domain client certsStorage =
     bind (must (\<lambda>e. ''Error while loading the certificate for domain '' @ domain @ nl_tab @ go_error_text e)
             (cs_ReadCertificate env certsStorage domain ''.crt'')) (\<lambda>certificates.
       case certificates of
         [] \<Rightarrow> panic ''runtime error: index out of range [0] with length 0''
       | cert # _ \<Rightarrow>
           bind (\<lambda>s. (needRenewal (le_now env (ls_world s)) cert domain 30, s)) (\<lambda>due.
             if \<not> due then ret (Inr False)
             else
               bind (must go_error_text (on_world (le_obtain env client (x5_Domains cert)))) (\<lambda>certRes.
               bind (SaveResource env certsStorage certRes) (\<lambda>_. ret (Inr True)))))"

definition lego_Renew :: "('w, 'r, 'k, 'cl) lego_env \<Rightarrow> LegoCMD \<Rightarrow> ('w lego_state, bool result) call" where
  "lego_Renew env l =
     bind (NewAccountsStorage env l) (\<lambda>accountsStorage.
     bind (lego_setup env accountsStorage) (\<lambda>(account, client0).
     bind (setupChallenges env l client0) (\<lambda>client.
       if ac_Registration account = None then
         panic (''Account '' @ ac_Email account @ '' is not registered. Use 'run' to register a new account.'' @ [CHR 0x0A])
       else renewForDomains env (cc_CertDomain (lc_C l)) client (NewCertificatesStorage (lc_path l)))))"

definition RenewCert ::
    "('w, 'r, 'k, 'cl) lego_env \<Rightarrow> LegoCMD \<Rightarrow> 'w lego_state \<Rightarrow> ((string \<times> string) \<times> bool \<times> go_error option) \<times> 'w lego_state" where
  "RenewCert env l s =
     (case lego_Renew env l s of
        (Panic msg, s') \<Rightarrow> ((('''', ''''), False, Some (Error msg)), s')
      | (Ret (Inl e), s') \<Rightarrow> ((('''', ''''), False, Some e), s')
      | (Ret (Inr ok), s') \<Rightarrow>
          (case checkCertFile env l (cc_CertDomain (lc_C l)) (ls_fs s') of
             Inl e \<Rightarrow> ((('''', ''''), ok, Some e), s')
           | Inr paths \<Rightarrow> ((paths, ok, None), s')))"

end
