(* ===== verification/Cert_Properties.thy ===== *)
theory Cert_Properties
  imports Certificates
begin

text \<open>
  Issuing a certificate: for an ordinary domain the only errors are those of the certificate
  authority and of the file system, and an issued certificate is found again. For a wildcard domain
  the files are stored under another name than the one that is looked up.
\<close>

section \<open>Returning calls\<close>

lemma bind_RetE:
  assumes "bind m k s = (Ret y, s'')"
  obtains x s' where "m s = (Ret x, s')" and "k x s' = (Ret y, s'')"
  using assms unfolding bind_def by (auto split: prod.splits outcome.splits)

lemma must_RetE:
  assumes "must msg m s = (Ret x, s')"
  shows "m s = (Ret (Inr x), s')"
  using assms unfolding must_def by (auto elim!: bind_RetE split: sum.splits)

lemma stat_err_None [simp]: "stat_err p st = None \<longleftrightarrow> st = StatOk"
  by (simp add: stat_err_def split: stat.splits)

lemma checkCertFile_found:
  assumes "os_Stat (le_fault env) (cert_key_path l d) fs = StatOk"
    and "os_Stat (le_fault env) (cert_crt_path l d) fs = StatOk" and "le_Getwd env = Inr wd"
  obtains paths where "checkCertFile env l d fs = Inr paths"
proof -
  have "\<exists>q. filepath_Abs env p = Inr q" for p
    using assms(3) by (simp add: filepath_Abs_def)
  then obtain k c where "filepath_Abs env (cert_key_path l d) = Inr k" "filepath_Abs env (cert_crt_path l d) = Inr c"
    by blast
  with assms that show thesis by (simp add: checkCertFile_def)
qed

section \<open>Saving a certificate\<close>

lemma os_WriteFile_Inr:
  assumes "os_WriteFile fault p c fs = (Inr u, fs')"
  shows "load (fs_files fs') q = (if q = p then Some c else load (fs_files fs) q)"
  using assms unfolding os_WriteFile_def os_Create_def write_open_def
  by (auto simp: load_store split: option.splits if_splits)

lemma save_part_Ret:
  assumes "le_ToASCII env (ReplaceAllChar d (CHR ''*'') (CHR ''_'')) = Inr safe"
    and "save_part env cs what d ext data s = (Ret u, s')"
  shows "load (fs_files (ls_fs s')) q
    = (if q = path_Join [cs_rootPath cs, safe @ ext] then Some data else load (fs_files (ls_fs s)) q)"
proof -
  from assms have "on_fs (os_WriteFile (le_fault env) (path_Join [cs_rootPath cs, safe @ ext]) data) s = (Ret (Inr u), s')"
    unfolding save_part_def cs_WriteFile_def sanitizedDomain_def
    by (auto simp: must_def elim!: bind_RetE split: sum.splits)
  then obtain fs' where "os_WriteFile (le_fault env) (path_Join [cs_rootPath cs, safe @ ext]) data (ls_fs s) = (Inr u, fs')"
    "ls_fs s' = fs'"
    unfolding on_fs_def by (auto split: prod.splits)
  then show ?thesis by (simp add: os_WriteFile_Inr)
qed

lemma storage_paths_differ:
  assumes "slash \<notin> set e1" "slash \<notin> set e2" "2 < length e1" "2 < length e2" "e1 \<noteq> e2"
  shows "path_Join [base, safe @ e1] \<noteq> path_Join [base, safe @ e2]"
proof
  assume "path_Join [base, safe @ e1] = path_Join [base, safe @ e2]"
  then have "path_last safe @ e1 = path_last safe @ e2"
    using assms by (metis path_last_Join plain_extension)
  with assms show False by simp
qed

lemma SaveResource_files:
  assumes ascii: "le_ToASCII env (ReplaceAllChar (cr_Domain r) (CHR ''*'') (CHR ''_'')) = Inr safe"
    and key: "cr_PrivateKey r = Some k" and "\<not> cs_pem cs" and run: "SaveResource env cs r s = (Ret u, s')"
  shows "load (fs_files (ls_fs s')) (path_Join [cs_rootPath cs, safe @ ''.crt'']) = Some (cr_Certificate r)"
    and "load (fs_files (ls_fs s')) (path_Join [cs_rootPath cs, safe @ ''.key'']) = Some k"
proof -
  have differ: "path_Join [cs_rootPath cs, safe @ ''.crt''] \<noteq> path_Join [cs_rootPath cs, safe @ ''.issuer.crt'']"
    "path_Join [cs_rootPath cs, safe @ ''.crt''] \<noteq> path_Join [cs_rootPath cs, safe @ ''.key'']"
    "path_Join [cs_rootPath cs, safe @ ''.crt''] \<noteq> path_Join [cs_rootPath cs, safe @ ''.json'']"
    "path_Join [cs_rootPath cs, safe @ ''.key''] \<noteq> path_Join [cs_rootPath cs, safe @ ''.json'']"
    by (simp_all add: storage_paths_differ del: append_same_eq)
  note parts = save_part_Ret [OF ascii]
  obtain s1 s2 s3 u1 u2 js where
    crt: "save_part env cs ''Certificate'' (cr_Domain r) ''.crt'' (cr_Certificate r) s = (Ret u1, s1)" and
    issuer: "(case cr_IssuerCertificate r of None \<Rightarrow> ret ()
              | Some issuer \<Rightarrow> save_part env cs ''IssuerCertificate'' (cr_Domain r) ''.issuer.crt'' issuer) s1 = (Ret (), s2)" and
    priv: "save_part env cs ''PrivateKey'' (cr_Domain r) ''.key'' k s2 = (Ret u2, s3)" and
    json: "save_part env cs ''CertResource'' (cr_Domain r) ''.json'' js s3 = (Ret u, s')"
    using run key \<open>\<not> cs_pem cs\<close> unfolding SaveResource_def Let_def
    by (auto elim!: bind_RetE must_RetE dest!: must_RetE)
  have issuer': "load (fs_files (ls_fs s2)) q = load (fs_files (ls_fs s1)) q"
    if "q \<noteq> path_Join [cs_rootPath cs, safe @ ''.issuer.crt'']" for q
    using issuer that by (auto simp: parts split: option.splits)
  show "load (fs_files (ls_fs s')) (path_Join [cs_rootPath cs, safe @ ''.crt'']) = Some (cr_Certificate r)"
    using parts [OF crt] parts [OF priv] parts [OF json] issuer' differ by simp
  show "load (fs_files (ls_fs s')) (path_Join [cs_rootPath cs, safe @ ''.key'']) = Some k"
    using parts [OF priv] parts [OF json] differ by simp
qed

lemma lego_Run_Ret:
  assumes "lego_Run env l s = (Ret r, s')"
  obtains client w w' cert s1 where "r = Inr ()"
    and "le_obtain env client [cc_CertDomain (lc_C l)] w = (Inr cert, w')"
    and "SaveResource env (NewCertificatesStorage (lc_path l)) cert s1 = (Ret (), s')"
  using assms unfolding lego_Run_def Let_def obtainCertificate_def on_world_def
  by (auto elim!: bind_RetE dest!: must_RetE split: prod.splits)

section \<open>An issued certificate is found\<close>

definition environ_set :: "CertConfig \<Rightarrow> 'w lego_state \<Rightarrow> 'w lego_state" where
  "environ_set c s = s\<lparr>ls_environ := foldl (\<lambda>m (key, value). store (ToUpper key) value m) (ls_environ s) (cc_DNSEnv c)\<rparr>"

lemma DNSCert_eq: "DNSCert env l s = recovered (issue env l) (environ_set (lc_C l) s)"
  by (simp add: DNSCert_def environ_set_def)

lemma environ_set_views [simp]: "ls_fs (environ_set c s) = ls_fs s" "ls_world (environ_set c s) = ls_world s"
  by (simp_all add: environ_set_def)

lemma issue_eq:
  "issue env l s =
     (case checkCertFile env l (cc_CertDomain (lc_C l)) (ls_fs s) of
        Inr paths \<Rightarrow> (Ret (Inr paths), s)
      | Inl _ \<Rightarrow>
          (case lego_Run env l s of
             (Panic msg, s') \<Rightarrow> (Panic msg, s')
           | (Ret (Inl e), s') \<Rightarrow> (Ret (Inl e), s')
           | (Ret (Inr _), s') \<Rightarrow> (Ret (checkCertFile env l (cc_CertDomain (lc_C l)) (ls_fs s')), s')))"
  by (auto simp: issue_def bind_def see_fs_def split: sum.splits prod.splits outcome.splits)

lemma ReplaceAllChar_notin: "a \<notin> set s \<Longrightarrow> ReplaceAllChar s a b = s"
  unfolding ReplaceAllChar_def by (induction s) auto

lemma storage_path: "path_Join [cs_rootPath (NewCertificatesStorage p), f] = path_Join [p, ''certificates'', f]"
  by (simp add: NewCertificatesStorage_def path_Join_Join)

lemma Run_found:
  assumes stat: "\<forall>p. le_fault env OpStat p = None" and wd: "le_Getwd env = Inr wd"
    and domain: "CHR ''*'' \<notin> set d" "le_ToASCII env d = Inr d" "d = cc_CertDomain (lc_C l)"
    and ca: "\<forall>cl w r w'. le_obtain env cl [d] w = (Inr r, w') \<longrightarrow> cr_Domain r = d \<and> cr_PrivateKey r \<noteq> None"
    and run: "lego_Run env l s = (Ret r, s')"
  obtains paths where "r = Inr ()" "checkCertFile env l d (ls_fs s') = Inr paths"
proof -
  obtain client w w' cert s1 where "r = Inr ()" and o: "le_obtain env client [d] w = (Inr cert, w')"
    and save: "SaveResource env (NewCertificatesStorage (lc_path l)) cert s1 = (Ret (), s')"
    using lego_Run_Ret [OF run] domain(3) by metis
  then obtain k where cert: "cr_Domain cert = d" "cr_PrivateKey cert = Some k" using ca by blast
  have pem: "\<not> cs_pem (NewCertificatesStorage (lc_path l))" by (simp add: NewCertificatesStorage_def)
  have ascii: "le_ToASCII env (ReplaceAllChar (cr_Domain cert) (CHR ''*'') (CHR ''_'')) = Inr d"
    using cert(1) domain by (simp add: ReplaceAllChar_notin)
  have "load (fs_files (ls_fs s')) (cert_crt_path l d) = Some (cr_Certificate cert)"
    "load (fs_files (ls_fs s')) (cert_key_path l d) = Some k"
    using SaveResource_files [OF ascii cert(2) pem save]
    by (simp_all add: storage_path cert_crt_path_def cert_key_path_def)
  then show thesis
    using that stat wd \<open>r = Inr ()\<close> checkCertFile_found [of env l d "ls_fs s'" wd] by (force simp: os_Stat_def)
qed

text \<open>
  C22. For a domain without a wildcard that is its own ASCII form, when the certificate authority
  answers with a key for the domain it was asked for, \<open>DNSCert\<close> fails only with the text of a panic
  while it was issuing. When it succeeds, the next call finds the same files and neither writes a
  file nor asks the authority again.
\<close>

theorem issued_certificate_reused:
  assumes stat: "\<forall>p. le_fault env OpStat p = None" and wd: "le_Getwd env = Inr wd"
    and domain: "CHR ''*'' \<notin> set d" "le_ToASCII env d = Inr d" "d = cc_CertDomain (lc_C l)"
    and ca: "\<forall>cl w r w'. le_obtain env cl [d] w = (Inr r, w') \<longrightarrow> cr_Domain r = d \<and> cr_PrivateKey r \<noteq> None"
    and call: "DNSCert env l s = (r, s')"
  shows "(\<exists>msg s1. r = Inl (Error msg) \<and> lego_Run env l (environ_set (lc_C l) s) = (Panic msg, s1)) \<or>
    (\<exists>paths s''. r = Inr paths \<and> DNSCert env l s' = (Inr paths, s'') \<and> ls_fs s'' = ls_fs s' \<and> ls_world s'' = ls_world s')"
proof -
  let ?s = "environ_set (lc_C l) s"
  have reuse: "\<exists>s''. DNSCert env l s' = (Inr paths, s'') \<and> ls_fs s'' = ls_fs s' \<and> ls_world s'' = ls_world s'"
    if "checkCertFile env l d (ls_fs s') = Inr paths" for paths
    using that domain(3) by (simp add: DNSCert_eq recovered_def issue_eq)
  show ?thesis
  proof (cases "checkCertFile env l d (ls_fs ?s)")
    case (Inr paths)
    with call domain(3) have "r = Inr paths" "s' = ?s"
      by (simp_all add: DNSCert_eq recovered_def issue_eq)
    with Inr reuse show ?thesis by simp
  next
    case (Inl e)
    obtain out s1 where run: "lego_Run env l ?s = (out, s1)" by (cases "lego_Run env l ?s")
    show ?thesis
    proof (cases out)
      case (Panic msg)
      with Inl run call domain(3) show ?thesis
        by (auto simp: DNSCert_eq recovered_def issue_eq)
    next
      case (Ret res)
      with run obtain paths where "res = Inr ()" and paths: "checkCertFile env l d (ls_fs s1) = Inr paths"
        using Run_found [OF stat wd domain ca] by blast
      with Ret Inl run call domain(3) have "r = Inr paths" "s' = s1"
        by (auto simp: DNSCert_eq recovered_def issue_eq)
      with paths reuse show ?thesis by blast
    qed
  qed
qed

section \<open>Wildcard domains\<close>

lemma keeps_bind_Ret: "keeps P m \<Longrightarrow> (\<And>x s s'. m s = (Ret x, s') \<Longrightarrow> keeps P (k x)) \<Longrightarrow> keeps P (bind m k)"
  unfolding keeps_def bind_def by (auto split: prod.splits outcome.splits)

definition no_entry :: "string \<Rightarrow> 'w lego_state \<Rightarrow> bool" where
  "no_entry p s \<longleftrightarrow> load (fs_files (ls_fs s)) p = None \<and> \<not> is_dir (ls_fs s) p"

lemma keeps_see_fs [keeps_rules]: "keeps P (see_fs f)"
  by (simp add: keeps_def see_fs_def)

lemma keeps_on_world [keeps_rules]: "keeps (no_entry p) (on_world f)"
  by (simp add: keeps_def on_world_def no_entry_def split: prod.splits)

lemma keeps_Create [keeps_rules]: "q \<noteq> p \<Longrightarrow> keeps (no_entry p) (on_fs (os_Create fault q))"
  by (auto simp: keeps_def on_fs_def os_Create_def no_entry_def is_dir_def load_store split: prod.splits option.splits if_splits)

lemma keeps_write_open [keeps_rules]: "q \<noteq> p \<Longrightarrow> keeps (no_entry p) (on_fs (write_open fault q c))"
  by (auto simp: keeps_def on_fs_def write_open_def no_entry_def is_dir_def load_store split: prod.splits option.splits)

lemma keeps_WriteFile [keeps_rules]: "q \<noteq> p \<Longrightarrow> keeps (no_entry p) (on_fs (os_WriteFile fault q c))"
  by (auto simp: keeps_def on_fs_def os_WriteFile_def os_Create_def write_open_def no_entry_def is_dir_def load_store
      split: prod.splits option.splits if_splits sum.splits)

lemma keeps_MkdirAll [keeps_rules]: "p \<notin> set (ancestors q) \<Longrightarrow> keeps (no_entry p) (on_fs (os_MkdirAll fault q))"
  by (auto simp: keeps_def on_fs_def os_MkdirAll_def no_entry_def is_dir_def split: prod.splits option.splits)

abbreviation star :: char where "star \<equiv> CHR ''*''"

lemma ancestors_free:
  assumes "star \<notin> set q" "a \<in> set (ancestors q)"
  shows "star \<notin> set a"
proof -
  have "\<forall>w\<in>set (take n (SplitChar q slash)). star \<notin> set w" for n
    using SplitChar_free [OF assms(1), of slash] by (meson in_set_takeD)
  then have "star \<notin> set (JoinStr (take n (SplitChar q slash)) [slash])" for n
    by (intro JoinStr_free) auto
  with assms(2) show ?thesis by (auto simp: ancestors_def Let_def)
qed

lemma Join_free: "star \<notin> set a \<Longrightarrow> star \<notin> set b \<Longrightarrow> star \<notin> set (path_Join [a, b])"
  by (rule path_Join_free) simp_all

definition storage_free :: "AccountsStorage \<Rightarrow> bool" where
  "storage_free a \<longleftrightarrow> star \<notin> set (as_userID a) \<and> star \<notin> set (as_rootUserPath a) \<and> star \<notin> set (as_keysPath a) \<and>
     star \<notin> set (as_accountFilePath a)"

lemma keeps_folder [keeps_rules]:
  "star \<in> set p \<Longrightarrow> star \<notin> set q \<Longrightarrow> keeps (no_entry p) (createNonExistingFolder env q)"
  unfolding createNonExistingFolder_def
  by (auto intro!: keeps_rules dest: ancestors_free split: stat.split)

lemma keeps_Save [keeps_rules]: "star \<in> set p \<Longrightarrow> storage_free a \<Longrightarrow> keeps (no_entry p) (as_Save env a acc)"
  unfolding as_Save_def storage_free_def by (auto intro!: keeps_rules split: sum.split)

lemma keeps_recover [keeps_rules]: "keeps (no_entry p) (tryRecoverRegistration env k)"
  unfolding tryRecoverRegistration_def by (auto intro!: keeps_rules split: sum.split)

lemma keeps_LoadAccount [keeps_rules]: "star \<in> set p \<Longrightarrow> storage_free a \<Longrightarrow> keeps (no_entry p) (LoadAccount env a k)"
  unfolding LoadAccount_def Let_def by (auto intro!: keeps_rules split: prod.split)

lemma keeps_generate [keeps_rules]: "q \<noteq> p \<Longrightarrow> keeps (no_entry p) (generatePrivateKey env q)"
  unfolding generatePrivateKey_def by (auto intro!: keeps_rules split: sum.split)

lemma keeps_loadKey [keeps_rules]: "keeps (no_entry p) (loadPrivateKey env q)"
  unfolding loadPrivateKey_def by (auto intro!: keeps_rules split: sum.split option.split)

lemma keeps_GetPrivateKey [keeps_rules]:
  assumes "star \<in> set p" "storage_free a"
  shows "keeps (no_entry p) (as_GetPrivateKey env a)"
proof -
  have "star \<notin> set (path_Join [as_keysPath a, as_userID a @ ''.key''])"
    using assms(2) by (intro Join_free) (simp_all add: storage_free_def)
  with assms show ?thesis
    unfolding as_GetPrivateKey_def Let_def storage_free_def by (auto intro!: keeps_rules)
qed

lemma keeps_exists [keeps_rules]: "keeps (no_entry p) (ExistsAccountFilePath env a)"
  unfolding ExistsAccountFilePath_def by (auto intro!: keeps_rules split: stat.split)

lemma keeps_setup [keeps_rules]: "star \<in> set p \<Longrightarrow> storage_free a \<Longrightarrow> keeps (no_entry p) (lego_setup env a)"
  unfolding lego_setup_def newClient_def by (auto intro!: keeps_rules)

lemma keeps_setupChallenges [keeps_rules]: "keeps (no_entry p) (setupChallenges env l cl)"
  unfolding keeps_def setupChallenges_def must_def bind_def by (auto split: sum.splits)

lemma keeps_save_part [keeps_rules]:
  assumes "star \<in> set p" "star \<notin> set (cs_rootPath cs)" "star \<notin> set ext"
    and ascii: "\<forall>s t. le_ToASCII env s = Inr t \<longrightarrow> star \<notin> set s \<longrightarrow> star \<notin> set t"
  shows "keeps (no_entry p) (save_part env cs what d ext data)"
proof -
  have replaced: "star \<notin> set (ReplaceAllChar d star (CHR ''_''))"
    by (auto simp: ReplaceAllChar_def split: if_splits)
  have "keeps (no_entry p) (case le_ToASCII env (ReplaceAllChar d star (CHR ''_'')) of
      Inl e \<Rightarrow> panic (go_error_text e)
    | Inr safe \<Rightarrow> on_fs (os_WriteFile (le_fault env) (path_Join [cs_rootPath cs, safe @ ext]) data))"
  proof (cases "le_ToASCII env (ReplaceAllChar d star (CHR ''_''))")
    case (Inr safe)
    with ascii replaced have "star \<notin> set safe" by blast
    then have "star \<notin> set (path_Join [cs_rootPath cs, safe @ ext])"
      using assms by (intro Join_free) simp_all
    with Inr assms(1) show ?thesis by (auto intro!: keeps_rules)
  qed (simp add: keeps_rules)
  then have "keeps (no_entry p) (cs_WriteFile env cs d ext data)"
    unfolding cs_WriteFile_def sanitizedDomain_def must_def keeps_def bind_def by (auto split: sum.splits)
  then show ?thesis
    unfolding save_part_def by (rule keeps_must)
qed

lemma keeps_SaveResource [keeps_rules]:
  assumes "star \<in> set p" "star \<notin> set (cs_rootPath cs)"
    and "\<forall>s t. le_ToASCII env s = Inr t \<longrightarrow> star \<notin> set s \<longrightarrow> star \<notin> set t"
  shows "keeps (no_entry p) (SaveResource env cs r)"
proof -
  have part: "keeps (no_entry p) (save_part env cs what (cr_Domain r) ext data)" if "star \<notin> set ext" for what ext data
    using keeps_save_part [OF assms(1,2) that assms(3)] .
  show ?thesis
    unfolding SaveResource_def Let_def by (intro keeps_bind keeps_must keeps_ret part) (auto intro!: keeps_rules part split: option.split)
qed

lemma NewAccountsStorage_free:
  assumes "star \<notin> set (lc_path l)" "star \<notin> set (cc_Email (lc_C l))" "\<forall>h. le_server_host env = Inr h \<longrightarrow> star \<notin> set h"
    and "NewAccountsStorage env l s = (Ret a, s')"
  shows "storage_free a \<and> s' = s"
proof -
  obtain h where h: "le_server_host env = Inr h"
    using assms(4) by (cases "le_server_host env") (simp_all add: NewAccountsStorage_def)
  have "star \<notin> set (ReplaceAllChar h (CHR '':'') (CHR ''_''))"
    using assms(3) h by (auto simp: ReplaceAllChar_def split: if_splits)
  then show ?thesis
    using assms h by (auto simp: NewAccountsStorage_def Let_def storage_free_def Join_free)
qed

lemma keeps_Run:
  assumes "star \<in> set p" "star \<notin> set (lc_path l)" "star \<notin> set (cc_Email (lc_C l))"
    and host: "\<forall>h. le_server_host env = Inr h \<longrightarrow> star \<notin> set h"
    and ascii: "\<forall>s t. le_ToASCII env s = Inr t \<longrightarrow> star \<notin> set s \<longrightarrow> star \<notin> set t"
  shows "keeps (no_entry p) (lego_Run env l)"
proof -
  have free: "star \<notin> set (cs_rootPath (NewCertificatesStorage (lc_path l)))"
    unfolding NewCertificatesStorage_def using assms(2) by (simp add: Join_free)
  have accounts: "keeps (no_entry p) (NewAccountsStorage env l)"
    unfolding NewAccountsStorage_def Let_def by (auto intro!: keeps_rules split: sum.split)
  show ?thesis
    unfolding lego_Run_def Let_def
  proof (rule keeps_bind_Ret [OF accounts])
    fix a s s'
    assume "NewAccountsStorage env l s = (Ret a, s')"
    then have "storage_free a" using NewAccountsStorage_free assms(2,3) host by blast
    with assms(1) free ascii show "keeps (no_entry p) (bind (lego_setup env a) (\<lambda>(account, client0).
        bind (setupChallenges env l client0) (\<lambda>client.
        bind (case ac_Registration account of
                Some _ \<Rightarrow> ret ()
              | None \<Rightarrow>
                  bind (must (\<lambda>e. ''Could not complete registration'' @ nl_tab @ go_error_text e) (on_world (le_register env client))) (\<lambda>reg.
                    must go_error_text (as_Save env a (account\<lparr>ac_Registration := Some reg\<rparr>)))) (\<lambda>_.
          bind (CreateRootFolder env (NewCertificatesStorage (lc_path l))) (\<lambda>_.
          bind (must (\<lambda>e. ''Could not obtain certificates:'' @ nl_tab @ go_error_text e)
                  (obtainCertificate env [cc_CertDomain (lc_C l)] client)) (\<lambda>cert.
          bind (SaveResource env (NewCertificatesStorage (lc_path l)) cert) (\<lambda>_. ret (Inr ()))))))))"
      unfolding CreateRootFolder_def obtainCertificate_def
      by (auto intro!: keeps_rules split: option.split prod.split)
  qed
qed

lemma key_path_star:
  assumes "star \<in> set d" "slash \<notin> set d"
  shows "star \<in> set (cert_key_path l d)"
proof -
  have eq: "cert_key_path l d = path_Join [lc_path l, ''certificates/'' @ d @ ''.key'']"
    by (simp add: cert_key_path_def path_Join_def)
  have last: "path_last (''certificates/'' @ d @ ''.key'') = d @ ''.key''"
    using path_last_append [of "''certificates''" "d @ ''.key''"] assms(2) by (simp add: path_last_def SplitChar_notin)
  have "plain_element (path_last (''certificates/'' @ d @ ''.key''))"
    using plain_extension(1) [of "''.key''" "''certificates/'' @ d"] by simp
  then have "path_last (cert_key_path l d) = d @ ''.key''"
    unfolding eq by (simp only: path_last_Join last)
  moreover have "set (path_last q) \<subseteq> set q" for q
  proof
    fix c assume c: "c \<in> set (path_last q)"
    have "path_last q \<in> set (SplitChar q slash)" by (simp add: path_last_def)
    with c SplitChar_free [of c q slash] show "c \<in> set q" by blast
  qed
  ultimately show ?thesis using assms(1) by (metis Un_iff set_append subsetD)
qed

text \<open>
  C23. For a wildcard domain \<open>DNSCert\<close> always fails: the files are stored under the domain with \<open>_\<close>
  for \<open>*\<close> and looked up under the domain itself. If issuing went through, the certificate authority
  has issued a certificate that is lost, and so it is at every later call.
\<close>

theorem wildcard_certificate_lost:
  assumes domain: "d = cc_CertDomain (lc_C l)" "CHR ''*'' \<in> set d" "CHR ''/'' \<notin> set d"
    and "CHR ''*'' \<notin> set (lc_path l)" "CHR ''*'' \<notin> set (cc_Email (lc_C l))"
    and "\<forall>h. le_server_host env = Inr h \<longrightarrow> CHR ''*'' \<notin> set h"
    and "\<forall>s t. le_ToASCII env s = Inr t \<longrightarrow> CHR ''*'' \<notin> set s \<longrightarrow> CHR ''*'' \<notin> set t"
    and absent: "no_entry (cert_key_path l d) s"
    and call: "DNSCert env l s = (r, s')"
  shows "(\<exists>e. r = Inl e) \<and> no_entry (cert_key_path l d) s' \<and>
    (\<forall>res s1. lego_Run env l (environ_set (lc_C l) s) = (Ret res, s1) \<longrightarrow>
       (\<exists>client w w' cert. le_obtain env client [d] w = (Inr cert, w')))"
proof -
  let ?s = "environ_set (lc_C l) s"
  have keep: "keeps (no_entry (cert_key_path l d)) (lego_Run env l)"
    using assms(2-7) by (intro keeps_Run key_path_star) auto
  have lookup: "\<exists>e. checkCertFile env l d (ls_fs t) = Inl e" if "no_entry (cert_key_path l d) t" for t :: "'a lego_state"
    using that by (auto simp: checkCertFile_def Let_def no_entry_def os_Stat_def split: option.splits)
  have s: "no_entry (cert_key_path l d) ?s" using absent by (simp add: no_entry_def)
  obtain out s1 where run: "lego_Run env l ?s = (out, s1)" by (cases "lego_Run env l ?s")
  have s1: "no_entry (cert_key_path l d) s1" using keepsD [OF keep s run] .
  obtain e e1 where e: "checkCertFile env l d (ls_fs s) = Inl e" "checkCertFile env l d (ls_fs s1) = Inl e1"
    using lookup [OF absent] lookup [OF s1] by blast
  have "s' = s1 \<and> (\<exists>e. r = Inl e)"
    using call run e domain(1) by (auto simp: DNSCert_eq recovered_def issue_eq split: outcome.splits sum.splits; metis)
  moreover have "\<exists>client w w' cert. le_obtain env client [d] w = (Inr cert, w')" if "lego_Run env l ?s = (Ret res, s1)" for res s1
    using lego_Run_Ret [OF that] domain(1) by metis
  ultimately show ?thesis using s1 by blast
qed

section \<open>An example\<close>

definition example_lego :: "(nat, unit, unit, unit) lego_env" where
  "example_lego =
     \<lparr>le_fault = \<lambda>_ _. None, le_Getwd = Inr ''/w'', le_server_host = Inr ''ca:1'', le_ToASCII = Inr,
      le_marshal_account = \<lambda>_. Inr ''{}'', le_unmarshal_account = \<lambda>_. Inr (''e'', Some ()),
      le_marshal_resource = \<lambda>_. Inr ''{}'', le_unmarshal_resource = \<lambda>_. Inl (Error ''''), le_status = \<lambda>_. ''valid'',
      le_generate_key = \<lambda>w. (Inr (), w), le_pem_encode = \<lambda>_. ''k'', le_pem_decode = \<lambda>_. Some (''EC PRIVATE KEY'', ''k''),
      le_parse_pkcs1 = \<lambda>_. Inr (), le_parse_ec = \<lambda>_. Inr (), le_parse_bundle = \<lambda>_. Inl (Error ''''),
      le_NewClient = \<lambda>_ w. (Inr (), w), le_set_http01 = Inr, le_set_tlsalpn01 = Inr, le_set_dns01 = \<lambda>_ _. Inr,
      le_register = \<lambda>_ w. (Inr (), w), le_resolve = \<lambda>_ w. (Inr (), w),
      le_obtain = \<lambda>_ ds w. (Inr \<lparr>cr_Domain = hd ds, cr_PrivateKey = Some ''k'', cr_Certificate = ''c'', cr_IssuerCertificate = None\<rparr>, Suc w),
      le_now = \<lambda>w. int w\<rparr>"

definition example_cmd :: "string \<Rightarrow> LegoCMD" where
  "example_cmd d =
     \<lparr>lc_C = \<lparr>cc_CertMode = ''dns'', cc_CertDomain = d, cc_CertFile = '''', cc_KeyFile = '''', cc_Provider = ''p'',
              cc_Email = ''e'', cc_DNSEnv = [(''k'', ''v'')], cc_RejectUnknownSni = False\<rparr>, lc_path = ''/cert''\<rparr>"

definition example_disk :: "nat lego_state" where
  "example_disk = \<lparr>ls_fs = \<lparr>fs_files = [], fs_dirs = []\<rparr>, ls_environ = [], ls_world = 0\<rparr>"

lemma example_issued:
  "fst (DNSCert example_lego (example_cmd ''a.b'') example_disk) = Inr (''/cert/certificates/a.b.crt'', ''/cert/certificates/a.b.key'')"
  by code_simp

lemma example_wildcard_run:
  "(case lego_Run example_lego (example_cmd ''*.b'') (environ_set (lc_C (example_cmd ''*.b'')) example_disk) of
      (Ret _, s') \<Rightarrow> ls_world s' = 1 | _ \<Rightarrow> False)"
  by code_simp

lemma example_lego_views:
  "le_fault example_lego = (\<lambda>_ _. None)" "le_Getwd example_lego = Inr ''/w''" "le_server_host example_lego = Inr ''ca:1''"
  "le_ToASCII example_lego = Inr"
  "le_obtain example_lego cl ds w
     = (Inr \<lparr>cr_Domain = hd ds, cr_PrivateKey = Some ''k'', cr_Certificate = ''c'', cr_IssuerCertificate = None\<rparr>, Suc w)"
  "cc_CertDomain (lc_C (example_cmd d)) = d" "cc_Email (lc_C (example_cmd d)) = ''e''" "lc_path (example_cmd d) = ''/cert''"
  by (simp_all add: example_lego_def example_cmd_def)

text \<open>Two calls for an ordinary domain: the second reuses the files of the first.\<close>

theorem issued_certificate_reused_witness:
  "\<exists>s' s''. DNSCert example_lego (example_cmd ''a.b'') example_disk
      = (Inr (''/cert/certificates/a.b.crt'', ''/cert/certificates/a.b.key''), s') \<and>
    DNSCert example_lego (example_cmd ''a.b'') s'
      = (Inr (''/cert/certificates/a.b.crt'', ''/cert/certificates/a.b.key''), s'') \<and> ls_world s'' = ls_world s'"
proof -
  obtain r s' where call: "DNSCert example_lego (example_cmd ''a.b'') example_disk = (r, s')"
    by (cases "DNSCert example_lego (example_cmd ''a.b'') example_disk")
  with example_issued have r: "r = Inr (''/cert/certificates/a.b.crt'', ''/cert/certificates/a.b.key'')" by simp
  have "(\<exists>msg s1. r = Inl (Error msg) \<and>
       lego_Run example_lego (example_cmd ''a.b'') (environ_set (lc_C (example_cmd ''a.b'')) example_disk) = (Panic msg, s1)) \<or>
    (\<exists>paths s''. r = Inr paths \<and> DNSCert example_lego (example_cmd ''a.b'') s' = (Inr paths, s'') \<and>
       ls_fs s'' = ls_fs s' \<and> ls_world s'' = ls_world s')"
    by (rule issued_certificate_reused [OF _ _ _ _ _ _ call, of "''/w''" "''a.b''"]) (simp_all add: example_lego_views)
  with call show ?thesis unfolding r by blast
qed

text \<open>A wildcard domain: the authority issues, the call fails.\<close>

theorem wildcard_certificate_lost_witness:
  "\<exists>e s'. DNSCert example_lego (example_cmd ''*.b'') example_disk = (Inl e, s') \<and>
     no_entry (cert_key_path (example_cmd ''*.b'') ''*.b'') s' \<and>
     (\<exists>client w w' cert. le_obtain example_lego client [''*.b''] w = (Inr cert, w'))"
proof -
  obtain r s' where call: "DNSCert example_lego (example_cmd ''*.b'') example_disk = (r, s')"
    by (cases "DNSCert example_lego (example_cmd ''*.b'') example_disk")
  obtain res s1 where run: "lego_Run example_lego (example_cmd ''*.b'') (environ_set (lc_C (example_cmd ''*.b'')) example_disk) = (Ret res, s1)"
    using example_wildcard_run by (auto split: prod.splits outcome.splits)
  have absent: "no_entry (cert_key_path (example_cmd ''*.b'') ''*.b'') example_disk"
    by code_simp
  have "(\<exists>e. r = Inl e) \<and> no_entry (cert_key_path (example_cmd ''*.b'') ''*.b'') s' \<and>
    (\<forall>res s1. lego_Run example_lego (example_cmd ''*.b'') (environ_set (lc_C (example_cmd ''*.b'')) example_disk) = (Ret res, s1) \<longrightarrow>
       (\<exists>client w w' cert. le_obtain example_lego client [''*.b''] w = (Inr cert, w')))"
    by (rule wildcard_certificate_lost [OF _ _ _ _ _ _ _ absent call]) (simp_all add: example_lego_views(3,4,6-8))
  with call run show ?thesis by blast
qed

end
