(* ===== verification/Runtime_Policy.thy ===== *)
theory Runtime_Policy
  imports Go_Paths
begin

text \<open>
  The runtime policy of the process on Linux (\<open>main/runtime_policy_linux.go\<close>): the CPU quota of the
  control group, the effective number of CPUs and the published variables. The system is a
  parameter: the files, the number of CPUs, the scheduler width and the environment.
\<close>

section \<open>The system\<close>

record system_view =
  sv_ReadFile :: "string \<Rightarrow> string option"
  sv_NumCPU :: int
  sv_GOMAXPROCS :: int
  sv_Getenv :: "string \<Rightarrow> string"

record cgroupCandidate =
  cg_path :: string
  cg_v2 :: bool

section \<open>The quota\<close>

definition owner_Enabled :: "system_view \<Rightarrow> bool" where
  "owner_Enabled sv =
     (let v = ToLower (TrimSpace (sv_Getenv sv ''XRAYR_SOCKET_OWNER'')) in
      \<not> (v = ''0'' \<or> v = ''false'' \<or> v = ''off''))"

definition parseCPUQuotaV2 :: "string \<Rightarrow> int \<times> int \<times> bool" where
  "parseCPUQuotaV2 contents =
     (let fields = Fields contents in
      if length fields \<noteq> 2 \<or> fields ! 0 = ''max'' then (0, 0, False)
      else case (ParseInt (fields ! 0) 64, ParseInt (fields ! 1) 64) of
        (Inr quota, Inr period) \<Rightarrow> if quota \<le> 0 \<or> period \<le> 0 then (0, 0, False) else (quota, period, True)
      | _ \<Rightarrow> (0, 0, False))"

abbreviation newline :: char where "newline \<equiv> CHR 0x0A"

definition line_candidates :: "string \<Rightarrow> cgroupCandidate list" where
  "line_candidates line =
     (let fields = SplitN line (CHR '':'') 3 in
      if length fields \<noteq> 3 then []
      else
        let relative = TrimPrefix (path_Clean (''/'' @ fields ! 2)) ''/'' in
        if fields ! 0 = ''0'' \<and> fields ! 1 = '''' then
          [\<lparr>cg_path = path_Join [''/sys/fs/cgroup'', relative], cg_v2 = True\<rparr>]
        else if ContainsStr ('','' @ fields ! 1 @ '','') '',cpu,'' then
          [\<lparr>cg_path = path_Join [''/sys/fs/cgroup/cpu'', relative], cg_v2 = False\<rparr>,
           \<lparr>cg_path = path_Join [''/sys/fs/cgroup/cpu,cpuacct'', relative], cg_v2 = False\<rparr>]
        else [])"

definition currentCgroupCandidates :: "system_view \<Rightarrow> cgroupCandidate list" where
  "currentCgroupCandidates sv =
     (let contents = (case sv_ReadFile sv ''/proc/self/cgroup'' of None \<Rightarrow> '''' | Some c \<Rightarrow> c) in
      concat (map line_candidates (SplitChar contents newline)) @
      [\<lparr>cg_path = ''/sys/fs/cgroup'', cg_v2 = True\<rparr>,
       \<lparr>cg_path = ''/sys/fs/cgroup/cpu'', cg_v2 = False\<rparr>,
       \<lparr>cg_path = ''/sys/fs/cgroup/cpu,cpuacct'', cg_v2 = False\<rparr>])"

fun quota_loop :: "system_view \<Rightarrow> cgroupCandidate list \<Rightarrow> int \<times> int \<times> bool" where
  "quota_loop sv [] = (0, 0, False)"
| "quota_loop sv (candidate # rest) =
     (if cg_v2 candidate then
        (case sv_ReadFile sv (path_Join [cg_path candidate, ''cpu.max'']) of
           None \<Rightarrow> quota_loop sv rest
         | Some contents \<Rightarrow> parseCPUQuotaV2 contents)
      else
        (case (sv_ReadFile sv (path_Join [cg_path candidate, ''cpu.cfs_quota_us'']),
               sv_ReadFile sv (path_Join [cg_path candidate, ''cpu.cfs_period_us''])) of
           (Some quotaContents, Some periodContents) \<Rightarrow>
             (case (ParseInt (TrimSpace quotaContents) 64, ParseInt (TrimSpace periodContents) 64) of
                (Inr quota, Inr period) \<Rightarrow>
                  if quota > 0 \<and> period > 0 then (quota, period, True) else quota_loop sv rest
              | _ \<Rightarrow> quota_loop sv rest)
         | _ \<Rightarrow> quota_loop sv rest))"

definition currentCPUQuota :: "system_view \<Rightarrow> int \<times> int \<times> bool" where
  "currentCPUQuota sv = quota_loop sv (currentCgroupCandidates sv)"

definition effectiveCPUCount :: "system_view \<Rightarrow> int" where
  "effectiveCPUCount sv =
     (let available = sv_NumCPU sv; (quota, period, ok) = currentCPUQuota sv in
      if \<not> ok \<or> quota \<le> 0 \<or> period \<le> 0 then available
      else
        let limited = go_div quota period; limited = (if limited < 1 then 1 else limited) in
        if limited < available then limited else available)"

record runtime_policy =
  rp_AutoApplied :: int
  rp_GOMAXPROCS :: int
  rp_EffectiveCPU :: int
  rp_OwnerEnabled :: int

definition applyRuntimePolicy :: "system_view \<Rightarrow> runtime_policy" where
  "applyRuntimePolicy sv =
     \<lparr>rp_AutoApplied = 0, rp_GOMAXPROCS = sv_GOMAXPROCS sv, rp_EffectiveCPU = effectiveCPUCount sv,
      rp_OwnerEnabled = (if owner_Enabled sv then 1 else 0)\<rparr>"

section \<open>Facts\<close>

lemma parseCPUQuotaV2_ok: "parseCPUQuotaV2 s = (q, p, True) \<Longrightarrow> 0 < q \<and> 0 < p"
  by (auto simp: parseCPUQuotaV2_def Let_def split: if_splits sum.splits)

lemma quota_loop_ok: "quota_loop sv cs = (q, p, True) \<Longrightarrow> 0 < q \<and> 0 < p"
  by (induction sv cs rule: quota_loop.induct) (auto dest: parseCPUQuotaV2_ok split: if_splits option.splits sum.splits)

lemma TrimPrefix_slash: "TrimPrefix (slash # p) ''/'' = p"
  by (simp add: TrimPrefix_def HasPrefix_def)

text \<open>The path of a line consists of one of the three mount points and plain elements.\<close>

definition confined :: "string \<Rightarrow> bool" where
  "confined p \<longleftrightarrow> take 4 (SplitChar p slash) = ['''', ''sys'', ''fs'', ''cgroup''] \<and> ''..'' \<notin> set (SplitChar p slash)"

lemma confined_join:
  assumes "bs \<in> {[''sys'', ''fs'', ''cgroup''], [''sys'', ''fs'', ''cgroup'', ''cpu''], [''sys'', ''fs'', ''cgroup'', ''cpu,cpuacct'']}"
  shows "confined (path_Join [slash # JoinStr bs [slash], TrimPrefix (path_Clean (slash # s)) ''/''])"
proof -
  define es where "es = clean_elements True (slash # s)"
  have es: "\<forall>e\<in>set es. plain_element e"
    unfolding es_def by (rule clean_elements_rooted)
  have bs: "bs \<noteq> []" "\<forall>b\<in>set bs. plain_element b" "take 3 bs = [''sys'', ''fs'', ''cgroup'']"
    using assms by (auto simp: plain_element_def)
  have "path_Join [slash # JoinStr bs [slash], TrimPrefix (path_Clean (slash # s)) ''/'']
      = slash # JoinStr (bs @ es) [slash]"
    using path_Join_plain [OF bs(1,2) es] by (simp add: path_Clean_rooted TrimPrefix_slash es_def)
  moreover have "SplitChar (slash # JoinStr (bs @ es) [slash]) slash = '''' # bs @ es"
    using bs es by (intro SplitChar_absolute) auto
  moreover have "take 4 ('''' # bs @ es) = ['''', ''sys'', ''fs'', ''cgroup'']"
    using assms by auto
  moreover have "''..'' \<notin> set ('''' # bs @ es)"
    using bs(2) es by (auto simp: plain_element_def)
  ultimately show ?thesis by (simp only: confined_def simp_thms)
qed

lemma confined_defaults:
  "confined ''/sys/fs/cgroup''" "confined ''/sys/fs/cgroup/cpu''" "confined ''/sys/fs/cgroup/cpu,cpuacct''"
  by (simp_all add: confined_def)

lemma line_candidates_confined: "c \<in> set (line_candidates line) \<Longrightarrow> confined (cg_path c)"
  using confined_join [of "[''sys'', ''fs'', ''cgroup'']" "SplitN line (CHR '':'') 3 ! 2"]
    confined_join [of "[''sys'', ''fs'', ''cgroup'', ''cpu'']" "SplitN line (CHR '':'') 3 ! 2"]
    confined_join [of "[''sys'', ''fs'', ''cgroup'', ''cpu,cpuacct'']" "SplitN line (CHR '':'') 3 ! 2"]
  by (auto simp: line_candidates_def Let_def split: if_splits)

text \<open>
  C26. Whatever the control-group file of the process says, every directory in which the quota is
  looked up lies below \<open>/sys/fs/cgroup\<close>, and no element of its path climbs up.
\<close>

theorem cgroup_paths_confined:
  "c \<in> set (currentCgroupCandidates sv) \<Longrightarrow>
     take 4 (SplitChar (cg_path c) slash) = ['''', ''sys'', ''fs'', ''cgroup''] \<and>
     ''..'' \<notin> set (SplitChar (cg_path c) slash)"
  using line_candidates_confined confined_defaults
  unfolding confined_def [symmetric] by (fastforce simp: currentCgroupCandidates_def Let_def)

text \<open>
  C35. The effective number of CPUs lies between one and the number of CPUs of the machine. With a
  quota it is the whole number of periods in the quota, at least one, capped by the machine.
\<close>

theorem effectiveCPUCount_bounds:
  assumes "1 \<le> sv_NumCPU sv"
  shows "1 \<le> effectiveCPUCount sv \<and> effectiveCPUCount sv \<le> sv_NumCPU sv \<and>
     (case currentCPUQuota sv of
        (quota, period, ok) \<Rightarrow>
          effectiveCPUCount sv = (if ok then min (sv_NumCPU sv) (max 1 (quota div period)) else sv_NumCPU sv))"
proof -
  obtain q p ok where eq: "currentCPUQuota sv = (q, p, ok)" by (cases "currentCPUQuota sv")
  have "ok \<Longrightarrow> 0 < q \<and> 0 < p"
    using eq quota_loop_ok unfolding currentCPUQuota_def by metis
  then show ?thesis
    using assms by (auto simp: effectiveCPUCount_def eq Let_def go_div_nonneg)
qed

section \<open>An example\<close>

text \<open>A process in a control group whose path tries to climb up, with a quota of three half periods.\<close>

definition example_system :: system_view where
  "example_system =
     \<lparr>sv_ReadFile = (\<lambda>p. if p = ''/proc/self/cgroup'' then Some ''0::/../../etc''
                        else if p = ''/sys/fs/cgroup/etc/cpu.max'' then Some ''3 2'' else None),
      sv_NumCPU = 4, sv_GOMAXPROCS = 4, sv_Getenv = (\<lambda>_. '''')\<rparr>"

theorem cgroup_paths_confined_witness:
  "\<lparr>cg_path = ''/sys/fs/cgroup/etc'', cg_v2 = True\<rparr> \<in> set (currentCgroupCandidates example_system) \<and>
   ''..'' \<notin> set (SplitChar ''/sys/fs/cgroup/etc'' slash)"
proof -
  have "\<lparr>cg_path = ''/sys/fs/cgroup/etc'', cg_v2 = True\<rparr> \<in> set (currentCgroupCandidates example_system)"
    by code_simp
  from this cgroup_paths_confined [OF this] show ?thesis unfolding cgroupCandidate.simps by blast
qed

theorem effectiveCPUCount_bounds_witness:
  "currentCPUQuota example_system = (3, 2, True) \<and> effectiveCPUCount example_system = 1"
proof -
  have "currentCPUQuota example_system = (3, 2, True)" by code_simp
  with effectiveCPUCount_bounds [of example_system] show ?thesis by (simp add: example_system_def)
qed

end
