(* ===== verification/System_Info.thy ===== *)
theory System_Info
  imports Go_Float
begin

text \<open>
  System statistics (\<open>common/serverstatus\<close>): four probes of the machine, each with its own failure. The
  probes of gopsutil and the final formatting by \<open>fmt.Errorf\<close> are parameters.
\<close>

record system_probes =
  sp_cpu :: "float64 list \<times> go_error option"
  sp_mem :: "float64 result"
  sp_disk :: "float64 result"
  sp_uptime :: "uint64 result"

record system_info =
  si_Cpu :: float64
  si_Mem :: float64
  si_Disk :: float64
  si_Uptime :: uint64

text \<open>The text of an error in \<open>%s\<close>; a nil error prints as \<open>%!s(<nil>)\<close>.\<close>

definition shown_error :: "go_error option \<Rightarrow> string" where
  "shown_error e = (case e of None \<Rightarrow> ''%!s(<nil>)'' | Some (Error s) \<Rightarrow> s)"

definition probe_error :: "string \<Rightarrow> 'a result \<Rightarrow> string" where
  "probe_error what r = (case r of Inl e \<Rightarrow> ''get '' @ what @ '' failed: '' @ shown_error (Some e) @ '' '' | Inr _ \<Rightarrow> '''')"

definition GetSystemInfo :: "(string \<Rightarrow> go_error) \<Rightarrow> system_probes \<Rightarrow> system_info \<times> go_error option" where
  "GetSystemInfo errorf sp =
     (let (cpuPercent, err) = sp_cpu sp;
          cpuOk = (cpuPercent \<noteq> [] \<and> err = None);
          errorString = (if cpuOk then '''' else ''get cpu usage failed: '' @ shown_error err @ '' '')
            @ probe_error ''mem usage'' (sp_mem sp) @ probe_error ''disk usage'' (sp_disk sp) @ probe_error ''uptime'' (sp_uptime sp)
      in (\<lparr>si_Cpu = (if cpuOk then hd cpuPercent else 0),
           si_Mem = (case sp_mem sp of Inl _ \<Rightarrow> 0 | Inr x \<Rightarrow> x),
           si_Disk = (case sp_disk sp of Inl _ \<Rightarrow> 0 | Inr x \<Rightarrow> x),
           si_Uptime = (case sp_uptime sp of Inl _ \<Rightarrow> 0 | Inr x \<Rightarrow> x)\<rparr>,
          if errorString \<noteq> '''' then Some (errorf errorString)
          else (case sp_uptime sp of Inl e \<Rightarrow> Some e | Inr _ \<Rightarrow> None)))"

text \<open>
  An error is returned exactly when a probe failed, whatever the others gave; the figures of the
  probes that worked are returned all the same.
\<close>

theorem GetSystemInfo_partial:
  "(snd (GetSystemInfo errorf sp) = None \<longleftrightarrow>
      fst (sp_cpu sp) \<noteq> [] \<and> snd (sp_cpu sp) = None \<and> (\<exists>m d u. sp_mem sp = Inr m \<and> sp_disk sp = Inr d \<and> sp_uptime sp = Inr u)) \<and>
   (\<forall>m. sp_mem sp = Inr m \<longrightarrow> si_Mem (fst (GetSystemInfo errorf sp)) = m) \<and>
   (\<forall>d. sp_disk sp = Inr d \<longrightarrow> si_Disk (fst (GetSystemInfo errorf sp)) = d)"
  by (auto simp: GetSystemInfo_def Let_def probe_error_def split: prod.split sum.split)

end
