(* ===== verification/Goroutines.thy ===== *)
theory Goroutines
  imports Main
begin

text \<open>
  Goroutines that share a state. A program is a tree of atomic actions that branch on what
  they read; the actions are what the source does under one lock or in one call of another
  component. Two periodic tasks run concurrently with an environment: an interleaving executes one
  action of one of them at a time and records the events the actions emit. The locale
  \<open>interference\<close> is the rely-guarantee rule for that: it takes a guarantee for each of the tasks,
  stated action by action with assertions that may change along the program, and gives the
  invariant over all interleavings.
\<close>

section \<open>Programs\<close>

datatype ('s, 'e) prog = Done | Act "'s \<Rightarrow> ('e list \<times> 's) \<times> ('s, 'e) prog"

text \<open>An action that returns a value to the rest of the program, with and without events.\<close>

definition emit :: "('s \<Rightarrow> 'a \<times> 'e list \<times> 's) \<Rightarrow> ('a \<Rightarrow> ('s, 'e) prog) \<Rightarrow> ('s, 'e) prog" where
  "emit f k = Act (\<lambda>s. case f s of (a, es, s') \<Rightarrow> ((es, s'), k a))"

definition act :: "('s \<Rightarrow> 'a \<times> 's) \<Rightarrow> ('a \<Rightarrow> ('s, 'e) prog) \<Rightarrow> ('s, 'e) prog" where
  "act f k = emit (\<lambda>s. case f s of (a, s') \<Rightarrow> (a, [], s')) k"

definition perform :: "('s \<Rightarrow> 's) \<Rightarrow> ('s, 'e) prog \<Rightarrow> ('s, 'e) prog" where
  "perform f k = act (\<lambda>s. ((), f s)) (\<lambda>_. k)"

definition look :: "('s \<Rightarrow> 'a) \<Rightarrow> ('a \<Rightarrow> ('s, 'e) prog) \<Rightarrow> ('s, 'e) prog" where
  "look f k = act (\<lambda>s. (f s, s)) k"

text \<open>Running a program alone.\<close>

primrec run :: "('s, 'e) prog \<Rightarrow> 's \<Rightarrow> 's" where
  "run Done = (\<lambda>s. s)"
| "run (Act f) = (\<lambda>s. case map_prod id run (f s) of ((es, s'), r) \<Rightarrow> r s')"

lemma run_emit: "run (emit f k) s = (case f s of (a, es, s') \<Rightarrow> run (k a) s')"
  by (simp add: emit_def split: prod.split)

lemma run_act: "run (act f k) s = (case f s of (a, s') \<Rightarrow> run (k a) s')"
  by (simp add: act_def run_emit split: prod.split)

lemma run_perform [simp]: "run (perform f k) s = run k (f s)"
  by (simp add: perform_def run_act)

lemma run_look [simp]: "run (look f k) s = run (k (f s)) s"
  by (simp add: look_def run_act)

section \<open>Guarantees\<close>

text \<open>
  \<open>guards J G fin a p\<close>: started under the assertion \<open>a\<close>, every action of \<open>p\<close>, in whatever state the others
  leave it that satisfies the assertion (\<open>J\<close>), keeps the guarantee \<open>G\<close>, and \<open>p\<close> ends under the assertion \<open>fin\<close>.
\<close>

inductive guards ::
    "('a \<Rightarrow> 's \<Rightarrow> bool) \<Rightarrow> ('a \<Rightarrow> 's \<Rightarrow> 'e list \<Rightarrow> 's \<Rightarrow> 'a \<Rightarrow> bool) \<Rightarrow> 'a \<Rightarrow> 'a \<Rightarrow> ('s, 'e) prog \<Rightarrow> bool"
  for J :: "'a \<Rightarrow> 's \<Rightarrow> bool" and G :: "'a \<Rightarrow> 's \<Rightarrow> 'e list \<Rightarrow> 's \<Rightarrow> 'a \<Rightarrow> bool" and fin :: 'a where
  guards_Done: "guards J G fin fin Done"
| guards_Act: "(\<And>s. J a s \<Longrightarrow> \<exists>a'. G a s (fst (fst (f s))) (snd (fst (f s))) a' \<and> guards J G fin a' (snd (f s))) \<Longrightarrow>
    guards J G fin a (Act f)"

inductive_cases guards_ActE: "guards J G fin a (Act f)"

inductive_simps guards_Done_iff [simp]: "guards J G fin a Done"

text \<open>Assertions that say nothing of the state.\<close>

abbreviation always :: "'a \<Rightarrow> 's \<Rightarrow> bool" where
  "always \<equiv> \<lambda>_ _. True"

lemma guards_emit:
  assumes "\<And>s x es s'. J a s \<Longrightarrow> f s = (x, es, s') \<Longrightarrow> \<exists>a'. G a s es s' a' \<and> guards J G fin a' (k x)"
  shows "guards J G fin a (emit f k)"
  unfolding emit_def
proof (rule guards_Act)
  fix s
  assume "J a s"
  obtain x es s' where "f s = (x, es, s')" by (metis surj_pair)
  with assms [OF \<open>J a s\<close> this] show "\<exists>a'. G a s (fst (fst (case f s of (a, es, s') \<Rightarrow> ((es, s'), k a))))
      (snd (fst (case f s of (a, es, s') \<Rightarrow> ((es, s'), k a)))) a' \<and> guards J G fin a' (snd (case f s of (a, es, s') \<Rightarrow> ((es, s'), k a)))"
    by simp
qed

lemma guards_act_cases:
  assumes "\<And>s x s'. J a s \<Longrightarrow> f s = (x, s') \<Longrightarrow> \<exists>a'. G a s [] s' a' \<and> guards J G fin a' (k x)"
  shows "guards J G fin a (act f k)"
  unfolding act_def
proof (rule guards_emit, goal_cases)
  case (1 s x es s')
  then have "f s = (x, s')" "es = []" by (auto split: prod.splits)
  with assms [OF 1(1)] show ?case by blast
qed

lemma guards_act:
  assumes "\<And>s x s'. J a s \<Longrightarrow> f s = (x, s') \<Longrightarrow> G a s [] s' a" and "\<And>x. guards J G fin a (k x)"
  shows "guards J G fin a (act f k)"
  by (rule guards_act_cases) (use assms in blast)

lemma guards_perform:
  assumes "\<And>s. J a s \<Longrightarrow> G a s [] (f s) a'" and "guards J G fin a' k"
  shows "guards J G fin a (perform f k)"
  unfolding perform_def act_def by (rule guards_emit) (use assms in auto)

lemma guards_look_cases:
  assumes "\<And>s. J a s \<Longrightarrow> \<exists>a'. G a s [] s a' \<and> guards J G fin a' (k (f s))"
  shows "guards J G fin a (look f k)"
  unfolding look_def by (rule guards_act_cases) (use assms in auto)

lemma guards_look:
  assumes "\<And>s. J a s \<Longrightarrow> G a s [] s a" and "\<And>x. guards J G fin a (k x)"
  shows "guards J G fin a (look f k)"
  by (rule guards_look_cases) (use assms in blast)

section \<open>Interleavings\<close>

text \<open>
  Two tasks, each of which starts one of its rounds whenever its last one is over, and an
  environment that may act at any time.
\<close>

record ('s, 'e) conf =
  cf_state :: 's
  cf_first :: "('s, 'e) prog"
  cf_second :: "('s, 'e) prog"

inductive conc_step ::
    "('s, 'e) prog set \<Rightarrow> ('s, 'e) prog set \<Rightarrow> ('s \<Rightarrow> 'e list \<Rightarrow> 's \<Rightarrow> bool) \<Rightarrow> ('s, 'e) conf \<Rightarrow> 'e list \<Rightarrow> ('s, 'e) conf \<Rightarrow> bool"
  for P1 :: "('s, 'e) prog set" and P2 :: "('s, 'e) prog set" and env :: "'s \<Rightarrow> 'e list \<Rightarrow> 's \<Rightarrow> bool" where
  start_first: "cf_first c = Done \<Longrightarrow> p \<in> P1 \<Longrightarrow> conc_step P1 P2 env c [] (c\<lparr>cf_first := p\<rparr>)"
| start_second: "cf_second c = Done \<Longrightarrow> p \<in> P2 \<Longrightarrow> conc_step P1 P2 env c [] (c\<lparr>cf_second := p\<rparr>)"
| step_first: "cf_first c = Act f \<Longrightarrow> f (cf_state c) = ((es, s'), p) \<Longrightarrow> conc_step P1 P2 env c es (c\<lparr>cf_state := s', cf_first := p\<rparr>)"
| step_second: "cf_second c = Act f \<Longrightarrow> f (cf_state c) = ((es, s'), p) \<Longrightarrow> conc_step P1 P2 env c es (c\<lparr>cf_state := s', cf_second := p\<rparr>)"
| step_env: "env (cf_state c) es s' \<Longrightarrow> conc_step P1 P2 env c es (c\<lparr>cf_state := s'\<rparr>)"

inductive_cases conc_stepE: "conc_step P1 P2 env c es c'"

inductive conc_run ::
    "('s, 'e) prog set \<Rightarrow> ('s, 'e) prog set \<Rightarrow> ('s \<Rightarrow> 'e list \<Rightarrow> 's \<Rightarrow> bool) \<Rightarrow> ('s, 'e) conf \<Rightarrow> 'e list \<Rightarrow> ('s, 'e) conf \<Rightarrow> bool"
  for P1 :: "('s, 'e) prog set" and P2 :: "('s, 'e) prog set" and env :: "'s \<Rightarrow> 'e list \<Rightarrow> 's \<Rightarrow> bool" where
  run_none: "conc_run P1 P2 env c [] c"
| run_more: "conc_run P1 P2 env c tr c' \<Longrightarrow> conc_step P1 P2 env c' es c'' \<Longrightarrow> conc_run P1 P2 env c (tr @ es) c''"

section \<open>Running without interference\<close>

text \<open>A program that runs for a while without the others.\<close>

inductive leads :: "('s, 'e) prog \<Rightarrow> 's \<Rightarrow> 'e list \<Rightarrow> ('s, 'e) prog \<Rightarrow> 's \<Rightarrow> bool" where
  leads_refl: "leads p s [] p s"
| leads_step: "f s = ((es, s'), p') \<Longrightarrow> leads p' s' es' q t \<Longrightarrow> leads (Act f) s (es @ es') q t"

lemma leads_emit: "f s = (x, es, s') \<Longrightarrow> leads (k x) s' es' q t \<Longrightarrow> leads (emit f k) s (es @ es') q t"
  unfolding emit_def by (rule leads_step) simp_all

lemma leads_act: "f s = (x, s') \<Longrightarrow> leads (k x) s' es q t \<Longrightarrow> leads (act f k) s es q t"
  using leads_emit [of "\<lambda>s. case f s of (a, s') \<Rightarrow> (a, [], s')" s x "[]" s' k es q t] by (simp add: act_def)

lemma leads_perform: "leads k (f s) es q t \<Longrightarrow> leads (perform f k) s es q t"
  unfolding perform_def by (rule leads_act) simp_all

lemma leads_look: "leads (k (f s)) s es q t \<Longrightarrow> leads (look f k) s es q t"
  unfolding look_def by (rule leads_act) simp_all

lemma leads_trans: "leads p s es q t \<Longrightarrow> leads q t es' r u \<Longrightarrow> leads p s (es @ es') r u"
  by (induction rule: leads.induct) (auto intro: leads_step)

text \<open>Every program comes to its end, in the state that \<open>run\<close> gives.\<close>

lemma leads_run: "\<exists>es. leads p s es Done (run p s)"
proof (induction p arbitrary: s)
  case (Act f)
  obtain es s' p' where f: "f s = ((es, s'), p')" by (metis surj_pair)
  have "p' \<in> Basic_BNFs.snds (f s)" by (simp add: f)
  from Act [OF rangeI this] obtain es' where "leads p' s' es' Done (run p' s')" by blast
  with leads_step [of f s, OF f] show ?case by (auto simp: f)
qed (auto intro: leads_refl)

lemma conc_run_trans:
  assumes "conc_run P1 P2 env c' tr' c''" and "conc_run P1 P2 env c tr c'"
  shows "conc_run P1 P2 env c (tr @ tr') c''"
  using assms
proof (induction rule: conc_run.induct)
  case (run_none c')
  then show ?case by simp
next
  case (run_more c' tr1 c1 es c2)
  from conc_run.run_more [OF run_more.IH [OF run_more.prems] run_more.hyps(2)] show ?case by simp
qed

lemma leads_first:
  "leads p s es q t \<Longrightarrow> cf_first c = p \<Longrightarrow> cf_state c = s \<Longrightarrow> conc_run P1 P2 env c es (c\<lparr>cf_state := t, cf_first := q\<rparr>)"
proof (induction arbitrary: c rule: leads.induct)
  case (leads_refl p s)
  then have "c\<lparr>cf_state := s, cf_first := p\<rparr> = c" by (cases c) auto
  then show ?case by (simp add: run_none)
next
  case (leads_step f s es s' p' es' q t)
  have "conc_run P1 P2 env c es (c\<lparr>cf_state := s', cf_first := p'\<rparr>)"
    using run_more [OF run_none step_first [of c f es s' p' P1 P2 env]] leads_step by simp
  from conc_run_trans [OF leads_step.IH this] show ?case by simp
qed

lemma leads_second:
  "leads p s es q t \<Longrightarrow> cf_second c = p \<Longrightarrow> cf_state c = s \<Longrightarrow> conc_run P1 P2 env c es (c\<lparr>cf_state := t, cf_second := q\<rparr>)"
proof (induction arbitrary: c rule: leads.induct)
  case (leads_refl p s)
  then have "c\<lparr>cf_state := s, cf_second := p\<rparr> = c" by (cases c) auto
  then show ?case by (simp add: run_none)
next
  case (leads_step f s es s' p' es' q t)
  have "conc_run P1 P2 env c es (c\<lparr>cf_state := s', cf_second := p'\<rparr>)"
    using run_more [OF run_none step_second [of c f es s' p' P1 P2 env]] leads_step by simp
  from conc_run_trans [OF leads_step.IH this] show ?case by simp
qed


text \<open>A task may run for a while, or a whole round, while the other one waits.\<close>

lemma second_leads:
  "leads p s es q t \<Longrightarrow> conc_run P1 P2 env \<lparr>cf_state = s, cf_first = x, cf_second = p\<rparr> es \<lparr>cf_state = t, cf_first = x, cf_second = q\<rparr>"
  using leads_second [of p s es q t "\<lparr>cf_state = s, cf_first = x, cf_second = p\<rparr>"] by simp

lemma first_round:
  assumes "p \<in> P1"
  shows "\<exists>tr. conc_run P1 P2 env \<lparr>cf_state = s, cf_first = Done, cf_second = q\<rparr> tr \<lparr>cf_state = run p s, cf_first = Done, cf_second = q\<rparr>"
proof -
  let ?c = "\<lparr>cf_state = s, cf_first = Done, cf_second = q\<rparr>"
  obtain es where es: "leads p s es Done (run p s)" using leads_run [of p s] by (elim exE)
  have "conc_run P1 P2 env ?c [] (?c\<lparr>cf_first := p\<rparr>)" using run_more [OF run_none start_first [of ?c p P1 P2 env]] assms by simp
  from conc_run_trans [OF leads_first [OF es] this] show ?thesis by auto
qed

lemma second_starts:
  assumes "p \<in> P2"
  shows "conc_run P1 P2 env \<lparr>cf_state = s, cf_first = x, cf_second = Done\<rparr> [] \<lparr>cf_state = s, cf_first = x, cf_second = p\<rparr>"
  using run_more [OF run_none start_second [of "\<lparr>cf_state = s, cf_first = x, cf_second = Done\<rparr>" p P2 P1 env]] assms by simp

section \<open>The rely-guarantee rule\<close>

text \<open>
  \<open>G1\<close> and \<open>G2\<close> are the guarantees of the tasks, relative to assertions that are idle between rounds; \<open>I\<close>
  relates the assertions, the history and the state. Each guarantee has to keep it.
\<close>

locale interference =
  fixes P1 P2 :: "('s, 'e) prog set" and env :: "'s \<Rightarrow> 'e list \<Rightarrow> 's \<Rightarrow> bool"
    and G1 :: "'a \<Rightarrow> 's \<Rightarrow> 'e list \<Rightarrow> 's \<Rightarrow> 'a \<Rightarrow> bool" and idle1 :: 'a
    and G2 :: "'b \<Rightarrow> 's \<Rightarrow> 'e list \<Rightarrow> 's \<Rightarrow> 'b \<Rightarrow> bool" and idle2 :: 'b
    and I :: "'a \<Rightarrow> 'b \<Rightarrow> 'e list \<Rightarrow> 's \<Rightarrow> bool"
  assumes first_guarantees: "p \<in> P1 \<Longrightarrow> guards always G1 idle1 idle1 p"
    and second_guarantees: "p \<in> P2 \<Longrightarrow> guards always G2 idle2 idle2 p"
    and first_keeps: "I a b tr s \<Longrightarrow> G1 a s es s' a' \<Longrightarrow> I a' b (tr @ es) s'"
    and second_keeps: "I a b tr s \<Longrightarrow> G2 b s es s' b' \<Longrightarrow> I a b' (tr @ es) s'"
    and env_keeps: "I a b tr s \<Longrightarrow> env s es s' \<Longrightarrow> I a b (tr @ es) s'"
begin

definition holds :: "'e list \<Rightarrow> ('s, 'e) conf \<Rightarrow> bool" where
  "holds tr c \<longleftrightarrow> (\<exists>a b. guards always G1 idle1 a (cf_first c) \<and> guards always G2 idle2 b (cf_second c) \<and> I a b tr (cf_state c))"

lemma holds_step:
  assumes "conc_step P1 P2 env c es c'" and "holds tr c"
  shows "holds (tr @ es) c'"
proof -
  obtain a b where g: "guards always G1 idle1 a (cf_first c)" "guards always G2 idle2 b (cf_second c)" and i: "I a b tr (cf_state c)"
    using assms(2) by (auto simp: holds_def)
  from assms(1) show ?thesis
  proof (cases rule: conc_step.cases)
    case (start_first p)
    then show ?thesis using g i first_guarantees [of p] by (auto simp: holds_def)
  next
    case (start_second p)
    then show ?thesis using g i second_guarantees [of p] by (auto simp: holds_def)
  next
    case (step_first f s' p)
    with g(1) obtain a' where "G1 a (cf_state c) es s' a'" "guards always G1 idle1 a' p"
      by (metis guards_ActE fst_conv snd_conv)
    with first_keeps [OF i] g(2) have "guards always G1 idle1 a' p \<and> guards always G2 idle2 b (cf_second c) \<and> I a' b (tr @ es) s'" by blast
    with step_first(1) show ?thesis by (auto simp: holds_def)
  next
    case (step_second f s' p)
    with g(2) obtain b' where "G2 b (cf_state c) es s' b'" "guards always G2 idle2 b' p"
      by (metis guards_ActE fst_conv snd_conv)
    with second_keeps [OF i] g(1) have "guards always G1 idle1 a (cf_first c) \<and> guards always G2 idle2 b' p \<and> I a b' (tr @ es) s'" by blast
    with step_second(1) show ?thesis by (auto simp: holds_def)
  next
    case (step_env s')
    with env_keeps [OF i] g show ?thesis by (auto simp: holds_def)
  qed
qed

lemma holds_run:
  assumes "conc_run P1 P2 env c tr c'" and "holds [] c"
  shows "holds tr c'"
  using assms by (induction rule: conc_run.induct) (auto intro: holds_step)

text \<open>Between the rounds of a task its assertion is the idle one.\<close>

lemma interleaving_invariant:
  assumes "conc_run P1 P2 env c tr c'" and "cf_first c = Done" and "cf_second c = Done" and "I idle1 idle2 [] (cf_state c)"
  obtains a b where "I a b tr (cf_state c')" "cf_first c' = Done \<Longrightarrow> a = idle1" "cf_second c' = Done \<Longrightarrow> b = idle2"
proof -
  have "holds [] c" using assms by (auto simp: holds_def)
  with holds_run [OF assms(1)] obtain a b where
    "guards always G1 idle1 a (cf_first c')" "guards always G2 idle2 b (cf_second c')" "I a b tr (cf_state c')"
    by (auto simp: holds_def)
  then show thesis by (intro that [of a b]) auto
qed

end

section \<open>Pools\<close>

text \<open>Any number of goroutines, spawned at any time, beside an environment.\<close>

inductive pool_step :: "('s, 'e) prog set \<Rightarrow> ('s \<Rightarrow> 's \<Rightarrow> bool) \<Rightarrow> 's \<times> ('s, 'e) prog list \<Rightarrow> 's \<times> ('s, 'e) prog list \<Rightarrow> bool"
  for P :: "('s, 'e) prog set" and env :: "'s \<Rightarrow> 's \<Rightarrow> bool" where
  pool_spawn: "p \<in> P \<Longrightarrow> pool_step P env (s, ps) (s, p # ps)"
| pool_run: "f s = ((es, s'), p) \<Longrightarrow> pool_step P env (s, xs @ Act f # ys) (s', xs @ p # ys)"
| pool_env: "env s s' \<Longrightarrow> pool_step P env (s, ps) (s', ps)"

lemma pool_leads: "leads p s es q t \<Longrightarrow> (pool_step P env)\<^sup>*\<^sup>* (s, xs @ p # ys) (t, xs @ q # ys)"
proof (induction rule: leads.induct)
  case (leads_step f s es s' p' es' q t)
  from pool_run [of f s, OF leads_step.hyps(1), of P env xs ys] leads_step.IH show ?case by (rule converse_rtranclp_into_rtranclp)
qed simp

text \<open>A goroutine that is spawned and runs to its end without the others.\<close>

lemma pool_alone:
  assumes "p \<in> P"
  shows "(pool_step P env)\<^sup>*\<^sup>* (s, ps) (run p s, Done # ps)"
proof -
  obtain es where "leads p s es Done (run p s)" using leads_run [of p s] by (elim exE)
  from pool_leads [OF this, of P env "[]" ps] pool_spawn [OF assms, of env s ps] show ?thesis
    by (simp add: converse_rtranclp_into_rtranclp)
qed

locale pool =
  fixes P :: "('s, 'e) prog set" and env :: "'s \<Rightarrow> 's \<Rightarrow> bool"
    and J :: "'a \<Rightarrow> 's \<Rightarrow> bool" and G :: "'a \<Rightarrow> 's \<Rightarrow> 'e list \<Rightarrow> 's \<Rightarrow> 'a \<Rightarrow> bool" and idle :: 'a
    and I :: "'a list \<Rightarrow> 's \<Rightarrow> bool"
  assumes spawn_guarantees: "p \<in> P \<Longrightarrow> guards J G idle idle p"
    and spawn_keeps: "I as s \<Longrightarrow> I (idle # as) s"
    and run_assertion: "I (xs @ a # ys) s \<Longrightarrow> J a s"
    and run_keeps: "I (xs @ a # ys) s \<Longrightarrow> G a s es s' a' \<Longrightarrow> I (xs @ a' # ys) s'"
    and env_keeps: "I as s \<Longrightarrow> env s s' \<Longrightarrow> I as s'"
begin

lemma pool_step_keeps:
  assumes "pool_step P env c c'" and "\<exists>as. list_all2 (guards J G idle) as (snd c) \<and> I as (fst c)"
  shows "\<exists>as. list_all2 (guards J G idle) as (snd c') \<and> I as (fst c')"
  using assms
proof (cases rule: pool_step.cases)
  case (pool_spawn p s ps)
  with assms(2) obtain as where "list_all2 (guards J G idle) as ps" "I as s" by auto
  with pool_spawn spawn_guarantees spawn_keeps show ?thesis by (intro exI [of _ "idle # as"]) auto
next
  case (pool_run f s es s' p xs ys)
  with assms(2) obtain as where as: "list_all2 (guards J G idle) as (xs @ Act f # ys)" "I as s" by auto
  from as(1) obtain us a vs where sp: "as = us @ a # vs" "list_all2 (guards J G idle) us xs" "guards J G idle a (Act f)"
      "list_all2 (guards J G idle) vs ys"
    by (auto simp: list_all2_append2 list_all2_Cons2)
  from sp(3) run_assertion [OF as(2) [unfolded sp(1)]] pool_run obtain a' where "G a s es s' a'" "guards J G idle a' p"
    by (metis guards_ActE fst_conv snd_conv)
  with run_keeps [OF as(2) [unfolded sp(1)]] sp pool_run show ?thesis
    by (intro exI [of _ "us @ a' # vs"]) (auto intro: list_all2_appendI)
next
  case (pool_env s s' ps)
  with assms(2) env_keeps show ?thesis by auto
qed

lemma pool_invariant:
  assumes "(pool_step P env)\<^sup>*\<^sup>* (s, []) (s', ps)" and "I [] s"
  obtains as where "I as s'" "list_all2 (guards J G idle) as ps"
proof -
  have "\<exists>as. list_all2 (guards J G idle) as (snd c) \<and> I as (fst c)" if "(pool_step P env)\<^sup>*\<^sup>* (s, []) c" for c
    using that
  proof (induction rule: rtranclp_induct)
    case base
    then show ?case using assms(2) by auto
  next
    case (step c c')
    then show ?case using pool_step_keeps by blast
  qed
  from this [OF assms(1)] that show thesis by auto
qed

end

end
