(* ===== verification/Monitor_Threads.thy ===== *)
theory Monitor_Threads
  imports Node_Lifecycle Goroutines
begin

text \<open>
  The two monitors of a controller as they run: the node monitor and the user monitor are tasks of
  their own, and each of them gives way to the other one and to the connections of the node
  between any two of its atomic actions. An action is what the source does under one lock
  (\<open>stateMu\<close>, the lock of the flow registry) or in one call of the panel, the core, the limiter, the
  rules or a counter. The core, the list of limited users and the warnings belong to one monitor
  each, so the calls that only touch them are taken as one action. Run alone, the programs are the
  rounds of \<open>Controller\<close>.
\<close>

section \<open>Events\<close>

text \<open>
  What the actions leave in the history: the keys that a registration or a retirement touched in the
  registry, the beginning and the end of the finalisation of a key, the amounts counted on, drained
  from and put back to a counter, and the deltas of a report that was accepted or that is not to be sent.
\<close>

type_synonym user_at = "string \<times> string"

datatype monitor_event =
    Touched "user_at list"
  | Finalised user_at
  | Forgot user_at
  | Counted_on nat int64
  | Drained nat int64
  | Restored nat int64
  | Settled "trafficCounterDelta list"

type_synonym ('p, 'c, 'ih, 'oh) task = "(('p, 'c, 'ih, 'oh) node, monitor_event) prog"

section \<open>Retirement of users\<close>

definition registerManagedUsers_task :: "string \<Rightarrow> UserInfo list \<Rightarrow> ('p, 'c, 'ih, 'oh) task \<Rightarrow> ('p, 'c, 'ih, 'oh) task" where
  "registerManagedUsers_task tag users k =
     (let emails = runtimeUserEmails tag users in
      emit (\<lambda>w. ((), [Touched (map (Pair tag) emails)], set_flows (flow_register tag emails (node_flows w)) w)) (\<lambda>_.
      perform (set_ctl (\<lambda>c. c\<lparr>c_retiringUsers := foldl (\<lambda>m email. del (tag, email) m) (c_retiringUsers c) emails\<rparr>)) k))"

definition retireManagedUsers_task :: "string \<Rightarrow> UserInfo list \<Rightarrow> ('p, 'c, 'ih, 'oh) task \<Rightarrow> ('p, 'c, 'ih, 'oh) task" where
  "retireManagedUsers_task tag users k =
     (if users = [] then k
      else
        let emails = runtimeUserEmails tag users in
        emit (\<lambda>w. ((), [Touched (map (Pair tag) emails)], set_flows (flow_retire tag emails (node_flows w)) w)) (\<lambda>_.
        perform (set_ctl (\<lambda>c. c\<lparr>c_retiringUsers := foldl (\<lambda>m (email, user). store (tag, email) \<lparr>rt_tag = tag, rt_user = user\<rparr> m)
                            (c_retiringUsers c) (zip emails users)\<rparr>)) k))"

definition restoreManagedUsers_task :: "string \<Rightarrow> UserInfo list \<Rightarrow> ('p, 'c, 'ih, 'oh) task \<Rightarrow> ('p, 'c, 'ih, 'oh) task" where
  "restoreManagedUsers_task tag users k = registerManagedUsers_task tag users k"

fun finalizeRetiringUsers_task :: "retiringUser list \<Rightarrow> ('p, 'c, 'ih, 'oh) task \<Rightarrow> ('p, 'c, 'ih, 'oh) task" where
  "finalizeRetiringUsers_task [] k = k"
| "finalizeRetiringUsers_task (retired # users) k =
     (let email = buildUserTagWithTag (rt_tag retired) (rt_user retired); key = (rt_tag retired, email) in
      emit (\<lambda>w. let (ok, r', m') = FinalizeRetiredUser (rt_tag retired) email (node_flows w, node_stats w)
                in (ok, if ok then [Finalised key] else [], set_stats m' (set_flows r' w))) (\<lambda>ok.
      if \<not> ok then finalizeRetiringUsers_task users k
      else
        emit (\<lambda>w. ((), [Forgot key], set_ctl (\<lambda>c. case load (c_retiringUsers c) key of
                    Some current \<Rightarrow> if rt_user current = rt_user retired
                                    then c\<lparr>c_retiringUsers := del key (c_retiringUsers c)\<rparr> else c
                  | None \<Rightarrow> c) w)) (\<lambda>_. finalizeRetiringUsers_task users k)))"

section \<open>The node monitor\<close>

definition addNewUser_task ::
    "('ic, 'oc, 'ih, 'oh) core_env \<Rightarrow> UserInfo list \<Rightarrow> NodeInfo \<Rightarrow> string \<Rightarrow> (go_error option \<Rightarrow> ('p, 'c, 'ih, 'oh) task) \<Rightarrow>
     ('p, 'c, 'ih, 'oh) task" where
  "addNewUser_task ce userInfo nodeInfo tag k =
     look (\<lambda>w. buildUsers (be_ss2022 (ce_builder ce)) (c_panelType (nd_ctl w)) userInfo nodeInfo tag) (\<lambda>built.
     case built of
       Inl err \<Rightarrow> k (Some err)
     | Inr users \<Rightarrow>
         registerManagedUsers_task tag userInfo (
         act (\<lambda>w. let (err, x) = addUsers ce users tag (nd_core w) in (err, w\<lparr>nd_core := x\<rparr>)) (\<lambda>err.
         if err \<noteq> None then retireManagedUsers_task tag userInfo (k err) else k None)))"

definition checkRules_task :: "'p API \<Rightarrow> string \<Rightarrow> ('p, 'c, 'ih, 'oh) task \<Rightarrow> ('p, 'c, 'ih, 'oh) task" where
  "checkRules_task api tag k =
     look (\<lambda>w. cfg_DisableGetRule (c_config (nd_ctl w))) (\<lambda>disabled.
     if disabled then k
     else
       act (\<lambda>w. let (rl, p') = api_GetNodeRule api (nd_panel w) in (rl, w\<lparr>nd_panel := p'\<rparr>)) (\<lambda>rl.
       case rl of
         Inl _ \<Rightarrow> k
       | Inr ruleList \<Rightarrow> perform (\<lambda>w. set_rules (snd (UpdateRule tag ruleList (node_rules w))) w) k))"

definition switchTag_task ::
    "('ic, 'oc, 'ih, 'oh) core_env \<Rightarrow> NodeInfo \<Rightarrow> string \<Rightarrow> UserInfo list \<Rightarrow> NodeInfo \<Rightarrow> (string option \<Rightarrow> ('p, 'c, 'ih, 'oh) task) \<Rightarrow>
     ('p, 'c, 'ih, 'oh) task" where
  "switchTag_task ce oldNodeInfo oldTag oldUserInfo newNodeInfo k =
     retireManagedUsers_task oldTag oldUserInfo (
     act (\<lambda>w. let (err, x) = removeOldTag ce oldTag (nd_core w) in (err, w\<lparr>nd_core := x\<rparr>)) (\<lambda>err.
     if err \<noteq> None then restoreManagedUsers_task oldTag oldUserInfo (k None)
     else
       act (\<lambda>w. let (err, x) = (if ni_NodeType oldNodeInfo = ''Shadowsocks-Plugin''
                                 then removeOldTag ce (dokodemoTag oldTag) (nd_core w) else (None, nd_core w))
                 in (err, w\<lparr>nd_core := x\<rparr>)) (\<lambda>err.
       if err \<noteq> None then restoreManagedUsers_task oldTag oldUserInfo (k None)
       else
         look (\<lambda>w. buildNodeTag (c_config (nd_ctl w)) newNodeInfo) (\<lambda>activeTag.
         act (\<lambda>w. let (err, x) = addNewTag ce (c_config (nd_ctl w)) newNodeInfo activeTag (nd_core w) in (err, w\<lparr>nd_core := x\<rparr>)) (\<lambda>err.
         if err \<noteq> None then k None
         else perform (\<lambda>w. set_limiter (fst (DeleteInboundLimiter (node_limiter w) oldTag)) w) (k (Some activeTag)))))))"

definition applyUserDiff_task ::
    "('ic, 'oc, 'ih, 'oh) core_env \<Rightarrow> NodeInfo \<Rightarrow> string \<Rightarrow> user_diff \<Rightarrow> (bool \<Rightarrow> ('p, 'c, 'ih, 'oh) task) \<Rightarrow> ('p, 'c, 'ih, 'oh) task" where
  "applyUserDiff_task ce oldNodeInfo activeTag d k =
     (let limits = (if ud_added d = [] \<and> ud_limitUpdated d = [] then k True
            else perform (\<lambda>w. set_limiter (snd (UpdateInboundLimiter (node_limiter w) activeTag (ud_added d @ ud_limitUpdated d))) w) (k True));
          additions = (if ud_added d = [] then limits else addNewUser_task ce (ud_added d) oldNodeInfo activeTag (\<lambda>_. limits)) in
      if ud_deleted d = [] then additions
      else
        retireManagedUsers_task activeTag (ud_deleted d) (
        act (\<lambda>w. let (err, x) = removeUsers ce (map (buildUserTagWithTag activeTag) (ud_deleted d)) activeTag (nd_core w)
                  in (err, w\<lparr>nd_core := x\<rparr>)) (\<lambda>err.
        if err \<noteq> None then restoreManagedUsers_task activeTag (ud_deleted d) (k False)
        else perform (\<lambda>w. set_limiter (snd (DeleteInboundLimiterUsers (node_limiter w) activeTag (ud_deleted d))) w) additions)))"

definition nodeInfoMonitor_task ::
    "'c cache_iface \<Rightarrow> ('ic, 'oc, 'ih, 'oh) core_env \<Rightarrow> 'p API \<Rightarrow> int \<Rightarrow> ('p, 'c, 'ih, 'oh) task" where
  "nodeInfoMonitor_task iface ce api elapsed =
     look (\<lambda>w. if elapsed < cfg_UpdatePeriodic (c_config (nd_ctl w)) then None
               else map_option (\<lambda>ni. (ni, c_Tag (nd_ctl w), users_of (nd_ctl w))) (c_nodeInfo (nd_ctl w))) (\<lambda>old.
     case old of None \<Rightarrow> Done | Some (oldNodeInfo, oldTag, oldUserInfo) \<Rightarrow>
     act (\<lambda>w. let (ni, p) = api_GetNodeInfo api (nd_panel w) in (ni, w\<lparr>nd_panel := p\<rparr>)) (\<lambda>ni.
     case ni of Inl _ \<Rightarrow> Done | Inr newNodeInfo \<Rightarrow>
     act (\<lambda>w. let (ul, p) = api_GetUserList api (nd_panel w) in (ul, w\<lparr>nd_panel := p\<rparr>)) (\<lambda>ul.
     let users = (case ul of
                    Inr us \<Rightarrow> Some (True, us)
                  | Inl (Error e) \<Rightarrow> if e = ''users no change'' then Some (False, oldUserInfo) else None) in
     case users of None \<Rightarrow> Done | Some (usersChanged, newUserInfo) \<Rightarrow>
     if oldNodeInfo \<noteq> newNodeInfo then
       switchTag_task ce oldNodeInfo oldTag oldUserInfo newNodeInfo (\<lambda>switched.
       case switched of None \<Rightarrow> Done | Some activeTag \<Rightarrow>
       checkRules_task api activeTag (
       addNewUser_task ce newUserInfo newNodeInfo activeTag (\<lambda>err.
       if err \<noteq> None then Done
       else
         perform (\<lambda>w. set_limiter (fst (AddInboundLimiter iface (node_limiter w) activeTag (ni_SpeedLimit newNodeInfo)
                         newUserInfo (cfg_GlobalDeviceLimitConfig (c_config (nd_ctl w))))) w) (
         perform (set_ctl (\<lambda>c. c\<lparr>c_nodeInfo := Some newNodeInfo, c_Tag := activeTag, c_userList := Some newUserInfo\<rparr>)) Done))))
     else
       checkRules_task api oldTag (
       let finish = (\<lambda>continue. if \<not> continue then Done
                       else perform (set_ctl (\<lambda>c. c\<lparr>c_userList := Some newUserInfo\<rparr>)) Done) in
       if usersChanged then applyUserDiff_task ce oldNodeInfo oldTag (compareUserList oldUserInfo newUserInfo) finish
       else finish True))))"

section \<open>The user monitor\<close>

definition releaseLimitedUsers_task :: "int \<Rightarrow> string \<Rightarrow> ('p, 'c, 'ih, 'oh) task \<Rightarrow> ('p, 'c, 'ih, 'oh) task" where
  "releaseLimitedUsers_task now tag k =
     act (\<lambda>w. if as_Limit (auto_limit (nd_ctl w)) > 0 \<and> c_limitedUsers (nd_ctl w) \<noteq> []
              then let (toRelease, c') = release_loop now (c_limitedUsers (nd_ctl w)) ([], nd_ctl w) in (toRelease, w\<lparr>nd_ctl := c'\<rparr>)
              else ([], w)) (\<lambda>toRelease.
     if toRelease \<noteq> [] then perform (\<lambda>w. set_limiter (snd (UpdateInboundLimiter (node_limiter w) tag toRelease)) w) k else k)"

definition drainTrafficCounter_task ::
    "nat option \<Rightarrow> (trafficCounterDelta option \<Rightarrow> ('p, 'c, 'ih, 'oh) task) \<Rightarrow> ('p, 'c, 'ih, 'oh) task" where
  "drainTrafficCounter_task counter k =
     (case counter of
        None \<Rightarrow> k None
      | Some c \<Rightarrow>
          emit (\<lambda>w. let (v, m') = counter_Set c 0 (node_stats w) in (v, [Drained c v], set_stats m' w)) (\<lambda>v.
          if sint v \<le> 0 then
            (if sint v < 0 then emit (\<lambda>w. ((), [Restored c v], set_stats (snd (counter_Add c v (node_stats w))) w)) (\<lambda>_. k None)
             else k None)
          else k (Some \<lparr>td_counter = c, td_value = v\<rparr>)))"

definition drainTraffic_task ::
    "string \<Rightarrow> (int64 \<Rightarrow> int64 \<Rightarrow> trafficCounterDelta list \<Rightarrow> ('p, 'c, 'ih, 'oh) task) \<Rightarrow> ('p, 'c, 'ih, 'oh) task" where
  "drainTraffic_task email k =
     look (\<lambda>w. GetCounter (upCounterName email) (node_stats w)) (\<lambda>uplink.
     drainTrafficCounter_task uplink (\<lambda>ud.
     look (\<lambda>w. GetCounter (downCounterName email) (node_stats w)) (\<lambda>downlink.
     drainTrafficCounter_task downlink (\<lambda>dd.
     let (up, deltas1) = (case ud of None \<Rightarrow> (0, []) | Some d \<Rightarrow> (td_value d, [d]));
         (down, deltas2) = (case dd of None \<Rightarrow> (0, deltas1) | Some d \<Rightarrow> (td_value d, deltas1 @ [d]))
     in k up down deltas2))))"

definition add_sample :: "UserInfo \<Rightarrow> int64 \<Rightarrow> int64 \<Rightarrow> trafficCounterDelta list \<Rightarrow> traffic_acc \<Rightarrow> traffic_acc" where
  "add_sample user up down deltas acc =
     (let (traffic', index') = appendUserTraffic (ta_traffic acc) (ta_index acc) user up down
      in \<lparr>ta_traffic = traffic', ta_index = index', ta_deltas = ta_deltas acc @ deltas\<rparr>)"

fun trafficUsers_task ::
    "int \<Rightarrow> string \<Rightarrow> UserInfo list \<Rightarrow> traffic_acc \<Rightarrow> UserInfo list \<Rightarrow> (traffic_acc \<Rightarrow> UserInfo list \<Rightarrow> ('p, 'c, 'ih, 'oh) task) \<Rightarrow>
     ('p, 'c, 'ih, 'oh) task" where
  "trafficUsers_task now tag [] acc limited k = k acc limited"
| "trafficUsers_task now tag (user # users) acc limited k =
     drainTraffic_task (buildUserTagWithTag tag user) (\<lambda>up down deltas.
     if 0 < sint up \<or> 0 < sint down then
       act (\<lambda>w. let (limited', c') = watchUser now user up down (limited, nd_ctl w) in (limited', w\<lparr>nd_ctl := c'\<rparr>)) (\<lambda>limited'.
       trafficUsers_task now tag users (add_sample user up down deltas acc) limited' k)
     else
       perform (set_ctl (\<lambda>c. c\<lparr>c_warnedUsers := del user (c_warnedUsers c)\<rparr>)) (trafficUsers_task now tag users acc limited k))"

fun collectUsers_task ::
    "(string \<times> UserInfo) list \<Rightarrow> traffic_acc \<Rightarrow> (traffic_acc \<Rightarrow> ('p, 'c, 'ih, 'oh) task) \<Rightarrow> ('p, 'c, 'ih, 'oh) task" where
  "collectUsers_task [] acc k = k acc"
| "collectUsers_task ((email, user) # eus) acc k =
     drainTraffic_task email (\<lambda>up down deltas. collectUsers_task eus (add_sample user up down deltas acc) k)"

fun restoreTraffic_task :: "trafficCounterDelta list \<Rightarrow> ('p, 'c, 'ih, 'oh) task \<Rightarrow> ('p, 'c, 'ih, 'oh) task" where
  "restoreTraffic_task [] k = k"
| "restoreTraffic_task (d # ds) k =
     emit (\<lambda>w. ((), [Restored (td_counter d) (td_value d)], set_stats (snd (counter_Add (td_counter d) (td_value d) (node_stats w))) w)) (\<lambda>_.
     restoreTraffic_task ds k)"

definition flushUserTraffic_task ::
    "'p API \<Rightarrow> UserTraffic list \<Rightarrow> trafficCounterDelta list \<Rightarrow> (bool \<Rightarrow> ('p, 'c, 'ih, 'oh) task) \<Rightarrow> ('p, 'c, 'ih, 'oh) task" where
  "flushUserTraffic_task api traffic deltas k =
     emit (\<lambda>w. let disabled = cfg_DisableUploadTraffic (c_config (nd_ctl w))
               in (disabled, if disabled then [Settled deltas] else [], w)) (\<lambda>disabled.
     if disabled then k True
     else
       emit (\<lambda>w. let (err, p) = api_ReportUserTraffic api traffic (nd_panel w)
                 in (err, if err = None then [Settled deltas] else [], w\<lparr>nd_panel := p\<rparr>)) (\<lambda>err.
       if err = None then k True else restoreTraffic_task deltas (k False)))"

definition settleTraffic_task ::
    "'p API \<Rightarrow> int \<Rightarrow> string \<Rightarrow> UserInfo list \<Rightarrow> retiringUser list \<Rightarrow> ('p, 'c, 'ih, 'oh) task \<Rightarrow> ('p, 'c, 'ih, 'oh) task" where
  "settleTraffic_task api now tag userInfo retiringUsers k =
     trafficUsers_task now tag userInfo no_traffic [] (\<lambda>acc1 limited.
     collectUsers_task (retired_keys retiringUsers) acc1 (\<lambda>acc.
     let report = (if ta_traffic acc = [] then finalizeRetiringUsers_task retiringUsers k
           else flushUserTraffic_task api (ta_traffic acc) (ta_deltas acc) (\<lambda>ok.
                if ok then finalizeRetiringUsers_task retiringUsers k else k)) in
     if limited \<noteq> [] then perform (\<lambda>w. set_limiter (snd (UpdateInboundLimiter (node_limiter w) tag limited)) w) report
     else report))"

definition reportDevices_task :: "'p API \<Rightarrow> string \<Rightarrow> ('p, 'c, 'ih, 'oh) task \<Rightarrow> ('p, 'c, 'ih, 'oh) task" where
  "reportDevices_task api tag k =
     act (\<lambda>w. let (online, lim) = GetOnlineDevice (node_limiter w) tag in (online, set_limiter lim w)) (\<lambda>online.
     case online of
       Inl _ \<Rightarrow> k
     | Inr devices \<Rightarrow>
         if devices \<noteq> [] then perform (\<lambda>w. w\<lparr>nd_panel := snd (api_ReportNodeOnlineUsers api devices (nd_panel w))\<rparr>) k else k)"

definition reportIllegals_task :: "'p API \<Rightarrow> string \<Rightarrow> ('p, 'c, 'ih, 'oh) task \<Rightarrow> ('p, 'c, 'ih, 'oh) task" where
  "reportIllegals_task api tag k =
     act (\<lambda>w. let (detected, rm) = GetDetectResult tag (node_rules w) in (detected, set_rules rm w)) (\<lambda>detected.
     case detected of
       Inl _ \<Rightarrow> k
     | Inr results \<Rightarrow>
         if results \<noteq> [] then perform (\<lambda>w. w\<lparr>nd_panel := snd (api_ReportIllegal api results (nd_panel w))\<rparr>) k else k)"

definition userInfoMonitor_task :: "'p API \<Rightarrow> int \<Rightarrow> int \<Rightarrow> ('p, 'c, 'ih, 'oh) task" where
  "userInfoMonitor_task api elapsed now =
     look (\<lambda>w. elapsed < cfg_UpdatePeriodic (c_config (nd_ctl w))) (\<lambda>early.
     if early then Done
     else
       perform (\<lambda>w. w\<lparr>nd_panel := snd (api_ReportNodeStatus api (nd_panel w))\<rparr>) (
       look (\<lambda>w. (c_Tag (nd_ctl w), users_of (nd_ctl w))) (\<lambda>(tag, userInfo).
       look (\<lambda>w. retiringUserSnapshot (nd_ctl w)) (\<lambda>retiringUsers.
       releaseLimitedUsers_task now tag (
       settleTraffic_task api now tag userInfo retiringUsers (
       reportDevices_task api tag (
       reportIllegals_task api tag Done)))))))"

section \<open>Run alone, the tasks are the rounds\<close>

lemma run_registerManagedUsers: "run (registerManagedUsers_task tag users k) w = run k (registerManagedUsers tag users w)"
  by (simp add: registerManagedUsers_task_def registerManagedUsers_def Let_def run_emit)

lemma run_retireManagedUsers: "run (retireManagedUsers_task tag users k) w = run k (retireManagedUsers tag users w)"
  by (simp add: retireManagedUsers_task_def retireManagedUsers_def Let_def run_emit)

lemma run_finalizeRetiringUsers: "run (finalizeRetiringUsers_task rs k) w = run k (finalizeRetiringUsers rs w)"
  by (induction rs arbitrary: w) (simp_all add: run_emit Let_def split: prod.split)

lemmas run_users = run_registerManagedUsers run_retireManagedUsers restoreManagedUsers_task_def restoreManagedUsers_def
  run_finalizeRetiringUsers

lemma run_addNewUser:
  "run (addNewUser_task ce us ni tag k) w = (case addNewUser ce us ni tag w of (err, w') \<Rightarrow> run (k err) w')"
  by (simp add: addNewUser_task_def addNewUser_def run_users run_act Let_def split: sum.split prod.split option.split)

lemma run_checkRules: "run (checkRules_task api tag k) w = run k (checkRules api tag w)"
  by (simp add: checkRules_task_def checkRules_def run_act Let_def split: sum.split prod.split)

lemma run_switchTag:
  "run (switchTag_task ce old oldTag us new k) w = (case switchTag ce old oldTag us new w of (t, w') \<Rightarrow> run (k t) w')"
  by (simp add: switchTag_task_def switchTag_def run_users run_act Let_def split: prod.split)

lemma run_applyUserDiff:
  "run (applyUserDiff_task ce ni tag d k) w = (case applyUserDiff ce ni tag d w of (b, w') \<Rightarrow> run (k b) w')"
  by (simp add: applyUserDiff_task_def applyUserDiff_def run_users run_act run_addNewUser Let_def split: prod.split)

lemma run_nodeInfoMonitor: "run (nodeInfoMonitor_task iface ce api elapsed) w = nodeInfoMonitor iface ce api elapsed w"
  by (simp add: nodeInfoMonitor_task_def nodeInfoMonitor_def run_act run_switchTag run_checkRules run_addNewUser run_applyUserDiff
      Let_def split: option.split sum.split go_error.split prod.split)


lemma set_stats_laws [simp]:
  "set_stats (node_stats w) w = w" "set_stats m (set_stats m' w) = set_stats m w"
  "set_stats (node_stats w) (w\<lparr>nd_panel := p\<rparr>) = w\<lparr>nd_panel := p\<rparr>" "set_stats (node_stats w) (w\<lparr>nd_ctl := c\<rparr>) = w\<lparr>nd_ctl := c\<rparr>"
  "(set_stats m w)\<lparr>nd_ctl := c\<rparr> = set_stats m (w\<lparr>nd_ctl := c\<rparr>)" "(set_stats m w)\<lparr>nd_panel := p\<rparr> = set_stats m (w\<lparr>nd_panel := p\<rparr>)"
  by (simp_all add: set_stats_def node_stats_def)

lemma set_ctl_as_update: "set_ctl f w = w\<lparr>nd_ctl := f (nd_ctl w)\<rparr>"
  by (simp add: set_ctl_def)

lemma run_drainTrafficCounter:
  "run (drainTrafficCounter_task oc k) w = (case drainTrafficCounter oc (node_stats w) of (d, m) \<Rightarrow> run (k d) (set_stats m w))"
  by (simp add: drainTrafficCounter_task_def drainTrafficCounter_def run_emit Let_def split: option.split prod.split)

lemma run_drainTraffic:
  "run (drainTraffic_task email k) w = (case drainTraffic email (node_stats w) of ((up, down, ds), m) \<Rightarrow> run (k up down ds) (set_stats m w))"
  by (simp add: drainTraffic_task_def drainTraffic_def run_drainTrafficCounter Let_def split: option.split prod.split)

lemma run_collectUsers:
  "run (collectUsers_task eus acc k) w = (case collectUsers eus (acc, node_stats w) of (acc', m) \<Rightarrow> run (k acc') (set_stats m w))"
proof (induction eus arbitrary: acc w)
  case (Cons eu eus)
  obtain e u where eu: "eu = (e, u)" by fastforce
  show ?case by (simp add: eu run_drainTraffic Cons.IH collectUser_def add_sample_def Let_def split: prod.split)
qed simp

lemma run_trafficUsers:
  fixes w :: "('p, 'c, 'ih, 'oh) node"
  shows "run (trafficUsers_task now tag us acc limited k) w =
     (let s = foldl (trafficUser now tag) \<lparr>tr_acc = acc, tr_stats = node_stats w, tr_limited = limited, tr_ctl = nd_ctl w\<rparr> us
      in run (k (tr_acc s) (tr_limited s)) (set_stats (tr_stats s) (w\<lparr>nd_ctl := tr_ctl s\<rparr>)))"
proof (induction us arbitrary: acc limited w)
  case (Cons u us)
  obtain up down ds m where d: "drainTraffic (buildUserTagWithTag tag u) (node_stats w) = ((up, down, ds), m)" by (metis surj_pair)
  show ?case
    by (simp add: run_drainTraffic run_act d Cons.IH trafficUser_def add_sample_def set_ctl_as_update Let_def split: prod.split)
qed simp

lemma run_restoreTraffic: "run (restoreTraffic_task ds k) w = run k (set_stats (restoreTraffic ds (node_stats w)) w)"
  by (induction ds arbitrary: w) (simp_all add: run_emit)

lemma run_flushUserTraffic:
  "run (flushUserTraffic_task api traffic deltas k) w =
     (case flushUserTraffic (\<lambda>traffic (p, m). let (e, p') = api_ReportUserTraffic api traffic p in (Returned e, p', m))
        (cfg_DisableUploadTraffic (c_config (nd_ctl w))) traffic deltas (nd_panel w, node_stats w) of
      (out, p, m) \<Rightarrow> run (k (out = Returned None)) (set_stats m (w\<lparr>nd_panel := p\<rparr>)))"
  by (auto simp: flushUserTraffic_task_def flushUserTraffic_def run_emit run_restoreTraffic Let_def split: prod.split option.split)

lemma run_settleTraffic:
  "run (settleTraffic_task api now tag us rs k) w = run k (settleTraffic api now tag us rs w)"
  by (simp add: settleTraffic_task_def settleTraffic_def run_trafficUsers run_collectUsers run_flushUserTraffic run_users Let_def
      split: prod.split)

lemma run_releaseLimitedUsers: "run (releaseLimitedUsers_task now tag k) w = run k (releaseLimitedUsers now tag w)"
  by (simp add: releaseLimitedUsers_task_def releaseLimitedUsers_def run_act Let_def split: prod.split)

lemma run_reports:
  "run (reportDevices_task api tag k) w = run k (reportDevices api tag w)"
  "run (reportIllegals_task api tag k) w = run k (reportIllegals api tag w)"
  by (simp_all add: reportDevices_task_def reportDevices_def reportIllegals_task_def reportIllegals_def run_act Let_def
      split: prod.split sum.split)

lemma run_userInfoMonitor: "run (userInfoMonitor_task api elapsed now) w = userInfoMonitor api elapsed now w"
  by (simp add: userInfoMonitor_task_def userInfoMonitor_def run_releaseLimitedUsers run_settleTraffic run_reports Let_def
      split: prod.split)


end
