(* ===== verification/Monitor_Races.thy ===== *)
theory Monitor_Races
  imports Monitor_Threads
begin

text \<open>
  What holds over every interleaving of the two monitors of a controller and the connections of its
  node, and the one race that loses a retired user. The tasks are those of \<open>Monitor_Threads\<close>; the
  invariants are instances of the rely-guarantee rule of \<open>Goroutines\<close>.
\<close>

section \<open>The tasks and the connections\<close>

definition node_rounds :: "'c cache_iface \<Rightarrow> ('ic, 'oc, 'ih, 'oh) core_env \<Rightarrow> ('p, 'c, 'ih, 'oh) task set" where
  "node_rounds iface ce = {nodeInfoMonitor_task iface ce api elapsed | api elapsed. True}"

definition user_rounds :: "('p, 'c, 'ih, 'oh) task set" where
  "user_rounds = {userInfoMonitor_task api elapsed now | api elapsed now. True}"

text \<open>
  The actions of connections: the parts of \<open>getUserIO\<close> in any order, with any effect on the limiter,
  the release of a flow, counting, and audit hits.
\<close>

inductive conn_step :: "('p, 'c, 'ih, 'oh) node \<Rightarrow> monitor_event list \<Rightarrow> ('p, 'c, 'ih, 'oh) node \<Rightarrow> bool" where
  conn_acquire: "flow_acquire tag e (node_flows w) = (oa, r') \<Longrightarrow> conn_step w [] (set_flows r' w)"
| conn_release: "conn_step w [] (set_flows (runtime_release a (node_flows w)) w)"
| conn_limiter: "conn_step w [] (set_limiter l w)"
| conn_counter: "conn_step w [] (set_stats (snd (RegisterCounter name (node_stats w))) w)"
| conn_count: "conn_step w [Counted_on c v] (set_stats (snd (counter_Add c v (node_stats w))) w)"
| conn_rules: "conn_step w [] (set_rules rm w)"

inductive_cases conn_stepE: "conn_step w es w'"

section \<open>Keys exposed by the history\<close>

text \<open>
  The user monitor finalises a key in two actions: the dispatcher forgets the user, then the
  controller takes it off its list. A key that the node monitor touches between the two is exposed.
\<close>

fun watch :: "user_at option \<times> user_at set \<Rightarrow> monitor_event \<Rightarrow> user_at option \<times> user_at set" where
  "watch (win, lost) (Finalised k) = (Some k, lost)"
| "watch (win, lost) (Forgot k) = (None, lost)"
| "watch (win, lost) (Touched ks) = (win, lost \<union> (set ks \<inter> set_option win))"
| "watch s _ = s"

definition exposed :: "monitor_event list \<Rightarrow> user_at set" where
  "exposed tr = snd (foldl watch (None, {}) tr)"

section \<open>Guarantees of the node monitor\<close>

definition touched :: "monitor_event list \<Rightarrow> user_at set" where
  "touched es = (\<Union>e \<in> set es. case e of Touched ks \<Rightarrow> set ks | _ \<Rightarrow> {})"

lemma touched_simps [simp]: "touched [] = {}" "touched [Touched ks] = set ks"
  by (simp_all add: touched_def)

text \<open>
  The assertion of the node monitor: the keys \<open>K\<close> it has retired but not yet listed, and the keys \<open>C\<close>
  it has registered but not yet taken off the list.
\<close>

definition all_current :: "user_at set \<Rightarrow> ('p, 'c, 'ih, 'oh) node \<Rightarrow> bool" where
  "all_current C w \<longleftrightarrow> (\<forall>(t, e) \<in> C. is_current (node_flows w) t e)"

definition node_guarantee ::
    "user_at set \<times> user_at set \<Rightarrow> ('p, 'c, 'ih, 'oh) node \<Rightarrow> monitor_event list \<Rightarrow> ('p, 'c, 'ih, 'oh) node \<Rightarrow> user_at set \<times> user_at set \<Rightarrow> bool" where
  "node_guarantee a w es w' a' \<longleftrightarrow>
     (\<forall>F. node_inv_upto (F \<union> fst a) w \<and> all_current (snd a) w \<longrightarrow>
        node_inv_upto (F \<union> fst a') w' \<and> all_current (snd a') w'
        \<and> (\<forall>t e. runtime_of (node_flows w) t e = None \<and> (t, e) \<notin> touched es \<longrightarrow> runtime_of (node_flows w') t e = None))
     \<and> node_stats w' = node_stats w \<and> (es = [] \<or> (\<exists>ks. es = [Touched ks]))"

lemma node_guarantee_quiet:
  assumes "node_flows w' = node_flows w" and "node_stats w' = node_stats w" and "c_retiringUsers (nd_ctl w') = c_retiringUsers (nd_ctl w)"
  shows "node_guarantee a w [] w' a"
  using assms node_inv_cong [OF assms] by (simp add: node_guarantee_def all_current_def)

abbreviation node_guards :: "('p, 'c, 'ih, 'oh) task \<Rightarrow> bool" where
  "node_guards p \<equiv> guards always node_guarantee ({}, {}) ({}, {}) p"

text \<open>The invariant does not need more exceptions than there are.\<close>

lemma node_inv_upto_mono: "node_inv_upto F w \<Longrightarrow> F \<subseteq> F' \<Longrightarrow> node_inv_upto F' w"
  unfolding node_inv_upto_def tracked_def by blast

lemma node_inv_uptoI:
  assumes "flow_inv (node_flows w)" and "stats_inv (node_stats w)"
    and "\<And>t e. runtime_of (node_flows w) t e \<noteq> None \<Longrightarrow> \<not> is_current (node_flows w) t e \<Longrightarrow> (t, e) \<notin> F \<Longrightarrow>
      load (c_retiringUsers (nd_ctl w)) (t, e) \<noteq> None"
    and "\<And>k u. load (c_retiringUsers (nd_ctl w)) k = Some u \<Longrightarrow> k = (rt_tag u, user_key (rt_tag u) (rt_user u))"
    and "wf_map (c_retiringUsers (nd_ctl w))"
  shows "node_inv_upto F w"
  using assms unfolding node_inv_upto_def tracked_def by blast

lemma register_first:
  assumes "node_inv_upto F w"
  shows "node_inv_upto F (set_flows (flow_register tag emails (node_flows w)) w)"
    and "e \<in> set emails \<Longrightarrow> is_current (flow_register tag emails (node_flows w)) tag e"
    and "runtime_of (node_flows w) t e = None \<Longrightarrow> (t, e) \<notin> Pair tag ` set emails \<Longrightarrow> runtime_of (flow_register tag emails (node_flows w)) t e = None"
proof -
  let ?r = "node_flows w" and ?r' = "flow_register tag emails (node_flows w)"
  note sp = flow_register_spec [OF node_invD(1) [OF assms]]
  show "e \<in> set emails \<Longrightarrow> is_current ?r' tag e" using sp(5) by simp
  show "runtime_of ?r t e = None \<Longrightarrow> (t, e) \<notin> Pair tag ` set emails \<Longrightarrow> runtime_of ?r' t e = None"
    using flow_register_dom [of tag emails ?r t e] by auto
  have tr: "load (c_retiringUsers (nd_ctl w)) (t, e) \<noteq> None"
    if "runtime_of ?r' t e \<noteq> None" "\<not> is_current ?r' t e" "(t, e) \<notin> F" for t e
  proof -
    have "\<not> (t = tag \<and> e \<in> set emails)" "\<not> is_current ?r t e" using that(2) sp(5) by auto
    with flow_register_dom [OF that(1)] that(3) node_invD(3) [OF assms] show ?thesis by blast
  qed
  show "node_inv_upto F (set_flows ?r' w)"
    by (rule node_inv_uptoI) (use sp(1) node_invD(2,4,5) [OF assms] tr in simp_all)
qed

lemma register_second:
  assumes "node_inv_upto F w" and "all_current (Pair tag ` set emails) w"
  shows "node_inv_upto F (set_ctl (\<lambda>c. c\<lparr>c_retiringUsers := foldl (\<lambda>m email. del (tag, email) m) (c_retiringUsers c) emails\<rparr>) w)"
proof -
  let ?m = "c_retiringUsers (nd_ctl w)" and ?m' = "foldl (\<lambda>m email. del (tag, email) m) (c_retiringUsers (nd_ctl w)) emails"
  have ld: "load ?m' k = (if k \<in> Pair tag ` set emails then None else load ?m k)" for k
    using load_foldl_del [of "Pair tag" ?m emails k] by simp
  have "wf_map ?m'" by (rule foldl_invariant) (use assms in \<open>auto simp: node_inv_upto_def\<close>)
  then show ?thesis
    using assms(2) node_invD [OF assms(1)]
    by (intro node_inv_uptoI) (auto simp: ld all_current_def split: if_splits)
qed

lemma node_guards_register:
  fixes k :: "('p, 'c, 'ih, 'oh) task"
  assumes "node_guards k"
  shows "node_guards (registerManagedUsers_task tag users k)"
proof -
  let ?es = "runtimeUserEmails tag users" and ?C = "Pair tag ` set (runtimeUserEmails tag users)"
  have "node_guarantee ({}, {}) w [Touched (map (Pair tag) ?es)] (set_flows (flow_register tag ?es (node_flows w)) w) ({}, ?C)"
    for w :: "('p, 'c, 'ih, 'oh) node"
    using register_first [of _ w] by (auto simp: node_guarantee_def all_current_def)
  moreover have "node_guarantee ({}, ?C) w []
      (set_ctl (\<lambda>c. c\<lparr>c_retiringUsers := foldl (\<lambda>m email. del (tag, email) m) (c_retiringUsers c) ?es\<rparr>) w) ({}, {})"
    for w :: "('p, 'c, 'ih, 'oh) node"
    using register_second [of _ w] by (auto simp: node_guarantee_def all_current_def)
  ultimately show ?thesis
    unfolding registerManagedUsers_task_def Let_def
    by (intro guards_emit exI [of _ "({}, ?C)"] conjI guards_perform [where a' = "({}, {})"]) (use assms in auto)
qed


lemma retire_first:
  assumes "node_inv_upto F w"
  shows "node_inv_upto (F \<union> Pair tag ` set emails) (set_flows (flow_retire tag emails (node_flows w)) w)"
    and "runtime_of (node_flows w) t e = None \<Longrightarrow> (t, e) \<notin> Pair tag ` set emails \<Longrightarrow> runtime_of (flow_retire tag emails (node_flows w)) t e = None"
proof -
  let ?r = "node_flows w" and ?r' = "flow_retire tag emails (node_flows w)"
  note sp = flow_retire_spec [OF node_invD(1) [OF assms]]
  show "runtime_of ?r t e = None \<Longrightarrow> (t, e) \<notin> Pair tag ` set emails \<Longrightarrow> runtime_of ?r' t e = None"
    using flow_retire_dom [of tag emails ?r t e] by auto
  have tr: "load (c_retiringUsers (nd_ctl w)) (t, e) \<noteq> None"
    if "runtime_of ?r' t e \<noteq> None" "\<not> is_current ?r' t e" "(t, e) \<notin> F \<union> Pair tag ` set emails" for t e
  proof -
    have "\<not> (t = tag \<and> e \<in> set emails)" using that(3) by auto
    with that sp(5) flow_retire_dom [OF that(1)] node_invD(3) [OF assms] show ?thesis by blast
  qed
  show "node_inv_upto (F \<union> Pair tag ` set emails) (set_flows ?r' w)"
    by (rule node_inv_uptoI) (use sp(1) node_invD(2,4,5) [OF assms] tr in simp_all)
qed

lemma retire_second:
  assumes "node_inv_upto (F \<union> Pair tag ` set (runtimeUserEmails tag us)) w"
  shows "node_inv_upto F (set_ctl (\<lambda>c. c\<lparr>c_retiringUsers := foldl (\<lambda>m (email, user). store (tag, email) \<lparr>rt_tag = tag, rt_user = user\<rparr> m)
                            (c_retiringUsers c) (zip (runtimeUserEmails tag us) us)\<rparr>) w)" (is "node_inv_upto F ?w")
proof -
  let ?f = "\<lambda>user. \<lparr>rt_tag = tag, rt_user = user\<rparr>" and ?m = "c_retiringUsers (nd_ctl w)"
  let ?m' = "foldl (\<lambda>m (email, user). store (tag, email) (?f user) m) (c_retiringUsers (nd_ctl w)) (zip (runtimeUserEmails tag us) us)"
  have ld: "load ?m' k = (case find (\<lambda>u. k = (tag, user_key tag u)) (rev us) of None \<Rightarrow> load ?m k | Some u \<Rightarrow> Some (?f u))" for k
    unfolding runtimeUserEmails_key by (rule load_foldl_store_retiring)
  have wf: "wf_map ?m'" by (rule foldl_invariant) (use node_invD(5) [OF assms] in auto)
  have "load ?m' (t, e) \<noteq> None" if "runtime_of (node_flows w) t e \<noteq> None" "\<not> is_current (node_flows w) t e" "(t, e) \<notin> F" for t e
  proof (cases "(t, e) \<in> Pair tag ` set (runtimeUserEmails tag us)")
    case True
    then have "find (\<lambda>u. (t, e) = (tag, user_key tag u)) (rev us) \<noteq> None"
      by (auto simp: find_None_iff runtimeUserEmails_key)
    then show ?thesis by (auto simp: ld)
  next
    case False
    with node_invD(3) [OF assms that(1,2)] that(3) have "load ?m (t, e) \<noteq> None" by blast
    then show ?thesis by (auto simp: ld split: option.splits)
  qed
  moreover have "k = (rt_tag u, user_key (rt_tag u) (rt_user u))" if "load ?m' k = Some u" for k u
    using that node_invD(4) [OF assms, of k u] by (auto simp: ld find_Some_iff split: option.splits)
  ultimately show ?thesis
    using wf node_invD(1,2) [OF assms] by (intro node_inv_uptoI) simp_all
qed

lemma node_guards_retire:
  fixes k :: "('p, 'c, 'ih, 'oh) task"
  assumes "node_guards k"
  shows "node_guards (retireManagedUsers_task tag users k)"
proof -
  let ?es = "runtimeUserEmails tag users" and ?K = "Pair tag ` set (runtimeUserEmails tag users)"
  have "node_guarantee ({}, {}) w [Touched (map (Pair tag) ?es)] (set_flows (flow_retire tag ?es (node_flows w)) w) (?K, {})"
    for w :: "('p, 'c, 'ih, 'oh) node"
    using retire_first [of _ w] by (auto simp: node_guarantee_def all_current_def)
  moreover have "node_guarantee (?K, {}) w []
      (set_ctl (\<lambda>c. c\<lparr>c_retiringUsers := foldl (\<lambda>m (email, user). store (tag, email) \<lparr>rt_tag = tag, rt_user = user\<rparr> m)
          (c_retiringUsers c) (zip ?es users)\<rparr>) w) ({}, {})"
    for w :: "('p, 'c, 'ih, 'oh) node"
    using retire_second [of _ tag users w] by (auto simp: node_guarantee_def all_current_def)
  ultimately show ?thesis
    unfolding retireManagedUsers_task_def Let_def
    by (auto intro!: guards_emit exI [of _ "(?K, {})"] guards_perform [where a' = "({}, {})"] assms)
qed

lemma node_guards_restore: "node_guards k \<Longrightarrow> node_guards (restoreManagedUsers_task tag users k)"
  by (simp add: restoreManagedUsers_task_def node_guards_register)

text \<open>Everything else the node monitor does leaves the registry, the counters and the list alone.\<close>

lemma node_guards_quiet_look: "(\<And>x. node_guards (k x)) \<Longrightarrow> node_guards (look f k)"
  by (rule guards_look) (simp_all add: node_guarantee_quiet)

lemma node_guards_quiet_act:
  fixes f :: "('p, 'c, 'ih, 'oh) node \<Rightarrow> 'a \<times> ('p, 'c, 'ih, 'oh) node"
  assumes "\<And>w. node_flows (snd (f w)) = node_flows w \<and> node_stats (snd (f w)) = node_stats w
      \<and> c_retiringUsers (nd_ctl (snd (f w))) = c_retiringUsers (nd_ctl w)"
    and "\<And>x. node_guards (k x)"
  shows "node_guards (act f k)"
  by (rule guards_act) (use assms in \<open>metis node_guarantee_quiet snd_conv\<close>)+

lemma node_guards_quiet_perform:
  assumes "\<And>w. node_flows (f w) = node_flows w \<and> node_stats (f w) = node_stats w
      \<and> c_retiringUsers (nd_ctl (f w)) = c_retiringUsers (nd_ctl w)"
    and "node_guards k"
  shows "node_guards (perform f k)"
  by (rule guards_perform) (use assms in \<open>auto intro: node_guarantee_quiet\<close>)

lemmas node_guards_rules =
  node_guards_register node_guards_retire node_guards_restore node_guards_quiet_look node_guards_quiet_act node_guards_quiet_perform

lemma node_guards_addNewUser: "(\<And>err. node_guards (k err)) \<Longrightarrow> node_guards (addNewUser_task ce us ni tag k)"
  unfolding addNewUser_task_def
  by (auto intro!: node_guards_rules split: sum.split prod.split simp: Let_def)

lemma node_guards_checkRules: "node_guards k \<Longrightarrow> node_guards (checkRules_task api tag k)"
  unfolding checkRules_task_def
  by (auto intro!: node_guards_rules split: sum.split prod.split simp: Let_def)

lemma node_guards_switchTag: "(\<And>t. node_guards (k t)) \<Longrightarrow> node_guards (switchTag_task ce old oldTag us new k)"
  unfolding switchTag_task_def
  by (auto intro!: node_guards_rules split: prod.split simp: Let_def)

lemma node_guards_applyUserDiff: "(\<And>b. node_guards (k b)) \<Longrightarrow> node_guards (applyUserDiff_task ce ni tag d k)"
  unfolding applyUserDiff_task_def Let_def
  by (auto intro!: node_guards_rules node_guards_addNewUser split: prod.split)

lemma node_monitor_guards: "p \<in> node_rounds iface ce \<Longrightarrow> node_guards p"
  unfolding node_rounds_def nodeInfoMonitor_task_def Let_def
  by (auto intro!: node_guards_rules node_guards_switchTag node_guards_checkRules node_guards_addNewUser node_guards_applyUserDiff
      guards_Done split: option.split sum.split go_error.split prod.split)


section \<open>Guarantees of the user monitor\<close>

text \<open>The assertion of the user monitor is the key whose finalisation it has begun.\<close>

definition user_guarantee ::
    "user_at option \<Rightarrow> ('p, 'c, 'ih, 'oh) node \<Rightarrow> monitor_event list \<Rightarrow> ('p, 'c, 'ih, 'oh) node \<Rightarrow> user_at option \<Rightarrow> bool" where
  "user_guarantee win w es w' win' \<longleftrightarrow>
     (\<forall>F. node_inv_upto F w \<and> (\<forall>t e. win = Some (t, e) \<longrightarrow> (t, e) \<in> F \<or> runtime_of (node_flows w) t e = None) \<longrightarrow> node_inv_upto F w')
     \<and> (\<forall>t e. is_current (node_flows w') t e = is_current (node_flows w) t e)
     \<and> (\<forall>t e. runtime_of (node_flows w) t e = None \<longrightarrow> runtime_of (node_flows w') t e = None)
     \<and> (\<forall>t e. win' = Some (t, e) \<longrightarrow> win = Some (t, e) \<or> runtime_of (node_flows w') t e = None)
     \<and> (\<forall>lost. foldl watch (win, lost) es = (win', lost))"

definition no_window_event :: "monitor_event \<Rightarrow> bool" where
  "no_window_event e = (case e of Touched _ \<Rightarrow> False | Finalised _ \<Rightarrow> False | Forgot _ \<Rightarrow> False | _ \<Rightarrow> True)"

lemma watch_no_window: "list_all no_window_event es \<Longrightarrow> foldl watch s es = s"
  by (induction es arbitrary: s) (auto simp: no_window_event_def split: monitor_event.splits)

lemma user_guaranteeD:
  assumes "user_guarantee win w es w' win'"
  shows "node_inv_upto F w \<Longrightarrow> (\<And>t e. win = Some (t, e) \<Longrightarrow> (t, e) \<in> F \<or> runtime_of (node_flows w) t e = None) \<Longrightarrow> node_inv_upto F w'"
    and "is_current (node_flows w') t e = is_current (node_flows w) t e"
    and "runtime_of (node_flows w) t e = None \<Longrightarrow> runtime_of (node_flows w') t e = None"
    and "win' = Some (t, e) \<Longrightarrow> win = Some (t, e) \<or> runtime_of (node_flows w') t e = None"
    and "foldl watch (win, lost) es = (win', lost)"
  using assms by (simp_all add: user_guarantee_def)

lemma user_guarantee_quiet:
  assumes "node_flows w' = node_flows w" and "c_retiringUsers (nd_ctl w') = c_retiringUsers (nd_ctl w)"
    and "stats_inv (node_stats w) \<Longrightarrow> stats_inv (node_stats w')" and "list_all no_window_event es"
  shows "user_guarantee win w es w' win"
  using assms by (auto simp: user_guarantee_def node_inv_upto_def watch_no_window)

abbreviation user_guards :: "('p, 'c, 'ih, 'oh) task \<Rightarrow> bool" where
  "user_guards p \<equiv> guards always user_guarantee None None p"

lemma user_guards_look: "(\<And>x. user_guards (k x)) \<Longrightarrow> user_guards (look f k)"
  by (rule guards_look) (simp_all add: user_guarantee_quiet)

lemma user_guards_emit:
  fixes f :: "('p, 'c, 'ih, 'oh) node \<Rightarrow> 'a \<times> monitor_event list \<times> ('p, 'c, 'ih, 'oh) node"
  assumes "\<And>w x es w'. f w = (x, es, w') \<Longrightarrow> node_flows w' = node_flows w \<and> c_retiringUsers (nd_ctl w') = c_retiringUsers (nd_ctl w)
      \<and> (stats_inv (node_stats w) \<longrightarrow> stats_inv (node_stats w')) \<and> list_all no_window_event es"
    and "\<And>x. user_guards (k x)"
  shows "user_guards (emit f k)"
  by (rule guards_emit) (use assms user_guarantee_quiet in blast)

lemma user_guards_act:
  fixes f :: "('p, 'c, 'ih, 'oh) node \<Rightarrow> 'a \<times> ('p, 'c, 'ih, 'oh) node"
  assumes "\<And>w. node_flows (snd (f w)) = node_flows w \<and> node_stats (snd (f w)) = node_stats w
      \<and> c_retiringUsers (nd_ctl (snd (f w))) = c_retiringUsers (nd_ctl w)"
    and "\<And>x. user_guards (k x)"
  shows "user_guards (act f k)"
  by (rule guards_act, rule user_guarantee_quiet) (use assms in \<open>metis snd_conv list.pred_inject(1)\<close>)+

lemma user_guards_perform:
  assumes "\<And>w. node_flows (f w) = node_flows w \<and> node_stats (f w) = node_stats w
      \<and> c_retiringUsers (nd_ctl (f w)) = c_retiringUsers (nd_ctl w)"
    and "user_guards k"
  shows "user_guards (perform f k)"
  by (rule guards_perform [where a' = None], rule user_guarantee_quiet) (use assms in auto)

lemmas user_guards_rules = user_guards_look user_guards_emit user_guards_act user_guards_perform

lemma user_guards_drainCounter: "(\<And>d. user_guards (k d)) \<Longrightarrow> user_guards (drainTrafficCounter_task oc k)"
  unfolding drainTrafficCounter_task_def
  by (auto intro!: user_guards_rules simp: Let_def no_window_event_def counter_Set_def stats_inv_Add split: option.split)

lemma user_guards_drain: "(\<And>up down ds. user_guards (k up down ds)) \<Longrightarrow> user_guards (drainTraffic_task email k)"
  unfolding drainTraffic_task_def Let_def
  by (intro user_guards_look user_guards_drainCounter) (auto split: prod.split)

lemma watchUser_retiring: "c_retiringUsers (snd (watchUser now u up down (l, c))) = c_retiringUsers c"
  by (simp add: watchUser_def limitUser_def Let_def)

lemma user_guards_trafficUsers:
  "(\<And>acc l. user_guards (k acc l)) \<Longrightarrow> user_guards (trafficUsers_task now tag us acc limited k)"
proof (induction us arbitrary: acc limited)
  case (Cons u us)
  have c: "c_retiringUsers c' = c_retiringUsers c" if "watchUser now u up down (l, c) = (l', c')" for up down l c l' c'
    using watchUser_retiring [of now u up down l c] that by simp
  show ?case
    by (auto intro!: user_guards_drain user_guards_act user_guards_perform Cons simp: Let_def split: prod.split) (erule c)+
qed simp

lemma user_guards_collectUsers: "(\<And>acc. user_guards (k acc)) \<Longrightarrow> user_guards (collectUsers_task eus acc k)"
  by (induction eus acc k rule: collectUsers_task.induct) (auto intro!: user_guards_drain)

lemma user_guards_restore: "user_guards k \<Longrightarrow> user_guards (restoreTraffic_task ds k)"
  by (induction ds) (auto intro!: user_guards_emit simp: no_window_event_def stats_inv_Add)

lemma user_guards_flush: "(\<And>ok. user_guards (k ok)) \<Longrightarrow> user_guards (flushUserTraffic_task api traffic ds k)"
  unfolding flushUserTraffic_task_def
  by (auto intro!: user_guards_emit user_guards_restore simp: Let_def no_window_event_def split: prod.splits)

text \<open>The finalisation of one user: between its two actions the key is in the window.\<close>

lemma finalise_first:
  assumes f: "FinalizeRetiredUser t e (node_flows w, node_stats w) = (True, r', m')"
  shows "user_guarantee None w [Finalised (t, e)] (set_stats m' (set_flows r' w)) (Some (t, e))"
proof -
  have "node_inv_upto F (set_stats m' (set_flows r' w))" if "node_inv_upto F w" for F
    using that FinalizeRetiredUser_inv [OF node_invD(1,2) [OF that] f] finalize_tracked(2) [OF f]
    by (simp add: node_inv_upto_def)
  then show ?thesis
    using finalize_views(1,2) [OF f] by (auto simp: user_guarantee_def)
qed

lemma finalise_refused:
  assumes f: "FinalizeRetiredUser t e (node_flows w, node_stats w) = (False, r', m')"
  shows "user_guarantee None w [] (set_stats m' (set_flows r' w)) None"
  by (rule user_guarantee_quiet) (use FinalizeRetiredUser_cases(2) [OF f] in auto)

lemma forget_inv:
  assumes inv: "node_inv_upto F w" and out: "(t, e) \<in> F \<or> runtime_of (node_flows w) t e = None"
    and same: "node_flows w' = node_flows w" "node_stats w' = node_stats w"
    and ret: "c_retiringUsers (nd_ctl w') = del (t, e) (c_retiringUsers (nd_ctl w))"
  shows "node_inv_upto F w'"
proof (rule node_inv_uptoI)
  have ld: "load (c_retiringUsers (nd_ctl w')) k = (if k = (t, e) then None else load (c_retiringUsers (nd_ctl w)) k)" for k
    by (simp add: ret)
  show "wf_map (c_retiringUsers (nd_ctl w'))" using node_invD(5) [OF inv] by (simp add: ret)
  show "k = (rt_tag u, user_key (rt_tag u) (rt_user u))" if "load (c_retiringUsers (nd_ctl w')) k = Some u" for k u
    by (rule node_invD(4) [OF inv]) (use that in \<open>simp add: ld split: if_splits\<close>)
  show "load (c_retiringUsers (nd_ctl w')) (t', e') \<noteq> None"
    if "runtime_of (node_flows w') t' e' \<noteq> None" "\<not> is_current (node_flows w') t' e'" "(t', e') \<notin> F" for t' e'
  proof -
    have "load (c_retiringUsers (nd_ctl w)) (t', e') \<noteq> None" using node_invD(3) [OF inv] that same by simp
    moreover have "(t', e') \<noteq> (t, e)" using that out same by auto
    ultimately show ?thesis by (simp only: ld if_False not_False_eq_True)
  qed
qed (use node_invD(1,2) [OF inv] same in simp_all)

lemma finalise_second:
  "user_guarantee (Some (t, e)) w [Forgot (t, e)] (set_ctl (\<lambda>c. case load (c_retiringUsers c) (t, e) of
        Some current \<Rightarrow> if rt_user current = u then c\<lparr>c_retiringUsers := del (t, e) (c_retiringUsers c)\<rparr> else c
      | None \<Rightarrow> c) w) None" (is "user_guarantee _ w _ ?w _")
proof -
  have ret: "c_retiringUsers (nd_ctl ?w) = c_retiringUsers (nd_ctl w) \<or> c_retiringUsers (nd_ctl ?w) = del (t, e) (c_retiringUsers (nd_ctl w))"
    by (simp split: option.split)
  have "node_inv_upto F ?w" if inv: "node_inv_upto F w" and out: "(t, e) \<in> F \<or> runtime_of (node_flows w) t e = None" for F
    using ret
  proof
    assume "c_retiringUsers (nd_ctl ?w) = c_retiringUsers (nd_ctl w)"
    then show ?thesis using node_inv_cong [of ?w w F] inv by (simp only: node_views)
  next
    assume "c_retiringUsers (nd_ctl ?w) = del (t, e) (c_retiringUsers (nd_ctl w))"
    then show ?thesis by (rule forget_inv [OF inv out node_views(5) node_views(10)])
  qed
  then show ?thesis by (simp add: user_guarantee_def)
qed

lemma user_guards_finalize: "user_guards k \<Longrightarrow> user_guards (finalizeRetiringUsers_task rs k)"
proof (induction rs)
  case (Cons r rs)
  let ?e = "buildUserTagWithTag (rt_tag r) (rt_user r)"
  have "guards always user_guarantee None (Some (rt_tag r, ?e))
     (emit (\<lambda>w. ((), [Forgot (rt_tag r, ?e)], set_ctl (\<lambda>c. case load (c_retiringUsers c) (rt_tag r, ?e) of
           Some current \<Rightarrow> if rt_user current = rt_user r then c\<lparr>c_retiringUsers := del (rt_tag r, ?e) (c_retiringUsers c)\<rparr> else c
         | None \<Rightarrow> c) w)) (\<lambda>_. finalizeRetiringUsers_task rs k))"
    using Cons finalise_second by (intro guards_emit exI [of _ None]) blast
  note second = this
  show ?case unfolding finalizeRetiringUsers_task.simps Let_def
  proof (rule guards_emit, goal_cases)
    case (1 w ok es w')
    obtain ok' r' m' where f: "FinalizeRetiredUser (rt_tag r) ?e (node_flows w, node_stats w) = (ok', r', m')" by (metis surj_pair)
    show ?case
    proof (cases ok')
      case True
      with 1 f finalise_first [of "rt_tag r" ?e w r' m'] second show ?thesis by auto
    next
      case False
      with 1 f finalise_refused [of "rt_tag r" ?e w r' m'] Cons show ?thesis by auto
    qed
  qed
qed simp

lemma release_loop_retiring: "release_loop now us (acc, c) = (rel, c') \<Longrightarrow> c_retiringUsers c' = c_retiringUsers c"
  using release_loop_ctl [of now us acc c rel c'] by auto

lemma user_guards_release: "user_guards k \<Longrightarrow> user_guards (releaseLimitedUsers_task now tag k)"
  unfolding releaseLimitedUsers_task_def
  by (auto intro!: user_guards_act user_guards_perform simp: Let_def split: prod.split dest: release_loop_retiring)

lemma user_guards_settle: "user_guards k \<Longrightarrow> user_guards (settleTraffic_task api now tag us rs k)"
  unfolding settleTraffic_task_def Let_def
  by (auto intro!: user_guards_trafficUsers user_guards_collectUsers user_guards_finalize user_guards_flush user_guards_perform)

lemma user_guards_reports:
  "user_guards k \<Longrightarrow> user_guards (reportDevices_task api tag k)" "user_guards k \<Longrightarrow> user_guards (reportIllegals_task api tag k)"
  unfolding reportDevices_task_def reportIllegals_task_def
  by (auto intro!: user_guards_act user_guards_perform simp: Let_def split: prod.split sum.split)

lemma user_monitor_guards: "p \<in> user_rounds \<Longrightarrow> user_guards p"
  unfolding user_rounds_def userInfoMonitor_task_def
  by (auto intro!: user_guards_look user_guards_perform user_guards_release user_guards_settle user_guards_reports guards_Done)


section \<open>Retired users over all interleavings\<close>

definition tracking_inv ::
    "user_at set \<times> user_at set \<Rightarrow> user_at option \<Rightarrow> monitor_event list \<Rightarrow> ('p, 'c, 'ih, 'oh) node \<Rightarrow> bool" where
  "tracking_inv a win tr w \<longleftrightarrow> fst (foldl watch (None, {}) tr) = win \<and> node_inv_upto (exposed tr \<union> fst a) w \<and> all_current (snd a) w
     \<and> (\<forall>t e. win = Some (t, e) \<longrightarrow> (t, e) \<in> exposed tr \<or> runtime_of (node_flows w) t e = None)"

lemma foldl_watch_step:
  "foldl watch (fst (foldl watch (None, {}) tr), exposed tr) es = (win, lost) \<Longrightarrow>
     fst (foldl watch (None, {}) (tr @ es)) = win \<and> exposed (tr @ es) = lost"
  by (simp add: exposed_def)

lemma tracking_node:
  assumes inv: "tracking_inv a win tr w" and g: "node_guarantee a w es w' a'"
  shows "tracking_inv a' win (tr @ es) w'"
proof -
  have "foldl watch (win, exposed tr) es = (win, exposed tr \<union> (touched es \<inter> set_option win))"
    using g by (auto simp: node_guarantee_def)
  with inv have ex: "fst (foldl watch (None, {}) (tr @ es)) = win" "exposed (tr @ es) = exposed tr \<union> (touched es \<inter> set_option win)"
    using foldl_watch_step [of tr es win] by (auto simp: tracking_inv_def)
  have "node_inv_upto (exposed tr \<union> fst a') w'" "all_current (snd a') w'"
    and none: "\<And>t e. runtime_of (node_flows w) t e = None \<Longrightarrow> (t, e) \<notin> touched es \<Longrightarrow> runtime_of (node_flows w') t e = None"
    using inv g by (auto simp: tracking_inv_def node_guarantee_def)
  moreover from this(1) have "node_inv_upto (exposed (tr @ es) \<union> fst a') w'"
    by (rule node_inv_upto_mono) (auto simp: ex)
  moreover have "(t, e) \<in> exposed (tr @ es) \<or> runtime_of (node_flows w') t e = None" if "win = Some (t, e)" for t e
  proof -
    have "(t, e) \<in> exposed tr \<or> runtime_of (node_flows w) t e = None" using inv that by (simp add: tracking_inv_def)
    then show ?thesis using none [of t e] that by (cases "(t, e) \<in> touched es") (auto simp: ex)
  qed
  ultimately show ?thesis unfolding tracking_inv_def using ex(1) by blast
qed

lemma tracking_user:
  assumes inv: "tracking_inv a win tr w" and g: "user_guarantee win w es w' win'"
  shows "tracking_inv a win' (tr @ es) w'"
proof -
  note g = user_guaranteeD [OF g]
  have win: "fst (foldl watch (None, {}) tr) = win" and nv: "node_inv_upto (exposed tr \<union> fst a) w" and cur: "all_current (snd a) w"
    and out: "\<And>t e. win = Some (t, e) \<Longrightarrow> (t, e) \<in> exposed tr \<or> runtime_of (node_flows w) t e = None"
    using inv by (simp_all add: tracking_inv_def)
  have ex: "fst (foldl watch (None, {}) (tr @ es)) = win'" "exposed (tr @ es) = exposed tr"
    using foldl_watch_step [of tr es win' "exposed tr", unfolded win, OF g(5)] by auto
  have "node_inv_upto (exposed tr \<union> fst a) w'"
  proof (rule g(1) [OF nv])
    show "(t, e) \<in> exposed tr \<union> fst a \<or> runtime_of (node_flows w) t e = None" if "win = Some (t, e)" for t e
      using out [OF that] by auto
  qed
  moreover have "all_current (snd a) w'" using cur by (simp add: all_current_def g(2))
  moreover have "(t, e) \<in> exposed tr \<or> runtime_of (node_flows w') t e = None" if "win' = Some (t, e)" for t e
    using out [of t e] g(3) [of t e] g(4) [OF that] by auto
  ultimately show ?thesis unfolding tracking_inv_def ex by simp
qed

lemma tracking_conn:
  assumes inv: "tracking_inv a win tr w" and s: "conn_step w es w'"
  shows "tracking_inv a win (tr @ es) w'"
proof -
  have fi: "flow_inv (node_flows w)" and si: "stats_inv (node_stats w)"
    using inv node_invD(1,2) by (auto simp: tracking_inv_def)
  have es: "list_all no_window_event es" using s by (cases rule: conn_step.cases) (simp_all add: no_window_event_def)
  have ctl: "nd_ctl w' = nd_ctl w" using s by (cases rule: conn_step.cases) simp_all
  have adm: "runtime_of (node_flows w') t e = runtime_of (node_flows w) t e \<and> is_current (node_flows w') t e = is_current (node_flows w) t e" for t e
    using s by (cases rule: conn_step.cases) (use flow_acquire_same [OF fi] in \<open>auto simp: same_admissions_def\<close>)
  have inv': "flow_inv (node_flows w') \<and> stats_inv (node_stats w')"
    using s by (cases rule: conn_step.cases)
      (use fi si flow_acquire_spec(1) [OF fi] in \<open>auto simp: flow_inv_runtime_release stats_inv_Register stats_inv_Add\<close>)
  have "node_inv_upto F w' = node_inv_upto F w" for F
    using inv' fi si tracked_cong [of "node_flows w'" "node_flows w" F] adm by (simp add: node_inv_upto_def ctl)
  moreover have "exposed (tr @ es) = exposed tr" "foldl watch (None, {}) (tr @ es) = foldl watch (None, {}) tr"
    using watch_no_window [OF es] by (simp_all add: exposed_def)
  ultimately show ?thesis using inv adm by (simp add: tracking_inv_def all_current_def)
qed

interpretation tracking: interference "node_rounds iface ce" user_rounds conn_step node_guarantee "({}, {})" user_guarantee None tracking_inv
  for iface :: "'c cache_iface" and ce :: "('ic, 'oc, 'ih, 'oh) core_env"
  by unfold_locales (fact node_monitor_guards user_monitor_guards tracking_node tracking_user tracking_conn)+

abbreviation monitors_run ::
    "'c cache_iface \<Rightarrow> ('ic, 'oc, 'ih, 'oh) core_env \<Rightarrow> (('p, 'c, 'ih, 'oh) node, monitor_event) conf \<Rightarrow> monitor_event list \<Rightarrow>
     (('p, 'c, 'ih, 'oh) node, monitor_event) conf \<Rightarrow> bool" where
  "monitors_run iface ce \<equiv> conc_run (node_rounds iface ce) user_rounds conn_step"

definition idle :: "('p, 'c, 'ih, 'oh) node \<Rightarrow> (('p, 'c, 'ih, 'oh) node, monitor_event) conf" where
  "idle w = \<lparr>cf_state = w, cf_first = Done, cf_second = Done\<rparr>"

text \<open>
  C3. Over every interleaving of the two monitors, action by action, and of the connections of the node: whenever the
  node monitor is between its rounds, every user that is no longer admitted but still has a runtime object is
  on the list of retiring users, unless the node monitor touched it while it was being finalised.
\<close>

theorem interleaved_retirements_tracked:
  assumes "fresh_node w0" and "ctl_Start iface ce api w0 = (out, w1)"
    and "monitors_run iface ce (idle w1) tr c" and "cf_first c = Done"
    and "runtime_of (node_flows (cf_state c)) t e \<noteq> None" and "\<not> is_current (node_flows (cf_state c)) t e" and "(t, e) \<notin> exposed tr"
  shows "\<exists>r. load (c_retiringUsers (nd_ctl (cf_state c))) (t, e) = Some r \<and> rt_tag r = t \<and> user_key t (rt_user r) = e"
proof -
  have w1: "node_inv w1" using ctl_Start_inv [OF node_inv_fresh [OF assms(1)], of "{}" iface ce api] assms(2) by simp
  then have "tracking_inv ({}, {}) None [] (cf_state (idle w1))"
    by (simp add: tracking_inv_def idle_def exposed_def all_current_def)
  with tracking.interleaving_invariant [OF assms(3)] obtain a b where
    "tracking_inv a b tr (cf_state c)" "a = ({}, {})"
    using assms(4) by (metis (no_types, lifting) conf.select_convs(2,3) idle_def)
  then have inv: "node_inv_upto (exposed tr) (cf_state c)" by (simp add: tracking_inv_def)
  from node_invD(3) [OF this assms(5-7)] obtain r where "load (c_retiringUsers (nd_ctl (cf_state c))) (t, e) = Some r" by blast
  with node_invD(4) [OF inv this] show ?thesis by auto
qed

lemma counting_run:
  "monitors_run iface ce (idle w) [Counted_on c v] ((idle w)\<lparr>cf_state := set_stats (snd (counter_Add c v (node_stats w))) w\<rparr>)"
proof -
  have "conn_step (cf_state (idle w)) [Counted_on c v] (set_stats (snd (counter_Add c v (node_stats w))) w)"
    using conn_count [of w c v] by (simp add: idle_def)
  then have "conc_step (node_rounds iface ce) user_rounds conn_step (idle w) [Counted_on c v]
      ((idle w)\<lparr>cf_state := set_stats (snd (counter_Add c v (node_stats w))) w\<rparr>)"
    by (rule step_env)
  from run_more [OF run_none this] show ?thesis by simp
qed

theorem interleaved_retirements_tracked_witness:
  "\<exists>c r. monitors_run no_cache example_core (idle (snd (ctl_Start no_cache example_core (example_api ''Trojan'') example_node))) [Counted_on 0 5] c
     \<and> load (c_retiringUsers (nd_ctl (cf_state c))) (example_tag, user_key example_tag zero_UserInfo) = Some r"
proof -
  obtain out v where s: "ctl_Start no_cache example_core (example_api ''Trojan'') example_node =
      (out, retireManagedUsers example_tag [zero_UserInfo, zero_UserInfo] v)" and v: "node_inv v"
    using example_start by blast
  let ?w = "retireManagedUsers example_tag [zero_UserInfo, zero_UserInfo] v"
  let ?c = "(idle ?w)\<lparr>cf_state := set_stats (snd (counter_Add 0 5 (node_stats ?w))) ?w\<rparr>"
  have run: "monitors_run no_cache example_core (idle ?w) [Counted_on 0 5] ?c"
    by (rule counting_run)
  have u: "zero_UserInfo \<in> set [zero_UserInfo, zero_UserInfo]" by simp
  from interleaved_retirements_tracked [OF example_fresh s run, of example_tag "user_key example_tag zero_UserInfo"]
    retire_views(1,2) [OF v u, of example_tag] run s
  show ?thesis by (auto simp: idle_def exposed_def)
qed

section \<open>The race\<close>

text \<open>
  A user \<open>zero_UserInfo\<close> that was deleted and waits for its finalisation, on a node whose panel now gives it out again,
  twice, so that the proxy refuses it.
\<close>

definition example_returning :: "(UserTraffic list list, unit, string \<times> string list, string) node" where
  "example_returning = retireManagedUsers ''in'' [zero_UserInfo] (registerManagedUsers ''in'' [zero_UserInfo] (example_node
     \<lparr>nd_core := \<lparr>xs_inbounds = [(''in'', (''in'', []))], xs_outbounds = [(''in'', ''in'')], xs_defaultOutbound = Some ''in''\<rparr>,
      nd_ctl := example_controller\<lparr>c_nodeInfo := Some (example_info ''Trojan''), c_Tag := ''in'', c_userList := Some []\<rparr>\<rparr>))"

abbreviation returning_key :: string where
  "returning_key \<equiv> user_key ''in'' zero_UserInfo"

lemma returning_base:
  "fresh_node (example_node\<lparr>nd_core := x, nd_ctl := example_controller\<lparr>c_nodeInfo := ni, c_Tag := tag, c_userList := us\<rparr>\<rparr>)"
  by (simp add: fresh_node_def example_node_def example_controller_def node_flows_def node_stats_def)

lemma returning_inv: "node_inv example_returning"
  unfolding example_returning_def by (intro retireManagedUsers_inv registerManagedUsers_inv node_inv_fresh returning_base)

lemma returning_views:
  "node_stats example_returning = NewManager"
  "c_config (nd_ctl example_returning) = example_config" "c_Tag (nd_ctl example_returning) = ''in''" "users_of (nd_ctl example_returning) = []"
  "c_nodeInfo (nd_ctl example_returning) = Some (example_info ''Trojan'')"
  "c_limitedUsers (nd_ctl example_returning) = []"
  "c_retiringUsers (nd_ctl example_returning) = [((''in'', returning_key), \<lparr>rt_tag = ''in'', rt_user = zero_UserInfo\<rparr>)]"
  "xs_inbounds (nd_core example_returning) = [(''in'', (''in'', []))]"
  by (simp_all add: example_returning_def retireManagedUsers_def registerManagedUsers_def Let_def runtimeUserEmails_key example_node_def
      example_controller_def users_of_def)
    (simp add: node_stats_def)

lemma returning_finalised: "\<exists>r' m'. FinalizeRetiredUser ''in'' returning_key (node_flows example_returning, NewManager) = (True, r', m')"
proof -
  let ?v = "registerManagedUsers ''in'' [zero_UserInfo] (example_node
     \<lparr>nd_core := \<lparr>xs_inbounds = [(''in'', (''in'', []))], xs_outbounds = [(''in'', ''in'')], xs_defaultOutbound = Some ''in''\<rparr>,
      nd_ctl := example_controller\<lparr>c_nodeInfo := Some (example_info ''Trojan''), c_Tag := ''in'', c_userList := Some []\<rparr>\<rparr>)"
  have v: "node_inv ?v" by (intro registerManagedUsers_inv node_inv_fresh returning_base)
  have u: "zero_UserInfo \<in> set [zero_UserInfo]" by simp
  note rv = retire_views [OF v u, of "''in''", folded example_returning_def]
  have act: "fr_active (node_flows example_returning) = (\<lambda>_. 0)"
    using rv(3) flow_register_spec(2) [OF flow_inv_empty]
    by (simp add: registerManagedUsers_def Let_def example_node_def node_flows_def empty_registry_def set_ctl_def set_flows_def)
  have "can_finalize ''in'' returning_key (node_flows example_returning, NewManager)"
    using rv(1,2) by (auto simp: can_finalize_def act counter_empty_def GetCounter_def NewManager_def)
  with FinalizeRetiredUser_cases(1) show ?thesis by (metis (full_types) surj_pair)
qed

abbreviation forget_task :: "('p, 'c, 'ih, 'oh) task \<Rightarrow> ('p, 'c, 'ih, 'oh) task" where
  "forget_task k \<equiv> emit (\<lambda>w. ((), [Forgot (''in'', returning_key)], set_ctl (\<lambda>c. case load (c_retiringUsers c) (''in'', returning_key) of
        Some current \<Rightarrow> if rt_user current = zero_UserInfo then c\<lparr>c_retiringUsers := del (''in'', returning_key) (c_retiringUsers c)\<rparr> else c
      | None \<Rightarrow> c) w)) (\<lambda>_. k)"

lemma leads_drain_nothing:
  assumes "\<And>n. GetCounter n (node_stats w) = None" and "leads (k 0 0 []) w es q t"
  shows "leads (drainTraffic_task email k) w es q t"
  unfolding drainTraffic_task_def
  by (rule leads_look) (simp add: assms drainTrafficCounter_task_def leads_look)

lemma returning_user_round:
  assumes f: "FinalizeRetiredUser ''in'' returning_key (node_flows example_returning, NewManager) = (True, r', m')"
  shows "leads (userInfoMonitor_task (example_api ''Trojan'') 60 0) example_returning [Finalised (''in'', returning_key)]
     (forget_task (reportDevices_task (example_api ''Trojan'') ''in'' (reportIllegals_task (example_api ''Trojan'') ''in'' Done)))
     (set_stats m' (set_flows r' example_returning))"
proof -
  let ?k = "reportDevices_task (example_api ''Trojan'') ''in'' (reportIllegals_task (example_api ''Trojan'') ''in'' Done)"
  let ?w = "example_returning" and ?rs = "[\<lparr>rt_tag = ''in'', rt_user = zero_UserInfo\<rparr>]"
  have "leads (finalizeRetiringUsers_task ?rs ?k) ?w ([Finalised (''in'', returning_key)] @ []) (forget_task ?k) (set_stats m' (set_flows r' ?w))"
    unfolding finalizeRetiringUsers_task.simps Let_def retiringUser.select_convs buildUserTagWithTag_key
    by (rule leads_emit [where x = True and s' = "set_stats m' (set_flows r' ?w)"])
      (simp_all add: f returning_views(1) leads_refl)
  then have fin: "leads (finalizeRetiringUsers_task ?rs ?k) ?w [Finalised (''in'', returning_key)] (forget_task ?k) (set_stats m' (set_flows r' ?w))"
    by simp
  have panel: "?w\<lparr>nd_panel := snd (api_ReportNodeStatus (example_api ''Trojan'') (nd_panel ?w))\<rparr> = ?w"
    by (simp add: example_api_def)
  have none: "GetCounter n (node_stats ?w) = None" for n by (simp add: returning_views(1) GetCounter_def NewManager_def)
  have settle: "leads (settleTraffic_task (example_api ''Trojan'') 0 ''in'' [] ?rs ?k) ?w [Finalised (''in'', returning_key)] (forget_task ?k)
      (set_stats m' (set_flows r' ?w))"
    using fin by (auto simp: settleTraffic_task_def retired_keys_def add_sample_def appendUserTraffic_def no_traffic_def Let_def
        simp del: finalizeRetiringUsers_task.simps intro!: leads_drain_nothing none)
  have rel: "leads (releaseLimitedUsers_task 0 ''in'' k) ?w es q t" if "leads k ?w es q t" for k es q t
    unfolding releaseLimitedUsers_task_def by (rule leads_act, simp add: returning_views, simp add: that)
  show ?thesis unfolding userInfoMonitor_task_def
    by (rule leads_look, simp add: returning_views example_config_def,
        rule leads_perform, unfold panel, rule leads_look, simp add: returning_views,
        rule leads_look, simp add: returning_views retiringUserSnapshot_def rel settle)
qed

lemma returning_node_round:
  fixes w :: "(UserTraffic list list, unit, string \<times> string list, string) node"
  assumes inv: "node_inv w" and "c_config (nd_ctl w) = example_config" "c_Tag (nd_ctl w) = ''in''" "users_of (nd_ctl w) = []"
    "c_nodeInfo (nd_ctl w) = Some (example_info ''Trojan'')" "xs_inbounds (nd_core w) = [(''in'', (''in'', []))]"
  defines "w' \<equiv> nodeInfoMonitor no_cache example_core (example_api ''Trojan'') 60 w"
  shows "runtime_of (node_flows w') ''in'' returning_key \<noteq> None" and "\<not> is_current (node_flows w') ''in'' returning_key"
    and "load (c_retiringUsers (nd_ctl w')) (''in'', returning_key) = Some \<lparr>rt_tag = ''in'', rt_user = zero_UserInfo\<rparr>"
proof -
  let ?us = "[zero_UserInfo, zero_UserInfo]"
  have "\<exists>err y. addUsers example_core (buildTrojanUser ?us ''in'') ''in'' (nd_core w) = (Some err, y)"
    using assms(6) by (simp add: addUsers_def ibm_GetHandler_def buildTrojanUser_def example_core_def)
  then obtain err y where add: "addUsers example_core (buildTrojanUser ?us ''in'') ''in'' (nd_core w) = (Some err, y)" by blast
  define v where "v = registerManagedUsers ''in'' ?us w\<lparr>nd_core := y\<rparr>"
  have v: "node_inv v" unfolding v_def using registerManagedUsers_inv [OF inv] by simp
  have an: "addNewUser example_core ?us (example_info ''Trojan'') ''in'' w = (Some err, retireManagedUsers ''in'' ?us v)"
    using add by (simp add: addNewUser_def buildUsers_def Let_def v_def example_info_def)
  have cmp: "compareUserList [] ?us = \<lparr>ud_deleted = [], ud_added = ?us, ud_limitUpdated = []\<rparr>"
    by (simp add: compareUserList_def diff_step_def oldIndex_def Let_def)
  have api: "api_GetNodeInfo (example_api ''Trojan'') p = (Inr (example_info ''Trojan''), p)"
    "api_GetUserList (example_api ''Trojan'') p = (Inr ?us, p)" for p by (simp_all add: example_api_def)
  have early: "\<not> 60 < cfg_UpdatePeriodic example_config" "cfg_DisableGetRule example_config" by (simp_all add: example_config_def)
  have w': "\<exists>l. w' = set_ctl (\<lambda>c. c\<lparr>c_userList := Some ?us\<rparr>) (set_limiter l (retireManagedUsers ''in'' ?us v))"
    using assms(2-5) early by (simp add: w'_def nodeInfoMonitor_def api checkRules_def applyUserDiff_def cmp an Let_def) blast
  have u: "zero_UserInfo \<in> set ?us" by simp
  show "runtime_of (node_flows w') ''in'' returning_key \<noteq> None" "\<not> is_current (node_flows w') ''in'' returning_key"
    using w' retire_views(1,2) [OF v u, of "''in''"] by auto
  show "load (c_retiringUsers (nd_ctl w')) (''in'', returning_key) = Some \<lparr>rt_tag = ''in'', rt_user = zero_UserInfo\<rparr>"
    using w' by (auto simp: retireManagedUsers_def runtimeUserEmails_key Let_def)
qed

text \<open>
  C27. A user can be lost in a race. While the user monitor finalises a retired user, between the removal from the
  dispatcher and the removal from the controller's list, the node monitor puts the user back, the proxy refuses it and
  it is retired again. The user monitor then takes it off the list. At the end both monitors are idle, the user is
  retired with a runtime object, and the controller has no entry for it: neither its traffic will be
  reported nor its counters cleaned up.
\<close>

theorem finalisation_race_loses_user:
  "\<exists>tr c. node_inv example_returning \<and> monitors_run no_cache example_core (idle example_returning) tr c \<and> cf_first c = Done \<and> cf_second c = Done
     \<and> runtime_of (node_flows (cf_state c)) ''in'' returning_key \<noteq> None \<and> \<not> is_current (node_flows (cf_state c)) ''in'' returning_key
     \<and> load (c_retiringUsers (nd_ctl (cf_state c))) (''in'', returning_key) = None"
proof -
  let ?U = "userInfoMonitor_task (example_api ''Trojan'') 60 0" and ?N = "nodeInfoMonitor_task no_cache example_core (example_api ''Trojan'') 60"
  let ?K = "reportDevices_task (example_api ''Trojan'') ''in'' (reportIllegals_task (example_api ''Trojan'') ''in'' Done)"
  obtain r' m' where f: "FinalizeRetiredUser ''in'' returning_key (node_flows example_returning, NewManager) = (True, r', m')"
    using returning_finalised by blast
  define w1 where "w1 = set_stats m' (set_flows r' example_returning)"
  define w2 where "w2 = nodeInfoMonitor no_cache example_core (example_api ''Trojan'') 60 w1"
  define w3 where "w3 = set_ctl (\<lambda>c. case load (c_retiringUsers c) (''in'', returning_key) of
        Some current \<Rightarrow> if rt_user current = zero_UserInfo then c\<lparr>c_retiringUsers := del (''in'', returning_key) (c_retiringUsers c)\<rparr> else c
      | None \<Rightarrow> c) w2"
  define w4 where "w4 = reportIllegals (example_api ''Trojan'') ''in'' (reportDevices (example_api ''Trojan'') ''in'' w3)"
  have mem: "?U \<in> user_rounds" "?N \<in> node_rounds no_cache example_core" by (auto simp: user_rounds_def node_rounds_def)
  let ?run = "monitors_run no_cache example_core"
  have 1: "?run (idle example_returning) [Finalised (''in'', returning_key)] \<lparr>cf_state = w1, cf_first = Done, cf_second = forget_task ?K\<rparr>"
    using conc_run_trans [OF second_leads [OF returning_user_round [OF f]] second_starts [OF mem(1)]] by (simp add: idle_def w1_def)
  obtain tr2 where 2: "?run \<lparr>cf_state = w1, cf_first = Done, cf_second = forget_task ?K\<rparr> tr2 \<lparr>cf_state = w2, cf_first = Done, cf_second = forget_task ?K\<rparr>"
    using first_round [OF mem(2), of user_rounds conn_step w1 "forget_task ?K"] by (auto simp: w2_def run_nodeInfoMonitor)
  obtain tr3 where "leads (forget_task ?K) w2 tr3 Done (run (forget_task ?K) w2)" using leads_run [of "forget_task ?K" w2] by (elim exE)
  moreover have "run (forget_task ?K) w2 = w4" by (simp add: run_emit run_reports w4_def w3_def)
  ultimately have 3: "?run \<lparr>cf_state = w2, cf_first = Done, cf_second = forget_task ?K\<rparr> tr3 \<lparr>cf_state = w4, cf_first = Done, cf_second = Done\<rparr>"
    using second_leads [of "forget_task ?K" w2 tr3 Done w4] by simp
  have "node_inv w1" using finalise_first [OF f [folded returning_views(1)]] returning_inv unfolding w1_def user_guarantee_def by auto
  note node = returning_node_round [OF this, folded w2_def]
  have w1: "c_config (nd_ctl w1) = example_config" "c_Tag (nd_ctl w1) = ''in''" "users_of (nd_ctl w1) = []"
    "c_nodeInfo (nd_ctl w1) = Some (example_info ''Trojan'')" "xs_inbounds (nd_core w1) = [(''in'', (''in'', []))]"
    by (simp_all add: w1_def returning_views)
  have "node_flows w4 = node_flows w2" "c_retiringUsers (nd_ctl w4) = del (''in'', returning_key) (c_retiringUsers (nd_ctl w2))"
    using node(3) [OF w1] by (simp_all add: w4_def reports_views w3_def)
  then show ?thesis
    using returning_inv conc_run_trans [OF 3 conc_run_trans [OF 2 1]] node(1,2) [OF w1]
    by (intro exI [of _ "([Finalised (''in'', returning_key)] @ tr2) @ tr3"] exI [of _ "\<lparr>cf_state = w4, cf_first = Done, cf_second = Done\<rparr>"]) simp
qed

end
