(* ===== verification/Monitor_Ledger.thy ===== *)
theory Monitor_Ledger
  imports Monitor_Races
begin

text \<open>
  The traffic of a node over every interleaving of its monitors and connections: what a connection
  counts is at any moment on its counter, held by the running report round, or settled, and it is
  settled once.
\<close>

section \<open>Amounts in the history\<close>

definition amount :: "(monitor_event \<Rightarrow> int64) \<Rightarrow> monitor_event list \<Rightarrow> int64" where
  "amount f es = sum_list (map f es)"

lemma amount_simps [simp]: "amount f [] = 0" "amount f (e # es) = f e + amount f es" "amount f (es @ es') = amount f es + amount f es'"
  by (simp_all add: amount_def)

fun counted :: "nat \<Rightarrow> monitor_event \<Rightarrow> int64" where
  "counted a (Counted_on c v) = (if c = a then v else 0)"
| "counted a _ = 0"

fun settled :: "nat \<Rightarrow> monitor_event \<Rightarrow> int64" where
  "settled a (Settled ds) = delta_sum a ds"
| "settled a _ = 0"

text \<open>What an event changes on a counter and in the hands of the report round.\<close>

fun on_counter :: "nat \<Rightarrow> monitor_event \<Rightarrow> int64" where
  "on_counter a (Counted_on c v) = (if c = a then v else 0)"
| "on_counter a (Drained c v) = (if c = a then - v else 0)"
| "on_counter a (Restored c v) = (if c = a then v else 0)"
| "on_counter a _ = 0"

fun in_hand :: "nat \<Rightarrow> monitor_event \<Rightarrow> int64" where
  "in_hand a (Drained c v) = (if c = a then v else 0)"
| "in_hand a (Restored c v) = (if c = a then - v else 0)"
| "in_hand a (Settled ds) = - delta_sum a ds"
| "in_hand a _ = 0"

lemma books_balance: "amount (on_counter a) es + amount (in_hand a) es + amount (settled a) es = amount (counted a) es"
proof (induction es)
  case (Cons e es)
  have "on_counter a e + in_hand a e + settled a e = counted a e" by (cases e) auto
  with Cons show ?case by (simp add: algebra_simps)
qed simp

section \<open>Guarantees\<close>

text \<open>The assertion of the user monitor is the list of deltas it holds.\<close>

definition ledger_guarantee ::
    "trafficCounterDelta list \<Rightarrow> ('p, 'c, 'ih, 'oh) node \<Rightarrow> monitor_event list \<Rightarrow> ('p, 'c, 'ih, 'oh) node \<Rightarrow> trafficCounterDelta list \<Rightarrow> bool" where
  "ledger_guarantee held w es w' held' \<longleftrightarrow> ctr_next (node_stats w') = ctr_next (node_stats w)
     \<and> (\<forall>a. ctr_value (node_stats w') a = ctr_value (node_stats w) a + amount (on_counter a) es)
     \<and> (\<forall>a. delta_sum a held' = delta_sum a held + amount (in_hand a) es)"

abbreviation ledger_guards :: "trafficCounterDelta list \<Rightarrow> ('p, 'c, 'ih, 'oh) task \<Rightarrow> bool" where
  "ledger_guards held p \<equiv> guards always ledger_guarantee [] held p"

lemma ledger_guards_look: "(\<And>x. ledger_guards held (k x)) \<Longrightarrow> ledger_guards held (look f k)"
  by (rule guards_look) (simp_all add: ledger_guarantee_def)

lemma ledger_guards_act:
  fixes f :: "('p, 'c, 'ih, 'oh) node \<Rightarrow> 'a \<times> ('p, 'c, 'ih, 'oh) node"
  assumes "\<And>w. node_stats (snd (f w)) = node_stats w" and "\<And>x. ledger_guards held (k x)"
  shows "ledger_guards held (act f k)"
proof (rule guards_act)
  show "ledger_guarantee held w [] w' held" if "f w = (x, w')" for w x w'
    using assms(1) [of w] that by (simp add: ledger_guarantee_def)
qed (rule assms(2))

lemma ledger_guards_perform:
  assumes "\<And>w. node_stats (f w) = node_stats w" and "ledger_guards held k"
  shows "ledger_guards held (perform f k)"
  by (rule guards_perform [where a' = held]) (use assms in \<open>auto simp: ledger_guarantee_def\<close>)

lemma ledger_guards_drainCounter:
  fixes k :: "trafficCounterDelta option \<Rightarrow> ('p, 'c, 'ih, 'oh) task"
  assumes k: "\<And>d. (\<And>x. d = Some x \<Longrightarrow> 0 < sint (td_value x)) \<Longrightarrow> ledger_guards (held @ (case d of None \<Rightarrow> [] | Some x \<Rightarrow> [x])) (k d)"
  shows "ledger_guards held (drainTrafficCounter_task oc k)"
proof (cases oc)
  case None
  then show ?thesis using k [of None] by (simp add: drainTrafficCounter_task_def)
next
  case (Some c)
  have none: "ledger_guards held (k None)" using k [of None] by simp
  have undone: "ledger_guarantee (held @ [\<lparr>td_counter = c, td_value = v\<rparr>]) w [Restored c v]
      (set_stats (snd (counter_Add c v (node_stats w))) w) held" for w :: "('p, 'c, 'ih, 'oh) node" and v
    by (simp add: ledger_guarantee_def counter_Add_def Let_def)
  have out: "ledger_guarantee held w [Drained c v] (set_stats m w) (held @ [\<lparr>td_counter = c, td_value = v\<rparr>])"
    if "counter_Set c 0 (node_stats w) = (v, m)" for w :: "('p, 'c, 'ih, 'oh) node" and v m
    using that by (auto simp: ledger_guarantee_def counter_Set_def)
  have zero: "ledger_guarantee held w [Drained c v] (set_stats m w) held"
    if "counter_Set c 0 (node_stats w) = (v, m)" "v = 0" for w :: "('p, 'c, 'ih, 'oh) node" and v m
    using that by (auto simp: ledger_guarantee_def counter_Set_def)
  show ?thesis unfolding drainTrafficCounter_task_def Some option.case
  proof (rule guards_emit, goal_cases)
    case (1 w v es w')
    obtain v' m where s: "counter_Set c 0 (node_stats w) = (v', m)" by fastforce
    with 1 have eq: "v' = v" "es = [Drained c v]" "w' = set_stats m w" by auto
    consider "0 < sint v" | "sint v < 0" | "v = 0" by (metis linorder_less_linear signed_eq_0_iff)
    then show ?case
    proof cases
      case 1
      with k [of "Some \<lparr>td_counter = c, td_value = v\<rparr>"] out [OF s [unfolded eq]] show ?thesis
        by (intro exI [of _ "held @ [\<lparr>td_counter = c, td_value = v\<rparr>]"]) (simp add: eq)
    next
      case 2
      then show ?thesis using out [OF s [unfolded eq]] none undone
        by (intro exI [of _ "held @ [\<lparr>td_counter = c, td_value = v\<rparr>]"]) (auto simp: eq intro!: guards_emit)
    next
      case 3
      then show ?thesis using zero [OF s [unfolded eq]] none by (intro exI [of _ held]) (simp add: eq)
    qed
  qed
qed

lemma ledger_guards_drain:
  assumes k: "\<And>up down ds. (\<not> (0 < sint up \<or> 0 < sint down) \<Longrightarrow> ds = []) \<Longrightarrow> ledger_guards (held @ ds) (k up down ds)"
  shows "ledger_guards held (drainTraffic_task email k)"
  unfolding drainTraffic_task_def
proof (intro ledger_guards_look ledger_guards_drainCounter, goal_cases)
  case (1 x ud xa dd)
  show ?case
  proof (cases ud)
    case None
    then show ?thesis using 1 k [of 0 _ "case dd of None \<Rightarrow> [] | Some d \<Rightarrow> [d]"] by (cases dd) (simp_all add: Let_def)
  next
    case (Some u)
    then show ?thesis using 1 k [of "td_value u" _ "u # (case dd of None \<Rightarrow> [] | Some d \<Rightarrow> [d])"] by (cases dd) (simp_all add: Let_def)
  qed
qed

definition acc_ok :: "traffic_acc \<Rightarrow> bool" where
  "acc_ok acc \<longleftrightarrow> (ta_traffic acc = [] \<longrightarrow> ta_index acc = Map.empty \<and> ta_deltas acc = [])"

lemma add_sample_ok:
  assumes "acc_ok acc" and "\<not> (0 < sint up \<or> 0 < sint down) \<Longrightarrow> ds = []"
  shows "acc_ok (add_sample u up down ds acc)" and "ta_deltas (add_sample u up down ds acc) = ta_deltas acc @ ds"
  using assms by (auto simp: acc_ok_def add_sample_def appendUserTraffic_def Let_def split: prod.splits option.splits if_splits)

lemma ledger_guards_trafficUsers:
  assumes "\<And>acc l. acc_ok acc \<Longrightarrow> ledger_guards (ta_deltas acc) (k acc l)" and "acc_ok acc"
  shows "ledger_guards (ta_deltas acc) (trafficUsers_task now tag us acc limited k)"
  using assms
proof (induction us arbitrary: acc limited)
  case (Cons u us)
  show ?case unfolding trafficUsers_task.simps
  proof (rule ledger_guards_drain, goal_cases)
    case (1 up down ds)
    note s = add_sample_ok [where u = u and up = up and down = down, OF Cons.prems(2) 1]
    show ?case using 1 Cons.IH [OF Cons.prems(1) s(1)] Cons.IH [OF Cons.prems(1) Cons.prems(2)]
      by (auto intro!: ledger_guards_act ledger_guards_perform simp: s(2) Let_def split: prod.split)
  qed
qed simp

lemma ledger_guards_collectUsers:
  assumes "\<And>acc. acc_ok acc \<Longrightarrow> ledger_guards (ta_deltas acc) (k acc)" and "acc_ok acc"
  shows "ledger_guards (ta_deltas acc) (collectUsers_task eus acc k)"
  using assms
proof (induction eus arbitrary: acc)
  case (Cons eu eus)
  obtain e u where eu: "eu = (e, u)" by fastforce
  show ?case unfolding eu collectUsers_task.simps
  proof (rule ledger_guards_drain, goal_cases)
    case (1 up down ds)
    note s = add_sample_ok [where u = u and up = up and down = down, OF Cons.prems(2) 1]
    show ?case using Cons.IH [OF Cons.prems(1) s(1)] by (simp add: s(2))
  qed
qed simp

lemma ledger_guards_restore: "ledger_guards [] k \<Longrightarrow> ledger_guards ds (restoreTraffic_task ds k)"
proof (induction ds)
  case (Cons d ds)
  then show ?case unfolding restoreTraffic_task.simps
    by (intro guards_emit exI [of _ ds]) (auto simp: ledger_guarantee_def counter_Add_def Let_def)
qed simp

lemma ledger_guards_flush:
  fixes k :: "bool \<Rightarrow> ('p, 'c, 'ih, 'oh) task"
  assumes "\<And>ok. ledger_guards [] (k ok)"
  shows "ledger_guards ds (flushUserTraffic_task api traffic ds k)"
proof -
  have paid: "ledger_guarantee ds w [Settled ds] w' []" and kept: "ledger_guarantee ds w [] w' ds" if "node_stats w' = node_stats w"
    for w w' :: "('p, 'c, 'ih, 'oh) node"
    using that by (simp_all add: ledger_guarantee_def)
  have rest: "ledger_guards ds (emit (\<lambda>w. let (err, p) = api_ReportUserTraffic api traffic (nd_panel w)
                 in (err, if err = None then [Settled ds] else [], w\<lparr>nd_panel := p\<rparr>)) (\<lambda>err.
       if err = None then k True else restoreTraffic_task ds (k False)))"
  proof (rule guards_emit, goal_cases)
    case (1 w err es w')
    then have st: "node_stats w' = node_stats w" and es: "es = (if err = None then [Settled ds] else [])"
      by (auto simp: Let_def split: prod.splits)
    show ?case
    proof (cases err)
      case None
      with assms paid [OF st] show ?thesis by (intro exI [of _ "[]"]) (simp add: es)
    next
      case (Some x)
      with ledger_guards_restore [OF assms] kept [OF st] show ?thesis by (intro exI [of _ ds]) (simp add: es)
    qed
  qed
  show ?thesis unfolding flushUserTraffic_task_def
  proof (rule guards_emit, goal_cases)
    case (1 w disabled es w')
    then have "w' = w" "es = (if disabled then [Settled ds] else [])" by (auto simp: Let_def)
    with assms rest paid [of w w] kept [of w w] show ?case by (cases disabled) auto
  qed
qed


lemma finalize_values:
  "FinalizeRetiredUser t e (r, m) = (ok, r', m') \<Longrightarrow> ctr_value m' = ctr_value m \<and> ctr_next m' = ctr_next m"
  by (auto simp: FinalizeRetiredUser_def flow_finalize_def cleanupCounters_def UnregisterCounter_def Let_def
      split: option.splits if_splits prod.splits)

lemma ledger_guards_finalize: "ledger_guards [] k \<Longrightarrow> ledger_guards [] (finalizeRetiringUsers_task rs k)"
proof (induction rs)
  case (Cons r rs)
  have forget: "ledger_guards [] (emit (\<lambda>w. ((), [Forgot key], set_ctl g w)) (\<lambda>_. finalizeRetiringUsers_task rs k))" for key g
  proof (rule guards_emit, goal_cases)
    case (1 w x es w')
    then have "ledger_guarantee [] w es w' []" by (auto simp: ledger_guarantee_def)
    with Cons show ?case by auto
  qed
  show ?case unfolding finalizeRetiringUsers_task.simps Let_def
  proof (rule guards_emit, goal_cases)
    case (1 w ok es w')
    then have "ledger_guarantee [] w es w' []"
      by (auto simp: ledger_guarantee_def dest!: finalize_values split: prod.splits)
    with Cons forget show ?case by (intro exI [of _ "[]"]) simp
  qed
qed simp

lemma ledger_guards_release: "ledger_guards held k \<Longrightarrow> ledger_guards held (releaseLimitedUsers_task now tag k)"
  unfolding releaseLimitedUsers_task_def
  by (auto intro!: ledger_guards_act ledger_guards_perform simp: Let_def split: prod.split)

lemma ledger_guards_settle: "ledger_guards [] k \<Longrightarrow> ledger_guards [] (settleTraffic_task api now tag us rs k)"
proof -
  assume k: "ledger_guards [] k"
  have empty: "ta_deltas no_traffic = []" "acc_ok no_traffic" by (simp_all add: no_traffic_def acc_ok_def)
  have "ledger_guards (ta_deltas acc)
     (let report = (if ta_traffic acc = [] then finalizeRetiringUsers_task rs k
           else flushUserTraffic_task api (ta_traffic acc) (ta_deltas acc) (\<lambda>ok.
                if ok then finalizeRetiringUsers_task rs k else k)) in
     if limited \<noteq> [] then perform (\<lambda>w. set_limiter (snd (UpdateInboundLimiter (node_limiter w) tag limited)) w) report
     else report)" if "acc_ok acc" for acc limited
  proof -
    have "ledger_guards (ta_deltas acc) (if ta_traffic acc = [] then finalizeRetiringUsers_task rs k
           else flushUserTraffic_task api (ta_traffic acc) (ta_deltas acc) (\<lambda>ok. if ok then finalizeRetiringUsers_task rs k else k))"
      using that k by (simp add: acc_ok_def ledger_guards_finalize ledger_guards_flush)
    then show ?thesis by (auto simp: Let_def intro!: ledger_guards_perform)
  qed
  then have "ledger_guards (ta_deltas no_traffic) (settleTraffic_task api now tag us rs k)"
    unfolding settleTraffic_task_def by (intro ledger_guards_trafficUsers ledger_guards_collectUsers empty) auto
  then show ?thesis by (simp add: empty)
qed

lemma ledger_guards_reports:
  "ledger_guards held k \<Longrightarrow> ledger_guards held (reportDevices_task api tag k)"
  "ledger_guards held k \<Longrightarrow> ledger_guards held (reportIllegals_task api tag k)"
  unfolding reportDevices_task_def reportIllegals_task_def
  by (auto intro!: ledger_guards_act ledger_guards_perform simp: Let_def split: prod.split sum.split)

lemma user_monitor_ledger: "p \<in> user_rounds \<Longrightarrow> ledger_guards [] p"
  unfolding user_rounds_def userInfoMonitor_task_def
  by (auto intro!: ledger_guards_look ledger_guards_perform ledger_guards_release ledger_guards_settle ledger_guards_reports guards_Done)

section \<open>The books over all interleavings\<close>

definition ledger_inv ::
    "StatsManager \<Rightarrow> 'a \<Rightarrow> trafficCounterDelta list \<Rightarrow> monitor_event list \<Rightarrow> ('p, 'c, 'ih, 'oh) node \<Rightarrow> bool" where
  "ledger_inv m0 x held tr w \<longleftrightarrow> ctr_next m0 \<le> ctr_next (node_stats w)
     \<and> (\<forall>a < ctr_next m0. ctr_value (node_stats w) a = ctr_value m0 a + amount (on_counter a) tr)
     \<and> (\<forall>a. delta_sum a held = amount (in_hand a) tr)"

lemma ledger_node:
  assumes "ledger_inv m0 x held tr w" and "node_guarantee y w es w' y'"
  shows "ledger_inv m0 x' held (tr @ es) w'"
  using assms by (auto simp: ledger_inv_def node_guarantee_def)

lemma ledger_user:
  assumes "ledger_inv m0 x held tr w" and "ledger_guarantee held w es w' held'"
  shows "ledger_inv m0 x held' (tr @ es) w'"
  using assms by (auto simp: ledger_inv_def ledger_guarantee_def add.assoc)

lemma ledger_conn:
  assumes "ledger_inv m0 x held tr w" and "conn_step w es w'"
  shows "ledger_inv m0 x held (tr @ es) w'"
  using assms(2,1) by (cases rule: conn_step.cases) (auto simp: ledger_inv_def RegisterCounter_def counter_Add_def Let_def algebra_simps)

interpretation ledger: interference "node_rounds iface ce" user_rounds conn_step node_guarantee "({}, {})" ledger_guarantee "[]" "ledger_inv m0"
  for iface :: "'c cache_iface" and ce :: "('ic, 'oc, 'ih, 'oh) core_env" and m0 :: StatsManager
  by unfold_locales (fact node_monitor_guards user_monitor_ledger ledger_node ledger_user ledger_conn)+

text \<open>
  C2. No byte is lost and none is settled twice. Over every interleaving of the two monitors, action by action, and of the
  connections of the node, with reports that are accepted or refused: whenever the user monitor is between its rounds, what is on a
  counter and what was settled is together what was on it at the beginning and what was counted since.
\<close>

theorem interleaved_traffic_conserved:
  fixes w :: "('p, 'c, 'ih, 'oh) node"
  assumes "monitors_run iface ce (idle w) tr c" and "cf_second c = Done" and "a < ctr_next (node_stats w)"
  shows "ctr_value (node_stats (cf_state c)) a + amount (settled a) tr = ctr_value (node_stats w) a + amount (counted a) tr"
proof -
  have start: "cf_first (idle w) = Done" "cf_second (idle w) = Done" "ledger_inv (node_stats w) ({}, {}) [] [] (cf_state (idle w))"
    by (simp_all add: ledger_inv_def idle_def)
  show ?thesis
  proof (rule ledger.interleaving_invariant [OF assms(1) start], goal_cases)
    case (1 x held)
    then have "amount (in_hand a) tr = 0"
      and "ctr_value (node_stats (cf_state c)) a = ctr_value (node_stats w) a + amount (on_counter a) tr"
      using assms(2,3) by (auto simp: ledger_inv_def)
    with books_balance [of a tr] show ?case by (simp add: algebra_simps)
  qed
qed

theorem interleaved_traffic_conserved_witness:
  "\<exists>c. monitors_run no_cache example_core (idle example_counted) [Counted_on 0 5] c \<and> ctr_value (node_stats (cf_state c)) 0 = 12"
proof -
  let ?c = "(idle example_counted)\<lparr>cf_state := set_stats (snd (counter_Add 0 5 (node_stats example_counted))) example_counted\<rparr>"
  have run: "monitors_run no_cache example_core (idle example_counted) [Counted_on 0 5] ?c"
    by (rule counting_run)
  have "0 < ctr_next (node_stats example_counted)"
    by (simp add: example_counted_def RegisterCounter_def NewManager_def counter_Add_def Let_def)
  with interleaved_traffic_conserved [OF run, of 0] run show ?thesis
    by (intro exI [of _ ?c]) (simp add: idle_def example_counted_views)
qed

end
