(* ===== verification/Flow_Threads.thy ===== *)
theory Flow_Threads
  imports User_IO Goroutines "HOL-Library.Multiset"
begin

text \<open>
  Connections that open at the same time. \<open>getUserIO\<close> is a sequence of atomic actions: the flow registry
  admits the user under its lock, the limiter is asked, and each counter is looked up, registered and, when
  another connection was faster, looked up again. Any number of connections are opened action by action while
  users are registered, retired and finalised, and other connections count and close. Run alone, the program
  is \<open>getUserIO\<close>.
\<close>

section \<open>The program\<close>

type_synonym 'c opener = "('c world, unit) prog"

definition wd_flows :: "'c world \<Rightarrow> userFlowRegistry" where
  "wd_flows w = fs_flows (wd_state w)"

definition wd_stats :: "'c world \<Rightarrow> StatsManager" where
  "wd_stats w = fs_stats (wd_state w)"

definition put_flows :: "userFlowRegistry \<Rightarrow> 'c world \<Rightarrow> 'c world" where
  "put_flows r w = w\<lparr>wd_state := (wd_state w)\<lparr>fs_flows := r\<rparr>\<rparr>"

definition put_stats :: "StatsManager \<Rightarrow> 'c world \<Rightarrow> 'c world" where
  "put_stats m w = w\<lparr>wd_state := (wd_state w)\<lparr>fs_stats := m\<rparr>\<rparr>"

definition put_limiter :: "'c Limiter \<Rightarrow> 'c world \<Rightarrow> 'c world" where
  "put_limiter l w = w\<lparr>wd_state := (wd_state w)\<lparr>fs_Limiter := l\<rparr>\<rparr>"

definition getOrRegisterCounter_task :: "string \<Rightarrow> (nat option \<Rightarrow> 'c opener) \<Rightarrow> 'c opener" where
  "getOrRegisterCounter_task name k =
     look (\<lambda>w. GetCounter name (wd_stats w)) (\<lambda>counter.
     if counter \<noteq> None then k counter
     else
       act (\<lambda>w. let (res, m) = RegisterCounter name (wd_stats w) in (res, put_stats m w)) (\<lambda>res.
       case res of
         Inr c \<Rightarrow> k (Some c)
       | Inl err \<Rightarrow> look (\<lambda>w. GetCounter name (wd_stats w)) k))"

text \<open>The counters the policy of the user's level asks for.\<close>

definition openCounters_task :: "(uint32 \<Rightarrow> policy_stats) \<Rightarrow> session_user \<Rightarrow> userIO \<Rightarrow> (userIO \<Rightarrow> 'c opener) \<Rightarrow> 'c opener" where
  "openCounters_task ForLevel user u k =
     (let p = ForLevel (su_Level user);
          downlink = (\<lambda>u. if ps_UserDownlink p
             then getOrRegisterCounter_task (userDownlinkCounterName (su_Email user)) (\<lambda>c. k (u\<lparr>uio_downlinkCounter := c\<rparr>))
             else k u) in
      if ps_UserUplink p
      then getOrRegisterCounter_task (userUplinkCounterName (su_Email user)) (\<lambda>c. downlink (u\<lparr>uio_uplinkCounter := c\<rparr>))
      else downlink u)"

text \<open>The continuation also learns whether the inbound was managed when the user was admitted.\<close>

definition getUserIO_task ::
    "'c cache_iface \<Rightarrow> (uint32 \<Rightarrow> policy_stats) \<Rightarrow> session_inbound \<Rightarrow> session_user \<Rightarrow> (bool \<Rightarrow> userIO result \<Rightarrow> 'c opener) \<Rightarrow> 'c opener" where
  "getUserIO_task iface ForLevel si user k =
     act (\<lambda>w. let (runtime, flows) = flow_acquire (si_Tag si) (su_Email user) (wd_flows w)
              in ((managed (wd_flows w) (si_Tag si), runtime), put_flows flows w)) (\<lambda>(mgd, runtime).
     case runtime of
       None \<Rightarrow> k mgd (Inl (Error (''user is no longer active: '' @ su_Email user)))
     | Some a \<Rightarrow>
         let res = new_userIO\<lparr>uio_runtime := Some a\<rparr> in
         act (\<lambda>w. let (b, lim) = GetUserBucket iface (fs_Limiter (wd_state w)) (si_Tag si) (su_Email user) (si_SourceIP si)
                  in (b, put_limiter lim w)) (\<lambda>(bucket, ok, reject).
         if reject then
           perform (\<lambda>w. put_flows (snd (userIO_Release res (wd_flows w))) w) (
           k mgd (Inl (Error (''Devices reach the limit: '' @ su_Email user))))
         else openCounters_task ForLevel user (res\<lparr>uio_bucket := bucket, uio_speedLimited := ok\<rparr>) (\<lambda>u. k mgd (Inr u))))"

text \<open>A connection opens: the flow it gets is among the open ones from then on.\<close>

definition new_conn :: "session_inbound \<Rightarrow> session_user \<Rightarrow> bool \<Rightarrow> userIO \<Rightarrow> conn" where
  "new_conn si user mgd u = \<lparr>cn_tag = si_Tag si, cn_email = su_Email user, cn_io = u, cn_managed = mgd\<rparr>"

definition opened_task :: "session_inbound \<Rightarrow> session_user \<Rightarrow> bool \<Rightarrow> userIO result \<Rightarrow> 'c opener" where
  "opened_task si user mgd res =
     (case res of Inl _ \<Rightarrow> Done | Inr u \<Rightarrow> perform (\<lambda>w. w\<lparr>wd_conns := new_conn si user mgd u # wd_conns w\<rparr>) Done)"

definition open_task :: "'c cache_iface \<Rightarrow> (uint32 \<Rightarrow> policy_stats) \<Rightarrow> session_inbound \<Rightarrow> session_user \<Rightarrow> 'c opener" where
  "open_task iface ForLevel si user = getUserIO_task iface ForLevel si user (opened_task si user)"

section \<open>Run alone it is \<open>getUserIO\<close>\<close>

lemma world_views [simp]:
  "wd_flows (put_flows r w) = r" "wd_flows (put_stats m w) = wd_flows w" "wd_flows (put_limiter l w) = wd_flows w"
  "wd_stats (put_flows r w) = wd_stats w" "wd_stats (put_stats m w) = m" "wd_stats (put_limiter l w) = wd_stats w"
  "wd_conns (put_flows r w) = wd_conns w" "wd_conns (put_stats m w) = wd_conns w" "wd_conns (put_limiter l w) = wd_conns w"
  by (simp_all add: wd_flows_def wd_stats_def put_flows_def put_stats_def put_limiter_def)

lemma put_same [simp]: "put_stats (wd_stats w) w = w" "put_flows (wd_flows w) w = w"
  by (simp_all add: wd_flows_def wd_stats_def put_flows_def put_stats_def)

lemma run_getOrRegisterCounter:
  "run (getOrRegisterCounter_task name k) w =
     (case getOrRegisterCounter name (wd_stats w) of ((c, err), m) \<Rightarrow> run (k c) (put_stats m w))"
  by (simp add: getOrRegisterCounter_task_def getOrRegisterCounter_def GetOrRegisterCounter_def run_act Let_def
      split: option.split prod.split sum.split)

lemma run_getUserIO:
  assumes "su_Email user \<noteq> ''''" and "si_User si = Some user"
  shows "run (getUserIO_task iface ForLevel si user k) w =
     (case getUserIO iface ForLevel (Some si) (wd_state w) of (res, d) \<Rightarrow>
        run (k (managed (wd_flows w) (si_Tag si)) res) (w\<lparr>wd_state := d\<rparr>))"
  using assms
  by (simp add: getUserIO_task_def openCounters_task_def getUserIO_def run_act run_getOrRegisterCounter Let_def wd_flows_def wd_stats_def put_flows_def put_stats_def
      put_limiter_def split: option.split prod.split)

section \<open>The invariant counts the connections that are being opened\<close>

definition with_conns :: "conn list \<Rightarrow> 'c world \<Rightarrow> 'c world" where
  "with_conns cs w = w\<lparr>wd_conns := cs\<rparr>"

lemma with_conns_views [simp]: "wd_flows (with_conns cs w) = wd_flows w" "wd_stats (with_conns cs w) = wd_stats w" "wd_conns (with_conns cs w) = cs"
  by (simp_all add: with_conns_def wd_flows_def wd_stats_def)

text \<open>The invariant of the flow system in terms of the registry, the statistics and the connections.\<close>

lemma world_inv_iff:
  "world_inv owner w \<longleftrightarrow> flow_inv (wd_flows w) \<and> stats_inv (wd_stats w)
     \<and> (\<forall>t e. runtime_of (wd_flows w) t e \<noteq> None \<longrightarrow> owner e = t)
     \<and> (\<forall>a. fr_active (wd_flows w) a = int (holders (wd_conns w) a))
     \<and> (\<forall>c \<in> set (wd_conns w). conn_ok owner (wd_flows w) (wd_stats w) c)"
  by (simp add: world_inv_def wd_flows_def wd_stats_def)

lemma holders_mset: "holders cs a = size (filter_mset (\<lambda>c. uio_runtime (cn_io c) = Some a) (mset cs))"
  by (simp add: holders_def mset_filter [symmetric] del: mset_filter)

lemma world_inv_perm:
  assumes "mset cs = mset cs'"
  shows "world_inv owner (with_conns cs w) = world_inv owner (with_conns cs' w)"
  using assms mset_eq_setD [OF assms] by (simp add: world_inv_iff holders_mset)

definition metered :: "(uint32 \<Rightarrow> policy_stats) \<Rightarrow> conn \<Rightarrow> bool" where
  "metered ForLevel c \<longleftrightarrow> cn_managed c \<longrightarrow>
     ((\<forall>l. ps_UserUplink (ForLevel l)) \<longrightarrow> uio_uplinkCounter (cn_io c) \<noteq> None)
     \<and> ((\<forall>l. ps_UserDownlink (ForLevel l)) \<longrightarrow> uio_downlinkCounter (cn_io c) \<noteq> None)"

text \<open>The assertion of an opening connection is the connection as far as it has come.\<close>

definition part :: "conn option \<Rightarrow> conn list" where
  "part a = (case a of None \<Rightarrow> [] | Some c \<Rightarrow> [c])"

lemma part_simps [simp]: "part None = []" "part (Some c) = [c]"
  by (simp_all add: part_def)

definition opening_assertion :: "(string \<Rightarrow> string) \<Rightarrow> conn option \<Rightarrow> 'c world \<Rightarrow> bool" where
  "opening_assertion owner a w \<longleftrightarrow> (\<exists>cs. world_inv owner (with_conns (part a @ cs) w))"

definition opening_guarantee ::
    "(string \<Rightarrow> string) \<Rightarrow> (uint32 \<Rightarrow> policy_stats) \<Rightarrow> conn option \<Rightarrow> 'c world \<Rightarrow> unit list \<Rightarrow> 'c world \<Rightarrow> conn option \<Rightarrow> bool" where
  "opening_guarantee owner ForLevel a w es w' a' \<longleftrightarrow>
     (\<exists>new. wd_conns w' = new @ wd_conns w \<and> (\<forall>c \<in> set new. metered ForLevel c)
        \<and> (\<forall>cs. world_inv owner (with_conns (part a @ cs) w) \<longrightarrow> world_inv owner (with_conns (part a' @ new @ cs) w')))"

lemma opening_guaranteeI:
  assumes "wd_conns w' = wd_conns w"
    and "\<And>cs. world_inv owner (with_conns (part a @ cs) w) \<Longrightarrow> world_inv owner (with_conns (part a' @ cs) w')"
  shows "opening_guarantee owner ForLevel a w es w' a'"
  using assms unfolding opening_guarantee_def by (intro exI [of _ "[]"]) simp

abbreviation opens :: "(string \<Rightarrow> string) \<Rightarrow> (uint32 \<Rightarrow> policy_stats) \<Rightarrow> conn option \<Rightarrow> 'c opener \<Rightarrow> bool" where
  "opens owner ForLevel a p \<equiv> guards (opening_assertion owner) (opening_guarantee owner ForLevel) None a p"

section \<open>Every action keeps it\<close>

lemma inv_acquire:
  assumes inv: "world_inv owner (with_conns cs w)" and "flow_acquire tag e (wd_flows w) = (oa, r')" and "owner e = tag"
  shows "world_inv owner (with_conns (part (map_option (\<lambda>a. \<lparr>cn_tag = tag, cn_email = e, cn_io = new_userIO\<lparr>uio_runtime := Some a\<rparr>,
      cn_managed = managed (wd_flows w) tag\<rparr>) oa) @ cs) (put_flows r' w))"
proof -
  let ?r = "wd_flows w" and ?m = "wd_stats w"
  have fi: "flow_inv ?r" using inv by (simp add: world_inv_iff)
  note sp = flow_acquire_spec [OF fi assms(2)]
  show ?thesis
  proof (cases oa)
    case None
    with sp(3) inv show ?thesis by simp
  next
    case (Some a)
    let ?c = "\<lparr>cn_tag = tag, cn_email = e, cn_io = new_userIO\<lparr>uio_runtime := Some a\<rparr>, cn_managed = managed ?r tag\<rparr>"
    have "conn_ok owner r' ?m ?c"
      using sp(5) [OF Some] sp(7) sp(11) [OF Some] assms(3) by (simp add: conn_ok_def new_userIO_def)
    moreover have "conn_ok owner r' ?m c" if "c \<in> set cs" for c
      by (rule conn_ok_mono [of owner ?r ?m c]) (use inv that sp(7,10) in \<open>auto simp: world_inv_iff\<close>)
    ultimately show ?thesis
      using inv sp(1,7) sp(4) [OF Some] by (simp add: world_inv_iff Some new_userIO_def)
  qed
qed

lemma inv_limiter: "world_inv owner (with_conns cs (put_limiter l w)) = world_inv owner (with_conns cs w)"
  by (simp add: world_inv_iff)

lemma inv_release:
  assumes inv: "world_inv owner (with_conns (c # cs) w)" and "uio_runtime (cn_io c) = Some a"
  shows "world_inv owner (with_conns cs (put_flows (runtime_release a (wd_flows w)) w))"
proof -
  have act: "fr_active (wd_flows w) b = int (holders (c # cs) b)" for b using inv by (simp add: world_inv_iff)
  have "fr_active (runtime_release a (wd_flows w)) b = int (holders cs b)" for b
    using act [of b] act [of a] assms(2) by (auto simp: runtime_release_def)
  moreover have "conn_ok owner (runtime_release a (wd_flows w)) (wd_stats w) c'" if "c' \<in> set cs" for c'
    by (rule conn_ok_mono [of owner "wd_flows w" "wd_stats w" c']) (use inv that in \<open>auto simp: world_inv_iff\<close>)
  ultimately show ?thesis
    using inv flow_inv_runtime_release [of "wd_flows w" a] by (simp add: world_inv_iff)
qed

lemma inv_stats:
  assumes inv: "world_inv owner (with_conns cs w)" and "stats_inv m" and "keeps_counters (wd_stats w) m"
  shows "world_inv owner (with_conns cs (put_stats m w))"
proof -
  have "conn_ok owner (wd_flows w) m c" if "c \<in> set cs" for c
    by (rule conn_ok_mono [of owner "wd_flows w" "wd_stats w" c]) (use inv that assms(3) in \<open>auto simp: world_inv_iff\<close>)
  with inv assms(2) show ?thesis by (simp add: world_inv_iff)
qed

text \<open>What a connection has learned of its counters.\<close>

definition counter_name :: "bool \<Rightarrow> string \<Rightarrow> string" where
  "counter_name up e = (if up then userUplinkCounterName e else userDownlinkCounterName e)"

definition set_counter :: "bool \<Rightarrow> nat option \<Rightarrow> conn \<Rightarrow> conn" where
  "set_counter up oc c = c\<lparr>cn_io := (if up then (cn_io c)\<lparr>uio_uplinkCounter := oc\<rparr> else (cn_io c)\<lparr>uio_downlinkCounter := oc\<rparr>)\<rparr>"

lemma set_counter_views [simp]:
  "cn_tag (set_counter up oc c) = cn_tag c" "cn_email (set_counter up oc c) = cn_email c" "cn_managed (set_counter up oc c) = cn_managed c"
  "uio_runtime (cn_io (set_counter up oc c)) = uio_runtime (cn_io c)" "set_counter up oc (set_counter up oc' c) = set_counter up oc c"
  by (simp_all add: set_counter_def)

lemma inv_learn:
  assumes inv: "world_inv owner (with_conns (c # cs) w)"
    and k: "\<And>k. cn_managed c \<Longrightarrow> oc = Some k \<Longrightarrow> GetCounter (counter_name up (cn_email c)) (wd_stats w) = Some k"
  shows "world_inv owner (with_conns (set_counter up oc c # cs) w)"
proof -
  have "conn_ok owner (wd_flows w) (wd_stats w) c" using inv by (simp add: world_inv_iff)
  then have "conn_ok owner (wd_flows w) (wd_stats w) (set_counter up oc c)"
    using k by (cases up) (auto simp: conn_ok_def set_counter_def counter_name_def)
  with inv show ?thesis by (simp add: world_inv_iff)
qed

lemma inv_learned:
  assumes "world_inv owner (with_conns (set_counter up (Some k) c # cs) w)" and "cn_managed c"
  shows "GetCounter (counter_name up (cn_email c)) (wd_stats w) = Some k"
  using assms by (cases up) (auto simp: world_inv_iff conn_ok_def set_counter_def counter_name_def)

text \<open>A lookup of a registered counter, and the two ways a registration ends.\<close>

lemma learn_guarantee:
  assumes "wd_conns w' = wd_conns w" "\<And>cs. world_inv owner (with_conns (c # cs) w) \<Longrightarrow> world_inv owner (with_conns (c # cs) w')"
    and "\<And>k. oc = Some k \<Longrightarrow> GetCounter (counter_name up (cn_email c)) (wd_stats w') = Some k"
  shows "opening_guarantee owner ForLevel (Some c) w es w' (Some (set_counter up oc c))"
  by (rule opening_guaranteeI) (use assms inv_learn [of owner c _ w' oc up] in auto)

lemma RegisterCounter_cases:
  assumes "RegisterCounter name m = (res, m')" and "stats_inv m"
  obtains (registered) c where "res = Inr c" "GetCounter name m' = Some c" "keeps_counters m m'" "stats_inv m'"
  | (taken) err c where "res = Inl err" "GetCounter name m = Some c" "m' = m"
  using assms stats_inv_Register [OF assms(2), of name]
  by (auto simp: RegisterCounter_def GetCounter_def keeps_counters_def split: if_splits)

lemma opens_counter:
  fixes k :: "nat option \<Rightarrow> 'c opener"
  assumes k: "\<And>oc. (cn_managed c \<Longrightarrow> oc \<noteq> None) \<Longrightarrow> opens owner ForLevel (Some (set_counter up oc c)) (k oc)"
  shows "opens owner ForLevel (Some c) (getOrRegisterCounter_task (counter_name up (cn_email c)) k)"
proof -
  let ?name = "counter_name up (cn_email c)"
  have again: "opens owner ForLevel (Some (set_counter up (Some x) c)) (look (\<lambda>w. GetCounter ?name (wd_stats w)) k)" for x
  proof (rule guards_look_cases)
    fix w :: "'c world"
    assume "opening_assertion owner (Some (set_counter up (Some x) c)) w"
    then have "cn_managed c \<Longrightarrow> GetCounter ?name (wd_stats w) = Some x" by (auto simp: opening_assertion_def dest: inv_learned)
    moreover have "opening_guarantee owner ForLevel (Some (set_counter up (Some x) c)) w []
        w (Some (set_counter up (GetCounter ?name (wd_stats w)) (set_counter up (Some x) c)))"
      by (rule learn_guarantee) simp_all
    ultimately show "\<exists>a'. opening_guarantee owner ForLevel (Some (set_counter up (Some x) c)) w [] w a'
        \<and> opens owner ForLevel a' (k (GetCounter ?name (wd_stats w)))"
      using k [of "GetCounter ?name (wd_stats w)"] by auto
  qed
  have register: "opens owner ForLevel (Some c) (act (\<lambda>w. let (res, m) = RegisterCounter ?name (wd_stats w) in (res, put_stats m w)) (\<lambda>res.
       case res of Inr c \<Rightarrow> k (Some c) | Inl err \<Rightarrow> look (\<lambda>w. GetCounter ?name (wd_stats w)) k))"
  proof (rule guards_act_cases, goal_cases)
    case (1 w res w')
    then obtain m where m: "RegisterCounter ?name (wd_stats w) = (res, m)" "w' = put_stats m w" by (auto simp: Let_def split: prod.splits)
    have si: "stats_inv (wd_stats w)" using 1(1) by (auto simp: opening_assertion_def world_inv_iff)
    from m(1) si show ?case
    proof (cases rule: RegisterCounter_cases)
      case (registered x)
      have "opening_guarantee owner ForLevel (Some c) w [] w' (Some (set_counter up (Some x) c))"
        by (rule learn_guarantee) (use registered m(2) inv_stats in auto)
      with k [of "Some x"] registered(1) show ?thesis by auto
    next
      case (taken err x)
      have "opening_guarantee owner ForLevel (Some c) w [] w' (Some (set_counter up (Some x) c))"
        by (rule learn_guarantee) (use taken m(2) in auto)
      with again [of x] taken(1) show ?thesis by auto
    qed
  qed
  show ?thesis unfolding getOrRegisterCounter_task_def
  proof (rule guards_look_cases)
    fix w :: "'c world"
    let ?k = "\<lambda>counter. if counter \<noteq> None then k counter
       else act (\<lambda>w. let (res, m) = RegisterCounter ?name (wd_stats w) in (res, put_stats m w)) (\<lambda>res.
         case res of Inr c \<Rightarrow> k (Some c) | Inl err \<Rightarrow> look (\<lambda>w. GetCounter ?name (wd_stats w)) k)"
    show "\<exists>a'. opening_guarantee owner ForLevel (Some c) w [] w a' \<and> opens owner ForLevel a' (?k (GetCounter ?name (wd_stats w)))"
    proof (cases "GetCounter ?name (wd_stats w)")
      case None
      have "opening_guarantee owner ForLevel (Some c) w [] w (Some c)" by (rule opening_guaranteeI) simp_all
      with None register show ?thesis by auto
    next
      case (Some x)
      have "opening_guarantee owner ForLevel (Some c) w [] w (Some (set_counter up (Some x) c))"
        by (rule learn_guarantee) (use Some in auto)
      with Some k [of "Some x"] show ?thesis by auto
    qed
  qed
qed

lemma opens_push:
  assumes "metered ForLevel c"
  shows "opens owner ForLevel (Some c) (perform (\<lambda>w. w\<lparr>wd_conns := c # wd_conns w\<rparr>) Done)"
proof (rule guards_perform [where a' = None])
  fix w :: "'c world"
  have "world_inv owner (with_conns cs (w\<lparr>wd_conns := x\<rparr>)) = world_inv owner (with_conns cs w)" for cs x by (simp add: with_conns_def)
  then show "opening_guarantee owner ForLevel (Some c) w [] (w\<lparr>wd_conns := c # wd_conns w\<rparr>) None"
    unfolding opening_guarantee_def using assms by (intro exI [of _ "[c]"]) simp
qed (rule guards_Done)

lemma set_counter_new_conn:
  "set_counter True oc (new_conn si user mgd u) = new_conn si user mgd (u\<lparr>uio_uplinkCounter := oc\<rparr>)"
  "set_counter False oc (new_conn si user mgd u) = new_conn si user mgd (u\<lparr>uio_downlinkCounter := oc\<rparr>)"
  by (simp_all add: set_counter_def new_conn_def)

lemma openCounters_opens:
  assumes k: "\<And>u. metered ForLevel (new_conn si user mgd u) \<Longrightarrow> opens owner ForLevel (Some (new_conn si user mgd u)) (k u)"
  shows "opens owner ForLevel (Some (new_conn si user mgd u)) (openCounters_task ForLevel user u k)"
proof -
  let ?p = "ForLevel (su_Level user)" and ?e = "su_Email user"
  have names: "userUplinkCounterName ?e = counter_name True (cn_email (new_conn si user mgd u))"
    "userDownlinkCounterName ?e = counter_name False (cn_email (new_conn si user mgd u))" for u
    by (simp_all add: counter_name_def new_conn_def)
  have down: "opens owner ForLevel (Some (new_conn si user mgd u))
      (if ps_UserDownlink ?p then getOrRegisterCounter_task (userDownlinkCounterName ?e) (\<lambda>c. k (u\<lparr>uio_downlinkCounter := c\<rparr>)) else k u)"
    if up: "mgd \<Longrightarrow> (\<forall>l. ps_UserUplink (ForLevel l)) \<Longrightarrow> uio_uplinkCounter u \<noteq> None" for u
  proof (cases "ps_UserDownlink ?p")
    case True
    have "opens owner ForLevel (Some (new_conn si user mgd u)) (getOrRegisterCounter_task (userDownlinkCounterName ?e)
        (\<lambda>c. k (u\<lparr>uio_downlinkCounter := c\<rparr>)))"
      unfolding names(2) [of u]
      by (rule opens_counter, unfold set_counter_new_conn, rule k) (use up in \<open>auto simp: metered_def new_conn_def\<close>)
    with True show ?thesis by simp
  next
    case False
    then have "metered ForLevel (new_conn si user mgd u)" using up by (auto simp: metered_def new_conn_def)
    with False k show ?thesis by simp
  qed
  show ?thesis
  proof (cases "ps_UserUplink ?p")
    case True
    have "opens owner ForLevel (Some (new_conn si user mgd u)) (getOrRegisterCounter_task (userUplinkCounterName ?e) (\<lambda>c.
        if ps_UserDownlink ?p then getOrRegisterCounter_task (userDownlinkCounterName ?e) (\<lambda>d. k (u\<lparr>uio_uplinkCounter := c, uio_downlinkCounter := d\<rparr>))
        else k (u\<lparr>uio_uplinkCounter := c\<rparr>)))"
      unfolding names(1) [of u]
      by (rule opens_counter, unfold set_counter_new_conn, rule down) (auto simp: new_conn_def)
    with True show ?thesis by (simp add: openCounters_task_def Let_def)
  next
    case False
    then have "\<not> (\<forall>l. ps_UserUplink (ForLevel l))" by blast
    with down [of u] False show ?thesis by (simp add: openCounters_task_def Let_def)
  qed
qed

lemma opened_opens:
  "metered ForLevel (new_conn si user mgd u) \<Longrightarrow> opens owner ForLevel (Some (new_conn si user mgd u)) (opened_task si user mgd (Inr u))"
  by (simp add: opened_task_def opens_push)

lemma open_task_opens:
  assumes "owner (su_Email user) = si_Tag si"
  shows "opens owner ForLevel None (open_task iface ForLevel si user)"
  unfolding open_task_def getUserIO_task_def
proof (rule guards_act_cases, goal_cases)
  case (1 w x w')
  obtain oa r' where acq: "flow_acquire (si_Tag si) (su_Email user) (wd_flows w) = (oa, r')" by fastforce
  let ?mgd = "managed (wd_flows w) (si_Tag si)" and ?u = "\<lambda>a. new_userIO\<lparr>uio_runtime := Some a\<rparr>"
  have x: "x = (?mgd, oa)" "w' = put_flows r' w" using 1 acq by auto
  have "opening_guarantee owner ForLevel None w [] w' (map_option (\<lambda>a. new_conn si user ?mgd (?u a)) oa)"
    by (rule opening_guaranteeI) (use inv_acquire [of owner _ w, OF _ acq assms] x in \<open>auto simp: new_conn_def\<close>)
  moreover have "opens owner ForLevel (Some (new_conn si user ?mgd (?u a)))
     (act (\<lambda>w. let (b, lim) = GetUserBucket iface (fs_Limiter (wd_state w)) (si_Tag si) (su_Email user) (si_SourceIP si)
                  in (b, put_limiter lim w)) (\<lambda>(bucket, ok, reject).
         if reject then
           perform (\<lambda>w. put_flows (snd (userIO_Release (?u a) (wd_flows w))) w) (
           opened_task si user ?mgd (Inl (Error (''Devices reach the limit: '' @ su_Email user))))
         else openCounters_task ForLevel user ((?u a)\<lparr>uio_bucket := bucket, uio_speedLimited := ok\<rparr>) (\<lambda>u. opened_task si user ?mgd (Inr u))))" for a
  proof (rule guards_act_cases, goal_cases)
    case (1 w x w')
    obtain bucket ok reject where x: "x = (bucket, ok, reject)" by (metis surj_pair)
    have w': "\<exists>l. w' = put_limiter l w" using 1 by (auto simp: Let_def split: prod.splits)
    show ?case
    proof (cases reject)
      case True
      have "opening_guarantee owner ForLevel (Some (new_conn si user ?mgd (?u a))) w [] w' (Some (new_conn si user ?mgd (?u a)))"
        by (rule opening_guaranteeI) (use w' in \<open>auto simp: inv_limiter\<close>)
      moreover have "opens owner ForLevel (Some (new_conn si user ?mgd (?u a))) (perform (\<lambda>w. put_flows (snd (userIO_Release (?u a) (wd_flows w))) w) Done)"
      proof (rule guards_perform [where a' = None])
        have rel: "snd (userIO_Release (?u a) r) = runtime_release a r" for r by (simp add: userIO_Release_def new_userIO_def)
        have rt: "uio_runtime (cn_io (new_conn si user ?mgd (?u a))) = Some a" by (simp add: new_conn_def)
        show "opening_guarantee owner ForLevel (Some (new_conn si user ?mgd (?u a))) w [] (put_flows (snd (userIO_Release (?u a) (wd_flows w))) w) None" for w
          unfolding rel by (rule opening_guaranteeI) (simp_all add: inv_release [OF _ rt])
      qed (rule guards_Done)
      ultimately show ?thesis using True x by (auto simp: opened_task_def)
    next
      case False
      let ?c = "new_conn si user ?mgd ((?u a)\<lparr>uio_bucket := bucket, uio_speedLimited := ok\<rparr>)"
      have "conn_ok owner r m ?c = conn_ok owner r m (new_conn si user ?mgd (?u a))" for r m by (simp add: conn_ok_def new_conn_def)
      then have "opening_guarantee owner ForLevel (Some (new_conn si user ?mgd (?u a))) w [] w' (Some ?c)"
        by (intro opening_guaranteeI) (use w' in \<open>auto simp: inv_limiter world_inv_iff new_conn_def\<close>)
      moreover have "opens owner ForLevel (Some ?c) (openCounters_task ForLevel user ((?u a)\<lparr>uio_bucket := bucket, uio_speedLimited := ok\<rparr>)
          (\<lambda>u. opened_task si user ?mgd (Inr u)))"
        by (rule openCounters_opens [OF opened_opens])
      ultimately show ?thesis using False x by auto
    qed
  qed
  ultimately show ?case using x by (cases oa) (auto simp: opened_task_def Let_def)
qed

section \<open>All interleavings\<close>

definition openings :: "(string \<Rightarrow> string) \<Rightarrow> 'c cache_iface \<Rightarrow> (uint32 \<Rightarrow> policy_stats) \<Rightarrow> 'c opener set" where
  "openings owner iface ForLevel = {open_task iface ForLevel si user | si user. su_Email user \<noteq> '''' \<and> owner (su_Email user) = si_Tag si}"

lemma openingsI: "su_Email user \<noteq> '''' \<Longrightarrow> owner (su_Email user) = si_Tag si \<Longrightarrow> open_task iface ForLevel si user \<in> openings owner iface ForLevel"
  by (auto simp: openings_def)

text \<open>The other steps of the flow system: everything but the opening of connections.\<close>

definition flow_env :: "(string \<Rightarrow> string) \<Rightarrow> 'c cache_iface \<Rightarrow> (uint32 \<Rightarrow> policy_stats) \<Rightarrow> 'c world \<Rightarrow> 'c world \<Rightarrow> bool" where
  "flow_env owner iface ForLevel w w' \<longleftrightarrow> flow_step owner iface ForLevel w w' \<and> length (wd_conns w') \<le> length (wd_conns w)"

definition openings_inv :: "(string \<Rightarrow> string) \<Rightarrow> (uint32 \<Rightarrow> policy_stats) \<Rightarrow> conn option list \<Rightarrow> 'c world \<Rightarrow> bool" where
  "openings_inv owner ForLevel as w \<longleftrightarrow> world_inv owner (with_conns (concat (map part as) @ wd_conns w) w)
     \<and> (\<forall>c \<in> set (wd_conns w). metered ForLevel c)"

lemma flow_step_lift:
  assumes "flow_step owner iface ForLevel w w'" and "length (wd_conns w') \<le> length (wd_conns w)"
  shows "flow_step owner iface ForLevel (with_conns (cs @ wd_conns w) w) (with_conns (cs @ wd_conns w') w') \<and> set (wd_conns w') \<subseteq> set (wd_conns w)"
  using assms(1)
proof (cases rule: flow_step.cases)
  case (step_register emails tag)
  with flow_step.step_register [of emails owner tag iface ForLevel "with_conns (cs @ wd_conns w) w"] show ?thesis by (cases w) (simp add: with_conns_def)
next
  case (step_retire emails tag)
  with flow_step.step_retire [of emails owner tag iface ForLevel "with_conns (cs @ wd_conns w) w"] show ?thesis by (cases w) (simp add: with_conns_def)
next
  case (step_finalize email tag ok r' m')
  with flow_step.step_finalize [of owner email tag "with_conns (cs @ wd_conns w) w" ok r' m' iface ForLevel] show ?thesis by (cases w) (simp add: with_conns_def)
next
  case step_open
  with assms(2) show ?thesis by simp
next
  case (step_rejected sess err d')
  with flow_step.step_rejected [of iface ForLevel sess "with_conns (cs @ wd_conns w) w" err d' owner] show ?thesis by (cases w) (simp add: with_conns_def)
next
  case (step_count i u dn up)
  with flow_step.step_count [of "length cs + i" "with_conns (cs @ wd_conns w) w" u owner iface ForLevel dn up] show ?thesis
    by (cases w) (simp add: with_conns_def)
next
  case (step_close i u' r')
  with flow_step.step_close [of "length cs + i" "with_conns (cs @ wd_conns w) w" u' r' owner iface ForLevel] show ?thesis
    by (cases w) (auto simp: with_conns_def dest: in_set_takeD in_set_dropD)
next
  case (step_drain h)
  with flow_step.step_drain [of owner iface ForLevel "with_conns (cs @ wd_conns w) w" h] show ?thesis by (cases w) (simp add: with_conns_def)
next
  case (step_limiter l)
  with flow_step.step_limiter [of owner iface ForLevel "with_conns (cs @ wd_conns w) w" l] show ?thesis by (cases w) (simp add: with_conns_def)
qed

lemma openings_run:
  assumes "openings_inv owner ForLevel (xs @ a # ys) w"
  shows "world_inv owner (with_conns (part a @ concat (map part xs) @ concat (map part ys) @ wd_conns w) w)"
  using assms world_inv_perm [of "part a @ concat (map part xs) @ concat (map part ys) @ wd_conns w"
      "concat (map part (xs @ a # ys)) @ wd_conns w" owner w]
  by (simp add: openings_inv_def)

interpretation openings: pool "openings owner iface ForLevel" "flow_env owner iface ForLevel" "opening_assertion owner"
  "opening_guarantee owner ForLevel" None "openings_inv owner ForLevel"
  for owner :: "string \<Rightarrow> string" and iface :: "'c cache_iface" and ForLevel :: "uint32 \<Rightarrow> policy_stats"
proof unfold_locales
  show "opens owner ForLevel None p" if "p \<in> openings owner iface ForLevel" for p
    using that by (auto simp: openings_def intro: open_task_opens)
  show "openings_inv owner ForLevel (None # as) w" if "openings_inv owner ForLevel as w" for as and w :: "'c world"
    using that by (simp add: openings_inv_def)
  show "opening_assertion owner a w" if "openings_inv owner ForLevel (xs @ a # ys) w" for xs a ys and w :: "'c world"
    using openings_run [OF that] by (auto simp: opening_assertion_def)
  show "openings_inv owner ForLevel (xs @ a' # ys) w'"
    if inv: "openings_inv owner ForLevel (xs @ a # ys) w" and g: "opening_guarantee owner ForLevel a w es w' a'" for xs a ys w es a' and w' :: "'c world"
  proof -
    obtain new where new: "wd_conns w' = new @ wd_conns w" "\<forall>c \<in> set new. metered ForLevel c"
      and g: "\<And>cs. world_inv owner (with_conns (part a @ cs) w) \<Longrightarrow> world_inv owner (with_conns (part a' @ new @ cs) w')"
      using g by (auto simp: opening_guarantee_def)
    have "mset (concat (map part (xs @ a' # ys)) @ wd_conns w') = mset (part a' @ new @ concat (map part xs) @ concat (map part ys) @ wd_conns w)"
      by (simp add: new(1))
    from world_inv_perm [OF this] g [OF openings_run [OF inv]] inv new show ?thesis by (auto simp: openings_inv_def)
  qed
  show "openings_inv owner ForLevel as w'" if "openings_inv owner ForLevel as w" "flow_env owner iface ForLevel w w'" for as and w w' :: "'c world"
    using that flow_step_lift [of owner iface ForLevel w w' "concat (map part as)"] world_inv_step
    by (fastforce simp: openings_inv_def flow_env_def)
qed

text \<open>
  C1. Connections that open at the same time count on the same counters. Over every interleaving of any number of openings, action by
  action, with registering, retiring, finalising, counting, draining and closing: when the policy of every level
  asks for user statistics, every open connection of a managed inbound has an uplink and a downlink counter, and they are the ones
  registered under its user's names, so no opening loses the race for the registration of a counter; and when no
  opening is under way, the active count of a runtime object is the number of open connections that hold it.
\<close>

theorem concurrent_opens_share_counters:
  assumes "(pool_step (openings owner iface ForLevel) (flow_env owner iface ForLevel))\<^sup>*\<^sup>* (initial_world, []) (w, ps)"
    and "\<forall>l. ps_UserUplink (ForLevel l) \<and> ps_UserDownlink (ForLevel l)"
  shows "(\<forall>c \<in> set (wd_conns w). cn_managed c \<longrightarrow>
        (\<exists>k. uio_uplinkCounter (cn_io c) = Some k \<and> GetCounter (userUplinkCounterName (cn_email c)) (fs_stats (wd_state w)) = Some k)
      \<and> (\<exists>k. uio_downlinkCounter (cn_io c) = Some k \<and> GetCounter (userDownlinkCounterName (cn_email c)) (fs_stats (wd_state w)) = Some k))
    \<and> (set ps \<subseteq> {Done} \<longrightarrow> (\<forall>a. fr_active (fs_flows (wd_state w)) a = int (holders (wd_conns w) a)))"
proof -
  have start: "openings_inv owner ForLevel [] initial_world"
    using world_inv_initial [of owner] by (simp add: openings_inv_def with_conns_def initial_world_def)
  show ?thesis
  proof (rule openings.pool_invariant [OF assms(1) start], goal_cases)
    case (1 as)
    have wi: "world_inv owner (with_conns (concat (map part as) @ wd_conns w) w)" and me: "\<forall>c \<in> set (wd_conns w). metered ForLevel c"
      using 1(1) by (auto simp: openings_inv_def)
    have "concat (map part as) = []" if "set ps \<subseteq> {Done}"
      using 1(2) that by (induction as ps rule: list_all2_induct) auto
    moreover have "fr_active (wd_flows w) a = int (holders (concat (map part as) @ wd_conns w) a)"
      and "c \<in> set (wd_conns w) \<Longrightarrow> conn_ok owner (wd_flows w) (wd_stats w) c" for a c
      using wi by (auto simp: world_inv_iff)
    ultimately show ?case using me assms(2) unfolding wd_flows_def wd_stats_def
      by (fastforce simp: conn_ok_def metered_def)
  qed
qed

theorem concurrent_opens_share_counters_witness:
  "\<exists>w c k. (pool_step (openings (\<lambda>_. ''in'') no_cache (\<lambda>_. \<lparr>ps_UserUplink = True, ps_UserDownlink = True\<rparr>))
        (flow_env (\<lambda>_. ''in'') no_cache (\<lambda>_. \<lparr>ps_UserUplink = True, ps_UserDownlink = True\<rparr>)))\<^sup>*\<^sup>* (initial_world :: unit world, []) (w, [Done])
     \<and> c \<in> set (wd_conns w) \<and> uio_uplinkCounter (cn_io c) = Some k \<and> GetCounter (userUplinkCounterName (cn_email c)) (fs_stats (wd_state w)) = Some k"
proof -
  let ?lv = "\<lambda>_ :: uint32. \<lparr>ps_UserUplink = True, ps_UserDownlink = True\<rparr>" and ?owner = "\<lambda>_ :: string. ''in''"
  let ?user = "\<lparr>su_Email = ''in|a|1'', su_Level = 0\<rparr> :: session_user"
  let ?p = "open_task no_cache ?lv example_session ?user" and ?w0 = "initial_world :: unit world"
  let ?steps = "pool_step (openings ?owner no_cache ?lv) (flow_env ?owner no_cache ?lv)"
  have user: "si_User example_session = Some ?user" "su_Email ?user \<noteq> ''''" "si_Tag example_session = ''in''"
    by (simp_all add: example_session_def)
  obtain u d' where g: "getUserIO no_cache ?lv (Some example_session) (wd_state example_registered) = (Inr u, d')"
    and m: "managed (fs_flows (wd_state example_registered)) ''in''"
    using example_open by blast
  have "flow_step ?owner no_cache ?lv ?w0 example_registered"
    using step_register [of "[''in|a|1'']" ?owner "''in''" no_cache ?lv ?w0] by (simp add: example_registered_def initial_world_def)
  then have reg: "?steps\<^sup>*\<^sup>* (?w0, []) (example_registered, [])"
    by (intro r_into_rtranclp pool_env) (simp add: flow_env_def example_registered_def)
  have opn: "?steps\<^sup>*\<^sup>* (example_registered, []) (run ?p example_registered, [Done])"
  proof (rule pool_alone)
    show "?p \<in> openings ?owner no_cache ?lv" by (rule openingsI) (use user in simp_all)
  qed
  have run: "?steps\<^sup>*\<^sup>* (?w0, []) (run ?p example_registered, [Done])" by (rule rtranclp_trans [OF reg opn])
  let ?c = "new_conn example_session ?user True u"
  have "run ?p example_registered = example_registered\<lparr>wd_state := d', wd_conns := ?c # wd_conns example_registered\<rparr>"
    by (simp add: open_task_def run_getUserIO [OF user(2,1)] g opened_task_def m user(3) wd_flows_def)
  then have c: "?c \<in> set (wd_conns (run ?p example_registered))" "cn_managed ?c" by (simp_all add: new_conn_def)
  have "\<forall>l. ps_UserUplink (?lv l) \<and> ps_UserDownlink (?lv l)" by simp
  from concurrent_opens_share_counters [OF run this, THEN conjunct1] c obtain k where
    "uio_uplinkCounter (cn_io ?c) = Some k" "GetCounter (userUplinkCounterName (cn_email ?c)) (fs_stats (wd_state (run ?p example_registered))) = Some k"
    by blast
  with run c(1) show ?thesis by (intro exI conjI) assumption+
qed

end
