(* ===== verification/Spec2Isabelle.thy ===== *)
theory Spec2Isabelle
  imports Limiter_Properties Panel_Properties SSPanel_Types Cert_Properties Runtime_Policy System_Info
    Monitor_Ledger Flow_Threads
begin

text \<open>
  A verification development for oldxr, a proxy server controller built on xray-core (the Go
  module \<open>github.com/XrayR-project/XrayR\<close> under \<open>src/\<close>). The program polls a panel for the
  description of a node and its users, builds the inbound and outbound handlers of the node,
  admits the users to the proxy, limits their speed and their number of devices, audits
  destinations, counts traffic and reports it back.

  \<^bold>\<open>How the parts interact.\<close> A node controller (\<open>service/controller\<close>) owns one node. Its two
  monitors run periodically: the node monitor asks a panel client (\<open>api/...\<close>) for the node and
  the users and applies the differences; the user monitor drains the traffic counters, reports,
  and finalises users that were removed. Connections enter through the dispatcher
  (\<open>app/mydispatcher\<close>), which asks the limiter (\<open>common/limiter\<close>) and the flow registry for
  admission, sniffs the protocol, checks the audit rules (\<open>common/rule\<close>), selects an outbound
  and wraps reader and writer with the rate limit (\<open>common/limiter/rate.go\<close>) and the counters. The
  panel service (\<open>panel\<close>) creates one controller per configured node on one core and restarts all of
  them when the configuration file changes; \<open>common/mylego\<close> issues and renews the certificates.

  \<^bold>\<open>Theories, the sources they model, and what they show.\<close>

  \<^item> \<open>Prelude\<close>, \<open>Go_Strings\<close>, \<open>Go_Float\<close>: Go types read in HOL (words for machine integers, association
    lists for maps that are ranged over, sums for error results), \<open>strconv\<close> and \<open>strings\<close>,
    \<open>float64\<close> arithmetic rounded to 53 bits. Whole megabits are converted exactly.

  \<^item> \<open>Api_Model\<close> (\<open>api/apimodel.go\<close>): the records of the interface; user keys are injective.

  \<^item> \<open>Rate\<close> (\<open>common/rate\<close>): rate-limited reader and writer; waiting ends and covers the request.

  \<^item> \<open>Device_Admission\<close>: the abstract admission table of a device limit, a locale that the local
    and the Redis layer implement. \<open>Global_Cache\<close> (\<open>common/limiter/global_cache.go\<close>): the layered
    cache and its Lua script on a model of Redis. \<open>Limiter\<close>, \<open>Limiter_Properties\<close>
    (\<open>common/limiter/limiter.go\<close>): buckets live in a heap, since open connections hold pointers
    to them; the bucket of a user always has the effective rate, device limits hold over every
    sequence of operations and over every interleaving of processes on one Redis.

  \<^item> \<open>Rule\<close> (\<open>common/rule\<close>): hits are neither lost nor invented by calls that do not overlap, and
    one interleaving of overlapping calls does lose one.

  \<^item> \<open>Stats\<close>, \<open>Traffic\<close> (the statistics manager of xray-core and \<open>control.go\<close>): counters are
    conserved over every history of counting and of accepted or refused reports.

  \<^item> \<open>User_Flow\<close>, \<open>User_IO\<close> (\<open>user_lifecycle.go\<close> and the user part of \<open>default.go\<close>): the registry of
    runtime objects with their reference counts, and the admission of a connection. The count
    of a runtime object is the number of open connections, and an open connection counts on
    counters that are registered.

  \<^item> \<open>Sniffer\<close>, \<open>Readers\<close>, \<open>Dispatcher\<close> (\<open>sniffer.go\<close>, \<open>fakednssniffer.go\<close>, \<open>default.go\<close>, \<open>stats.go\<close>): no
    byte is lost by sniffing, flows are released on every path, audited destinations get no
    outbound, datagrams to a domain get their answers back under the domain.

  \<^item> \<open>Builders\<close>, \<open>Core_Managers\<close> (\<open>inboundbuilder.go\<close>, \<open>outboundbuilder.go\<close>, \<open>userbuilder.go\<close>,
    \<open>control.go\<close>): configurations and users before the conversion by xray-core, and the calls
    into its handler managers.

  \<^item> \<open>Controller\<close>, \<open>Controller_Properties\<close>, \<open>Node_Rounds\<close>, \<open>Node_Lifecycle\<close> (\<open>controller.go\<close>,
    \<open>user_retirement.go\<close>): the rounds of the monitors on the whole state of a node. The
    difference of user lists is exact; retired users are tracked until they are finalised; a
    refused report loses nothing; an accepted one carries exactly what is due; after \<open>Close\<close> no
    monitor runs. \<open>node_step\<close> is the step relation of a node: rounds, connections and traffic in
    any order. The invariant of a node is relative to the users that other controllers on the same
    dispatcher look after. Two theorems show how a node does not recover from a failure.

  \<^item> \<open>Goroutines\<close>: programs as trees of atomic actions, two tasks and an environment that interleave, and
    any number of short tasks of one kind; a rely-guarantee rule for each as a locale (\<open>interference\<close>,
    \<open>pool\<close>). \<open>Monitor_Threads\<close>: the monitors of \<open>controller.go\<close> once more, as programs whose actions are what
    the source does under one lock or in one call; run alone they are the rounds of \<open>Controller\<close>.
    \<open>Monitor_Races\<close>, \<open>Monitor_Ledger\<close>: over every interleaving of the two monitors and the connections no
    traffic is lost, and no retired user either, unless the node monitor touches the user between the
    two actions of its finalisation; in that window one can be lost, and a run that does is given.
    \<open>Flow_Threads\<close> (\<open>getUserIO\<close>, \<open>getOrRegisterCounter\<close> in \<open>default.go\<close>): any number of connections that open at
    the same time share the counters of their user.

  \<^item> \<open>Panel_Json\<close>, \<open>Panel_Http\<close>: JSON values, \<open>json.Marshal\<close> and the decoding into structs as
    \<open>encoding/json\<close> does it; requests and responses; what the clients share.

  \<^item> \<open>V2board_Api\<close>, \<open>V2board_Properties\<close>, \<open>New_V2board_Api\<close>, \<open>SSPanel_Api\<close>, \<open>SSPanel_Properties\<close>,
    \<open>V2RaySocks_Api\<close>, \<open>PMPanel_Api\<close>, \<open>ProxyPanel_Api\<close> (\<open>api/v2board\<close>, \<open>api/newV2board\<close>, \<open>api/sspanel\<close>,
    \<open>api/v2raysocks\<close>, \<open>api/pmpanel\<close>, \<open>api/proxypanel\<close>): the panel clients. The cached user list of
    the V2board client is always the one of the panel, that of the newer client can be lost;
    the nodes of SSPanel share device limits within bounds; server strings are read back as
    written, and the strings that panic are characterised. \<open>SSPanel_Types\<close>: decoding keeps the
    ranges of Go's integer types, whatever the panel sends.

  \<^item> \<open>Lost_Updates\<close>: controller and client together. An update that the proxy refused is never
    made up for, because the client has delivered it and the controller takes it as applied.

  \<^item> \<open>Go_Paths\<close>: slash-separated paths as \<open>path/filepath\<close> cleans and joins them. \<open>Runtime_Policy\<close>
    (\<open>main/runtime_policy_linux.go\<close>): the CPU quota of the control group; the looked-up directories
    stay below the mount point and the number of CPUs within its bounds. \<open>System_Info\<close>
    (\<open>common/serverstatus\<close>): the probes for the status report.

  \<^item> \<open>Cert_Files\<close>, \<open>Certificates\<close>, \<open>Cert_Properties\<close> (\<open>common/mylego\<close>): a file system, calls that may panic
    and a deferred \<open>recover\<close>, the storage of accounts and certificates, issuing and renewing. An
    issued certificate is found and reused; that of a wildcard domain never is.

  \<^item> \<open>Panel\<close>, \<open>Panel_Properties\<close> (\<open>panel/\<close>, \<open>main/main.go\<close>): loading the core, creating the client and
    the controller of every node, start, close and reload. The loop over the services is proved
    for a locale \<open>service_interface\<close>, which the controllers interpret. \<open>program_reach\<close> are the states of
    the process: the services always are those of the configuration in force, and no retired user of
    any of the nodes is lost.

  \<^bold>\<open>Conventions.\<close> An operation is a function from its arguments and the state to the result and
  the new state; a mutex makes the operation one step. Where several processes or goroutines
  matter (the Redis table, overlapping \<open>Detect\<close> calls, monitors and \<open>Close\<close>, connections
  and rounds, the two monitors of a node, opening connections) their steps are interleaved by an
  inductive relation. Memory is sequentially consistent. A \<open>panic\<close> is a value of its own
  (\<open>Panicked\<close>, \<open>GoPanic\<close>). Loops are structural recursion or have a termination proof; there is no
  fuel, except that a blocking read which never returns is \<open>None\<close>. Code outside \<open>src/\<close> is a
  parameter: regular expressions, msgpack, the gocache store, \<open>x/time/rate\<close>, resty,
  go-simplejson, the handlers, router, DNS and configuration conversion of xray-core. What a
  theorem needs of them is a hypothesis, and its witness instantiates it. Logging is left out.

  \<^bold>\<open>Bounds.\<close> Traffic counters, speed limits and ports are words and wrap around as in Go. Ids and
  device limits are \<open>int\<close>; where the source does arithmetic on them the wrap-around is written
  out, and the theorem on shared device limits asks for values below \<open>2^61\<close>.

  \<^bold>\<open>Not modelled.\<close> What the program only calls: the ACME protocol and the cryptography of lego, viper and
  the merging of structs, the parts of xray-core other than those named above, regular
  expressions; generated protobuf code and the registration of packages (\<open>main/distro\<close>); the debug
  server and all logging; the channels of the statistics manager, which the program does not use.
  Inside a round the monitors of one node are interleaved with each other and with its connections,
  those of different nodes are not: the theorems on several nodes take the rounds one by one.
\<close>

end
